(* ===== verification/HRB_Prelude.thy ===== *)
theory HRB_Prelude
  imports Main "HOL-Library.Char_ord" "HOL-Library.List_Lexorder"
begin

text \<open>
  Shared vocabulary of the development. A C++ byte (\<^verbatim>\<open>char\<close> or \<^verbatim>\<open>unsigned char\<close>) is a
  \<^typ>\<open>char\<close>, whose code is a number below 256, and a \<^verbatim>\<open>std::string\<close>, a \<^verbatim>\<open>std::string_view\<close>
  or a \<^verbatim>\<open>std::array<unsigned char, N>\<close> is a list of them. This theory holds the members of
  \<^verbatim>\<open>std::string_view\<close> and of \<^verbatim>\<open><cctype>\<close> that the sources call (\<^verbatim>\<open>find_first_of\<close>,
  \<^verbatim>\<open>find_last_of\<close>, \<^verbatim>\<open>find\<close>, \<^verbatim>\<open>isspace\<close>, \ldots), with \<^verbatim>\<open>npos\<close> as \<^term>\<open>None\<close>, the
  generic list facts that the components share, and the collections of rewrite rules.
\<close>

section \<open>Collections of facts\<close>

named_theorems str_simps \<open>what the string primitives compute\<close>
named_theorems key_simps \<open>distinctness and injectivity of the database keys\<close>
named_theorems redis_simps \<open>the documented effect of a database command\<close>
named_theorems script_simps \<open>the execution of a database script\<close>

section \<open>Members of std::string_view\<close>

text \<open>\<^verbatim>\<open>sv.find_first_of(value)\<close>: the position of the first character that is in \<^term>\<open>v\<close>.\<close>

fun find_first_of :: "string \<Rightarrow> string \<Rightarrow> nat option" where
  "find_first_of [] v = None"
| "find_first_of (c # s) v = (if c \<in> set v then Some 0 else map_option Suc (find_first_of s v))"

text \<open>\<^verbatim>\<open>sv.find_first_not_of(value)\<close>.\<close>

fun find_first_not_of :: "string \<Rightarrow> string \<Rightarrow> nat option" where
  "find_first_not_of [] v = None"
| "find_first_not_of (c # s) v =
     (if c \<in> set v then map_option Suc (find_first_not_of s v) else Some 0)"

text \<open>\<^verbatim>\<open>sv.find_last_of(value)\<close>: the position of the last character that is in \<^term>\<open>v\<close>.\<close>

fun find_last_of :: "string \<Rightarrow> string \<Rightarrow> nat option" where
  "find_last_of [] v = None"
| "find_last_of (c # s) v =
     (case find_last_of s v of Some i \<Rightarrow> Some (Suc i) | None \<Rightarrow> if c \<in> set v then Some 0 else None)"

fun starts_with :: "string \<Rightarrow> string \<Rightarrow> bool" where
  "starts_with [] s = True"
| "starts_with (p # ps) [] = False"
| "starts_with (p # ps) (c # s) = (p = c \<and> starts_with ps s)"

text \<open>\<^verbatim>\<open>sv.find(sub)\<close>: the first position at which \<^term>\<open>sub\<close> occurs.\<close>

fun find_sub :: "string \<Rightarrow> string \<Rightarrow> nat option" where
  "find_sub [] sub = (if sub = [] then Some 0 else None)"
| "find_sub (c # s) sub =
     (if starts_with sub (c # s) then Some 0 else map_option Suc (find_sub s sub))"

section \<open>Members of cctype, in the C locale\<close>

definition isspace :: "char \<Rightarrow> bool" where
  "isspace c = (c = CHR '' '' \<or> (9 \<le> (of_char c :: nat) \<and> (of_char c :: nat) \<le> 13))"

definition isdigit :: "char \<Rightarrow> bool" where
  "isdigit c = (CHR ''0'' \<le> c \<and> c \<le> CHR ''9'')"

definition isalpha :: "char \<Rightarrow> bool" where
  "isalpha c = (CHR ''A'' \<le> c \<and> c \<le> CHR ''Z'' \<or> CHR ''a'' \<le> c \<and> c \<le> CHR ''z'')"

definition tolower :: "char \<Rightarrow> char" where
  "tolower c = (if CHR ''A'' \<le> c \<and> c \<le> CHR ''Z'' then char_of ((of_char c :: nat) + 32) else c)"

text \<open>The two loops \<^verbatim>\<open>while (!s.empty() && p(s.front())) s.remove_prefix(1)\<close> and
  \<^verbatim>\<open>while (!s.empty() && p(s.back())) s.remove_suffix(1)\<close>.\<close>

definition trim_both :: "(char \<Rightarrow> bool) \<Rightarrow> string \<Rightarrow> string" where
  "trim_both p s = rev (dropWhile p (rev (dropWhile p s)))"

section \<open>std::to\_string\<close>

fun show_nat :: "nat \<Rightarrow> string" where
  "show_nat n =
     (if n < 10 then [char_of (48 + n)] else show_nat (n div 10) @ [char_of (48 + n mod 10)])"

declare show_nat.simps [simp del]

definition to_string :: "int \<Rightarrow> string" where
  "to_string i = (if i < 0 then CHR ''-'' # show_nat (nat (- i)) else show_nat (nat i))"

section \<open>What they compute\<close>

lemma set_show_nat: "set (show_nat n) \<subseteq> set ''0123456789''"
proof (induction n rule: show_nat.induct)
  case (1 n)
  have "char_of (48 + m) \<in> set ''0123456789''" if "m < 10" for m :: nat
  proof -
    have "\<forall>m < 10::nat. char_of (48 + m) \<in> set ''0123456789''" by code_simp
    with that show ?thesis by blast
  qed
  with 1 show ?case by (subst show_nat.simps) auto
qed

lemma find_first_of_None [str_simps]: "find_first_of s v = None \<longleftrightarrow> set s \<inter> set v = {}"
  by (induction s) auto

lemma find_first_of_Some:
  "find_first_of s v = Some i \<longleftrightarrow>
     i < length s \<and> s ! i \<in> set v \<and> set (take i s) \<inter> set v = {}"
proof (induction s arbitrary: i)
  case (Cons c s)
  show ?case by (cases i) (auto simp: Cons)
qed simp

lemma find_first_of_append:
  assumes "set s \<inter> set v = {}" and "c \<in> set v"
  shows "find_first_of (s @ c # t) v = Some (length s)"
  using assms by (auto simp: find_first_of_Some)

lemma find_first_not_of_None [str_simps]: "find_first_not_of s v = None \<longleftrightarrow> set s \<subseteq> set v"
  by (induction s) auto

lemma find_last_of_None [str_simps]: "find_last_of s v = None \<longleftrightarrow> set s \<inter> set v = {}"
  by (induction s) (auto split: option.splits)

lemma find_last_of_Some:
  "find_last_of s v = Some i \<longleftrightarrow>
     i < length s \<and> s ! i \<in> set v \<and> set (drop (Suc i) s) \<inter> set v = {}"
proof (induction s arbitrary: i)
  case (Cons c s)
  show ?case
  proof (cases "find_last_of s v")
    case None
    then have "set s \<inter> set v = {}" by (simp add: find_last_of_None)
    then show ?thesis using None by (cases i) (auto dest: nth_mem)
  next
    case (Some j)
    then have hit: "set s \<inter> set v \<noteq> {}" by (metis find_last_of_None option.distinct(1))
    show ?thesis
    proof (cases i)
      case 0
      with Some hit show ?thesis by auto
    next
      case (Suc k)
      with Some have "find_last_of (c # s) v = Some i \<longleftrightarrow> find_last_of s v = Some k" by simp
      also note Cons
      finally show ?thesis using Suc by simp
    qed
  qed
qed simp

lemma find_last_of_append:
  assumes "set t \<inter> set v = {}" and "c \<in> set v"
  shows "find_last_of (s @ c # t) v = Some (length s)"
  using assms by (auto simp: find_last_of_Some)

lemma starts_with_iff [str_simps]: "starts_with p s \<longleftrightarrow> (\<exists>t. s = p @ t)"
  by (induction p s rule: starts_with.induct) auto

lemma find_sub_Some:
  "find_sub s sub = Some i \<Longrightarrow> s = take i s @ sub @ drop (i + length sub) s \<and> i + length sub \<le> length s"
proof (induction s arbitrary: i)
  case (Cons c s)
  show ?case
  proof (cases "starts_with sub (c # s)")
    case True
    then obtain t where t: "c # s = sub @ t" by (auto simp: starts_with_iff)
    from True Cons.prems have "i = 0" by simp
    with t show ?thesis by simp
  next
    case False
    with Cons.prems show ?thesis by (auto dest: Cons.IH)
  qed
qed (auto split: if_splits)

lemma find_sub_None: "find_sub s sub = None \<Longrightarrow> s \<noteq> a @ sub @ b"
proof (induction s arbitrary: a)
  case (Cons c s)
  show ?case
  proof (cases a)
    case Nil
    with Cons.prems show ?thesis by (auto simp: starts_with_iff split: if_splits)
  next
    case (Cons d a')
    with Cons.prems Cons.IH [of a'] show ?thesis by (auto split: if_splits)
  qed
qed (auto split: if_splits)

lemma find_sub_least:
  assumes "find_sub s sub = Some i" and "s = a @ sub @ b"
  shows "i \<le> length a"
  using assms
proof (induction s arbitrary: i a)
  case (Cons c s)
  show ?case
  proof (cases a)
    case Nil
    then have "starts_with sub (c # s)" using Cons.prems(2) by (auto simp: starts_with_iff)
    then show ?thesis using Cons.prems(1) by simp
  next
    case a: (Cons d a')
    with Cons.prems have s: "s = a' @ sub @ b" by simp
    show ?thesis
    proof (cases "starts_with sub (c # s)")
      case True
      with Cons.prems(1) show ?thesis by simp
    next
      case False
      with Cons.prems(1) obtain j where "i = Suc j" and "find_sub s sub = Some j" by auto
      with Cons.IH [OF _ s] a show ?thesis by simp
    qed
  qed
qed (auto split: if_splits)

lemma trim_both_id:
  assumes "s = [] \<or> \<not> p (hd s) \<and> \<not> p (last s)"
  shows "trim_both p s = s"
proof (cases s)
  case (Cons a t)
  with assms have ends: "\<not> p (hd s)" "\<not> p (last s)" by auto
  then have "dropWhile p s = s" and "dropWhile p (rev s) = rev s"
    by (simp_all only: dropWhile_eq_self_iff hd_rev simp_thms)
  then show ?thesis by (simp add: trim_both_def)
qed (simp add: trim_both_def)

lemma trim_both_no_ends:
  "trim_both p s \<noteq> [] \<Longrightarrow> \<not> p (hd (trim_both p s)) \<and> \<not> p (last (trim_both p s))"
proof -
  let ?t = "dropWhile p s"
  assume *: "trim_both p s \<noteq> []"
  then have ne: "dropWhile p (rev ?t) \<noteq> []" by (simp add: trim_both_def)
  have l: "\<not> p (last (trim_both p s))"
    using hd_dropWhile [OF ne] ne by (simp add: trim_both_def last_rev)
  obtain u where u: "?t = trim_both p s @ u"
    by (metis rev_append rev_rev_ident takeWhile_dropWhile_id trim_both_def)
  with * have "hd (trim_both p s) = hd ?t" and "?t \<noteq> []" by (auto simp: hd_append)
  then show ?thesis using l hd_dropWhile [of p s] by auto
qed

lemma trim_both_idem: "trim_both p (trim_both p s) = trim_both p s"
  using trim_both_no_ends [of p s] by (intro trim_both_id) auto

lemma set_trim_both: "set (trim_both p s) \<subseteq> set s"
  by (auto simp: trim_both_def dest!: set_dropWhileD)

section \<open>Lists and options\<close>

lemma takeWhile_append_stop [str_simps]:
  "\<lbrakk>\<And>x. x \<in> set xs \<Longrightarrow> P x; \<not> P y\<rbrakk> \<Longrightarrow> takeWhile P (xs @ y # ys) = xs"
  by (induction xs) auto

lemma append_colon_inject:
  assumes "x \<notin> set a" and "x \<notin> set b"
  shows "a @ x # s = b @ x # t \<longleftrightarrow> a = b \<and> s = t"
  using assms
proof (induction a arbitrary: b)
  case Nil
  then show ?case by (cases b) auto
next
  case (Cons c a)
  then show ?case by (cases b) auto
qed

end
