(* ===== verification/Redis_Reply.thy ===== *)
theory Redis_Reply
  imports HRB_Prelude
begin

text \<open>
  The replies of the database as \<^verbatim>\<open>src/server/net/Redis.hh\<close> and \<^verbatim>\<open>Redis.cc\<close> present them, and
  the error codes of \<^verbatim>\<open>src/common/util/Error.hh\<close>. A \<^verbatim>\<open>Reply\<close> owns a \<^verbatim>\<open>redisReply\<close> or nothing.
\<close>

section \<open>Error codes\<close>

datatype redis_error = R_io | R_eof | R_protocol | R_oom | R_other | R_command_error | R_field_not_found

datatype hrb_error =
    H_object_not_exist | H_redis_command_error | H_redis_field_not_found
  | H_redis_transaction_aborted | H_login_incorrect | H_unknown_error

text \<open>A \<^verbatim>\<open>std::error_code\<close>: no error, or a value of one of the categories.\<close>

datatype error_code = No_error | Redis_error redis_error | Hrb_error hrb_error | System_error nat

definition redis_error_message :: "redis_error option \<Rightarrow> string" where
  "redis_error_message ev = (case ev of
       None \<Rightarrow> ''success''
     | Some R_io \<Rightarrow> ''IO error''
     | Some R_eof \<Rightarrow> ''EOF error''
     | Some R_protocol \<Rightarrow> ''protocol error''
     | Some R_oom \<Rightarrow> ''out-of-memory error''
     | Some R_other \<Rightarrow> ''other error''
     | Some R_command_error \<Rightarrow> ''command error''
     | Some R_field_not_found \<Rightarrow> ''field not found'')"

text \<open>The enumeration of \<^verbatim>\<open>Error.hh\<close> counts from 0 for \<^verbatim>\<open>ok\<close>.\<close>

definition hrb_error_message :: "hrb_error option \<Rightarrow> string" where
  "hrb_error_message ev = (case ev of
       None \<Rightarrow> ''no error''
     | Some H_object_not_exist \<Rightarrow> ''object not exist''
     | Some H_redis_command_error \<Rightarrow> ''redis command error''
     | Some H_redis_field_not_found \<Rightarrow> ''redis field not found''
     | Some H_redis_transaction_aborted \<Rightarrow> ''redis transaction aborted''
     | Some H_login_incorrect \<Rightarrow> ''login incorrect''
     | Some H_unknown_error \<Rightarrow> ''unknown error '' @ to_string 6)"

section \<open>Replies\<close>

datatype redisReply =
    RNil
  | RStatus string
  | RError string
  | RInteger int
  | RString string
  | RArray "redisReply list"

type_synonym Reply = "redisReply option"

definition as_string :: "Reply \<Rightarrow> string" where
  "as_string r = (case r of Some (RString s) \<Rightarrow> s | _ \<Rightarrow> [])"

definition as_status :: "Reply \<Rightarrow> string" where
  "as_status r = (case r of Some (RStatus s) \<Rightarrow> s | _ \<Rightarrow> [])"

definition as_error :: "Reply \<Rightarrow> string" where
  "as_error r = (case r of Some (RError s) \<Rightarrow> s | _ \<Rightarrow> [])"

definition as_any_string :: "Reply \<Rightarrow> string" where
  "as_any_string r = (case r of
       Some (RString s) \<Rightarrow> s | Some (RStatus s) \<Rightarrow> s | Some (RError s) \<Rightarrow> s | _ \<Rightarrow> [])"

definition as_array :: "Reply \<Rightarrow> nat \<Rightarrow> Reply" where
  "as_array r i = (case r of
       Some (RArray rs) \<Rightarrow> if i < length rs then Some (rs ! i) else None
     | _ \<Rightarrow> None)"

text \<open>The overload that reports a missing element through its \<^verbatim>\<open>error_code&\<close>.\<close>

definition as_array_ec :: "Reply \<Rightarrow> nat \<Rightarrow> error_code \<Rightarrow> Reply \<times> error_code" where
  "as_array_ec r i ec =
     (if ec \<noteq> No_error then (None, ec)
      else case r of
        None \<Rightarrow> (None, ec)
      | Some (RArray rs) \<Rightarrow> if i < length rs then (Some (rs ! i), ec)
          else (None, Redis_error R_field_not_found)
      | Some _ \<Rightarrow> (None, Redis_error R_field_not_found))"

text \<open>The elements of \<^verbatim>\<open>m_array\<close>, from \<^verbatim>\<open>begin()\<close> to \<^verbatim>\<open>end()\<close>.\<close>

definition elements :: "Reply \<Rightarrow> redisReply list" where
  "elements r = (case r of Some (RArray rs) \<Rightarrow> rs | _ \<Rightarrow> [])"

definition array_size :: "Reply \<Rightarrow> nat" where
  "array_size r = (case r of Some (RArray rs) \<Rightarrow> length rs | _ \<Rightarrow> 0)"

definition as_int :: "Reply \<Rightarrow> int" where
  "as_int r = (case r of Some (RInteger i) \<Rightarrow> i | _ \<Rightarrow> 0)"

definition reply_ok :: "Reply \<Rightarrow> bool" where
  "reply_ok r = (case r of None \<Rightarrow> False | Some (RError _) \<Rightarrow> False | Some _ \<Rightarrow> True)"

definition is_string :: "redisReply \<Rightarrow> bool" where
  "is_string r = (case r of RString _ \<Rightarrow> True | _ \<Rightarrow> False)"

definition is_nil :: "redisReply \<Rightarrow> bool" where
  "is_nil r = (case r of RNil \<Rightarrow> True | _ \<Rightarrow> False)"

definition reply_length :: "Reply \<Rightarrow> nat" where
  "reply_length r = (case r of Some (RString s) \<Rightarrow> length s | _ \<Rightarrow> 0)"

text \<open>\<^verbatim>\<open>std::stol\<close>: white space, a sign and the longest run of digits; it throws when there is no
  digit or the value does not fit a 64-bit \<^verbatim>\<open>long\<close>.\<close>

definition digits_value :: "string \<Rightarrow> nat" where
  "digits_value ds = foldl (\<lambda>n c. n * 10 + (of_char c - 48)) 0 ds"

definition stol :: "string \<Rightarrow> int option" where
  "stol s =
     (let t = dropWhile isspace s;
          neg = (t \<noteq> [] \<and> hd t = CHR ''-'');
          u = (if t \<noteq> [] \<and> (hd t = CHR ''-'' \<or> hd t = CHR ''+'') then tl t else t);
          ds = takeWhile isdigit u;
          v = (if neg then - int (digits_value ds) else int (digits_value ds))
      in if ds = [] \<or> v < - (2 ^ 63) \<or> 2 ^ 63 \<le> v then None else Some v)"

text \<open>\<^verbatim>\<open>to_int()\<close> is \<^verbatim>\<open>noexcept\<close>: an exception of \<^verbatim>\<open>stol\<close> ends the program, here
  \<^term>\<open>None\<close>.\<close>

definition to_int :: "Reply \<Rightarrow> int option" where
  "to_int r = (let s = as_any_string r in if s = [] then Some 0 else stol s)"

text \<open>\<^verbatim>\<open>as_tuple<count>(ec)\<close>: the first elements, the error threaded through them.\<close>

fun as_tuple_from :: "Reply \<Rightarrow> nat \<Rightarrow> nat \<Rightarrow> error_code \<Rightarrow> Reply list \<times> error_code" where
  "as_tuple_from r i 0 ec = ([], ec)"
| "as_tuple_from r i (Suc n) ec =
     (case as_array_ec r i ec of (x, ec1) \<Rightarrow>
        case as_tuple_from r (Suc i) n ec1 of (xs, ec2) \<Rightarrow> (x # xs, ec2))"

definition as_tuple :: "nat \<Rightarrow> Reply \<Rightarrow> error_code \<Rightarrow> Reply list \<times> error_code" where
  "as_tuple n r ec = as_tuple_from r 0 n ec"

text \<open>\<^verbatim>\<open>kv_pairs()\<close>: the iterator advances by two, and the value is the element after the key.\<close>

fun pairs_of :: "redisReply list \<Rightarrow> (string \<times> Reply) list" where
  "pairs_of (k # v # rs) = (as_string (Some k), Some v) # pairs_of rs"
| "pairs_of _ = []"

definition kv_pairs :: "Reply \<Rightarrow> (string \<times> Reply) list" where
  "kv_pairs r = pairs_of (elements r)"

text \<open>\<^verbatim>\<open>map_kv_pair(field...)\<close>: a reply for each name, the last value with that name.\<close>

fun match_reply :: "string list \<Rightarrow> string \<Rightarrow> Reply \<Rightarrow> Reply list \<Rightarrow> Reply list" where
  "match_reply (field # remain) name value (x # xs) =
     (if name = field then value # xs else x # match_reply remain name value xs)"
| "match_reply _ name value xs = xs"

definition map_kv_pair :: "Reply \<Rightarrow> string list \<Rightarrow> Reply list" where
  "map_kv_pair r names =
     fold (\<lambda>(name, value). match_reply names name value) (kv_pairs r) (replicate (length names) None)"

section \<open>Facts\<close>

lemma as_array_size: "as_array r i \<noteq> None \<longleftrightarrow> i < array_size r"
  by (auto simp: as_array_def array_size_def split: option.splits redisReply.splits)

lemma as_tuple_from_error: "ec \<noteq> No_error \<Longrightarrow> as_tuple_from r i n ec = (replicate n None, ec)"
  by (induction n arbitrary: i) (auto simp: as_array_ec_def)

lemma as_tuple_from_array:
  assumes "i + n \<le> length rs"
  shows "as_tuple_from (Some (RArray rs)) i n No_error = (map Some (take n (drop i rs)), No_error)"
  using assms
proof (induction n arbitrary: i)
  case (Suc n)
  then have "i < length rs" "as_tuple_from (Some (RArray rs)) (Suc i) n No_error =
      (map Some (take n (drop (Suc i) rs)), No_error)" by simp_all
  then show ?case by (simp add: as_array_ec_def Cons_nth_drop_Suc [symmetric])
qed simp

lemma as_tuple_from_short:
  assumes "i \<le> length rs" "length rs < i + n"
  shows "snd (as_tuple_from (Some (RArray rs)) i n No_error) = Redis_error R_field_not_found"
  using assms
proof (induction n arbitrary: i)
  case (Suc n)
  show ?case
  proof (cases "i < length rs")
    case True
    with Suc.prems Suc.IH [of "Suc i"] show ?thesis
      by (auto simp: as_array_ec_def split: prod.splits)
  next
    case False
    with Suc.prems show ?thesis by (simp add: as_array_ec_def as_tuple_from_error)
  qed
qed simp

lemma as_tuple_array:
  "as_tuple n (Some (RArray rs)) No_error =
     (if n \<le> length rs then (map Some (take n rs), No_error)
      else (fst (as_tuple n (Some (RArray rs)) No_error), Redis_error R_field_not_found))"
  using as_tuple_from_array [of 0 n rs] as_tuple_from_short [of 0 rs n]
  by (auto simp: as_tuple_def prod_eq_iff)

lemma length_as_tuple_from: "length (fst (as_tuple_from r i n ec)) = n"
  by (induction n arbitrary: i ec) (auto split: prod.splits, metis fst_conv)

lemma length_pairs_of: "length (pairs_of rs) = length rs div 2"
  by (induction rs rule: pairs_of.induct) auto

text \<open>Numbers survive the way through the database.\<close>

lemma digits_value_show: "digits_value (show_nat n) = n"
proof (induction n rule: show_nat.induct)
  case (1 n)
  then show ?case
    by (subst show_nat.simps) (auto simp: digits_value_def)
qed

lemma show_nat_digits: "\<forall>c \<in> set (show_nat n). isdigit c"
  using set_show_nat [of n] by (auto simp: isdigit_def less_eq_char_def)

lemma show_nat_ne: "show_nat n \<noteq> []"
  by (subst show_nat.simps) simp

lemma digit_not_sign: "isdigit c \<Longrightarrow> \<not> isspace c \<and> c \<noteq> CHR ''-'' \<and> c \<noteq> CHR ''+''"
  by (auto simp: isdigit_def isspace_def less_eq_char_def)

lemma stol_to_string:
  assumes "- (2 ^ 63) \<le> i" "i < 2 ^ 63"
  shows "stol (to_string i) = Some i"
proof -
  have keep: "takeWhile isdigit (show_nat n) = show_nat n" for n
    using show_nat_digits by (simp add: takeWhile_eq_all_conv)
  obtain c cs where c: "show_nat (nat i) = c # cs" using show_nat_ne by (cases "show_nat (nat i)") auto
  then have "isdigit c" using show_nat_digits [of "nat i"] by simp
  note c_simps = digit_not_sign [OF this]
  have "\<not> isspace (CHR ''-'')" by (simp add: isspace_def)
  then show ?thesis using assms
    by (cases "i < 0") (use keep [of "nat i"] c_simps in
      \<open>simp_all add: stol_def to_string_def Let_def keep show_nat_ne digits_value_show c digits_value_show [of "nat i", unfolded c]\<close>)
qed

lemma to_int_to_string:
  "\<lbrakk>- (2 ^ 63) \<le> i; i < 2 ^ 63\<rbrakk> \<Longrightarrow> to_int (Some (RString (to_string i))) = Some i"
  using stol_to_string [of i] by (auto simp: to_int_def as_any_string_def to_string_def show_nat_ne)

end
