(* ===== verification/Redis_Connection.thy ===== *)
theory Redis_Connection
  imports Redis_Reply "HOL-Library.Sublist" "HOL-Library.Multiset"
begin

text \<open>
  The connection of \<^verbatim>\<open>src/server/net/Redis.cc\<close>: commands are pipelined, and a queue of completion
  callbacks matches the replies with the commands. A callback is a value of type \<^typ>\<open>'c\<close>. What it
  does to the connection is the parameter \<^term>\<open>react\<close>: the callbacks of the commands that it
  writes when it is called with a reply and an error code. The incremental parser of hiredis is a
  pair of parameters \<^term>\<open>feed\<close> and \<^term>\<open>get\<close> on its state. Asynchronous operations are events:
  a write by the program, the completion of a read, the failure of a write.
\<close>

section \<open>State\<close>

text \<open>The result of \<^verbatim>\<open>ReplyReader::get\<close>.\<close>

datatype get_result = Got redisReply | Reader_error | Not_ready

text \<open>\<^term>\<open>cn_reads\<close> counts the reads that are under way, \<^term>\<open>cn_written\<close> is every callback that
  was given to \<^verbatim>\<open>do_write\<close>, \<^term>\<open>cn_replies\<close> every reply that the parser gave and \<^term>\<open>cn_log\<close> every call of a
  callback, in order.\<close>

record ('c, 'r) conn =
  cn_callbacks :: "'c list"
  cn_queued :: "'c list"
  cn_reader :: 'r
  cn_open :: bool
  cn_reads :: nat
  cn_written :: "'c list"
  cn_replies :: "redisReply list"
  cn_log :: "('c \<times> Reply \<times> error_code) list"

definition connection :: "'r \<Rightarrow> ('c, 'r) conn" where
  "connection rd = \<lparr>cn_callbacks = [], cn_queued = [], cn_reader = rd, cn_open = True, cn_reads = 0,
     cn_written = [], cn_replies = [], cn_log = []\<rparr>"

section \<open>Operations\<close>

definition do_read :: "('c, 'r) conn \<Rightarrow> ('c, 'r) conn" where
  "do_read c = c\<lparr>cn_reads := cn_reads c + 1\<rparr>"

definition do_write :: "'c \<Rightarrow> ('c, 'r) conn \<Rightarrow> ('c, 'r) conn" where
  "do_write completion c =
     (let c1 = c\<lparr>cn_callbacks := cn_callbacks c @ [completion], cn_written := cn_written c @ [completion]\<rparr>
      in if length (cn_callbacks c1) = 1 then do_read c1 else c1)"

text \<open>Calling a callback.\<close>

definition invoke ::
  "('c \<Rightarrow> Reply \<Rightarrow> error_code \<Rightarrow> 'c list) \<Rightarrow> 'c \<Rightarrow> Reply \<Rightarrow> error_code \<Rightarrow> ('c, 'r) conn \<Rightarrow> ('c, 'r) conn" where
  "invoke react cb reply ec c =
     fold do_write (react cb reply ec) (c\<lparr>cn_log := cn_log c @ [(cb, reply, ec)]\<rparr>)"

text \<open>\<^verbatim>\<open>disconnect\<close>: the first loop calls the queued callbacks, which may write commands. The second loop runs over
  the queue to which commands are added: a callback that writes one there invalidates the iterator of the
  loop, and what happens then is undefined (\<^term>\<open>None\<close>).\<close>

definition disconnect ::
  "('c \<Rightarrow> Reply \<Rightarrow> error_code \<Rightarrow> 'c list) \<Rightarrow> error_code \<Rightarrow> ('c, 'r) conn \<Rightarrow> ('c, 'r) conn option" where
  "disconnect react ec c =
     (let e = (if ec \<noteq> No_error then ec else Redis_error R_io);
          c1 = (fold (\<lambda>cb. invoke react cb None e) (cn_queued c) c)\<lparr>cn_queued := []\<rparr>
      in if \<forall>cb \<in> set (cn_callbacks c1). react cb None e = [] then
           (let c2 = (fold (\<lambda>cb. invoke react cb None e) (cn_callbacks c1) c1)\<lparr>cn_callbacks := []\<rparr>
            in Some (c2\<lparr>cn_open := False\<rparr>))
         else None)"

text \<open>\<^verbatim>\<open>on_exec_transaction\<close>. When the number of replies is not that of the queued commands the
  assertion fails; without assertions the queued callbacks are dropped.\<close>

definition run_queued ::
  "('c \<Rightarrow> Reply \<Rightarrow> error_code \<Rightarrow> 'c list) \<Rightarrow> redisReply \<Rightarrow> error_code \<Rightarrow> ('c, 'r) conn \<Rightarrow> ('c, 'r) conn" where
  "run_queued react reply ec c =
     (if is_nil reply \<or> as_status (Some reply) = ''OK'' then
        fold (\<lambda>cb. invoke react cb (Some reply) (Hrb_error H_redis_transaction_aborted)) (cn_queued c) c
      else if array_size (Some reply) = length (cn_queued c) then
        fold (\<lambda>x. invoke react (fst x) (Some (snd x)) ec) (zip (cn_queued c) (elements (Some reply))) c
      else c)"

definition on_exec_transaction ::
  "('c \<Rightarrow> Reply \<Rightarrow> error_code \<Rightarrow> 'c list) \<Rightarrow> redisReply \<Rightarrow> error_code \<Rightarrow> ('c, 'r) conn \<Rightarrow> ('c, 'r) conn" where
  "on_exec_transaction react reply ec c =
     (let c1 = run_queued react reply ec c;
          c2 = invoke react (hd (cn_callbacks c1)) (Some reply) ec c1
      in c2\<lparr>cn_queued := []\<rparr>)"

text \<open>One reply for the front of the queue.\<close>

definition deliver_one ::
  "('c \<Rightarrow> Reply \<Rightarrow> error_code \<Rightarrow> 'c list) \<Rightarrow> redisReply \<Rightarrow> ('c, 'r) conn \<Rightarrow> ('c, 'r) conn" where
  "deliver_one react reply c =
     (let cb = hd (cn_callbacks c);
          c1 = (if as_status (Some reply) = ''QUEUED'' then c\<lparr>cn_queued := cn_queued c @ [cb]\<rparr>
                else if cn_queued c \<noteq> [] then on_exec_transaction react reply No_error c
                else invoke react cb (Some reply) No_error c)
      in c1\<lparr>cn_callbacks := tl (cn_callbacks c1)\<rparr>)"

definition got :: "get_result \<Rightarrow> redisReply list" where
  "got result = (case result of Got reply \<Rightarrow> [reply] | _ \<Rightarrow> [])"

text \<open>The first loop of \<^verbatim>\<open>on_read\<close>; the number bounds the replies that are taken.\<close>

fun deliver ::
  "('c \<Rightarrow> Reply \<Rightarrow> error_code \<Rightarrow> 'c list) \<Rightarrow> ('r \<Rightarrow> 'r \<times> get_result) \<Rightarrow> nat \<Rightarrow> get_result \<Rightarrow>
   ('c, 'r) conn \<Rightarrow> (('c, 'r) conn \<times> get_result) option" where
  "deliver react get n (Got reply) c =
     (if cn_callbacks c = [] then Some (c, Got reply)
      else case n of
        0 \<Rightarrow> None
      | Suc m \<Rightarrow>
          (let c1 = deliver_one react reply c; (rd, result) = get (cn_reader c1)
           in deliver react get m result (c1\<lparr>cn_reader := rd, cn_replies := cn_replies c1 @ got result\<rparr>)))"
| "deliver react get n result c = Some (c, result)"

text \<open>The second loop: every callback gets a protocol error.\<close>

fun flush_errors :: "('c \<Rightarrow> Reply \<Rightarrow> error_code \<Rightarrow> 'c list) \<Rightarrow> nat \<Rightarrow> ('c, 'r) conn \<Rightarrow> ('c, 'r) conn option" where
  "flush_errors react n c =
     (case cn_callbacks c of
        [] \<Rightarrow> Some c
      | cb # _ \<Rightarrow> (case n of
          0 \<Rightarrow> None
        | Suc m \<Rightarrow>
            (let c1 = invoke react cb None (Redis_error R_protocol) c
             in flush_errors react m (c1\<lparr>cn_callbacks := tl (cn_callbacks c1)\<rparr>))))"

declare flush_errors.simps [simp del]

text \<open>\<^verbatim>\<open>on_read\<close>: the completion of a read with an error, or with the bytes it has read.\<close>

definition on_read ::
  "('c \<Rightarrow> Reply \<Rightarrow> error_code \<Rightarrow> 'c list) \<Rightarrow> ('r \<Rightarrow> string \<Rightarrow> 'r) \<Rightarrow> ('r \<Rightarrow> 'r \<times> get_result) \<Rightarrow> nat \<Rightarrow>
   error_code \<Rightarrow> string \<Rightarrow> ('c, 'r) conn \<Rightarrow> ('c, 'r) conn option" where
  "on_read react feed get n ec bytes c0 =
     (let c = c0\<lparr>cn_reads := cn_reads c0 - 1\<rparr> in
      if ec = No_error then
        (let (rd, result) = get (feed (cn_reader c) bytes)
         in case deliver react get n result (c\<lparr>cn_reader := rd, cn_replies := cn_replies c @ got result\<rparr>) of
              None \<Rightarrow> None
            | Some (c1, result1) \<Rightarrow>
                if result1 \<noteq> Not_ready then
                  (case flush_errors react n c1 of None \<Rightarrow> None | Some c2 \<Rightarrow> disconnect react (Redis_error R_protocol) c2)
                else if cn_callbacks c1 \<noteq> [] then Some (do_read c1)
                else Some c1)
      else disconnect react ec c)"

text \<open>The completion handler of the write.\<close>

definition on_write_error :: "('c \<Rightarrow> Reply \<Rightarrow> error_code \<Rightarrow> 'c list) \<Rightarrow> ('c, 'r) conn \<Rightarrow> ('c, 'r) conn option" where
  "on_write_error react c = disconnect react (Redis_error R_protocol) c"

section \<open>The pool of sockets\<close>

text \<open>The sockets that are free, newest last; \<^term>\<open>fresh\<close> is the socket that \<^verbatim>\<open>connect\<close> opens. A
  connection gives its socket back unless it is closed.\<close>

definition get_sock :: "'s \<Rightarrow> 's list \<Rightarrow> 's \<times> 's list" where
  "get_sock fresh socks = (if socks \<noteq> [] then (last socks, butlast socks) else (fresh, socks))"

definition dealloc :: "'s \<Rightarrow> 's list \<Rightarrow> 's list" where
  "dealloc socket socks = socks @ [socket]"

definition connection_destroy :: "bool \<Rightarrow> 's \<Rightarrow> 's list \<Rightarrow> 's list" where
  "connection_destroy is_open socket socks = (if is_open then dealloc socket socks else socks)"

section \<open>Events\<close>

inductive conn_step ::
  "('c \<Rightarrow> Reply \<Rightarrow> error_code \<Rightarrow> 'c list) \<Rightarrow> ('r \<Rightarrow> string \<Rightarrow> 'r) \<Rightarrow> ('r \<Rightarrow> 'r \<times> get_result) \<Rightarrow>
   ('c, 'r) conn \<Rightarrow> ('c, 'r) conn \<Rightarrow> bool"
  for react feed get where
  ev_write: "conn_step react feed get c (do_write cb c)"
| ev_read: "\<lbrakk>0 < cn_reads c; on_read react feed get n ec bytes c = Some c'\<rbrakk> \<Longrightarrow> conn_step react feed get c c'"
| ev_write_error: "on_write_error react c = Some c' \<Longrightarrow> conn_step react feed get c c'"

inductive_cases conn_stepE: "conn_step react feed get c c'"

section \<open>Facts\<close>

lemma do_write_simps [simp]:
  "cn_callbacks (do_write cb c) = cn_callbacks c @ [cb]" "cn_written (do_write cb c) = cn_written c @ [cb]"
  "cn_log (do_write cb c) = cn_log c" "cn_queued (do_write cb c) = cn_queued c"
  "cn_reader (do_write cb c) = cn_reader c" "cn_open (do_write cb c) = cn_open c" "cn_replies (do_write cb c) = cn_replies c"
  by (simp_all add: do_write_def do_read_def Let_def)

lemma do_write_reads: "cn_reads (do_write cb c) = cn_reads c + (if cn_callbacks c = [] then 1 else 0)"
  by (simp add: do_write_def do_read_def Let_def)

lemma do_write_more_reads: "cn_reads (fold do_write cbs (do_write cb c)) = cn_reads (do_write cb c)"
proof (induction cbs arbitrary: cb c)
  case (Cons x cbs)
  have "cn_reads (fold do_write (x # cbs) (do_write cb c)) = cn_reads (do_write x (do_write cb c))" using Cons [of x "do_write cb c"] by simp
  then show ?case by (simp add: do_write_reads [of x])
qed simp

lemma fold_do_write:
  "cn_callbacks (fold do_write cbs c) = cn_callbacks c @ cbs" "cn_written (fold do_write cbs c) = cn_written c @ cbs"
  "cn_log (fold do_write cbs c) = cn_log c" "cn_queued (fold do_write cbs c) = cn_queued c"
  "cn_reader (fold do_write cbs c) = cn_reader c" "cn_reads c \<le> cn_reads (fold do_write cbs c)"
  "cn_open (fold do_write cbs c) = cn_open c" "cn_replies (fold do_write cbs c) = cn_replies c"
proof (induction cbs arbitrary: c)
  case (Cons cb cbs)
  {
    case 6
    have "cn_reads c \<le> cn_reads (do_write cb c)" by (simp add: do_write_reads)
    also have "\<dots> \<le> cn_reads (fold do_write cbs (do_write cb c))" by (rule Cons.IH(6))
    finally show ?case by simp
  }
qed simp_all

lemma invoke_simps [simp]:
  "cn_callbacks (invoke react cb r ec c) = cn_callbacks c @ react cb r ec"
  "cn_written (invoke react cb r ec c) = cn_written c @ react cb r ec"
  "cn_log (invoke react cb r ec c) = cn_log c @ [(cb, r, ec)]"
  "cn_queued (invoke react cb r ec c) = cn_queued c" "cn_reader (invoke react cb r ec c) = cn_reader c"
  "cn_open (invoke react cb r ec c) = cn_open c" "cn_replies (invoke react cb r ec c) = cn_replies c"
  by (simp_all add: invoke_def fold_do_write)

lemma invoke_reads: "cn_reads c \<le> cn_reads (invoke react cb r ec c)"
  using fold_do_write(6) [of "c\<lparr>cn_log := cn_log c @ [(cb, r, ec)]\<rparr>"] by (simp add: invoke_def)

lemma fold_invoke:
  "cn_callbacks (fold (\<lambda>x. invoke react (f x) (g x) ec) xs c) = cn_callbacks c @ concat (map (\<lambda>x. react (f x) (g x) ec) xs)"
  "cn_written (fold (\<lambda>x. invoke react (f x) (g x) ec) xs c) = cn_written c @ concat (map (\<lambda>x. react (f x) (g x) ec) xs)"
  "cn_log (fold (\<lambda>x. invoke react (f x) (g x) ec) xs c) = cn_log c @ map (\<lambda>x. (f x, g x, ec)) xs"
  "cn_queued (fold (\<lambda>x. invoke react (f x) (g x) ec) xs c) = cn_queued c"
  "cn_reader (fold (\<lambda>x. invoke react (f x) (g x) ec) xs c) = cn_reader c"
  "cn_open (fold (\<lambda>x. invoke react (f x) (g x) ec) xs c) = cn_open c"
  "cn_replies (fold (\<lambda>x. invoke react (f x) (g x) ec) xs c) = cn_replies c"
  by (induction xs arbitrary: c) auto

lemma disconnect_simps:
  assumes "disconnect react ec c = Some c'"
  defines "e \<equiv> (if ec \<noteq> No_error then ec else Redis_error R_io)"
  defines "new \<equiv> concat (map (\<lambda>cb. react cb None e) (cn_queued c))"
  shows "cn_log c' = cn_log c @ map (\<lambda>cb. (cb, None, e)) (cn_queued c @ cn_callbacks c @ new)"
    and "cn_callbacks c' = []" and "cn_queued c' = []" and "cn_written c' = cn_written c @ new" and "cn_open c' = False"
    and "\<forall>cb \<in> set (cn_callbacks c @ new). react cb None e = []"
proof -
  note calls = fold_invoke [where f = "\<lambda>x. x" and g = "\<lambda>_. None" and react = react and ec = e]
  let ?c1 = "(fold (\<lambda>cb. invoke react cb None e) (cn_queued c) c)\<lparr>cn_queued := []\<rparr>"
  have c1: "cn_callbacks ?c1 = cn_callbacks c @ new" "cn_log ?c1 = cn_log c @ map (\<lambda>cb. (cb, None, e)) (cn_queued c)"
    "cn_written ?c1 = cn_written c @ new" by (simp_all add: calls new_def)
  have run: "\<forall>cb \<in> set (cn_callbacks ?c1). react cb None e = []"
    "c' = (fold (\<lambda>cb. invoke react cb None e) (cn_callbacks ?c1) ?c1)\<lparr>cn_callbacks := [], cn_open := False\<rparr>"
    using assms(1) by (simp_all add: disconnect_def Let_def flip: e_def split: if_splits)
  show quiet: "\<forall>cb \<in> set (cn_callbacks c @ new). react cb None e = []" using run(1) unfolding c1(1) .
  then have none: "concat (map (\<lambda>cb. react cb None e) (cn_callbacks c @ new)) = []" by simp
  show "cn_log c' = cn_log c @ map (\<lambda>cb. (cb, None, e)) (cn_queued c @ cn_callbacks c @ new)" "cn_callbacks c' = []" "cn_queued c' = []"
    "cn_open c' = False"
    unfolding run(2) c1(1) by (simp_all add: calls c1(2))
  have "cn_written c' = cn_written c @ new @ concat (map (\<lambda>cb. react cb None e) (cn_callbacks c @ new))"
    unfolding run(2) c1(1) by (simp add: calls c1(3))
  then show "cn_written c' = cn_written c @ new" unfolding none by simp
qed

lemma disconnect_returns:
  assumes "\<And>cb e. e \<noteq> No_error \<Longrightarrow> react cb None e = []"
  obtains c' where "disconnect react ec c = Some c'"
  using assms by (auto simp: disconnect_def Let_def)

lemma run_queued_effect:
  obtains called new where "cn_log (run_queued react reply ec c) = cn_log c @ called"
    "subseq (map fst called) (cn_queued c)" "cn_callbacks (run_queued react reply ec c) = cn_callbacks c @ new"
    "cn_written (run_queued react reply ec c) = cn_written c @ new"
proof -
  consider (abort) "is_nil reply \<or> as_status (Some reply) = ''OK''"
    | (run) "\<not> (is_nil reply \<or> as_status (Some reply) = ''OK'')" "array_size (Some reply) = length (cn_queued c)"
    | (bad) "\<not> (is_nil reply \<or> as_status (Some reply) = ''OK'')" "array_size (Some reply) \<noteq> length (cn_queued c)"
    by blast
  then show ?thesis
  proof cases
    case abort
    then show ?thesis
      by (intro that [of "map (\<lambda>cb. (cb, Some reply, Hrb_error H_redis_transaction_aborted)) (cn_queued c)"])
         (simp_all add: run_queued_def fold_invoke [where f = "\<lambda>x. x"] comp_def)
  next
    case run
    then have "length (elements (Some reply)) = length (cn_queued c)"
      by (cases reply) (auto simp: array_size_def elements_def)
    then have "map fst (zip (cn_queued c) (elements (Some reply))) = cn_queued c" by simp
    with run show ?thesis
      by (intro that [of "map (\<lambda>x. (fst x, Some (snd x), ec)) (zip (cn_queued c) (elements (Some reply)))"])
         (simp_all add: run_queued_def fold_invoke [where f = fst and g = "\<lambda>x. Some (snd x)"] comp_def)
  next
    case bad
    then show ?thesis by (intro that [of "[]" "[]"]) (simp_all add: run_queued_def)
  qed
qed

text \<open>What the arrival of a reply does to the queues.\<close>

lemma deliver_one_effect:
  assumes cb: "cn_callbacks c = x # xs"
  obtains called new where "cn_log (deliver_one react reply c) = cn_log c @ called"
    "cn_callbacks (deliver_one react reply c) = xs @ new"
    "cn_written (deliver_one react reply c) = cn_written c @ new"
    "subseq (map fst called @ cn_queued (deliver_one react reply c)) (cn_queued c @ [x])"
proof (cases "as_status (Some reply) = ''QUEUED''")
  case True
  then show ?thesis by (intro that [of "[]" "[]"]) (simp_all add: deliver_one_def cb)
next
  case False
  show ?thesis
  proof (cases "cn_queued c = []")
    case True
    then show ?thesis using False
      by (intro that [of "[(x, Some reply, No_error)]" "react x (Some reply) No_error"]) (simp_all add: deliver_one_def cb)
  next
    case in_transaction: False
    obtain called new where "cn_log (run_queued react reply No_error c) = cn_log c @ called"
      "subseq (map fst called) (cn_queued c)" "cn_callbacks (run_queued react reply No_error c) = (x # xs) @ new"
      "cn_written (run_queued react reply No_error c) = cn_written c @ new"
      using run_queued_effect [of react reply No_error c] unfolding cb by metis
    then show ?thesis using False in_transaction
      by (intro that [of "called @ [(x, Some reply, No_error)]" "new @ react x (Some reply) No_error"])
         (simp_all add: deliver_one_def on_exec_transaction_def Let_def)
  qed
qed

text \<open>The callbacks that were called, and the ones that got a reply.\<close>

definition called_with :: "(error_code \<Rightarrow> bool) \<Rightarrow> ('c, 'r) conn \<Rightarrow> 'c list" where
  "called_with P c = map fst (filter (\<lambda>(_, _, ec). P ec) (cn_log c))"

text \<open>Two invariants. No callback is called twice: what was called and what waits is a part of
  what was written. Replies go to the callbacks in the order of the writes.\<close>

definition accounted :: "('c, 'r) conn \<Rightarrow> bool" where
  "accounted c \<longleftrightarrow> mset (map fst (cn_log c) @ cn_queued c @ cn_callbacks c) \<subseteq># mset (cn_written c)"

definition in_order :: "('c, 'r) conn \<Rightarrow> bool" where
  "in_order c \<longleftrightarrow> subseq (called_with (\<lambda>ec. ec = No_error) c @ cn_queued c @ cn_callbacks c) (cn_written c)"

definition orderly :: "('c, 'r) conn \<Rightarrow> bool" where
  "orderly c \<longleftrightarrow> accounted c \<and> in_order c"

lemma orderly_connection: "orderly (connection rd)"
  by (simp add: orderly_def accounted_def in_order_def called_with_def connection_def)

lemma orderly_update [simp]:
  "orderly (c\<lparr>cn_reader := rd\<rparr>) \<longleftrightarrow> orderly c" "orderly (c\<lparr>cn_reads := n\<rparr>) \<longleftrightarrow> orderly c"
  "orderly (c\<lparr>cn_replies := rs\<rparr>) \<longleftrightarrow> orderly c"
  by (simp_all add: orderly_def accounted_def in_order_def called_with_def)

lemma subseq_mset: "subseq xs ys \<Longrightarrow> mset xs \<subseteq># mset ys"
  by (induction rule: list_emb.induct) (auto intro: subset_mset.order_trans)

lemma subseq_filter_fst: "subseq (map fst (filter P xs)) (map fst xs)"
  by (intro subseq_map subseq_filter_left)

text \<open>Any change that calls, keeps and adds callbacks keeps the invariants.\<close>

lemma orderly_change:
  assumes c: "orderly c"
    and log: "cn_log c' = cn_log c @ called" and written: "cn_written c' = cn_written c @ new @ dropped"
    and all: "mset (map fst called @ cn_queued c' @ cn_callbacks c') \<subseteq># mset (cn_queued c @ cn_callbacks c @ new)"
    and ok: "subseq (map fst (filter (\<lambda>(_, _, ec). ec = No_error) called) @ cn_queued c' @ cn_callbacks c')
      (cn_queued c @ cn_callbacks c @ new)"
  shows "orderly c'"
proof -
  have "mset (map fst (cn_log c)) + mset (map fst called @ cn_queued c' @ cn_callbacks c') \<subseteq>#
      mset (map fst (cn_log c)) + mset (cn_queued c @ cn_callbacks c @ new)"
    by (rule subset_mset.add_left_mono [OF all])
  also have "\<dots> = mset (map fst (cn_log c) @ cn_queued c @ cn_callbacks c) + mset new" by (simp add: ac_simps)
  also have "\<dots> \<subseteq># mset (cn_written c) + mset new"
    using c unfolding orderly_def accounted_def by (blast intro: subset_mset.add_right_mono)
  also have "\<dots> \<subseteq># mset (cn_written c')" by (simp add: written)
  finally have "accounted c'" by (simp add: accounted_def log ac_simps)
  let ?ok = "called_with (\<lambda>ec. ec = No_error)"
  have "subseq (?ok c @ map fst (filter (\<lambda>(_, _, ec). ec = No_error) called) @ cn_queued c' @ cn_callbacks c')
      (?ok c @ cn_queued c @ cn_callbacks c @ new)"
    by (rule list_emb_append_mono [OF subseq_order.order_refl ok])
  moreover have "subseq ((?ok c @ cn_queued c @ cn_callbacks c) @ new @ []) (cn_written c @ new @ dropped)"
    using c unfolding orderly_def in_order_def by (intro list_emb_append_mono) auto
  ultimately have "in_order c'"
    unfolding in_order_def written
    by (auto simp: called_with_def log intro: subseq_order.order_trans)
  with \<open>accounted c'\<close> show ?thesis by (simp add: orderly_def)
qed

lemma orderly_do_write: "orderly c \<Longrightarrow> orderly (do_write cb c)"
  by (erule orderly_change [where called = "[]" and new = "[cb]" and dropped = "[]"]) simp_all

lemma no_ok_calls: "ec \<noteq> No_error \<Longrightarrow> filter (\<lambda>(_, _, ec). ec = No_error) (map (\<lambda>cb. (cb, None, ec)) xs) = []"
  by (induction xs) auto

lemma orderly_disconnect:
  assumes "orderly c" and "disconnect react ec c = Some c'"
  shows "orderly c'"
  by (rule orderly_change [OF assms(1) disconnect_simps(1) [OF assms(2)], where dropped = "[]"])
     (simp add: disconnect_simps(4) [OF assms(2)], unfold disconnect_simps(2,3) [OF assms(2)], simp_all add: no_ok_calls comp_def del: map_append filter_append)

lemma orderly_deliver_one:
  assumes "orderly c" and "cn_callbacks c \<noteq> []"
  shows "orderly (deliver_one react reply c)"
proof -
  obtain x xs where cb: "cn_callbacks c = x # xs" using assms(2) by (cases "cn_callbacks c") auto
  obtain called new where eff: "cn_log (deliver_one react reply c) = cn_log c @ called"
    "cn_callbacks (deliver_one react reply c) = xs @ new" "cn_written (deliver_one react reply c) = cn_written c @ new"
    "subseq (map fst called @ cn_queued (deliver_one react reply c)) (cn_queued c @ [x])"
    by (rule deliver_one_effect [OF cb])
  have all: "subseq ((map fst called @ cn_queued (deliver_one react reply c)) @ xs @ new) ((cn_queued c @ [x]) @ xs @ new)"
    by (rule list_emb_append_mono [OF eff(4)]) simp
  have ok: "subseq (map fst (filter (\<lambda>(_, _, ec). ec = No_error) called) @ cn_queued (deliver_one react reply c) @ xs @ new)
      (map fst called @ cn_queued (deliver_one react reply c) @ xs @ new)"
    by (rule list_emb_append_mono [OF subseq_filter_fst]) simp
  show ?thesis
    by (rule orderly_change [OF assms(1) eff(1), of new "[]"])
       (use subseq_mset [OF all] subseq_order.order_trans [OF ok] all in \<open>simp_all add: eff(2,3) cb\<close>)
qed

lemma orderly_deliver:
  "deliver react get n result c = Some (c', result') \<Longrightarrow> orderly c \<Longrightarrow> orderly c'"
proof (induction react get n result c arbitrary: c' result' rule: deliver.induct)
  case (1 react get n reply c)
  then show ?case
    by (auto simp: orderly_deliver_one Let_def split: if_splits nat.splits prod.splits)
qed auto

lemma flush_errors_Cons:
  assumes "cn_callbacks c = x # xs"
  shows "flush_errors react 0 c = None"
    and "flush_errors react (Suc m) c = flush_errors react m ((invoke react x None (Redis_error R_protocol) c)
       \<lparr>cn_callbacks := xs @ react x None (Redis_error R_protocol)\<rparr>)"
  using assms by (simp_all add: flush_errors.simps [of react 0] flush_errors.simps [of react "Suc m"] Let_def)

lemma flush_errors_Nil: "cn_callbacks c = [] \<Longrightarrow> flush_errors react n c = Some c"
  by (simp add: flush_errors.simps)

lemma orderly_flush: "flush_errors react n c = Some c' \<Longrightarrow> orderly c \<Longrightarrow> orderly c' \<and> cn_callbacks c' = []"
proof (induction n arbitrary: c)
  case 0
  then show ?case by (cases "cn_callbacks c") (simp_all add: flush_errors_Nil flush_errors_Cons)
next
  case (Suc n)
  show ?case
  proof (cases "cn_callbacks c")
    case Nil
    with Suc.prems show ?thesis by (simp add: flush_errors_Nil)
  next
    case (Cons x xs)
    let ?new = "react x None (Redis_error R_protocol)"
    have "orderly ((invoke react x None (Redis_error R_protocol) c)\<lparr>cn_callbacks := xs @ ?new\<rparr>)"
      by (rule orderly_change [OF Suc.prems(2), of _ "[(x, None, Redis_error R_protocol)]" ?new "[]"])
         (simp_all add: Cons, rule list_emb_append_mono [OF subseq_order.order_refl list_emb_Cons [OF subseq_order.order_refl]])
    then show ?thesis using Suc Cons by (simp add: flush_errors_Cons)
  qed
qed

lemma on_read_failed: "ec \<noteq> No_error \<Longrightarrow> on_read react feed get n ec bytes c = disconnect react ec (c\<lparr>cn_reads := cn_reads c - 1\<rparr>)"
  by (simp add: on_read_def Let_def)

lemma orderly_step: "conn_step react feed get c c' \<Longrightarrow> orderly c \<Longrightarrow> orderly c'"
proof (induction rule: conn_step.induct)
  case (ev_write c cb)
  then show ?case by (simp add: orderly_do_write)
next
  case (ev_read c n ec bytes c')
  then show ?case using orderly_disconnect [of "c\<lparr>cn_reads := cn_reads c - 1\<rparr>" react ec c']
    by (cases "ec = No_error")
      (auto simp: on_read_failed on_read_def [of _ _ _ _ No_error] Let_def do_read_def intro: orderly_disconnect dest!: orderly_deliver orderly_flush
        split: if_splits prod.splits option.splits)
next
  case (ev_write_error c c')
  then show ?case by (simp add: on_write_error_def orderly_disconnect)
qed

section \<open>A read is under way while callbacks wait\<close>

definition attended :: "('c, 'r) conn \<Rightarrow> bool" where
  "attended c \<longleftrightarrow> (cn_callbacks c \<noteq> [] \<longrightarrow> 0 < cn_reads c)"

lemma attended_step: "conn_step react feed get c c' \<Longrightarrow> attended c \<Longrightarrow> attended c'"
proof (induction rule: conn_step.induct)
  case (ev_write c cb)
  then show ?case by (auto simp: attended_def do_write_reads)
next
  case (ev_read c n ec bytes c')
  then show ?case
    by (auto simp: on_read_def Let_def do_read_def attended_def dest!: disconnect_simps(2) split: if_splits prod.splits option.splits)
next
  case (ev_write_error c c')
  then show ?case by (auto simp: on_write_error_def attended_def dest!: disconnect_simps(2))
qed

lemma orderly_attended_reachable:
  "(conn_step react feed get)\<^sup>*\<^sup>* (connection rd) c \<Longrightarrow> orderly c \<and> attended c"
proof (induction rule: rtranclp_induct)
  case base
  show ?case using orderly_connection [of rd] by (simp add: attended_def connection_def)
next
  case (step c c')
  then show ?case using orderly_step attended_step by blast
qed

section \<open>Which reply a callback receives\<close>

text \<open>The calls that the protocol asks for, as a function of the commands and replies alone: every reply is
  for one command. A command that was queued waits for the reply to \<^verbatim>\<open>EXEC\<close>, which has an element for each of
  them, or tells that the transaction was aborted; any other reply goes to the callback of its command.\<close>

definition transaction_calls :: "'c list \<Rightarrow> redisReply \<Rightarrow> ('c \<times> Reply \<times> error_code) list" where
  "transaction_calls queued reply =
     (if is_nil reply \<or> as_status (Some reply) = ''OK''
      then map (\<lambda>cb. (cb, Some reply, Hrb_error H_redis_transaction_aborted)) queued
      else if array_size (Some reply) = length queued
      then map (\<lambda>(cb, element). (cb, Some element, No_error)) (zip queued (elements (Some reply)))
      else [])"

definition answer :: "'c \<times> redisReply \<Rightarrow> ('c \<times> Reply \<times> error_code) list \<times> 'c list \<Rightarrow> ('c \<times> Reply \<times> error_code) list \<times> 'c list" where
  "answer = (\<lambda>(cb, reply) (calls, queued).
     if as_status (Some reply) = ''QUEUED'' then (calls, queued @ [cb])
     else (calls @ (if queued = [] then [] else transaction_calls queued reply) @ [(cb, Some reply, No_error)], []))"

definition answers :: "('c \<times> redisReply) list \<Rightarrow> ('c \<times> Reply \<times> error_code) list \<times> 'c list" where
  "answers ps = fold answer ps ([], [])"

text \<open>The first reply is for the first command, and so on; the commands without a reply wait.\<close>

definition matched :: "redisReply list \<Rightarrow> ('c, 'r) conn \<Rightarrow> bool" where
  "matched rs c \<longleftrightarrow> length rs \<le> length (cn_written c) \<and> cn_callbacks c = drop (length rs) (cn_written c) \<and>
     (cn_log c, cn_queued c) = answers (zip (cn_written c) rs)"

lemma matched_update [simp]:
  "matched rs (c\<lparr>cn_reader := rd\<rparr>) = matched rs c" "matched rs (c\<lparr>cn_reads := n\<rparr>) = matched rs c"
  "matched rs (c\<lparr>cn_replies := rs'\<rparr>) = matched rs c"
  by (simp_all add: matched_def)

lemma zip_prefix: "length rs \<le> length ws \<Longrightarrow> zip (ws @ new) rs = zip ws rs"
  by (simp add: zip_append1)

lemma matched_do_write: "matched rs c \<Longrightarrow> matched rs (do_write cb c)"
  by (simp add: matched_def zip_prefix)

lemma run_queued_calls:
  "cn_log (run_queued react reply No_error c) = cn_log c @ transaction_calls (cn_queued c) reply"
  "\<exists>new. cn_callbacks (run_queued react reply No_error c) = cn_callbacks c @ new \<and> cn_written (run_queued react reply No_error c) = cn_written c @ new"
  by (auto simp: run_queued_def transaction_calls_def fold_invoke [where f = "\<lambda>x. x" and g = "\<lambda>_. Some reply"]
      fold_invoke [where f = fst and g = "\<lambda>x. Some (snd x)"] case_prod_unfold)

lemma deliver_one_calls:
  assumes "cn_callbacks c = x # xs"
  shows "(cn_log (deliver_one react reply c), cn_queued (deliver_one react reply c)) = answer (x, reply) (cn_log c, cn_queued c)"
    and "\<exists>new. cn_callbacks (deliver_one react reply c) = xs @ new \<and> cn_written (deliver_one react reply c) = cn_written c @ new"
proof -
  obtain new where new: "cn_callbacks (run_queued react reply No_error c) = x # xs @ new" "cn_written (run_queued react reply No_error c) = cn_written c @ new"
    using run_queued_calls(2) [of react reply c] assms by auto
  show "(cn_log (deliver_one react reply c), cn_queued (deliver_one react reply c)) = answer (x, reply) (cn_log c, cn_queued c)"
    by (simp add: deliver_one_def answer_def on_exec_transaction_def Let_def run_queued_calls(1) new assms)
  show "\<exists>new. cn_callbacks (deliver_one react reply c) = xs @ new \<and> cn_written (deliver_one react reply c) = cn_written c @ new"
    by (auto simp: deliver_one_def on_exec_transaction_def Let_def new assms)
qed

lemma matched_deliver_one:
  assumes "matched rs c" and "cn_callbacks c \<noteq> []"
  shows "matched (rs @ [reply]) (deliver_one react reply c)"
proof -
  let ?n = "length rs" and ?w = "cn_written c"
  have c: "cn_callbacks c = drop ?n ?w" "(cn_log c, cn_queued c) = answers (zip ?w rs)" using assms(1) by (simp_all add: matched_def)
  have n: "?n < length ?w" using assms(2) by (simp add: c(1))
  then have cb: "cn_callbacks c = ?w ! ?n # drop (Suc ?n) ?w" by (simp add: c(1) Cons_nth_drop_Suc)
  obtain new where new: "cn_callbacks (deliver_one react reply c) = drop (Suc ?n) ?w @ new" "cn_written (deliver_one react reply c) = ?w @ new"
    using deliver_one_calls(2) [OF cb] by blast
  have "zip ?w (rs @ [reply]) = zip (take ?n ?w) rs @ [(?w ! ?n, reply)]"
    using n by (simp add: zip_append2 Cons_nth_drop_Suc [symmetric])
  moreover have "zip ?w rs = zip (take ?n ?w) rs" by (metis append_take_drop_id length_take min.absorb2 n nat_less_le order_refl zip_prefix)
  ultimately show ?thesis
    using deliver_one_calls(1) [OF cb, of react reply] n by (simp add: matched_def new zip_prefix answers_def c(2))
qed

lemma deliver_one_kept [simp]: "cn_open (deliver_one react reply c) = cn_open c" "cn_replies (deliver_one react reply c) = cn_replies c"
  by (simp_all add: deliver_one_def on_exec_transaction_def run_queued_def Let_def fold_invoke [where f = "\<lambda>x. x" and g = "\<lambda>_. Some reply"]
      fold_invoke [where f = fst and g = "\<lambda>x. Some (snd x)"])

text \<open>Inside the loop the reply that was just read has not been given to its callback yet.\<close>

definition read_so_far :: "get_result \<Rightarrow> ('c, 'r) conn \<Rightarrow> bool" where
  "read_so_far result c \<longleftrightarrow> (\<exists>rs. cn_replies c = rs @ got result \<and> matched rs c)"

lemma deliver_open: "deliver react get n result c = Some (c', result') \<Longrightarrow> cn_open c' = cn_open c"
proof (induction react get n result c arbitrary: c' result' rule: deliver.induct)
  case (1 react get n reply c)
  then show ?case by (fastforce simp: Let_def split: if_splits nat.splits prod.splits)
qed auto

lemma matched_deliver:
  "deliver react get n result c = Some (c', result') \<Longrightarrow> read_so_far result c \<Longrightarrow> read_so_far result' c'"
proof (induction react get n result c arbitrary: c' result' rule: deliver.induct)
  case (1 react get n reply c)
  show ?case
  proof (cases "cn_callbacks c = []")
    case False
    obtain m where n: "n = Suc m" using 1(2) False by (cases n) auto
    obtain rd result1 where get: "get (cn_reader (deliver_one react reply c)) = (rd, result1)" by fastforce
    let ?c = "deliver_one react reply c\<lparr>cn_reader := rd, cn_replies := cn_replies (deliver_one react reply c) @ got result1\<rparr>"
    obtain rs where rs: "cn_replies c = rs @ [reply]" "matched rs c" using 1(3) by (auto simp: read_so_far_def got_def)
    have "read_so_far result1 ?c"
      using matched_deliver_one [OF rs(2) False, of reply react] rs(1) by (auto simp: read_so_far_def)
    moreover have "deliver react get m result1 ?c = Some (c', result')" using 1(2) False n get by (simp add: Let_def)
    ultimately show ?thesis using 1(1) [OF False n refl get [symmetric] refl] by simp
  qed (use 1 in simp)
qed auto

lemma matched_step:
  assumes "conn_step react feed get c c'" and "cn_open c \<longrightarrow> matched (cn_replies c) c"
  shows "cn_open c' \<longrightarrow> matched (cn_replies c') c'"
  using assms
proof (induction rule: conn_step.induct)
  case (ev_write c cb)
  then show ?case by (simp add: matched_do_write)
next
  case (ev_read c n ec bytes c')
  obtain rd result where get: "get (feed (cn_reader c) bytes) = (rd, result)" by fastforce
  let ?c = "c\<lparr>cn_reads := cn_reads c - 1, cn_reader := rd, cn_replies := cn_replies c @ got result\<rparr>"
  show ?case
  proof (rule impI)
    assume op: "cn_open c'"
    then have ok: "ec = No_error" using ev_read(2) disconnect_simps(5) on_read_failed [of ec react feed get n bytes c] by (cases "ec = No_error") auto
    then obtain c1 result1 where d: "deliver react get n result ?c = Some (c1, result1)"
      using ev_read(2) get by (auto simp: on_read_def Let_def split: option.splits)
    then have "result1 = Not_ready" and c': "c' = (if cn_callbacks c1 \<noteq> [] then do_read c1 else c1)"
      using ev_read(2) get ok op disconnect_simps(5) by (auto simp: on_read_def Let_def split: if_splits option.splits)
    have "cn_open c1" using op c' by (simp add: do_read_def split: if_splits)
    have "cn_open c" using \<open>cn_open c1\<close> deliver_open [OF d] by simp
    then have "read_so_far result ?c" using ev_read(3) by (auto simp: read_so_far_def)
    from matched_deliver [OF d this] have "matched (cn_replies c1) c1" using \<open>result1 = Not_ready\<close> by (auto simp: read_so_far_def got_def)
    then show "matched (cn_replies c') c'" by (simp add: c' do_read_def)
  qed
next
  case (ev_write_error c c')
  then show ?case using disconnect_simps(5) by (auto simp: on_write_error_def)
qed

lemma matched_reachable:
  "(conn_step react feed get)\<^sup>*\<^sup>* (connection rd) c \<Longrightarrow> cn_open c \<Longrightarrow> matched (cn_replies c) c"
proof -
  assume "(conn_step react feed get)\<^sup>*\<^sup>* (connection rd) c"
  then have "cn_open c \<longrightarrow> matched (cn_replies c) c"
  proof (induction rule: rtranclp_induct)
    case base
    show ?case by (simp add: connection_def matched_def answers_def)
  next
    case (step c c')
    then show ?case using matched_step by blast
  qed
  then show "cn_open c \<Longrightarrow> matched (cn_replies c) c" by simp
qed

section \<open>What a callback receives\<close>

text \<open>An empty reply comes with an error; a reply comes without one, or tells a queued command that
  its transaction was aborted.\<close>

definition outcome :: "Reply \<Rightarrow> error_code \<Rightarrow> bool" where
  "outcome r ec \<longleftrightarrow> (if r = None then ec \<noteq> No_error else ec = No_error \<or> ec = Hrb_error H_redis_transaction_aborted)"

definition sound_calls :: "('c, 'r) conn \<Rightarrow> bool" where
  "sound_calls c \<longleftrightarrow> list_all (\<lambda>(_, r, ec). outcome r ec) (cn_log c)"

lemma sound_calls_update [simp]:
  "sound_calls (c\<lparr>cn_reader := rd\<rparr>) = sound_calls c" "sound_calls (c\<lparr>cn_reads := n\<rparr>) = sound_calls c"
  "sound_calls (c\<lparr>cn_replies := rs\<rparr>) = sound_calls c" "sound_calls (c\<lparr>cn_callbacks := cbs\<rparr>) = sound_calls c" "sound_calls (c\<lparr>cn_queued := q\<rparr>) = sound_calls c"
  "sound_calls (do_write cb c) = sound_calls c" "sound_calls (invoke react cb r ec c) \<longleftrightarrow> sound_calls c \<and> outcome r ec"
  by (simp_all add: sound_calls_def)

lemma sound_calls_disconnect: "disconnect react ec c = Some c' \<Longrightarrow> sound_calls c \<Longrightarrow> sound_calls c'"
  by (drule disconnect_simps(1)) (auto simp: sound_calls_def outcome_def list_all_iff)

lemma sound_calls_run_queued: "sound_calls c \<Longrightarrow> sound_calls (run_queued react reply No_error c)"
  by (auto simp: run_queued_def sound_calls_def fold_invoke [where f = "\<lambda>x. x"] fold_invoke [where f = fst and g = "\<lambda>x. Some (snd x)"]
      outcome_def list_all_iff)

lemma sound_calls_deliver_one: "sound_calls c \<Longrightarrow> sound_calls (deliver_one react reply c)"
  by (simp add: deliver_one_def on_exec_transaction_def sound_calls_run_queued outcome_def Let_def)

lemma sound_calls_deliver: "deliver react get n result c = Some (c', result') \<Longrightarrow> sound_calls c \<Longrightarrow> sound_calls c'"
  by (induction react get n result c arbitrary: c' result' rule: deliver.induct)
     (auto simp: sound_calls_deliver_one Let_def split: if_splits nat.splits prod.splits)

lemma sound_calls_flush: "flush_errors react n c = Some c' \<Longrightarrow> sound_calls c \<Longrightarrow> sound_calls c'"
proof (induction n arbitrary: c)
  case 0
  then show ?case by (cases "cn_callbacks c") (simp_all add: flush_errors_Nil flush_errors_Cons)
next
  case (Suc n)
  then show ?case by (cases "cn_callbacks c") (auto simp: flush_errors_Nil flush_errors_Cons outcome_def)
qed

lemma sound_calls_step: "conn_step react feed get c c' \<Longrightarrow> sound_calls c \<Longrightarrow> sound_calls c'"
proof (induction rule: conn_step.induct)
  case (ev_read c n ec bytes c')
  then show ?case using sound_calls_disconnect [of react ec "c\<lparr>cn_reads := cn_reads c - 1\<rparr>" c']
    by (cases "ec = No_error")
      (auto simp: on_read_failed on_read_def [of _ _ _ _ No_error] Let_def do_read_def intro: sound_calls_disconnect dest!: sound_calls_deliver sound_calls_flush
        split: if_splits prod.splits option.splits)
qed (auto simp: on_write_error_def intro: sound_calls_disconnect)

lemma callback_outcome:
  assumes "(conn_step react feed get)\<^sup>*\<^sup>* (connection rd) c" and "(cb, r, ec) \<in> set (cn_log c)"
  shows "outcome r ec"
proof -
  have "sound_calls c" using assms(1)
    by (induction rule: rtranclp_induct) (simp add: sound_calls_def connection_def, blast intro: sound_calls_step)
  then show ?thesis using assms(2) by (auto simp: sound_calls_def list_all_iff)
qed

section \<open>No callback is lost\<close>

text \<open>Outside of transactions, and when callbacks do not send new commands on errors, what was
  called followed by what waits is exactly what was written.\<close>

definition complete :: "('c, 'r) conn \<Rightarrow> bool" where
  "complete c \<longleftrightarrow> cn_queued c = [] \<and> map fst (cn_log c) @ cn_callbacks c = cn_written c"

definition gives_up_on_error :: "('c \<Rightarrow> Reply \<Rightarrow> error_code \<Rightarrow> 'c list) \<Rightarrow> bool" where
  "gives_up_on_error react \<longleftrightarrow> (\<forall>cb r ec. ec \<noteq> No_error \<longrightarrow> react cb r ec = [])"

definition never_queues :: "('r \<Rightarrow> 'r \<times> get_result) \<Rightarrow> bool" where
  "never_queues get \<longleftrightarrow> (\<forall>rd rd' r. get rd = (rd', Got r) \<longrightarrow> as_status (Some r) \<noteq> ''QUEUED'')"

lemma complete_update [simp]:
  "complete (c\<lparr>cn_reader := rd\<rparr>) \<longleftrightarrow> complete c" "complete (c\<lparr>cn_reads := n\<rparr>) \<longleftrightarrow> complete c"
  "complete (c\<lparr>cn_replies := rs\<rparr>) \<longleftrightarrow> complete c"
  by (simp_all add: complete_def)

lemma complete_disconnect:
  assumes "gives_up_on_error react" and "complete c" and "disconnect react ec c = Some c'"
  shows "complete c'"
  using assms(2) disconnect_simps [OF assms(3)] by (simp add: complete_def comp_def)

lemma complete_deliver_one:
  assumes "complete c" and "cn_callbacks c \<noteq> []" and "as_status (Some reply) \<noteq> ''QUEUED''"
  shows "complete (deliver_one react reply c)"
  using assms by (cases "cn_callbacks c") (auto simp: complete_def deliver_one_def)

lemma complete_deliver:
  "\<lbrakk>deliver react get n result c = Some (c', result'); never_queues get; complete c;
    \<And>r. result = Got r \<Longrightarrow> as_status (Some r) \<noteq> ''QUEUED''\<rbrakk> \<Longrightarrow> complete c'"
proof (induction react get n result c arbitrary: c' result' rule: deliver.induct)
  case (1 react get n reply c)
  show ?case
  proof (cases "cn_callbacks c = []")
    case True
    then show ?thesis using 1 by simp
  next
    case False
    obtain m where n: "n = Suc m" using 1(2) False by (cases n) auto
    obtain rd result1 where get: "get (cn_reader (deliver_one react reply c)) = (rd, result1)" by fastforce
    have "complete (deliver_one react reply c)" using 1(4,5) False by (simp add: complete_deliver_one)
    moreover have "as_status (Some r) \<noteq> ''QUEUED''" if "result1 = Got r" for r
      using 1(3) get that by (auto simp: never_queues_def)
    moreover have "deliver react get m result1 (deliver_one react reply c\<lparr>cn_reader := rd,
        cn_replies := cn_replies (deliver_one react reply c) @ got result1\<rparr>) = Some (c', result')"
      using 1(2) False n get by (simp add: Let_def)
    ultimately show ?thesis using 1(1) [OF False n refl get [symmetric] refl] 1(3) by simp
  qed
qed auto

lemma complete_flush:
  "\<lbrakk>flush_errors react n c = Some c'; complete c\<rbrakk> \<Longrightarrow> complete c'"
proof (induction n arbitrary: c)
  case 0
  then show ?case by (cases "cn_callbacks c") (simp_all add: flush_errors_Nil flush_errors_Cons)
next
  case (Suc n)
  then show ?case by (cases "cn_callbacks c") (auto simp: flush_errors_Nil flush_errors_Cons complete_def)
qed

lemma complete_on_read:
  assumes run: "on_read react feed get n ec bytes c = Some c'"
    and q: "gives_up_on_error react" "never_queues get" and c: "complete c"
  shows "complete c'"
proof (cases "ec = No_error")
  case False
  then show ?thesis using run complete_disconnect [OF q(1), of "c\<lparr>cn_reads := cn_reads c - 1\<rparr>" ec c'] c by (simp add: on_read_def Let_def)
next
  case True
  obtain rd result where get: "get (feed (cn_reader c) bytes) = (rd, result)" by fastforce
  have nq: "\<And>r. result = Got r \<Longrightarrow> as_status (Some r) \<noteq> ''QUEUED''"
    using q(2) get by (auto simp: never_queues_def)
  obtain c1 result1 where d: "deliver react get n result (c\<lparr>cn_reads := cn_reads c - 1, cn_reader := rd, cn_replies := cn_replies c @ got result\<rparr>) = Some (c1, result1)"
    using run True get by (auto simp: on_read_def Let_def split: option.splits)
  have "complete c1" by (rule complete_deliver [OF d q(2) _ nq]) (simp_all add: c)
  then show ?thesis using run True get d
    by (auto simp: on_read_def Let_def do_read_def intro: complete_disconnect [OF q(1)] dest: complete_flush split: if_splits option.splits)
qed

lemma complete_step:
  "\<lbrakk>conn_step react feed get c c'; gives_up_on_error react; never_queues get; complete c\<rbrakk> \<Longrightarrow> complete c'"
proof (induction rule: conn_step.induct)
  case (ev_write c cb)
  then show ?case by (simp add: complete_def flip: append_assoc)
next
  case (ev_read c n ec bytes c')
  then show ?case using complete_on_read by blast
next
  case (ev_write_error c c')
  then show ?case by (auto simp: on_write_error_def intro: complete_disconnect)
qed

lemma complete_reachable:
  assumes "gives_up_on_error react" "never_queues get" and "(conn_step react feed get)\<^sup>*\<^sup>* (connection rd) c"
  shows "complete c"
  using assms(3)
proof (induction rule: rtranclp_induct)
  case base
  show ?case by (simp add: complete_def connection_def)
next
  case (step c c')
  then show ?case using complete_step assms(1,2) by blast
qed

section \<open>The handler of a read returns\<close>

text \<open>The law of the parser: a reply takes away some of the input.\<close>

locale reply_reader =
  fixes get :: "'r \<Rightarrow> 'r \<times> get_result" and pending :: "'r \<Rightarrow> nat"
  assumes get_consumes: "get rd = (rd', Got r) \<Longrightarrow> pending rd' < pending rd"
begin

lemma deliver_returns:
  assumes "pending (cn_reader c) < n"
  shows "\<exists>c' result'. deliver react get n result c = Some (c', result')"
  using assms
proof (induction n arbitrary: c result)
  case (Suc n)
  have reader: "cn_reader (deliver_one react reply c) = cn_reader c" for reply
    by (simp add: deliver_one_def on_exec_transaction_def run_queued_def Let_def
        fold_invoke [where f = "\<lambda>x. x" and g = "\<lambda>_. Some reply"] fold_invoke [where f = fst and g = "\<lambda>x. Some (snd x)"])
  show ?case
  proof (cases result)
    case (Got reply)
    obtain rd result1 where g: "get (cn_reader c) = (rd, result1)" by fastforce
    show ?thesis
    proof (cases "\<exists>r. result1 = Got r")
      case True
      then have "pending rd < n" using g get_consumes Suc.prems by fastforce
      then show ?thesis
        using Got g reader Suc.IH [of "deliver_one react reply c\<lparr>cn_reader := rd, cn_replies := cn_replies (deliver_one react reply c) @ got result1\<rparr>" result1] by (simp add: Let_def)
    next
      case False
      then show ?thesis using Got g reader by (cases result1) (auto simp: Let_def)
    qed
  qed simp_all
qed simp

end

lemma flush_errors_returns:
  assumes "gives_up_on_error react" and "length (cn_callbacks c) \<le> n"
  shows "\<exists>c'. flush_errors react n c = Some c'"
  using assms(2)
proof (induction n arbitrary: c)
  case 0
  then show ?case by (simp add: flush_errors_Nil)
next
  case (Suc n)
  have "react x None (Redis_error R_protocol) = []" for x using assms(1) by (simp add: gives_up_on_error_def)
  then show ?case using Suc.IH Suc.prems by (cases "cn_callbacks c") (simp_all add: flush_errors_Nil flush_errors_Cons)
qed

text \<open>More fuel does not change the result.\<close>

lemma deliver_fuel: "deliver react get n result c = Some x \<Longrightarrow> n \<le> m \<Longrightarrow> deliver react get m result c = Some x"
proof (induction react get n result c arbitrary: m rule: deliver.induct)
  case (1 react get n reply c)
  show ?case
  proof (cases "cn_callbacks c = []")
    case False
    obtain k where k: "n = Suc k" using 1(2) False by (cases n) auto
    then obtain j where j: "m = Suc j" "k \<le> j" using 1(3) by (cases m) auto
    obtain rd result1 where get: "get (cn_reader (deliver_one react reply c)) = (rd, result1)" by fastforce
    show ?thesis using 1(1) [OF False k refl get [symmetric] refl, of j] 1(2) False k j get by (simp add: Let_def)
  qed (use 1 in simp)
qed auto

lemma flush_fuel: "flush_errors react n c = Some x \<Longrightarrow> n \<le> m \<Longrightarrow> flush_errors react m c = Some x"
proof (induction n arbitrary: c m)
  case 0
  then show ?case by (cases "cn_callbacks c") (simp_all add: flush_errors_Nil flush_errors_Cons)
next
  case (Suc n)
  then show ?case by (cases "cn_callbacks c"; cases m) (simp_all add: flush_errors_Nil flush_errors_Cons)
qed

lemma on_read_fuel:
  assumes "on_read react feed get n ec bytes c = Some x" and "n \<le> m"
  shows "on_read react feed get m ec bytes c = Some x"
  using assms
  by (auto simp: on_read_def Let_def deliver_fuel [OF _ assms(2)] flush_fuel [OF _ assms(2)]
      split: if_splits prod.splits option.splits)

context reply_reader
begin

lemma on_read_returns:
  assumes "gives_up_on_error react"
  shows "\<exists>n c'. \<forall>m\<ge>n. on_read react feed get m ec bytes c = Some c'"
proof -
  obtain rd result where g: "get (feed (cn_reader c) bytes) = (rd, result)" by fastforce
  let ?c = "c\<lparr>cn_reads := cn_reads c - 1, cn_reader := rd, cn_replies := cn_replies c @ got result\<rparr>"
  have quiet: "\<And>cb e. e \<noteq> No_error \<Longrightarrow> react cb None e = []" using assms by (simp add: gives_up_on_error_def)
  obtain c1 result1 where d: "deliver react get (Suc (pending rd)) result ?c = Some (c1, result1)"
    using deliver_returns [of ?c "Suc (pending rd)" react result] by auto
  obtain c2 where f: "flush_errors react (length (cn_callbacks c1)) c1 = Some c2"
    using flush_errors_returns [OF assms order_refl] by blast
  obtain c3 c4 where e: "disconnect react (Redis_error R_protocol) c2 = Some c3" "disconnect react ec (c\<lparr>cn_reads := cn_reads c - 1\<rparr>) = Some c4"
    using disconnect_returns [of react "Redis_error R_protocol" c2] disconnect_returns [of react ec "c\<lparr>cn_reads := cn_reads c - 1\<rparr>"] quiet by metis
  let ?n = "max (Suc (pending rd)) (length (cn_callbacks c1))"
  have "\<exists>c'. on_read react feed get ?n ec bytes c = Some c'"
    using deliver_fuel [OF d, of ?n] flush_fuel [OF f, of ?n] g e by (simp add: on_read_def Let_def)
  then show ?thesis using on_read_fuel by metis
qed

end

section \<open>A reference parser\<close>

text \<open>The single-line replies of the protocol; a bulk string of length -1 is nil.\<close>

definition ref_feed :: "string \<Rightarrow> string \<Rightarrow> string" where
  "ref_feed buffer bytes = buffer @ bytes"

definition ref_get :: "string \<Rightarrow> string \<times> get_result" where
  "ref_get buffer =
     (let line = takeWhile (\<lambda>ch. ch \<noteq> CHR 0x0D) buffer; rest = drop (length line + 2) buffer
      in if length buffer < length line + 2 then (buffer, Not_ready)
         else if take 1 line = ''+'' then (rest, Got (RStatus (drop 1 line)))
         else if take 1 line = ''-'' then (rest, Got (RError (drop 1 line)))
         else if line = ''$-1'' then (rest, Got RNil)
         else (buffer, Reader_error))"

interpretation resp: reply_reader ref_get length
proof
  fix rd rd' r
  assume "ref_get rd = (rd', Got r)"
  then show "length rd' < length rd" by (auto simp: ref_get_def Let_def split: if_splits)
qed

section \<open>Properties\<close>

text \<open>A run: two commands are written, and a read brings the reply to the first.\<close>

definition quiet :: "nat \<Rightarrow> Reply \<Rightarrow> error_code \<Rightarrow> nat list" where
  "quiet cb reply ec = []"

definition demo_bytes :: string where
  "demo_bytes = ''+OK'' @ [CHR 0x0D, CHR 0x0A] @ ''$-''"

definition demo_conn :: "(nat, string) conn" where
  "demo_conn = \<lparr>cn_callbacks = [2], cn_queued = [], cn_reader = ''$-'', cn_open = True, cn_reads = 1,
     cn_written = [1, 2], cn_replies = [RStatus ''OK''], cn_log = [(1, Some (RStatus ''OK''), No_error)]\<rparr>"

lemma demo_read: "on_read quiet ref_feed ref_get 2 No_error demo_bytes (do_write 2 (do_write 1 (connection []))) = Some demo_conn"
  by code_simp

lemma demo_run: "(conn_step quiet ref_feed ref_get)\<^sup>*\<^sup>* (connection []) demo_conn"
proof -
  have "conn_step quiet ref_feed ref_get (do_write 2 (do_write 1 (connection []))) demo_conn"
    by (rule ev_read [OF _ demo_read]) (simp add: do_write_reads connection_def)
  then show ?thesis by (meson ev_write rtranclp.rtrancl_into_rtrancl rtranclp.rtrancl_refl)
qed

lemma quiet_gives_up: "gives_up_on_error quiet"
  by (simp add: gives_up_on_error_def quiet_def)

text \<open>C29: Pipelining gives every reply to its command. However writes, reads and failures interleave, and
  whatever the callbacks write in turn, as long as the connection is open the first reply that the parser gave belongs to
  the first command that was written, the second to the second and so on: the calls of callbacks so far, and the callbacks
  that wait for the end of a transaction, are exactly those that this pairing of commands and replies asks for, and the
  commands without a reply wait in the order of the writes. Also after a failure no callback is called twice, and the
  callbacks that get a reply get it in the order of the writes.\<close>

theorem pipeline_order:
  assumes "(conn_step react feed get)\<^sup>*\<^sup>* (connection rd) c"
  shows "(cn_open c \<longrightarrow> length (cn_replies c) \<le> length (cn_written c) \<and>
      cn_callbacks c = drop (length (cn_replies c)) (cn_written c) \<and>
      (cn_log c, cn_queued c) = answers (zip (cn_written c) (cn_replies c))) \<and>
    mset (map fst (cn_log c) @ cn_queued c @ cn_callbacks c) \<subseteq># mset (cn_written c) \<and>
    subseq (called_with (\<lambda>ec. ec = No_error) c @ cn_queued c @ cn_callbacks c) (cn_written c)"
  using orderly_attended_reachable [OF assms] matched_reachable [OF assms]
  by (simp add: orderly_def accounted_def in_order_def matched_def)

theorem pipeline_order_witness:
  "(cn_log demo_conn, cn_queued demo_conn) = answers [(1, RStatus ''OK'')] \<and> cn_callbacks demo_conn = [2]"
  using pipeline_order [of quiet ref_feed ref_get "[]", OF demo_run] by (simp add: demo_conn_def)

text \<open>C30: When the database never answers \<^verbatim>\<open>QUEUED\<close> and the callbacks send nothing after an error, no
  command is forgotten: every callback that was given to \<^verbatim>\<open>do_write\<close> was called, in order, or
  still waits, and while one waits a read is under way.\<close>

theorem pipeline_complete:
  assumes "gives_up_on_error react" "never_queues get" and "(conn_step react feed get)\<^sup>*\<^sup>* (connection rd) c"
  shows "map fst (cn_log c) @ cn_callbacks c = cn_written c \<and> (cn_callbacks c = [] \<or> 0 < cn_reads c)"
  using complete_reachable [OF assms] orderly_attended_reachable [OF assms(3)] by (auto simp: complete_def attended_def)

text \<open>A parser of a database that answers \<^verbatim>\<open>QUEUED\<close> to nothing.\<close>

definition plain_get :: "string \<Rightarrow> string \<times> get_result" where
  "plain_get buffer = (case ref_get buffer of
     (rd, Got r) \<Rightarrow> if as_status (Some r) = ''QUEUED'' then (rd, Reader_error) else (rd, Got r)
   | result \<Rightarrow> result)"

lemma plain_get_never_queues: "never_queues plain_get"
  by (auto simp: never_queues_def plain_get_def split: prod.splits get_result.splits if_splits)

lemma plain_run: "(conn_step quiet ref_feed plain_get)\<^sup>*\<^sup>* (connection []) demo_conn"
proof -
  have "on_read quiet ref_feed plain_get 2 No_error demo_bytes (do_write 2 (do_write 1 (connection []))) = Some demo_conn"
    by code_simp
  then have "conn_step quiet ref_feed plain_get (do_write 2 (do_write 1 (connection []))) demo_conn"
    by (rule ev_read [rotated]) (simp add: do_write_reads connection_def)
  then show ?thesis by (meson ev_write rtranclp.rtrancl_into_rtrancl rtranclp.rtrancl_refl)
qed

theorem pipeline_complete_witness:
  "map fst (cn_log demo_conn) @ cn_callbacks demo_conn = cn_written demo_conn \<and> 0 < cn_reads demo_conn"
  using pipeline_complete [OF quiet_gives_up plain_get_never_queues plain_run] by (simp add: demo_conn_def)

text \<open>The end of a transaction: when the reply to \<^verbatim>\<open>EXEC\<close> has one element for each queued command, each
  of their callbacks is called with its own element, in order, and the callback of \<^verbatim>\<open>EXEC\<close> with the
  whole reply; when the transaction was aborted they all get the error \<^verbatim>\<open>redis_transaction_aborted\<close>.\<close>

theorem transaction_replies:
  assumes "cn_callbacks c = cb # cbs" and "cn_queued c \<noteq> []"
  shows "(length rs = length (cn_queued c) \<longrightarrow>
      cn_log (deliver_one react (RArray rs) c) =
        cn_log c @ map (\<lambda>(q, r). (q, Some r, No_error)) (zip (cn_queued c) rs) @ [(cb, Some (RArray rs), No_error)]) \<and>
    cn_log (deliver_one react RNil c) =
      cn_log c @ map (\<lambda>q. (q, Some RNil, Hrb_error H_redis_transaction_aborted)) (cn_queued c) @ [(cb, Some RNil, No_error)] \<and>
    cn_queued (deliver_one react (RArray rs) c) = [] \<and> cn_queued (deliver_one react RNil c) = []"
  using assms
  by (simp add: deliver_one_def on_exec_transaction_def run_queued_def Let_def is_nil_def as_status_def array_size_def
      elements_def fold_invoke [where f = "\<lambda>x. x" and g = "\<lambda>_. Some RNil"] fold_invoke [where f = fst and g = "\<lambda>x. Some (snd x)"]
      case_prod_unfold)

theorem transaction_replies_witness:
  "cn_log (deliver_one quiet (RArray [RInteger 7]) (demo_conn\<lparr>cn_queued := [5]\<rparr>)) =
     cn_log demo_conn @ [(5, Some (RInteger 7), No_error), (2, Some (RArray [RInteger 7]), No_error)]"
  using transaction_replies [of "demo_conn\<lparr>cn_queued := [5]\<rparr>" 2 "[]" "[RInteger 7]" quiet] by (simp add: demo_conn_def)

text \<open>C33: When a read fails, every callback that waits, also inside a transaction, is called once with
  the error of the read, nothing stays in the queues, and the socket is closed, so that it does not go
  back to the pool.\<close>

theorem read_error_answers_all:
  assumes "ec \<noteq> No_error" and "gives_up_on_error react"
  shows "\<exists>c'. on_read react feed get n ec bytes c = Some c' \<and>
    cn_log c' = cn_log c @ map (\<lambda>cb. (cb, None, ec)) (cn_queued c @ cn_callbacks c) \<and>
    cn_callbacks c' = [] \<and> cn_queued c' = [] \<and> connection_destroy (cn_open c') sock socks = socks"
proof -
  have quiet: "\<And>cb e. e \<noteq> No_error \<Longrightarrow> react cb None e = []" using assms(2) by (simp add: gives_up_on_error_def)
  then obtain c' where c': "disconnect react ec (c\<lparr>cn_reads := cn_reads c - 1\<rparr>) = Some c'" by (rule disconnect_returns)
  then show ?thesis using assms(1) disconnect_simps [OF c'] quiet by (simp add: on_read_def connection_destroy_def)
qed

theorem read_error_answers_all_witness:
  "\<exists>c'. on_read quiet ref_feed ref_get 0 (System_error 104) [] demo_conn = Some c' \<and>
    cn_log c' = cn_log demo_conn @ [(2, None, System_error 104)]"
  using read_error_answers_all [of "System_error 104" quiet ref_feed ref_get 0 "[]" demo_conn "()" "[]"] quiet_gives_up
  by (auto simp: demo_conn_def)

text \<open>C31: The handler of a completed read returns: when each reply takes input from the parser and the
  callbacks send nothing after an error, its loops end, with a result that does not depend on the
  bound of the model.\<close>

theorem read_handler_returns:
  assumes "reply_reader get pending" and "gives_up_on_error react"
  shows "\<exists>n c'. \<forall>m\<ge>n. on_read react feed get m ec bytes c = Some c'"
  by (rule reply_reader.on_read_returns [OF assms])

theorem read_handler_returns_witness:
  "\<exists>n c'. \<forall>m\<ge>n. on_read quiet ref_feed ref_get m No_error demo_bytes (do_write 1 (connection [])) = Some c'"
  by (rule read_handler_returns [OF resp.reply_reader_axioms quiet_gives_up])

text \<open>A transaction that the database refuses (an error reply to \<^verbatim>\<open>EXEC\<close>) loses callbacks: the
  callbacks of the queued commands are removed without being called; only the callback of
  \<^verbatim>\<open>EXEC\<close> is called.\<close>

theorem exec_error_drops_queued:
  assumes "cn_callbacks c = cb # cbs" and "cn_queued c \<noteq> []"
  shows "cn_log (deliver_one react (RError e) c) = cn_log c @ [(cb, Some (RError e), No_error)] \<and>
    cn_queued (deliver_one react (RError e) c) = []"
  using assms
  by (simp add: deliver_one_def on_exec_transaction_def run_queued_def Let_def is_nil_def as_status_def array_size_def)

theorem exec_error_drops_queued_witness:
  "cn_log (deliver_one quiet (RError ''EXECABORT'') (demo_conn\<lparr>cn_queued := [5]\<rparr>)) =
     cn_log demo_conn @ [(2, Some (RError ''EXECABORT''), No_error)]"
  using exec_error_drops_queued [of "demo_conn\<lparr>cn_queued := [5]\<rparr>" 2 "[]" quiet "''EXECABORT''"] by (simp add: demo_conn_def)

end
