(* ===== verification/Redis_Commands.thy ===== *)
theory Redis_Commands
  imports Redis_Connection
begin

text \<open>
  How the program sends commands: \<^verbatim>\<open>CommandString\<close>, \<^verbatim>\<open>ReplyReader\<close>, the overloads of \<^verbatim>\<open>Connection::command\<close> and the
  pool, from \<^verbatim>\<open>src/server/net/Redis.hh\<close> and \<^verbatim>\<open>Redis.cc\<close>. The formatter and the parser of hiredis are parameters. A callback is
  \<^term>\<open>Some\<close> callback of the caller, or \<^term>\<open>None\<close> for the empty lambda. The commands are listed in the order of their
  \<^verbatim>\<open>async_write\<close>.
\<close>

section \<open>CommandString\<close>

text \<open>The buffer that \<^verbatim>\<open>redisFormatCommand\<close> allocates, and its length.\<close>

record CommandString =
  cs_cmd :: "string option"
  cs_len :: int

definition no_command :: CommandString where
  "no_command = \<lparr>cs_cmd = None, cs_len = 0\<rparr>"

type_synonym formatter = "string \<Rightarrow> string list \<Rightarrow> int \<times> string option"

definition CommandString_of :: "formatter \<Rightarrow> string \<Rightarrow> string list \<Rightarrow> CommandString option" where
  "CommandString_of redisFormatCommand cmd args = (case redisFormatCommand cmd args of (n, buf) \<Rightarrow>
     if n < 0 then None else Some \<lparr>cs_cmd = buf, cs_len = n\<rparr>)"

definition cs_length :: "CommandString \<Rightarrow> nat" where
  "cs_length s = nat (cs_len s mod 2 ^ 64)"

definition cs_str :: "CommandString \<Rightarrow> string" where
  "cs_str s = (case cs_cmd s of None \<Rightarrow> [] | Some buf \<Rightarrow> take (cs_length s) buf)"

text \<open>The operations that transfer a buffer return the objects after the call; the last component of the assignment and of
  the destructor is what they free.\<close>

definition cs_swap :: "CommandString \<Rightarrow> CommandString \<Rightarrow> CommandString \<times> CommandString" where
  "cs_swap this other = (other, this)"

definition cs_move :: "CommandString \<Rightarrow> CommandString \<times> CommandString" where
  "cs_move other = cs_swap no_command other"

definition cs_destroy :: "CommandString \<Rightarrow> string option" where
  "cs_destroy s = cs_cmd s"

definition cs_assign :: "CommandString \<Rightarrow> CommandString \<Rightarrow> CommandString \<times> CommandString \<times> string option" where
  "cs_assign this other =
     (let (tmp, other') = cs_move other; (this', tmp') = cs_swap this tmp in (this', other', cs_destroy tmp'))"

section \<open>ReplyReader\<close>

text \<open>\<^verbatim>\<open>redisReaderGetReply\<close> returns whether the input is right, and a reply unless it needs more input.\<close>

definition reader_get :: "('r \<Rightarrow> 'r \<times> bool \<times> redisReply option) \<Rightarrow> 'r \<Rightarrow> 'r \<times> get_result" where
  "reader_get redisReaderGetReply rd = (case redisReaderGetReply rd of (rd', ok, reply) \<Rightarrow>
     (rd', if ok then (case reply of Some r \<Rightarrow> Got r | None \<Rightarrow> Not_ready) else Reader_error))"

section \<open>Connection::command\<close>

record ('c, 'r) channel =
  ch_conn :: "('c option, 'r) conn"
  ch_sent :: "CommandString list"

type_synonym 'c reaction = "'c option \<Rightarrow> Reply \<Rightarrow> error_code \<Rightarrow> 'c option list"

definition write_command :: "CommandString \<Rightarrow> 'c option \<Rightarrow> ('c, 'r) channel \<Rightarrow> ('c, 'r) channel" where
  "write_command cs cb ch = \<lparr>ch_conn = do_write cb (ch_conn ch), ch_sent = ch_sent ch @ [cs]\<rparr>"

definition command_string :: "'c \<Rightarrow> CommandString \<Rightarrow> ('c, 'r) channel \<Rightarrow> ('c, 'r) channel" where
  "command_string callback cs ch = write_command cs (Some callback) ch"

text \<open>A callback gets the protocol error at once when the command cannot be formatted.\<close>

definition fail_command :: "'c reaction \<Rightarrow> 'c \<Rightarrow> ('c, 'r) channel \<Rightarrow> ('c, 'r) channel" where
  "fail_command react callback ch =
     ch\<lparr>ch_conn := invoke react (Some callback) None (Redis_error R_protocol) (ch_conn ch)\<rparr>"

definition command :: "'c reaction \<Rightarrow> formatter \<Rightarrow> 'c \<Rightarrow> string \<Rightarrow> string list \<Rightarrow> ('c, 'r) channel \<Rightarrow> ('c, 'r) channel" where
  "command react fmt callback cmd args ch = (case CommandString_of fmt cmd args of
       Some cs \<Rightarrow> command_string callback cs ch
     | None \<Rightarrow> fail_command react callback ch)"

text \<open>The overload for callbacks that can only be moved.\<close>

definition command_moved :: "'c reaction \<Rightarrow> formatter \<Rightarrow> 'c \<Rightarrow> string \<Rightarrow> string list \<Rightarrow> ('c, 'r) channel \<Rightarrow> ('c, 'r) channel" where
  "command_moved react fmt callback cmd args ch = (case CommandString_of fmt cmd args of
       Some cs \<Rightarrow> write_command cs (Some callback) ch
     | None \<Rightarrow> fail_command react callback ch)"

definition command_only :: "formatter \<Rightarrow> string \<Rightarrow> string list \<Rightarrow> ('c, 'r) channel \<Rightarrow> ('c, 'r) channel" where
  "command_only fmt cmd args ch = (case CommandString_of fmt cmd args of
       Some cs \<Rightarrow> write_command cs None ch
     | None \<Rightarrow> ch)"

text \<open>Several commands: only the last has the callback.\<close>

fun command_vector :: "'c \<Rightarrow> CommandString list \<Rightarrow> ('c, 'r) channel \<Rightarrow> ('c, 'r) channel" where
  "command_vector callback [] ch = ch"
| "command_vector callback [cmd] ch = write_command cmd (Some callback) ch"
| "command_vector callback (cmd # cmds) ch = command_vector callback cmds (write_command cmd None ch)"

section \<open>Pool::alloc and connect\<close>

definition pool_alloc :: "'s \<Rightarrow> 'r \<Rightarrow> 's list \<Rightarrow> (('c, 'r) channel \<times> 's) \<times> 's list" where
  "pool_alloc fresh rd socks = (case get_sock fresh socks of (sock, socks') \<Rightarrow>
     ((\<lparr>ch_conn = connection rd, ch_sent = []\<rparr>, sock), socks'))"

definition redis_connect :: "'s \<Rightarrow> 'r \<Rightarrow> (('c, 'r) channel \<times> 's) \<times> 's list" where
  "redis_connect fresh rd = pool_alloc fresh rd []"

section \<open>Facts\<close>

lemma command_vector_effect:
  "cmds \<noteq> [] \<Longrightarrow> ch_sent (command_vector cb cmds ch) = ch_sent ch @ cmds \<and>
    ch_conn (command_vector cb cmds ch) = fold do_write (replicate (length cmds - 1) None @ [Some cb]) (ch_conn ch)"
  by (induction cb cmds ch rule: command_vector.induct) (simp_all add: write_command_def)

lemma cs_assign_once: "cs_assign this other = (other, no_command, cs_cmd this)"
  by (simp add: cs_assign_def cs_move_def cs_swap_def cs_destroy_def)

text \<open>The replies in a row.\<close>

definition deliver_all :: "'c reaction \<Rightarrow> redisReply list \<Rightarrow> ('c, 'r) channel \<Rightarrow> ('c, 'r) channel" where
  "deliver_all react replies ch = ch\<lparr>ch_conn := fold (deliver_one react) replies (ch_conn ch)\<rparr>"

lemma deliver_queued:
  "cn_callbacks c = replicate n None @ cbs \<Longrightarrow>
    fold (deliver_one react) (replicate n (RStatus ''QUEUED'')) c =
      c\<lparr>cn_queued := cn_queued c @ replicate n None, cn_callbacks := cbs\<rparr>"
proof (induction n arbitrary: c)
  case (Suc n)
  let ?c = "c\<lparr>cn_queued := cn_queued c @ [None], cn_callbacks := replicate n None @ cbs\<rparr>"
  have "deliver_one react (RStatus ''QUEUED'') c = ?c"
    using Suc.prems by (simp add: deliver_one_def as_status_def as_any_string_def)
  then have "fold (deliver_one react) (replicate (Suc n) (RStatus ''QUEUED'')) c =
      fold (deliver_one react) (replicate n (RStatus ''QUEUED'')) ?c" by (simp only: replicate_Suc fold_simps)
  also have "\<dots> = ?c\<lparr>cn_queued := cn_queued ?c @ replicate n None, cn_callbacks := cbs\<rparr>" by (rule Suc.IH) simp
  finally show ?case by simp
qed simp

lemma deliver_exec:
  fixes c :: "('c option, 'r) conn"
  assumes "cn_queued c = replicate (length rs) None" "cn_callbacks c = [Some cb]" "\<And>r ec. react None r ec = []"
  shows "cn_log (deliver_one react (RArray rs) c) =
      cn_log c @ map (\<lambda>r. (None, Some r, No_error)) rs @ [(Some cb, Some (RArray rs), No_error)]" (is ?log)
    and "cn_queued (deliver_one react (RArray rs) c) = []" (is ?queued)
    and "cn_callbacks (deliver_one react (RArray rs) c) = react (Some cb) (Some (RArray rs)) No_error" (is ?callbacks)
proof -
  have pairs: "zip (replicate (length rs) (None :: 'c option)) rs = map (Pair None) rs" by (simp add: zip_replicate1 take_map)
  have "concat (map (\<lambda>x. react (fst x) (Some (snd x)) No_error) (map (Pair None) rs)) = []" by (simp add: assms(3))
  then have "?log \<and> ?queued \<and> ?callbacks"
    using assms(1,2) pairs
    by (cases rs) (simp_all add: deliver_one_def on_exec_transaction_def run_queued_def Let_def is_nil_def as_status_def
        array_size_def elements_def fold_invoke [where f = fst and g = "\<lambda>x. Some (snd x)"] comp_def assms(3))
  then show ?log ?queued ?callbacks by blast+
qed

text \<open>C32: A transaction that is sent as a vector of commands (\<^verbatim>\<open>MULTI\<close>, the commands, \<^verbatim>\<open>EXEC\<close>) on an idle connection: the
  commands go out in their order with one read under way, and when the database answers \<^verbatim>\<open>OK\<close>, \<^verbatim>\<open>QUEUED\<close> for each command and the array of
  the results, the callback of the caller is called exactly once, after all replies, with the whole array; the
  queues are empty again but for what the callback writes. No callback is called while the commands are only queued.\<close>

theorem transaction_vector:
  assumes "\<And>r ec. react None r ec = []" and "cn_callbacks (ch_conn ch) = []" "cn_queued (ch_conn ch) = []"
    and "length rs = length cmds"
  shows "let sent = command_vector cb (multi # cmds @ [exec]) ch;
      queued = deliver_all react (RStatus ''OK'' # replicate (length cmds) (RStatus ''QUEUED'')) sent;
      executed = deliver_all react [RArray rs] queued
    in ch_sent executed = ch_sent ch @ multi # cmds @ [exec] \<and> cn_reads (ch_conn sent) = cn_reads (ch_conn ch) + 1 \<and>
      cn_log (ch_conn queued) = cn_log (ch_conn ch) @ [(None, Some (RStatus ''OK''), No_error)] \<and>
      cn_log (ch_conn executed) = cn_log (ch_conn queued) @ map (\<lambda>r. (None, Some r, No_error)) rs @ [(Some cb, Some (RArray rs), No_error)] \<and>
      cn_queued (ch_conn executed) = [] \<and> cn_callbacks (ch_conn executed) = react (Some cb) (Some (RArray rs)) No_error"
proof -
  define c where "c = fold do_write (None # replicate (length cmds) None @ [Some cb]) (ch_conn ch)"
  define sent where "sent = command_vector cb (multi # cmds @ [exec]) ch"
  have sent: "ch_sent sent = ch_sent ch @ multi # cmds @ [exec]" "ch_conn sent = c"
    using command_vector_effect [of "multi # cmds @ [exec]" cb ch] by (simp_all add: sent_def c_def fold_replicate funpow_swap1)
  have c: "cn_callbacks c = None # replicate (length cmds) None @ [Some cb]" "cn_queued c = []" "cn_log c = cn_log (ch_conn ch)"
    using assms(2,3) by (simp_all only: c_def fold_do_write append_Nil)
  have reads: "cn_reads c = cn_reads (ch_conn ch) + 1"
    unfolding c_def using assms(2) by (simp only: fold_simps do_write_more_reads do_write_reads simp_thms if_True)
  define c1 where "c1 = deliver_one react (RStatus ''OK'') c"
  have c1: "cn_callbacks c1 = replicate (length cmds) None @ [Some cb]" "cn_queued c1 = []"
    "cn_log c1 = cn_log (ch_conn ch) @ [(None, Some (RStatus ''OK''), No_error)]"
    using c assms(1) by (simp_all add: c1_def deliver_one_def as_status_def as_any_string_def)
  define c2 where "c2 = c1\<lparr>cn_queued := replicate (length cmds) None, cn_callbacks := [Some cb]\<rparr>"
  have queued: "deliver_all react (RStatus ''OK'' # replicate (length cmds) (RStatus ''QUEUED'')) sent = sent\<lparr>ch_conn := c2\<rparr>"
    using deliver_queued [OF c1(1), of react] by (simp only: deliver_all_def sent(2) fold_simps c1_def [symmetric] c1(2) append_Nil c2_def)
  have c2: "cn_queued c2 = replicate (length rs) None" "cn_callbacks c2 = [Some cb]" by (simp_all add: c2_def assms(4))
  have executed: "deliver_all react [RArray rs] (sent\<lparr>ch_conn := c2\<rparr>) = sent\<lparr>ch_conn := deliver_one react (RArray rs) c2\<rparr>"
    by (simp add: deliver_all_def)
  show ?thesis
    unfolding Let_def sent_def [symmetric] queued executed
    using deliver_exec [where react = react, OF c2 assms(1)] sent reads c1(3) by (simp add: c2_def)
qed

text \<open>A transaction of one command whose callback writes nothing.\<close>

definition no_reaction :: "nat reaction" where
  "no_reaction cb r ec = []"

theorem transaction_vector_witness:
  "let queued = deliver_all no_reaction [RStatus ''OK'', RStatus ''QUEUED''] (command_vector 7 [no_command, no_command, no_command]
       \<lparr>ch_conn = connection (), ch_sent = []\<rparr>);
     executed = deliver_all no_reaction [RArray [RInteger 1]] queued
   in cn_log (ch_conn executed) =
     [(None, Some (RStatus ''OK''), No_error), (None, Some (RInteger 1), No_error), (Some 7, Some (RArray [RInteger 1]), No_error)]"
  using transaction_vector [of no_reaction "\<lparr>ch_conn = connection (), ch_sent = []\<rparr>" "[RInteger 1]" "[no_command]" 7 no_command no_command]
  by (simp add: no_reaction_def connection_def Let_def)

end
