(* ===== verification/External.thy ===== *)
theory External
  imports HRB_Prelude "HOL-Library.Word"
begin

text \<open>
  The third-party functions the sources call, as a record of parameters. A definition that
  needs one takes the record as its argument \<^term>\<open>L\<close>, so it is a model for every
  implementation of these functions; what a property relies on is a locale below that states
  the documented behaviour. JSON documents are data: \<^verbatim>\<open>nlohmann::json\<close> values, with an
  object as the key-sorted association list that \<^verbatim>\<open>std::map\<close> iterates over, and the members
  of the class that the sources use on them.
\<close>

section \<open>JSON values\<close>

text \<open>\<^verbatim>\<open>double\<close>s are kept as their 64-bit patterns.\<close>

datatype json =
    JNull
  | JBool bool
  | JInt int
  | JFloat "64 word"
  | JStr string
  | JArr "json list"
  | JObj "(string \<times> json) list"

text \<open>Exceptions of the JSON library: \<^verbatim>\<open>type_error\<close>, \<^verbatim>\<open>out_of_range\<close> and \<^verbatim>\<open>parse_error\<close>.\<close>

datatype exn = TypeError | OutOfRange | ParseError

type_synonym 'a result = "exn + 'a"

abbreviation ok :: "'a \<Rightarrow> 'a result" where
  "ok \<equiv> Inr"

definition bind_r :: "'a result \<Rightarrow> ('a \<Rightarrow> 'b result) \<Rightarrow> 'b result" where
  "bind_r r f = (case r of Inl e \<Rightarrow> Inl e | Inr x \<Rightarrow> f x)"

text \<open>\<^verbatim>\<open>std::map::emplace\<close> keeps an entry that is already there.\<close>

fun obj_emplace :: "string \<Rightarrow> json \<Rightarrow> (string \<times> json) list \<Rightarrow> (string \<times> json) list" where
  "obj_emplace k v [] = [(k, v)]"
| "obj_emplace k v ((k', v') # kvs) =
     (if k = k' then (k', v') # kvs
      else if k < k' then (k, v) # (k', v') # kvs
      else (k', v') # obj_emplace k v kvs)"

definition obj_erase :: "string \<Rightarrow> (string \<times> json) list \<Rightarrow> (string \<times> json) list" where
  "obj_erase k kvs = filter (\<lambda>(k', _). k' \<noteq> k) kvs"

text \<open>\<^verbatim>\<open>json.emplace(k, v)\<close>: a null value becomes an object first.\<close>

definition emplace :: "string \<Rightarrow> json \<Rightarrow> json \<Rightarrow> json result" where
  "emplace k v j = (case j of
       JObj kvs \<Rightarrow> ok (JObj (obj_emplace k v kvs))
     | JNull \<Rightarrow> ok (JObj [(k, v)])
     | _ \<Rightarrow> Inl TypeError)"

text \<open>\<^verbatim>\<open>json[k] = v\<close> and the same assignment to a field of a Lua table.\<close>

fun obj_set :: "string \<Rightarrow> json \<Rightarrow> (string \<times> json) list \<Rightarrow> (string \<times> json) list" where
  "obj_set k v [] = [(k, v)]"
| "obj_set k v ((k', v') # kvs) =
     (if k = k' then (k, v) # kvs
      else if k < k' then (k, v) # (k', v') # kvs
      else (k', v') # obj_set k v kvs)"

text \<open>\<^verbatim>\<open>json.at(k)\<close>.\<close>

definition json_at :: "json \<Rightarrow> string \<Rightarrow> json result" where
  "json_at j k = (case j of
       JObj kvs \<Rightarrow> (case map_of kvs k of Some v \<Rightarrow> ok v | None \<Rightarrow> Inl OutOfRange)
     | _ \<Rightarrow> Inl TypeError)"

definition get_string :: "json \<Rightarrow> string result" where
  "get_string j = (case j of JStr s \<Rightarrow> ok s | _ \<Rightarrow> Inl TypeError)"

text \<open>The conversion of a \<^verbatim>\<open>double\<close> to \<^verbatim>\<open>std::int64_t\<close>, towards zero, from its sign, exponent
  and fraction bits (for a value that the integer type can hold).\<close>

definition double_to_int :: "64 word \<Rightarrow> int" where
  "double_to_int w =
     (let e = unat (and (drop_bit 52 w) 0x7FF);
          f = uint (and w 0xFFFFFFFFFFFFF);
          m = (if e = 0 then f else f + 2 ^ 52);
          n = (if 1075 \<le> e then m * 2 ^ (e - 1075) else m div 2 ^ (1075 - e))
      in if bit w 63 then - n else n)"

text \<open>\<^verbatim>\<open>json.get<std::int64_t>()\<close>.\<close>

definition get_int :: "json \<Rightarrow> int result" where
  "get_int j = (case j of JInt i \<Rightarrow> ok i | JFloat w \<Rightarrow> ok (double_to_int w) | _ \<Rightarrow> Inl TypeError)"

text \<open>\<^verbatim>\<open>json.value(json_pointer{"/k"}, def)\<close>, with \<^term>\<open>g\<close> the conversion to the type of
  the default.\<close>

definition json_value :: "(json \<Rightarrow> 'a result) \<Rightarrow> json \<Rightarrow> string \<Rightarrow> 'a \<Rightarrow> 'a result" where
  "json_value g j k d = (case j of
       JObj kvs \<Rightarrow> (case map_of kvs k of Some v \<Rightarrow> g v | None \<Rightarrow> ok d)
     | _ \<Rightarrow> Inl TypeError)"

definition is_object :: "json \<Rightarrow> bool" where
  "is_object j = (case j of JObj _ \<Rightarrow> True | _ \<Rightarrow> False)"

text \<open>A well-formed document: every object lists its keys in increasing order, as
  \<^verbatim>\<open>std::map\<close> does.\<close>

fun wf_json :: "json \<Rightarrow> bool" where
  "wf_json (JArr js) = (\<forall>j \<in> set js. wf_json j)"
| "wf_json (JObj kvs) = (sorted_wrt (<) (map fst kvs) \<and> (\<forall>(k, j) \<in> set kvs. wf_json j))"
| "wf_json j = True"

text \<open>A document without floating-point numbers.\<close>

fun float_free :: "json \<Rightarrow> bool" where
  "float_free (JFloat _) = False"
| "float_free (JArr js) = (\<forall>j \<in> set js. float_free j)"
| "float_free (JObj kvs) = (\<forall>(k, j) \<in> set kvs. float_free j)"
| "float_free j = True"

text \<open>A document whose floating-point numbers are neither infinite nor \<^verbatim>\<open>NaN\<close>, which have all bits of the
  exponent set.\<close>

definition finite_double :: "64 word \<Rightarrow> bool" where
  "finite_double w \<longleftrightarrow> and (drop_bit 52 w) 0x7FF \<noteq> 0x7FF"

fun finite_json :: "json \<Rightarrow> bool" where
  "finite_json (JFloat w) = finite_double w"
| "finite_json (JArr js) = (\<forall>j \<in> set js. finite_json j)"
| "finite_json (JObj kvs) = (\<forall>(k, j) \<in> set kvs. finite_json j)"
| "finite_json j = True"

lemma float_free_finite: "float_free j \<Longrightarrow> finite_json j"
proof (induction j)
  case (JObj kvs)
  then show ?case by fastforce
qed auto

section \<open>The functions of the libraries\<close>

text \<open>
  \<^verbatim>\<open>boost::algorithm::hex_lower\<close> and \<^verbatim>\<open>boost::algorithm::unhex\<close> (\<^term>\<open>None\<close> for a
  \<^verbatim>\<open>hex_decode_error\<close>), \<^verbatim>\<open>nlohmann::json::dump\<close> (\<^term>\<open>None\<close> for the exception on a string
  that is not UTF-8) and \<^verbatim>\<open>parse\<close> (\<^term>\<open>None\<close> for a discarded value), the \<^verbatim>\<open>cjson\<close> and
  \<^verbatim>\<open>cmsgpack\<close> modules of the Redis scripting engine. \<^verbatim>\<open>cmsgpack.unpack\<close> gives the first two values of its
  argument, each of which may be nil, or raises an error.
\<close>

record extlib =
  hex_lower :: "string \<Rightarrow> string"
  unhex :: "string \<Rightarrow> string option"
  json_dump :: "json \<Rightarrow> string option"
  json_parse :: "string \<Rightarrow> json option"
  cjson_encode :: "json \<Rightarrow> string"
  cjson_decode :: "string \<Rightarrow> json option"
  msgpack_pack :: "string \<Rightarrow> string \<Rightarrow> string"
  msgpack_unpack :: "string \<Rightarrow> (string option \<times> string option) option"

definition hex_lower_digits :: string where
  "hex_lower_digits = ''0123456789abcdef''"

definition hex_digits :: string where
  "hex_digits = hex_lower_digits @ ''ABCDEF''"

text \<open>The two lower-case hexadecimal digits of a byte.\<close>

definition byte_hex :: "char \<Rightarrow> string" where
  "byte_hex c = [hex_lower_digits ! (of_char c div 16), hex_lower_digits ! (of_char c mod 16)]"

lemma of_char_less_256 [simp]: "(of_char c :: nat) < 256"
  using of_char_mod_256 [of c, where ?'a = nat] by (metis mod_less_divisor zero_less_numeral)

lemma hex_lower_digit_mem: "n < 16 \<Longrightarrow> hex_lower_digits ! n \<in> set hex_lower_digits"
  by (rule nth_mem) (simp add: hex_lower_digits_def)

lemma set_byte_hex: "set (byte_hex c) \<subseteq> set hex_lower_digits"
proof -
  have "(of_char c :: nat) div 16 < 16" using of_char_less_256 [of c] by linarith
  then show ?thesis by (simp add: byte_hex_def hex_lower_digit_mem)
qed

lemma length_concat_byte_hex: "length (concat (map byte_hex s)) = 2 * length s"
  by (induction s) (auto simp: byte_hex_def)

text \<open>What the documentation of Boost.Algorithm says of the two functions.\<close>

locale hex_codec =
  fixes L :: extlib
  assumes hex_lower_bytes: "hex_lower L s = concat (map byte_hex s)"
    and unhex_hex_lower: "unhex L (hex_lower L s) = Some s"
    and unhex_defined: "(\<exists>r. unhex L s = Some r) \<longleftrightarrow> even (length s) \<and> set s \<subseteq> set hex_digits"
    and length_unhex: "unhex L s = Some r \<Longrightarrow> length s = 2 * length r"
begin

lemma length_hex_lower: "length (hex_lower L s) = 2 * length s"
  by (simp only: hex_lower_bytes length_concat_byte_hex)

lemma set_hex_lower: "set (hex_lower L s) \<subseteq> set hex_lower_digits"
  using set_byte_hex by (auto simp: hex_lower_bytes)

lemma hex_lower_inject: "hex_lower L s = hex_lower L t \<longleftrightarrow> s = t"
  by (metis option.inject unhex_hex_lower)

lemma hex_lower_in_hex_digits: "set (hex_lower L s) \<subseteq> set hex_digits"
  using set_hex_lower [of s] by (auto simp: hex_digits_def)

end

text \<open>A document that the Lua interpreter of the database keeps: no array and no empty object,
  which are the same empty table there, and integers that a \<^verbatim>\<open>double\<close> printed with 14 digits
  keeps.\<close>

fun lua_safe :: "json \<Rightarrow> bool" where
  "lua_safe (JInt i) = (\<bar>i\<bar> < 10 ^ 14)"
| "lua_safe (JFloat _) = False"
| "lua_safe (JArr js) = False"
| "lua_safe (JObj kvs) = (kvs \<noteq> [] \<and> (\<forall>(k, j) \<in> set kvs. lua_safe j))"
| "lua_safe j = True"

text \<open>What the JSON library and the \<^verbatim>\<open>cjson\<close> module promise: a document that is printed reads
  back, its numbers too when they are finite, and \<^verbatim>\<open>nlohmann\<close> reads what \<^verbatim>\<open>cjson\<close> prints. The empty text is no
  document.\<close>

locale json_codec =
  fixes L :: extlib
  assumes parse_dump_finite: "json_dump L j = Some s \<Longrightarrow> wf_json j \<Longrightarrow> finite_json j \<Longrightarrow> json_parse L s = Some j"
    and cjson_decode_encode: "wf_json j \<Longrightarrow> lua_safe j \<Longrightarrow> cjson_decode L (cjson_encode L j) = Some j"
    and parse_cjson_encode: "wf_json j \<Longrightarrow> lua_safe j \<Longrightarrow> json_parse L (cjson_encode L j) = Some j"
    and parse_empty: "json_parse L [] = None"
begin

lemma parse_dump: "json_dump L j = Some s \<Longrightarrow> wf_json j \<Longrightarrow> float_free j \<Longrightarrow> json_parse L s = Some j"
  by (intro parse_dump_finite float_free_finite)

end

text \<open>\<^verbatim>\<open>cmsgpack.unpack\<close> inverts \<^verbatim>\<open>cmsgpack.pack\<close>.\<close>

locale msgpack_codec =
  fixes L :: extlib
  assumes unpack_pack: "msgpack_unpack L (msgpack_pack L a b) = Some (Some a, Some b)"
begin

lemma pack_inject: "msgpack_pack L a b = msgpack_pack L c d \<longleftrightarrow> a = c \<and> b = d"
  by (metis option.inject prod.inject unpack_pack)

end

section \<open>Facts on JSON objects\<close>

lemma map_of_obj_emplace:
  assumes "sorted_wrt (<) (map fst kvs)"
  shows "map_of (obj_emplace k v kvs) x =
    (if x = k \<and> map_of kvs k = None then Some v else map_of kvs x)"
  using assms
proof (induction k v kvs rule: obj_emplace.induct)
  case (2 k v k' v' kvs)
  have "k < k' \<Longrightarrow> map_of kvs k = None"
    using 2(2) by (auto simp: map_of_eq_None_iff dest: less_asym)
  with 2 show ?case by auto
qed auto

lemma keys_obj_emplace: "fst ` set (obj_emplace k v kvs) = insert k (fst ` set kvs)"
  by (induction k v kvs rule: obj_emplace.induct) auto

lemma set_obj_emplace: "set (obj_emplace k v kvs) \<subseteq> insert (k, v) (set kvs)"
  by (induction k v kvs rule: obj_emplace.induct) auto

lemma sorted_obj_emplace:
  "sorted_wrt (<) (map fst kvs) \<Longrightarrow> sorted_wrt (<) (map fst (obj_emplace k v kvs))"
proof (induction k v kvs rule: obj_emplace.induct)
  case (2 k v k' v' kvs)
  show ?case
  proof (cases "k = k' \<or> k < k'")
    case True
    with 2(2) show ?thesis by (auto dest: less_trans)
  next
    case False
    then have lt: "k' < k" by auto
    from 2 False have "sorted_wrt (<) (map fst (obj_emplace k v kvs))" by auto
    moreover have "\<forall>x \<in> fst ` set (obj_emplace k v kvs). k' < x"
      using 2(2) lt by (auto simp: keys_obj_emplace simp del: image_iff)
    ultimately show ?thesis using False by auto
  qed
qed auto

end
