(* ===== verification/Escape.thy ===== *)
theory Escape
  imports External
begin

text \<open>
  \<^verbatim>\<open>src/common/util/Escape.cc\<close> and \<^verbatim>\<open>Escape.hh\<close>: percent-encoding of URLs, hexadecimal
  encoding of byte arrays, and the functions that split a \<^verbatim>\<open>string_view&\<close> at a delimiter. A
  function that shortens its argument returns the shortened view as the last component.
\<close>

section \<open>Percent-encoding\<close>

definition is_unreserved :: "char \<Rightarrow> bool" where
  "is_unreserved c = (c \<in> set (
     ''0123456789'' @
     ''abcdefghijklmnopqrstuvwxyz'' @
     ''ABCDEFGHIJKLMNOPQRSTUVWXYZ'' @
     ''-._~''))"

definition need_escape :: "char \<Rightarrow> bool" where
  "need_escape c =
     (if is_unreserved c then False
      else c \<notin> set (''!$&()'' @ [CHR 0x27] @ ''*+,;='' @ '':@/''))"

definition hex_digit :: "char \<Rightarrow> nat option" where
  "hex_digit c =
     (if CHR ''0'' \<le> c \<and> c \<le> CHR ''9'' then Some (of_char c - 48)
      else if CHR ''A'' \<le> c \<and> c \<le> CHR ''F'' then Some (of_char c - 65 + 10)
      else if CHR ''a'' \<le> c \<and> c \<le> CHR ''f'' then Some (of_char c - 97 + 10)
      else None)"

text \<open>The product is computed as an \<^verbatim>\<open>int\<close> and stored into a \<^verbatim>\<open>char\<close>.\<close>

definition from_hex :: "char \<Rightarrow> char \<Rightarrow> char option" where
  "from_hex msb lsb = (case (hex_digit msb, hex_digit lsb) of
       (Some big, Some sml) \<Rightarrow> Some (char_of (big * 16 + sml))
     | _ \<Rightarrow> None)"

definition hex_upper_digits :: string where
  "hex_upper_digits = ''0123456789ABCDEF''"

fun url_encode :: "string \<Rightarrow> string" where
  "url_encode [] = []"
| "url_encode (c # cs) =
     (if need_escape c then
        CHR ''%'' # hex_upper_digits ! ((of_char c div 16) mod 16)
                 # hex_upper_digits ! (of_char c mod 16) # url_encode cs
      else c # url_encode cs)"

fun url_decode :: "string \<Rightarrow> string" where
  "url_decode [] = []"
| "url_decode (c # cs) =
     (if c \<noteq> CHR ''%'' then c # url_decode cs
      else (case cs of
          a # b # rest \<Rightarrow> (case from_hex a b of None \<Rightarrow> [] | Some ch \<Rightarrow> ch # url_decode rest)
        | _ \<Rightarrow> []))"

section \<open>Splitting\<close>

definition split_left :: "string \<Rightarrow> string \<Rightarrow> string \<times> char \<times> string" where
  "split_left inp value =
     (let location = find_first_of inp value;
          result = (case location of None \<Rightarrow> inp | Some i \<Rightarrow> take i inp);
          inp' = drop (length result) inp
      in case location of
           None \<Rightarrow> (result, CHR 0x00, inp')
         | Some _ \<Rightarrow> (result, hd inp', tl inp'))"

definition split_right :: "string \<Rightarrow> string \<Rightarrow> string \<times> char \<times> string" where
  "split_right inp value =
     (let location = find_last_of inp value;
          result = (case location of None \<Rightarrow> inp | Some i \<Rightarrow> drop i inp);
          inp' = take (length inp - length result) inp
      in case location of
           None \<Rightarrow> (result, CHR 0x00, inp')
         | Some _ \<Rightarrow> (tl result, hd result, inp'))"

definition split_front_substring :: "string \<Rightarrow> string \<Rightarrow> string \<times> string" where
  "split_front_substring inp substring =
     (let location = find_sub inp substring;
          result = (case location of None \<Rightarrow> inp | Some i \<Rightarrow> take i inp);
          inp' = drop (length result) inp
      in case location of
           None \<Rightarrow> (result, inp')
         | Some _ \<Rightarrow> (result, drop (length substring) inp'))"

text \<open>\<^verbatim>\<open>parse_token<index>\<close> fills the tuple from \<^verbatim>\<open>index\<close> to its size \<^verbatim>\<open>count\<close>; the argument
  here is the number of components still to fill.\<close>

fun parse_token :: "nat \<Rightarrow> string \<Rightarrow> string \<Rightarrow> string list" where
  "parse_token 0 remain value = []"
| "parse_token (Suc n) remain value =
     (case split_left remain value of (tok, _, remain') \<Rightarrow> tok # parse_token n remain' value)"

definition tokenize :: "nat \<Rightarrow> string \<Rightarrow> string \<Rightarrow> string list" where
  "tokenize count remain value = parse_token count remain value"

section \<open>Hexadecimal\<close>

definition to_hex :: "extlib \<Rightarrow> string \<Rightarrow> string" where
  "to_hex L arr = hex_lower L arr"

definition to_quoted_hex :: "extlib \<Rightarrow> string \<Rightarrow> string" where
  "to_quoted_hex L arr = CHR 0x22 # hex_lower L arr @ [CHR 0x22]"

definition hex_to_array :: "extlib \<Rightarrow> nat \<Rightarrow> string \<Rightarrow> string option" where
  "hex_to_array L N hex = (if length hex = N * 2 then unhex L hex else None)"

section \<open>Percent-encoding: facts\<close>

lemma hex_digit_upper: "n < 16 \<Longrightarrow> hex_digit (hex_upper_digits ! n) = Some n"
proof -
  have "\<forall>n < 16. hex_digit (hex_upper_digits ! n) = Some n"
    unfolding hex_upper_digits_def by code_simp
  then show "n < 16 \<Longrightarrow> hex_digit (hex_upper_digits ! n) = Some n" by blast
qed

lemma from_hex_upper:
  "from_hex (hex_upper_digits ! ((of_char c div 16) mod 16)) (hex_upper_digits ! (of_char c mod 16)) = Some c"
proof -
  have "(of_char c :: nat) div 16 < 16" using of_char_less_256 [of c] by linarith
  then show ?thesis
    by (simp add: from_hex_def hex_digit_upper)
qed

lemma need_escape_percent [simp]: "need_escape CHR ''%''"
  by (simp add: need_escape_def is_unreserved_def)

lemma url_decode_encode_append: "url_decode (url_encode s @ t) = s @ url_decode t"
proof (induction s)
  case (Cons c s)
  then show ?case
    by (cases "need_escape c") (auto simp: from_hex_upper)
qed simp

lemma url_decode_encode: "url_decode (url_encode s) = s"
  using url_decode_encode_append [of s "[]"] by simp

lemma url_encode_append [str_simps]: "url_encode (s @ t) = url_encode s @ url_encode t"
  by (induction s) auto

lemma hex_upper_digit_no_escape: "n < 16 \<Longrightarrow> \<not> need_escape (hex_upper_digits ! n)"
proof -
  have "\<forall>n < 16. \<not> need_escape (hex_upper_digits ! n)"
    unfolding hex_upper_digits_def by code_simp
  then show "n < 16 \<Longrightarrow> \<not> need_escape (hex_upper_digits ! n)" by blast
qed

text \<open>The output holds only characters that need no escape, and the escape character itself.\<close>

lemma set_url_encode: "c \<in> set (url_encode s) \<Longrightarrow> c = CHR ''%'' \<or> \<not> need_escape c"
  by (induction s) (auto simp: hex_upper_digit_no_escape split: if_splits)

lemma url_encode_id: "(\<And>c. c \<in> set s \<Longrightarrow> \<not> need_escape c) \<Longrightarrow> url_encode s = s"
  by (induction s) auto

lemma url_encode_eq_Nil [simp]: "url_encode s = [] \<longleftrightarrow> s = []"
  by (cases s) auto

lemma hex_upper_digit_not_slash: "n < 16 \<Longrightarrow> CHR ''/'' \<noteq> hex_upper_digits ! n"
proof -
  have "\<forall>n < 16. CHR ''/'' \<noteq> hex_upper_digits ! n"
    unfolding hex_upper_digits_def by code_simp
  then show "n < 16 \<Longrightarrow> CHR ''/'' \<noteq> hex_upper_digits ! n" by blast
qed

lemma slash_in_url_encode:
  "CHR ''/'' \<in> set (url_encode s) \<longleftrightarrow> CHR ''/'' \<in> set s"
proof (induction s)
  case (Cons c s)
  have "\<not> need_escape CHR ''/''" by (simp add: need_escape_def)
  with Cons show ?case by (auto simp: hex_upper_digit_not_slash)
qed simp

lemma url_decode_no_percent: "CHR ''%'' \<notin> set s \<Longrightarrow> url_decode s = s"
  by (induction s) auto

section \<open>Splitting: facts\<close>

lemma split_left_None [str_simps]:
  "set s \<inter> set v = {} \<Longrightarrow> split_left s v = (s, CHR 0x00, [])"
  by (simp add: split_left_def find_first_of_None [THEN iffD2])

lemma split_left_Some [str_simps]:
  "\<lbrakk>set s \<inter> set v = {}; c \<in> set v\<rbrakk> \<Longrightarrow> split_left (s @ c # t) v = (s, c, t)"
  by (simp add: split_left_def find_first_of_append)

lemma split_left_cases:
  obtains (none) "set s \<inter> set v = {}" "split_left s v = (s, CHR 0x00, [])"
  | (hit) a c t where "s = a @ c # t" "set a \<inter> set v = {}" "c \<in> set v" "split_left s v = (a, c, t)"
proof (cases "find_first_of s v")
  case None
  then have "set s \<inter> set v = {}" by (simp add: find_first_of_None)
  then show ?thesis by (rule none) (simp add: split_left_None \<open>set s \<inter> set v = {}\<close>)
next
  case (Some i)
  then have i: "i < length s" "s ! i \<in> set v" "set (take i s) \<inter> set v = {}"
    by (auto simp: find_first_of_Some)
  then have s: "s = take i s @ s ! i # drop (Suc i) s" by (simp add: id_take_nth_drop)
  show ?thesis
    by (rule hit [OF s i(3) i(2)]) (metis i(2,3) s split_left_Some)
qed

lemma split_right_None [str_simps]:
  "set s \<inter> set v = {} \<Longrightarrow> split_right s v = (s, CHR 0x00, [])"
  by (simp add: split_right_def find_last_of_None [THEN iffD2])

lemma split_right_Some [str_simps]:
  "\<lbrakk>set t \<inter> set v = {}; c \<in> set v\<rbrakk> \<Longrightarrow> split_right (s @ c # t) v = (t, c, s)"
  by (simp add: split_right_def find_last_of_append)

lemma split_right_cases:
  obtains (none) "set s \<inter> set v = {}" "split_right s v = (s, CHR 0x00, [])"
  | (hit) a c t where "s = a @ c # t" "set t \<inter> set v = {}" "c \<in> set v" "split_right s v = (t, c, a)"
proof (cases "find_last_of s v")
  case None
  then have "set s \<inter> set v = {}" by (simp add: find_last_of_None)
  then show ?thesis by (rule none) (simp add: split_right_None \<open>set s \<inter> set v = {}\<close>)
next
  case (Some i)
  then have i: "i < length s" "s ! i \<in> set v" "set (drop (Suc i) s) \<inter> set v = {}"
    by (auto simp: find_last_of_Some)
  then have s: "s = take i s @ s ! i # drop (Suc i) s" by (simp add: id_take_nth_drop)
  show ?thesis
    by (rule hit [OF s i(3) i(2)]) (metis i(2,3) s split_right_Some)
qed

lemma split_left_length: "split_left s v = (a, c, t) \<Longrightarrow> length t \<le> length s"
  by (cases rule: split_left_cases [of s v]) auto

lemma split_left_less: "split_left s v = (a, c, t) \<Longrightarrow> s \<noteq> [] \<Longrightarrow> length t < length s"
  by (cases rule: split_left_cases [of s v]) auto

lemma split_front_substring_spec:
  assumes "split_front_substring s sub = (a, r)"
  shows "s = a @ sub @ r \<or> (a = s \<and> r = [] \<and> (\<nexists>x y. s = x @ sub @ y))"
proof (cases "find_sub s sub")
  case None
  with assms show ?thesis by (auto simp: split_front_substring_def dest: find_sub_None)
next
  case (Some i)
  then have "s = take i s @ sub @ drop (i + length sub) s" and "i + length sub \<le> length s"
    by (auto dest: find_sub_Some)
  then show ?thesis using assms Some
    by (auto simp: split_front_substring_def add.commute)
qed

lemma length_tokenize: "length (tokenize n s v) = n"
  unfolding tokenize_def by (induction n arbitrary: s) (auto split: prod.splits)

section \<open>Hexadecimal: facts\<close>

context hex_codec
begin

lemma hex_to_array_to_hex: "length arr = N \<Longrightarrow> hex_to_array L N (to_hex L arr) = Some arr"
  by (simp add: hex_to_array_def to_hex_def length_hex_lower unhex_hex_lower)

lemma hex_to_array_length: "hex_to_array L N hex = Some arr \<Longrightarrow> length arr = N"
  by (auto simp: hex_to_array_def split: if_splits dest: length_unhex)

lemma hex_to_array_defined:
  "(\<exists>arr. hex_to_array L N hex = Some arr) \<longleftrightarrow> length hex = N * 2 \<and> set hex \<subseteq> set hex_digits"
  using unhex_defined [of hex] by (auto simp: hex_to_array_def)

lemma to_hex_inject: "to_hex L a = to_hex L b \<longleftrightarrow> a = b"
  by (simp add: to_hex_def hex_lower_inject)

lemma length_to_hex: "length (to_hex L a) = 2 * length a"
  by (simp add: to_hex_def length_hex_lower)

end

end
