(* ===== verification/String_Fields.thy ===== *)
theory String_Fields
  imports Escape
begin

text \<open>
  \<^verbatim>\<open>src/common/util/StringFields.hh\<close>, \<^verbatim>\<open>RepeatingTuple.hh\<close> and \<^verbatim>\<open>Cookie.cc\<close>: the parser of
  \<^verbatim>\<open>name=value\<close> lists that reads URL queries, form bodies and cookies. The result tuple of
  \<^verbatim>\<open>basic_find\<close> is a list with one component per requested field.
\<close>

section \<open>StringFields\<close>

record string_fields =
  all_delims :: string
  kv_delims :: string
  trim_space :: bool

text \<open>\<^verbatim>\<open>match_index<ResultTuple, remain>()\<close>.\<close>

definition match_index :: "nat \<Rightarrow> nat \<Rightarrow> nat" where
  "match_index tuple_size remain = tuple_size - remain - 1"

fun match_field :: "'v list \<Rightarrow> string \<Rightarrow> 'v \<Rightarrow> string list \<Rightarrow> 'v list" where
  "match_field result name value [] = result"
| "match_field result name value (field # remain) =
     (if name = field then result[match_index (length result) (length remain) := value]
      else match_field result name value remain)"

text \<open>One round of the loop of \<^verbatim>\<open>basic_find\<close>: the name, the value and what remains.\<close>

definition next_field :: "string_fields \<Rightarrow> string \<Rightarrow> string \<times> string \<times> string" where
  "next_field sf remain =
     (case split_left remain (all_delims sf) of (name, match, remain1) \<Rightarrow>
        (case (if match = CHR ''='' then split_left remain1 (kv_delims sf) else ([], CHR 0x00, remain1))
         of (value, _, remain2) \<Rightarrow>
           (if trim_space sf then trim_both isspace name else name, value, remain2)))"

lemma next_field_less:
  assumes "next_field sf remain = (name, value, remain')" and "remain \<noteq> []"
  shows "length remain' < length remain"
proof -
  obtain a c t where sl: "split_left remain (all_delims sf) = (a, c, t)" by (metis prod_cases3)
  then have "length t < length remain" using assms(2) by (rule split_left_less)
  moreover have "length remain' \<le> length t"
    using assms(1) sl by (auto simp: next_field_def split: prod.splits if_splits dest: split_left_length)
  ultimately show ?thesis by simp
qed

text \<open>\<^verbatim>\<open>basic_find<OutType>\<close>: \<^term>\<open>conv\<close> is the conversion of a view to \<^verbatim>\<open>OutType\<close>.\<close>

function find_loop ::
  "string_fields \<Rightarrow> (string \<Rightarrow> 'o) \<Rightarrow> string list \<Rightarrow> 'o list \<Rightarrow> string \<Rightarrow> 'o list" where
  "find_loop sf conv fs result remain =
     (if remain = [] then result
      else (case next_field sf remain of (name, value, remain') \<Rightarrow>
        find_loop sf conv fs (match_field result name (conv value) fs) remain'))"
  by pat_completeness auto
termination
  by (relation "measure (\<lambda>(_, _, _, _, remain). length remain)") (auto dest: next_field_less [OF sym])

declare find_loop.simps [simp del]

definition basic_find ::
  "string_fields \<Rightarrow> (string \<Rightarrow> 'o) \<Rightarrow> 'o \<Rightarrow> string \<Rightarrow> string list \<Rightarrow> 'o list" where
  "basic_find sf conv init remain fs =
     find_loop sf conv fs (replicate (length fs) init) remain"

definition find_fields :: "string_fields \<Rightarrow> string \<Rightarrow> string list \<Rightarrow> string list" where
  "find_fields sf remain fs = basic_find sf (\<lambda>v. v) [] remain fs"

definition find_optional :: "string_fields \<Rightarrow> string \<Rightarrow> string list \<Rightarrow> string option list" where
  "find_optional sf remain fs = basic_find sf Some None remain fs"

definition urlform :: string_fields where
  "urlform = \<lparr>all_delims = ''=;&'', kv_delims = '';&'', trim_space = False\<rparr>"

section \<open>Cookie\<close>

text \<open>A cookie is its header text and the cached expiry time in nanoseconds.\<close>

record cookie =
  m_cookie :: string
  m_expires :: "int option"

definition cookie_fields :: string_fields where
  "cookie_fields = \<lparr>all_delims = ''=;'', kv_delims = '';'', trim_space = True\<rparr>"

definition Cookie :: "string \<Rightarrow> cookie" where
  "Cookie header = \<lparr>m_cookie = header, m_expires = None\<rparr>"

definition cookie_field :: "cookie \<Rightarrow> string \<Rightarrow> string" where
  "cookie_field c ident = find_fields cookie_fields (m_cookie c) [ident] ! 0"

definition cookie_add :: "string \<Rightarrow> string \<Rightarrow> cookie \<Rightarrow> cookie" where
  "cookie_add ident value c =
     (let s0 = (if m_cookie c \<noteq> [] then m_cookie c @ ''; '' else m_cookie c);
          s1 = s0 @ ident;
          s2 = (if value \<noteq> [] then s1 @ ''='' @ value else s1)
      in c\<lparr>m_cookie := s2\<rparr>)"

definition cookie_has :: "cookie \<Rightarrow> string \<Rightarrow> bool" where
  "cookie_has c ident = (find_optional cookie_fields (m_cookie c) [ident] ! 0 \<noteq> None)"

section \<open>The list of fields of a text\<close>

text \<open>The specification: a text is a list of pairs, and a field has the value of the last pair
  with its name.\<close>

function fields_of :: "string_fields \<Rightarrow> string \<Rightarrow> (string \<times> string) list" where
  "fields_of sf remain =
     (if remain = [] then []
      else (case next_field sf remain of (name, value, remain') \<Rightarrow> (name, value) # fields_of sf remain'))"
  by pat_completeness auto
termination
  by (relation "measure (\<lambda>(_, remain). length remain)") (auto dest: next_field_less [OF sym])

declare fields_of.simps [simp del]

definition last_value :: "string_fields \<Rightarrow> string \<Rightarrow> string \<Rightarrow> string option" where
  "last_value sf s f = map_of (rev (fields_of sf s)) f"

lemma fields_of_Nil [simp]: "fields_of sf [] = []"
  by (simp add: fields_of.simps)

lemma find_loop_fold:
  "find_loop sf conv fs result s =
     fold (\<lambda>(name, value) r. match_field r name (conv value) fs) (fields_of sf s) result"
proof (induction sf conv fs result s rule: find_loop.induct)
  case (1 sf conv fs result remain)
  show ?case
  proof (cases "remain = []")
    case True
    then show ?thesis by (simp add: find_loop.simps)
  next
    case False
    obtain n v r where nf: "next_field sf remain = (n, v, r)" by (metis prod_cases3)
    have "find_loop sf conv fs (match_field result n (conv v) fs) r =
        fold (\<lambda>(name, value) ra. match_field ra name (conv value) fs) (fields_of sf r)
          (match_field result n (conv v) fs)"
      using "1.IH" False nf by auto
    then show ?thesis
      using False nf by (simp add: find_loop.simps [of _ _ _ _ remain] fields_of.simps [of _ remain])
  qed
qed

lemma length_match_field [simp]: "length (match_field r n v fs) = length r"
  by (induction fs) auto

lemma match_field_left:
  "i < length r - length gs \<Longrightarrow> match_field r n v gs ! i = r ! i"
  by (induction gs) (auto simp: match_index_def nth_list_update)

lemma match_field_right:
  assumes "distinct gs" and "length gs \<le> length r" and "k < length gs"
  shows "match_field r n v gs ! (length r - length gs + k) =
    (if n = gs ! k then v else r ! (length r - length gs + k))"
  using assms
proof (induction gs arbitrary: k)
  case (Cons g gs)
  show ?case
  proof (cases k)
    case 0
    with Cons.prems show ?thesis by (auto simp: match_index_def match_field_left)
  next
    case (Suc j)
    have eq: "length r - length (g # gs) + k = length r - length gs + j"
      using Cons.prems Suc by simp
    have "gs ! j \<noteq> g" using Cons.prems Suc nth_mem [of j gs] by auto
    with Cons Suc show ?thesis unfolding eq by (auto simp: match_index_def nth_list_update)
  qed
qed simp

lemma match_field_nth:
  assumes "distinct fs" and "length r = length fs" and "i < length fs"
  shows "match_field r n v fs ! i = (if n = fs ! i then v else r ! i)"
  using match_field_right [of fs r i] assms by simp

lemma length_find_fold [simp]:
  "length (fold (\<lambda>(name, value) r. match_field r name (conv value) fs) ps r) = length r"
  by (induction ps arbitrary: r) auto

lemma find_fold_nth:
  assumes "distinct fs" and "length r = length fs" and "i < length fs"
  shows "fold (\<lambda>(name, value) r. match_field r name (conv value) fs) ps r ! i =
    (case map_of (rev ps) (fs ! i) of None \<Rightarrow> r ! i | Some v \<Rightarrow> conv v)"
  using assms(2)
proof (induction ps arbitrary: r)
  case (Cons p ps)
  obtain n v where p: "p = (n, v)" by (cases p)
  have "fold (\<lambda>(name, value) r. match_field r name (conv value) fs) (p # ps) r ! i =
      (case map_of (rev ps) (fs ! i) of None \<Rightarrow> match_field r n (conv v) fs ! i | Some v \<Rightarrow> conv v)"
    using Cons by (simp add: p)
  also have "match_field r n (conv v) fs ! i = (if n = fs ! i then conv v else r ! i)"
    using assms(1,3) Cons.prems by (intro match_field_nth)
  finally show ?case
    by (auto simp: p map_add_def split: option.splits)
qed simp

lemma basic_find_nth:
  assumes "distinct fs" and "i < length fs"
  shows "basic_find sf conv init s fs ! i =
    (case last_value sf s (fs ! i) of None \<Rightarrow> init | Some v \<Rightarrow> conv v)"
  using assms by (simp add: basic_find_def find_loop_fold find_fold_nth last_value_def split: option.splits)

lemma find_fields_nth:
  "\<lbrakk>distinct fs; i < length fs\<rbrakk> \<Longrightarrow>
   find_fields sf s fs ! i = (case last_value sf s (fs ! i) of None \<Rightarrow> [] | Some v \<Rightarrow> v)"
  by (simp add: find_fields_def basic_find_nth)

lemma find_optional_nth:
  "\<lbrakk>distinct fs; i < length fs\<rbrakk> \<Longrightarrow> find_optional sf s fs ! i = last_value sf s (fs ! i)"
  by (simp add: find_optional_def basic_find_nth split: option.splits)

lemma length_basic_find [simp]: "length (basic_find sf conv init s fs) = length fs"
  by (simp add: basic_find_def find_loop_fold)

section \<open>Texts that are put together\<close>

text \<open>Appending one more item after a delimiter adds its pairs; a doubled delimiter shows up as a
  pair with an empty name.\<close>

locale field_syntax =
  fixes sf :: string_fields
  assumes eq_delim: "CHR ''='' \<in> set (all_delims sf)"
    and eq_not_kv: "CHR ''='' \<notin> set (kv_delims sf)"
    and kv_subset: "set (kv_delims sf) \<subseteq> set (all_delims sf)"

lemma trim_both_Nil [simp]: "trim_both p [] = []"
  by (simp add: trim_both_def)

abbreviation trimmed :: "string_fields \<Rightarrow> string \<Rightarrow> string" where
  "trimmed sf n \<equiv> (if trim_space sf then trim_both isspace n else n)"

lemma fields_of_step:
  "s \<noteq> [] \<Longrightarrow> next_field sf s = (n, v, r) \<Longrightarrow> fields_of sf s = (n, v) # fields_of sf r"
  by (simp add: fields_of.simps)

context field_syntax
begin

text \<open>How the text continues after \<^term>\<open>s\<close> does not change the fields of \<^term>\<open>s\<close>.\<close>

lemma next_field_append:
  assumes d: "d \<in> set (kv_delims sf)" and s: "s \<noteq> []"
    and nf: "next_field sf s = (n, v, r)"
  shows "next_field sf (s @ d # t) = (n, v, t) \<and> r = [] \<or> next_field sf (s @ d # t) = (n, v, r @ d # t)"
proof -
  have dall: "d \<in> set (all_delims sf)" and deq: "d \<noteq> CHR ''=''"
    using d eq_not_kv kv_subset by auto
  show ?thesis
  proof (cases rule: split_left_cases [of s "all_delims sf"])
    case none
    with nf dall deq show ?thesis by (auto simp: next_field_def split_left_Some)
  next
    case (hit a c s1)
    have all: "split_left (s @ d # t) (all_delims sf) = (a, c, s1 @ d # t)"
      using hit split_left_Some [of a "all_delims sf" c "s1 @ d # t"] by simp
    show ?thesis
    proof (cases "c = CHR ''=''")
      case False
      with nf hit all show ?thesis by (auto simp: next_field_def)
    next
      case True
      show ?thesis
      proof (cases rule: split_left_cases [of s1 "kv_delims sf"])
        case none
        with nf hit all True d show ?thesis by (auto simp: next_field_def split_left_Some)
      next
        case hit2: (hit b k s2)
        then have "split_left (s1 @ d # t) (kv_delims sf) = (b, k, s2 @ d # t)"
          using split_left_Some [of b "kv_delims sf" k "s2 @ d # t"] by simp
        with nf hit all True hit2 show ?thesis by (auto simp: next_field_def)
      qed
    qed
  qed
qed

lemma fields_of_append:
  assumes d: "d \<in> set (kv_delims sf)"
  shows "\<exists>e. set e \<subseteq> {([], [])} \<and> fields_of sf (s @ d # t) = fields_of sf s @ e @ fields_of sf t"
proof (induction s rule: length_induct)
  case (1 s)
  show ?case
  proof (cases "s = []")
    case True
    have "split_left (d # t) (all_delims sf) = ([], d, t)"
      using split_left_Some [of "[]" "all_delims sf" d t] d kv_subset by auto
    moreover have "d \<noteq> CHR ''=''" using d eq_not_kv by auto
    ultimately have "next_field sf (d # t) = ([], [], t)" by (simp add: next_field_def)
    then have "fields_of sf (d # t) = [([], [])] @ fields_of sf t" by (simp add: fields_of_step)
    then show ?thesis using True by (intro exI [of _ "[([], [])]"]) simp
  next
    case False
    obtain n v r where nf: "next_field sf s = (n, v, r)" by (metis prod_cases3)
    have fs: "fields_of sf s = (n, v) # fields_of sf r" using False nf by (rule fields_of_step)
    from next_field_append [OF d False nf, of t] show ?thesis
    proof (elim disjE conjE)
      assume "next_field sf (s @ d # t) = (n, v, t)" and "r = []"
      then show ?thesis by (intro exI [of _ "[]"]) (simp add: fields_of_step fs)
    next
      assume "next_field sf (s @ d # t) = (n, v, r @ d # t)"
      then have "fields_of sf (s @ d # t) = (n, v) # fields_of sf (r @ d # t)" by (simp add: fields_of_step)
      moreover have "length r < length s" using nf False by (rule next_field_less)
      ultimately show ?thesis using "1.IH" by (auto simp: fs)
    qed
  qed
qed

lemma last_value_append:
  assumes "d \<in> set (kv_delims sf)" and "f \<noteq> []"
  shows "last_value sf (s @ d # t) f =
    (case last_value sf t f of Some v \<Rightarrow> Some v | None \<Rightarrow> last_value sf s f)"
proof -
  obtain e where e: "set e \<subseteq> {([], [])}"
    and f: "fields_of sf (s @ d # t) = fields_of sf s @ e @ fields_of sf t"
    using fields_of_append [OF assms(1)] by metis
  have "map_of (rev e) f = None"
    using e assms(2) by (auto simp: map_of_eq_None_iff)
  then show ?thesis
    by (simp add: last_value_def f map_add_def split: option.splits)
qed

lemma fields_of_single:
  assumes "set n \<inter> set (all_delims sf) = {}" and "set v \<inter> set (kv_delims sf) = {}"
  shows "fields_of sf (n @ CHR ''='' # v) = [(trimmed sf n, v)]"
proof -
  have "next_field sf (n @ CHR ''='' # v) = (trimmed sf n, v, [])"
    using assms eq_delim by (simp add: next_field_def split_left_Some split_left_None)
  then show ?thesis by (simp add: fields_of_step)
qed

lemma fields_of_name:
  assumes "set n \<inter> set (all_delims sf) = {}" and "n \<noteq> []"
  shows "fields_of sf n = [(trimmed sf n, [])]"
proof -
  have "next_field sf n = (trimmed sf n, [], [])"
    using assms by (simp add: next_field_def split_left_None)
  then show ?thesis using assms by (simp add: fields_of_step)
qed

end

section \<open>What a text means\<close>

text \<open>The grammar without the parser: the text is cut at the delimiters of the pairs into items, an empty item
  at the very end being left out; the name of an item is what stands before its first \<^verbatim>\<open>=\<close>, for cookies without
  the blanks around it, and its value is what follows the \<^verbatim>\<open>=\<close>, or empty.\<close>

primrec cut_at :: "string \<Rightarrow> string \<Rightarrow> string list" where
  "cut_at ds [] = [[]]"
| "cut_at ds (c # s) = (if c \<in> set ds then [] # cut_at ds s
     else (case cut_at ds s of [] \<Rightarrow> [[c]] | item # rest \<Rightarrow> (c # item) # rest))"

definition text_items :: "string \<Rightarrow> string \<Rightarrow> string list" where
  "text_items ds s = (if last (cut_at ds s) = [] then butlast (cut_at ds s) else cut_at ds s)"

definition item_name :: "string \<Rightarrow> string" where
  "item_name item = takeWhile (\<lambda>c. c \<noteq> CHR ''='') item"

definition item_value :: "string \<Rightarrow> string" where
  "item_value item = drop 1 (dropWhile (\<lambda>c. c \<noteq> CHR ''='') item)"

lemma cut_at_not_Nil [simp]: "cut_at ds s \<noteq> []"
  by (cases s) (auto split: list.splits)

lemma cut_at_plain: "set s \<inter> set ds = {} \<Longrightarrow> cut_at ds s = [s]"
  by (induction s) auto

lemma cut_at_first: "set a \<inter> set ds = {} \<Longrightarrow> d \<in> set ds \<Longrightarrow> cut_at ds (a @ d # t) = a # cut_at ds t"
  by (induction a) auto

lemma items_plain: "set s \<inter> set ds = {} \<Longrightarrow> text_items ds s = (if s = [] then [] else [s])"
  by (simp add: text_items_def cut_at_plain)

lemma items_first: "set a \<inter> set ds = {} \<Longrightarrow> d \<in> set ds \<Longrightarrow> text_items ds (a @ d # t) = a # text_items ds t"
  by (simp add: text_items_def cut_at_first)

lemma first_equals:
  "CHR ''='' \<notin> set n \<Longrightarrow> takeWhile (\<lambda>c. c \<noteq> CHR ''='') (n @ CHR ''='' # v) = n"
  "CHR ''='' \<notin> set n \<Longrightarrow> dropWhile (\<lambda>c. c \<noteq> CHR ''='') (n @ CHR ''='' # v) = CHR ''='' # v"
  by (induction n) auto

lemma item_cases:
  obtains "CHR ''='' \<notin> set a" "item_name a = a" "item_value a = []"
  | n v where "a = n @ CHR ''='' # v" "CHR ''='' \<notin> set n" "item_name a = n" "item_value a = v"
proof (cases "CHR ''='' \<in> set a")
  case True
  then obtain n v where "a = n @ CHR ''='' # v" "CHR ''='' \<notin> set n" by (meson split_list_first)
  moreover from this have "takeWhile (\<lambda>c. c \<noteq> CHR ''='') a = n" "dropWhile (\<lambda>c. c \<noteq> CHR ''='') a = CHR ''='' # v"
    by (simp_all add: first_equals)
  then have "item_name a = n" "item_value a = v" by (simp_all add: item_name_def item_value_def)
  ultimately show ?thesis by (rule that(2))
next
  case False
  then have "takeWhile (\<lambda>c. c \<noteq> CHR ''='') a = a" "dropWhile (\<lambda>c. c \<noteq> CHR ''='') a = []" by (auto simp: takeWhile_eq_all_conv)
  then have "item_name a = a" "item_value a = []" by (simp_all only: item_name_def item_value_def drop_Nil)
  with False show ?thesis by (rule that(1))
qed

context field_syntax
begin

lemma next_field_item:
  assumes all: "set (all_delims sf) = insert CHR ''='' (set (kv_delims sf))"
    and a: "set a \<inter> set (kv_delims sf) = {}" and d: "d \<in> set (kv_delims sf)"
  shows "next_field sf (a @ d # t) = (trimmed sf (item_name a), item_value a, t)"
proof (cases rule: item_cases [of a])
  case 1
  then have "split_left (a @ d # t) (all_delims sf) = (a, d, t)" using a d by (intro split_left_Some) (auto simp: all)
  then show ?thesis using 1 d eq_not_kv by (auto simp: next_field_def)
next
  case (2 n v)
  then have "split_left (n @ CHR ''='' # (v @ d # t)) (all_delims sf) = (n, CHR ''='', v @ d # t)"
    "split_left (v @ d # t) (kv_delims sf) = (v, d, t)"
    using a d by (intro split_left_Some; auto simp: all)+
  then show ?thesis using 2 by (simp add: next_field_def)
qed

lemma fields_of_plain:
  assumes all: "set (all_delims sf) = insert CHR ''='' (set (kv_delims sf))" and a: "set a \<inter> set (kv_delims sf) = {}" "a \<noteq> []"
  shows "fields_of sf a = [(trimmed sf (item_name a), item_value a)]"
proof (cases rule: item_cases [of a])
  case 1
  then have "set a \<inter> set (all_delims sf) = {}" using a(1) by (auto simp: all)
  from fields_of_name [OF this a(2)] 1 show ?thesis by simp
next
  case (2 n v)
  then have "set n \<inter> set (all_delims sf) = {}" "set v \<inter> set (kv_delims sf) = {}" using a(1) by (auto simp: all)
  from fields_of_single [OF this] 2 show ?thesis by simp
qed

lemma fields_of_items:
  assumes all: "set (all_delims sf) = insert CHR ''='' (set (kv_delims sf))"
  shows "fields_of sf s = map (\<lambda>item. (trimmed sf (item_name item), item_value item)) (text_items (kv_delims sf) s)"
proof (induction s rule: length_induct)
  case (1 s)
  show ?case
  proof (cases rule: split_left_cases [of s "kv_delims sf"])
    case none
    then show ?thesis using fields_of_plain [OF all, of s] by (simp add: items_plain)
  next
    case (hit a d t)
    then have "fields_of sf s = (trimmed sf (item_name a), item_value a) # fields_of sf t"
      using next_field_item [OF all hit(2,3), of t] by (intro fields_of_step) auto
    moreover have "fields_of sf t = map (\<lambda>item. (trimmed sf (item_name item), item_value item)) (text_items (kv_delims sf) t)"
      using 1 hit(1) by simp
    ultimately show ?thesis using hit items_first [OF hit(2,3), of t] by simp
  qed
qed

end

interpretation uf: field_syntax urlform
  by unfold_locales (simp_all add: urlform_def)

interpretation cf: field_syntax cookie_fields
  by unfold_locales (simp_all add: cookie_fields_def)

lemma last_value_items:
  "last_value urlform s f = map_of (rev (map (\<lambda>item. (item_name item, item_value item)) (text_items '';&'' s))) f"
  "last_value cookie_fields s f = map_of (rev (map (\<lambda>item. (trim_both isspace (item_name item), item_value item)) (text_items '';'' s))) f"
  using uf.fields_of_items [of s] cf.fields_of_items [of s] by (simp_all add: last_value_def urlform_def cookie_fields_def insert_commute)

section \<open>Cookies\<close>

text \<open>A name that survives the trimming of the parser.\<close>

definition cookie_name :: "string \<Rightarrow> bool" where
  "cookie_name n \<longleftrightarrow> n \<noteq> [] \<and> set n \<inter> set ''=;'' = {} \<and> \<not> isspace (hd n) \<and> \<not> isspace (last n)"

lemma isspace_space [simp]: "isspace CHR '' ''"
  by (simp add: isspace_def)

lemma trim_cookie_name:
  "cookie_name n \<Longrightarrow> trim_both isspace n = n"
  "cookie_name n \<Longrightarrow> trim_both isspace (CHR '' '' # n) = n"
  using trim_both_id [of n isspace] by (simp_all add: cookie_name_def trim_both_def)

lemma cookie_item:
  assumes "cookie_name n" and "CHR '';'' \<notin> set v"
  shows "fields_of cookie_fields (n @ (if v = [] then [] else ''='' @ v)) = [(n, v)]"
    and "fields_of cookie_fields (CHR '' '' # n @ (if v = [] then [] else ''='' @ v)) = [(n, v)]"
proof -
  have n: "set n \<inter> set (all_delims cookie_fields) = {}"
      "set (CHR '' '' # n) \<inter> set (all_delims cookie_fields) = {}"
    using assms(1) by (auto simp: cookie_name_def cookie_fields_def)
  have v: "set v \<inter> set (kv_delims cookie_fields) = {}" using assms(2) by (simp add: cookie_fields_def)
  have t: "trimmed cookie_fields n = n" "trimmed cookie_fields (CHR '' '' # n) = n"
    using trim_cookie_name [OF assms(1)] by (simp_all add: cookie_fields_def)
  show "fields_of cookie_fields (n @ (if v = [] then [] else ''='' @ v)) = [(n, v)]"
    using cf.fields_of_single [OF n(1) v] cf.fields_of_name [OF n(1)] t assms(1)
    by (simp add: cookie_name_def)
  show "fields_of cookie_fields (CHR '' '' # n @ (if v = [] then [] else ''='' @ v)) = [(n, v)]"
    using cf.fields_of_single [OF n(2) v] cf.fields_of_name [OF n(2)] t by simp
qed

lemma last_value_cookie_add:
  assumes "cookie_name n" and "CHR '';'' \<notin> set v" and "f \<noteq> []"
  shows "last_value cookie_fields (m_cookie (cookie_add n v c)) f =
    (if f = n then Some v else last_value cookie_fields (m_cookie c) f)"
proof (cases "m_cookie c = []")
  case True
  then have "m_cookie (cookie_add n v c) = n @ (if v = [] then [] else ''='' @ v)"
    by (simp add: cookie_add_def)
  then show ?thesis using cookie_item [OF assms(1,2)] True by (simp add: last_value_def)
next
  case False
  then have eq: "m_cookie (cookie_add n v c) =
      m_cookie c @ CHR '';'' # CHR '' '' # n @ (if v = [] then [] else ''='' @ v)"
    by (simp add: cookie_add_def Let_def)
  have "CHR '';'' \<in> set (kv_delims cookie_fields)" by (simp add: cookie_fields_def)
  from cf.last_value_append [OF this assms(3)] show ?thesis
    unfolding eq using cookie_item(2) [OF assms(1,2)] by (simp add: last_value_def)
qed

lemma cookie_field_last: "cookie_field c f = (case last_value cookie_fields (m_cookie c) f of None \<Rightarrow> [] | Some v \<Rightarrow> v)"
  by (simp add: cookie_field_def find_fields_nth)

lemma cookie_has_last: "cookie_has c f \<longleftrightarrow> last_value cookie_fields (m_cookie c) f \<noteq> None"
  by (simp add: cookie_has_def find_optional_nth)

lemma cookie_field_add:
  assumes "cookie_name n" and "CHR '';'' \<notin> set v" and "f \<noteq> []"
  shows "cookie_field (cookie_add n v c) f = (if f = n then v else cookie_field c f)"
  using last_value_cookie_add [OF assms] by (simp add: cookie_field_last)

lemma cookie_has_add:
  assumes "cookie_name n" and "CHR '';'' \<notin> set v" and "f \<noteq> []"
  shows "cookie_has (cookie_add n v c) f \<longleftrightarrow> f = n \<or> cookie_has c f"
  using last_value_cookie_add [OF assms] by (simp add: cookie_has_last)

end
