(* ===== verification/User_ID.thy ===== *)
theory User_ID
  imports String_Fields
begin

text \<open>
  \<^verbatim>\<open>src/common/hrb/UserID.cc\<close> and \<^verbatim>\<open>Permission.cc\<close>: who sends a request, how the session is
  kept in a cookie, and which requester a permission lets in.
\<close>

section \<open>UserID\<close>

type_synonym SessionID = string

definition SessionID_size :: nat where
  "SessionID_size = 16"

definition null_session :: SessionID where
  "null_session = replicate SessionID_size (CHR 0x00)"

record UserID =
  m_session :: SessionID
  m_user :: string
  m_guest :: bool

text \<open>The default constructor, the constructor from a session and the one from a cookie.\<close>

definition no_user :: UserID where
  "no_user = \<lparr>m_session = null_session, m_user = [], m_guest = False\<rparr>"

definition UserID_of :: "SessionID \<Rightarrow> string \<Rightarrow> bool \<Rightarrow> UserID" where
  "UserID_of session user guest =
     \<lparr>m_session = (if user = [] then null_session else session), m_user = user, m_guest = guest\<rparr>"

definition parse_cookie :: "extlib \<Rightarrow> cookie \<Rightarrow> SessionID option" where
  "parse_cookie L c = hex_to_array L SessionID_size (cookie_field c ''id'')"

definition UserID_of_cookie :: "extlib \<Rightarrow> cookie \<Rightarrow> string \<Rightarrow> UserID" where
  "UserID_of_cookie L c user =
     \<lparr>m_session = (case parse_cookie L c of Some s \<Rightarrow> s | None \<Rightarrow> null_session),
      m_user = user, m_guest = False\<rparr>"

text \<open>\<^verbatim>\<open>UserID::valid\<close> with its assertion, which fails (\<^term>\<open>None\<close>) when only one of the session and the user is
  empty, and the value that it returns. The models of its callers use the value; that the assertion holds
  for every user that the server asks is shown in Handler_Properties (\<open>header_user_checked\<close> and
  \<open>body_user_checked\<close>).\<close>

definition valid_checked :: "UserID \<Rightarrow> bool option" where
  "valid_checked u =
     (if (m_session u = null_session) = (m_user u = []) then Some (m_session u \<noteq> null_session \<and> m_user u \<noteq> []) else None)"

definition valid :: "UserID \<Rightarrow> bool" where
  "valid u \<longleftrightarrow> m_session u \<noteq> null_session \<and> m_user u \<noteq> []"

definition user_cookie :: "extlib \<Rightarrow> UserID \<Rightarrow> cookie" where
  "user_cookie L u = cookie_add ''id'' (if valid u then to_hex L (m_session u) else []) (Cookie [])"

definition set_cookie :: "extlib \<Rightarrow> int \<Rightarrow> UserID \<Rightarrow> cookie" where
  "set_cookie L session_length u =
     (let c = cookie_add ''Path'' ''/'' (user_cookie L u) in
      if valid u then
        cookie_add ''Max-Age'' (to_string session_length)
          (cookie_add ''SameSite'' ''Strict'' (cookie_add ''HttpOnly'' [] (cookie_add ''Secure'' [] c)))
      else cookie_add ''Expires'' ''Thu, Jan 01 1970 00:00:00 UTC'' c)"

section \<open>Permission\<close>

datatype Permission = Permission (perm: char)

definition shared_perm :: Permission where "shared_perm = Permission CHR ''+''"
definition public_perm :: Permission where "public_perm = Permission CHR ''*''"
definition private_perm :: Permission where "private_perm = Permission CHR '' ''"

definition allow :: "Permission \<Rightarrow> UserID \<Rightarrow> string \<Rightarrow> bool" where
  "allow p requester owner =
     (if perm p = CHR ''*'' then True
      else if perm p = CHR ''+'' then valid requester \<or> m_guest requester
      else if perm p = CHR '' '' then \<not> m_guest requester \<and> m_user requester = owner
      else False)"

definition description :: "Permission \<Rightarrow> string" where
  "description p =
     (if perm p = CHR ''*'' then ''public''
      else if perm p = CHR ''+'' then ''shared''
      else if perm p = CHR '' '' then ''private''
      else ''acl'')"

definition from_description :: "string \<Rightarrow> Permission" where
  "from_description d =
     (if d = ''public'' then public_perm
      else if d = ''private'' then private_perm
      else if d = ''shared'' then shared_perm
      else Permission CHR '' '')"

lemmas permission_defs = shared_perm_def public_perm_def private_perm_def

section \<open>Facts\<close>

lemma no_semicolon_to_string: "CHR '';'' \<notin> set (to_string i)"
  using set_show_nat by (auto simp: to_string_def)

lemma valid_checked_value: "valid u \<longleftrightarrow> valid_checked u = Some True"
  by (auto simp: valid_def valid_checked_def)

lemma valid_checked_returns: "valid_checked u \<noteq> None \<Longrightarrow> valid_checked u = Some (valid u)"
  by (auto simp: valid_def valid_checked_def split: if_splits)

lemma checked_no_user [simp]: "valid_checked no_user = Some False"
  by (simp add: valid_checked_def no_user_def)

lemma checked_UserID_of: "user = [] \<or> session \<noteq> null_session \<Longrightarrow> valid_checked (UserID_of session user guest) \<noteq> None"
  by (auto simp: valid_checked_def UserID_of_def)

lemma no_user_not_valid [simp]: "\<not> valid no_user"
  by (simp add: valid_def no_user_def)

lemma from_description_description:
  "from_description (description p) = (if description p = ''acl'' then private_perm else p)"
  by (cases p) (auto simp: from_description_def description_def permission_defs)

lemma description_from_description:
  "d \<in> {''public'', ''private'', ''shared''} \<Longrightarrow> description (from_description d) = d"
  by (auto simp: from_description_def description_def permission_defs)

lemma from_description_known: "from_description d \<in> {public_perm, private_perm, shared_perm}"
  by (simp add: from_description_def permission_defs)

context hex_codec
begin

lemma no_semicolon_to_hex: "CHR '';'' \<notin> set (to_hex L s)"
proof -
  have "CHR '';'' \<notin> set hex_lower_digits" by (simp add: hex_lower_digits_def)
  with set_hex_lower [of s] show ?thesis by (auto simp: to_hex_def)
qed

lemma id_user_cookie:
  "cookie_field (user_cookie L u) ''id'' = (if valid u then to_hex L (m_session u) else [])"
  by (simp add: user_cookie_def cookie_field_add cookie_name_def no_semicolon_to_hex isspace_def)

lemma id_set_cookie: "cookie_field (set_cookie L n u) ''id'' = cookie_field (user_cookie L u) ''id''"
  by (simp add: set_cookie_def Let_def cookie_field_add cookie_name_def no_semicolon_to_string isspace_def)

lemma parse_set_cookie:
  assumes "length (m_session u) = SessionID_size"
  shows "parse_cookie L (set_cookie L n u) = (if valid u then Some (m_session u) else None)"
proof -
  have "hex_to_array L SessionID_size [] = None" by (simp add: hex_to_array_def SessionID_size_def)
  with assms show ?thesis
    by (simp add: parse_cookie_def id_set_cookie id_user_cookie hex_to_array_to_hex)
qed

lemma parse_user_cookie:
  assumes "length (m_session u) = SessionID_size" "valid u"
  shows "parse_cookie L (user_cookie L u) = Some (m_session u)"
  using assms by (simp add: parse_cookie_def id_user_cookie hex_to_array_to_hex)

end

end
