(* ===== verification/Object_ID.thy ===== *)
theory Object_ID
  imports Escape
begin

text \<open>
  \<^verbatim>\<open>src/common/hrb/ObjectID.cc\<close>: the identifier of a blob, the 20-byte Blake2 digest of its
  contents. An \<^verbatim>\<open>ObjectID\<close> is a string of bytes; \<^term>\<open>wf_oid\<close> is what the array type says of
  its length.
\<close>

type_synonym ObjectID = string

definition Blake2_size :: nat where
  "Blake2_size = 20"

definition wf_oid :: "ObjectID \<Rightarrow> bool" where
  "wf_oid i \<longleftrightarrow> length i = Blake2_size"

definition zero_oid :: ObjectID where
  "zero_oid = replicate Blake2_size (CHR 0x00)"

definition oid_from_hex :: "extlib \<Rightarrow> string \<Rightarrow> ObjectID option" where
  "oid_from_hex L hex = hex_to_array L Blake2_size hex"

definition from_raw :: "string \<Rightarrow> ObjectID option" where
  "from_raw raw = (if length raw = Blake2_size then Some raw else None)"

definition is_hex :: "string \<Rightarrow> bool" where
  "is_hex hex \<longleftrightarrow>
     length hex = Blake2_size * 2 \<and> find_first_not_of hex ''01234567890ABCDEFabcdef'' = None"

definition oid_from_json :: "extlib \<Rightarrow> json \<Rightarrow> ObjectID option result" where
  "oid_from_json L j = bind_r (get_string j) (\<lambda>s. ok (oid_from_hex L s))"

definition oid_to_json :: "extlib \<Rightarrow> ObjectID \<Rightarrow> json" where
  "oid_to_json L i = JStr (to_hex L i)"

text \<open>The free function \<^verbatim>\<open>from_json(src, dest)\<close> leaves \<^term>\<open>dest\<close> alone unless the text is an
  identifier.\<close>

definition oid_assign_json :: "extlib \<Rightarrow> json \<Rightarrow> ObjectID \<Rightarrow> ObjectID result" where
  "oid_assign_json L src dest = bind_r (oid_from_json L src)
     (\<lambda>opt. case opt of Some i \<Rightarrow> ok i | None \<Rightarrow> ok dest)"

lemma hex_alphabet: "set ''01234567890ABCDEFabcdef'' = set hex_digits"
  by (auto simp: hex_digits_def hex_lower_digits_def)

lemma is_hex_iff: "is_hex hex \<longleftrightarrow> length hex = Blake2_size * 2 \<and> set hex \<subseteq> set hex_digits"
  by (simp only: is_hex_def find_first_not_of_None hex_alphabet)

lemma from_raw_iff: "from_raw raw = Some i \<longleftrightarrow> i = raw \<and> wf_oid raw"
  by (auto simp: from_raw_def wf_oid_def)

lemma wf_zero_oid [simp]: "wf_oid zero_oid"
  by (simp add: wf_oid_def zero_oid_def)

context hex_codec
begin

lemma oid_from_hex_to_hex: "wf_oid i \<Longrightarrow> oid_from_hex L (to_hex L i) = Some i"
  by (simp add: oid_from_hex_def wf_oid_def hex_to_array_to_hex)

lemma oid_from_hex_wf: "oid_from_hex L hex = Some i \<Longrightarrow> wf_oid i"
  by (simp add: oid_from_hex_def wf_oid_def hex_to_array_length)

lemma oid_from_hex_defined: "(\<exists>i. oid_from_hex L hex = Some i) \<longleftrightarrow> is_hex hex"
  by (simp add: oid_from_hex_def hex_to_array_defined is_hex_iff)

lemma is_hex_to_hex: "wf_oid i \<Longrightarrow> is_hex (to_hex L i)"
  using oid_from_hex_to_hex oid_from_hex_defined by blast

lemma oid_json_roundtrip: "wf_oid i \<Longrightarrow> oid_assign_json L (oid_to_json L i) d = ok i"
  by (simp add: oid_assign_json_def oid_from_json_def oid_to_json_def get_string_def bind_r_def
      oid_from_hex_to_hex)

end

end
