(* ===== verification/Reference_Libs.thy ===== *)
theory Reference_Libs
  imports Escape
begin

text \<open>
  One implementation of the library functions of \<^verbatim>\<open>External\<close>, which shows that the documented
  laws can hold together: hexadecimal as Boost prints it, a compact textual form of JSON
  (strings quoted and escaped with a backslash, integers with a sign and a closing semicolon,
  arrays and objects between brackets), and a packed pair as two texts of which the first ends
  at an unescaped quote. The properties are stated for every implementation; this one is what
  their witnesses evaluate.
\<close>

section \<open>Hexadecimal\<close>

definition ref_hex_lower :: "string \<Rightarrow> string" where
  "ref_hex_lower s = concat (map byte_hex s)"

fun ref_unhex :: "string \<Rightarrow> string option" where
  "ref_unhex [] = Some []"
| "ref_unhex [_] = None"
| "ref_unhex (a # b # s) = (case (from_hex a b, ref_unhex s) of
     (Some c, Some t) \<Rightarrow> Some (c # t) | _ \<Rightarrow> None)"

lemma hex_digit_defined: "hex_digit c \<noteq> None \<longleftrightarrow> c \<in> set hex_digits"
proof -
  have "\<forall>c \<in> set hex_digits. hex_digit c \<noteq> None"
    unfolding hex_digits_def hex_lower_digits_def by code_simp
  moreover have "\<forall>c \<in> set (filter (\<lambda>c. hex_digit c \<noteq> None) Enum.enum). c \<in> set hex_digits"
    unfolding hex_digits_def hex_lower_digits_def by code_simp
  ultimately show ?thesis by (auto simp: enum_UNIV)
qed

lemma hex_digit_lower: "n < 16 \<Longrightarrow> hex_digit (hex_lower_digits ! n) = Some n"
proof -
  have "\<forall>n < 16. hex_digit (hex_lower_digits ! n) = Some n"
    unfolding hex_lower_digits_def by code_simp
  then show "n < 16 \<Longrightarrow> hex_digit (hex_lower_digits ! n) = Some n" by blast
qed

lemma ref_unhex_byte_hex: "ref_unhex (byte_hex c @ s) = map_option ((#) c) (ref_unhex s)"
proof -
  have "(of_char c :: nat) div 16 < 16" using of_char_less_256 [of c] by linarith
  then have "from_hex (hex_lower_digits ! (of_char c div 16)) (hex_lower_digits ! (of_char c mod 16)) = Some c"
    by (simp add: from_hex_def hex_digit_lower)
  then show ?thesis by (auto simp: byte_hex_def split: option.splits)
qed

lemma ref_unhex_hex_lower: "ref_unhex (ref_hex_lower s) = Some s"
  unfolding ref_hex_lower_def by (induction s) (auto simp: ref_unhex_byte_hex)

lemma from_hex_defined: "(\<exists>c. from_hex a b = Some c) \<longleftrightarrow> a \<in> set hex_digits \<and> b \<in> set hex_digits"
  unfolding hex_digit_defined [symmetric] by (auto simp: from_hex_def split: option.splits)

lemma ref_unhex_defined: "(\<exists>r. ref_unhex s = Some r) \<longleftrightarrow> even (length s) \<and> set s \<subseteq> set hex_digits"
proof (induction s rule: ref_unhex.induct)
  case (3 a b s)
  have "(\<exists>r. ref_unhex (a # b # s) = Some r) \<longleftrightarrow>
      (\<exists>c. from_hex a b = Some c) \<and> (\<exists>t. ref_unhex s = Some t)"
    by (auto split: option.splits)
  with 3 show ?case by (auto simp: from_hex_defined)
qed auto

lemma length_ref_unhex: "ref_unhex s = Some r \<Longrightarrow> length s = 2 * length r"
  by (induction s arbitrary: r rule: ref_unhex.induct) (auto split: option.splits)

section \<open>Text and numbers\<close>

abbreviation quote :: char where "quote \<equiv> CHR 0x22"
abbreviation backslash :: char where "backslash \<equiv> CHR 0x5C"

definition ref_escape :: "string \<Rightarrow> string" where
  "ref_escape s = concat (map (\<lambda>c. if c = quote \<or> c = backslash then [backslash, c] else [c]) s)"

fun ref_text :: "string \<Rightarrow> (string \<times> string) option" where
  "ref_text [] = None"
| "ref_text (c # s) =
     (if c = quote then Some ([], s)
      else if c = backslash then
        (case s of [] \<Rightarrow> None | d # s' \<Rightarrow> map_option (\<lambda>(t, r). (d # t, r)) (ref_text s'))
      else map_option (\<lambda>(t, r). (c # t, r)) (ref_text s))"

lemma ref_text_escape: "ref_text (ref_escape s @ quote # r) = Some (s, r)"
  unfolding ref_escape_def by (induction s) auto

fun ref_number :: "nat \<Rightarrow> string \<Rightarrow> (nat \<times> string) option" where
  "ref_number acc [] = None"
| "ref_number acc (c # s) =
     (if c = CHR '';'' then Some (acc, s)
      else if isdigit c then ref_number (acc * 10 + (of_char c - 48)) s else None)"

lemma digit_char: "m < 10 \<Longrightarrow> isdigit (char_of (48 + m)) \<and> (of_char (char_of (48 + m) :: char) :: nat) = 48 + m
  \<and> char_of (48 + m) \<noteq> CHR '';''" for m :: nat
proof -
  have "\<forall>m < 10::nat. isdigit (char_of (48 + m)) \<and> (of_char (char_of (48 + m) :: char) :: nat) = 48 + m
    \<and> char_of (48 + m) \<noteq> CHR '';''" by code_simp
  then show "m < 10 \<Longrightarrow> ?thesis" by blast
qed

lemma ref_number_show: "ref_number a (show_nat n @ s) = ref_number (a * 10 ^ length (show_nat n) + n) s"
proof (induction n arbitrary: a s rule: show_nat.induct)
  case (1 n)
  show ?case
  proof (cases "n < 10")
    case True
    then show ?thesis using digit_char [of n] by (simp add: show_nat.simps [of n])
  next
    case False
    have "n mod 10 < 10" by simp
    from digit_char [OF this] have step:
      "ref_number b (char_of (48 + n mod 10) # s) = ref_number (b * 10 + n mod 10) s" for b
      by simp
    have "ref_number a (show_nat n @ s) =
        ref_number ((a * 10 ^ length (show_nat (n div 10)) + n div 10) * 10 + n mod 10) s"
      using False by (subst show_nat.simps) (simp add: 1 step del: ref_number.simps)
    also have "(a * 10 ^ length (show_nat (n div 10)) + n div 10) * 10 + n mod 10 =
        a * 10 ^ length (show_nat n) + n"
      using False by (subst (2) show_nat.simps) (simp add: algebra_simps)
    finally show ?thesis .
  qed
qed

section \<open>JSON\<close>

fun ref_print :: "json \<Rightarrow> string" where
  "ref_print JNull = ''n''"
| "ref_print (JBool b) = (if b then ''t'' else ''f'')"
| "ref_print (JInt i) = (if i < 0 then CHR ''-'' else CHR ''+'') # show_nat (nat \<bar>i\<bar>) @ '';''"
| "ref_print (JFloat w) = CHR ''d'' # show_nat (unat w) @ '';''"
| "ref_print (JStr s) = quote # ref_escape s @ [quote]"
| "ref_print (JArr js) = CHR ''['' # concat (map ref_print js) @ '']''"
| "ref_print (JObj kvs) =
     CHR ''{'' # concat (map (\<lambda>(k, j). quote # ref_escape k @ quote # ref_print j) kvs) @ ''}''"

text \<open>The parsers for a value, for the rest of an array and for the rest of an object; the
  length of the text is enough fuel.\<close>

fun ref_value :: "nat \<Rightarrow> string \<Rightarrow> (json \<times> string) option"
  and ref_items :: "nat \<Rightarrow> string \<Rightarrow> (json list \<times> string) option"
  and ref_fields :: "nat \<Rightarrow> string \<Rightarrow> ((string \<times> json) list \<times> string) option" where
  "ref_value 0 s = None"
| "ref_value (Suc n) [] = None"
| "ref_value (Suc n) (c # s) =
     (if c = CHR ''n'' then Some (JNull, s)
      else if c = CHR ''t'' then Some (JBool True, s)
      else if c = CHR ''f'' then Some (JBool False, s)
      else if c = CHR ''+'' then map_option (\<lambda>(m, r). (JInt (int m), r)) (ref_number 0 s)
      else if c = CHR ''-'' then map_option (\<lambda>(m, r). (JInt (- int m), r)) (ref_number 0 s)
      else if c = CHR ''d'' then map_option (\<lambda>(m, r). (JFloat (word_of_nat m), r)) (ref_number 0 s)
      else if c = quote then map_option (\<lambda>(t, r). (JStr t, r)) (ref_text s)
      else if c = CHR ''['' then map_option (\<lambda>(js, r). (JArr js, r)) (ref_items n s)
      else if c = CHR ''{'' then map_option (\<lambda>(kvs, r). (JObj kvs, r)) (ref_fields n s)
      else None)"
| "ref_items 0 s = None"
| "ref_items (Suc n) [] = None"
| "ref_items (Suc n) (c # s) =
     (if c = CHR '']'' then Some ([], s)
      else case ref_value n (c # s) of
          None \<Rightarrow> None
        | Some (j, r) \<Rightarrow> map_option (\<lambda>(js, r'). (j # js, r')) (ref_items n r))"
| "ref_fields 0 s = None"
| "ref_fields (Suc n) [] = None"
| "ref_fields (Suc n) (c # s) =
     (if c = CHR ''}'' then Some ([], s)
      else if c = quote then
        (case ref_text s of
          None \<Rightarrow> None
        | Some (k, r) \<Rightarrow> (case ref_value n r of
            None \<Rightarrow> None
          | Some (j, r') \<Rightarrow> map_option (\<lambda>(kvs, r''). ((k, j) # kvs, r'')) (ref_fields n r')))
      else None)"

definition ref_parse :: "string \<Rightarrow> json option" where
  "ref_parse s = (case ref_value (length s) s of Some (j, []) \<Rightarrow> Some j | _ \<Rightarrow> None)"

lemma ref_print_ne [simp]: "ref_print j \<noteq> []"
  by (cases j) auto

lemma hd_ref_print: "hd (ref_print j) \<noteq> CHR '']''"
  by (cases j) auto

lemma ref_items_print:
  assumes "\<And>j n r. j \<in> set js \<Longrightarrow> length (ref_print j) \<le> n \<Longrightarrow> ref_value n (ref_print j @ r) = Some (j, r)"
    and "Suc (length (concat (map ref_print js))) \<le> n"
  shows "ref_items n (concat (map ref_print js) @ CHR '']'' # r) = Some (js, r)"
  using assms
proof (induction js arbitrary: n)
  case Nil
  then show ?case by (cases n) auto
next
  case (Cons j js)
  obtain m where n: "n = Suc m" using Cons.prems(2) by (cases n) auto
  obtain c t where ct: "ref_print j = c # t" "c \<noteq> CHR '']''"
    using hd_ref_print [of j] ref_print_ne [of j] by (cases "ref_print j") auto
  let ?r = "concat (map ref_print js) @ CHR '']'' # r"
  have "ref_value m (ref_print j @ ?r) = Some (j, ?r)"
    using Cons.prems n by (intro Cons.prems(1)) auto
  moreover have "ref_items m ?r = Some (js, r)"
    using Cons.prems n ct by (intro Cons.IH) auto
  ultimately show ?case using ct n by simp
qed

lemma ref_fields_print:
  assumes "\<And>k j n r. (k, j) \<in> set kvs \<Longrightarrow> length (ref_print j) \<le> n \<Longrightarrow> ref_value n (ref_print j @ r) = Some (j, r)"
    and "Suc (length (concat (map (\<lambda>(k, j). quote # ref_escape k @ quote # ref_print j) kvs))) \<le> n"
  shows "ref_fields n (concat (map (\<lambda>(k, j). quote # ref_escape k @ quote # ref_print j) kvs) @ CHR ''}'' # r)
    = Some (kvs, r)"
  using assms
proof (induction kvs arbitrary: n)
  case Nil
  then show ?case by (cases n) auto
next
  case (Cons kj kvs)
  obtain k j where kj: "kj = (k, j)" by force
  obtain m where n: "n = Suc m" using Cons.prems(2) by (cases n) auto
  let ?r = "concat (map (\<lambda>(k, j). quote # ref_escape k @ quote # ref_print j) kvs) @ CHR ''}'' # r"
  have "ref_value m (ref_print j @ ?r) = Some (j, ?r)"
    using Cons.prems n kj by (intro Cons.prems(1)) auto
  moreover have "ref_fields m ?r = Some (kvs, r)"
    using Cons.prems n kj by (intro Cons.IH) auto
  ultimately show ?case by (simp add: n kj ref_text_escape)
qed

lemma ref_value_print: "length (ref_print j) \<le> n \<Longrightarrow> ref_value n (ref_print j @ r) = Some (j, r)"
proof (induction j arbitrary: n r)
  case (JArr js)
  then obtain m where n: "n = Suc m" by (cases n) auto
  with JArr.prems have "ref_items m (concat (map ref_print js) @ CHR '']'' # r) = Some (js, r)"
    by (intro ref_items_print JArr.IH) auto
  then show ?case by (simp add: n)
next
  case (JObj kvs)
  then obtain m where n: "n = Suc m" by (cases n) auto
  with JObj.prems have "ref_fields m (concat (map (\<lambda>(k, j). quote # ref_escape k @ quote # ref_print j) kvs)
      @ CHR ''}'' # r) = Some (kvs, r)"
    by (intro ref_fields_print) (auto intro: JObj.IH)
  then show ?case by (simp add: n)
next
  case (JInt i)
  then obtain m where "n = Suc m" by (cases n) auto
  then show ?case by (simp add: ref_number_show)
next
  case (JFloat w)
  then obtain m where "n = Suc m" by (cases n) auto
  then show ?case by (simp add: ref_number_show)
next
  case (JStr s)
  then obtain m where "n = Suc m" by (cases n) auto
  then show ?case by (simp add: ref_text_escape)
next
  case JNull
  then show ?case by (cases n) auto
next
  case (JBool b)
  then show ?case by (cases n) (auto split: if_splits)
qed

lemma ref_parse_print: "ref_parse (ref_print j) = Some j"
  using ref_value_print [of j "length (ref_print j)" "[]"] by (simp add: ref_parse_def)

section \<open>The record and the laws\<close>

definition ref_pack :: "string \<Rightarrow> string \<Rightarrow> string" where
  "ref_pack a b = ref_escape a @ quote # b"

definition ref_lib :: extlib where
  "ref_lib = \<lparr>hex_lower = ref_hex_lower, unhex = ref_unhex,
     json_dump = (\<lambda>j. Some (ref_print j)), json_parse = ref_parse,
     cjson_encode = ref_print, cjson_decode = ref_parse,
     msgpack_pack = ref_pack, msgpack_unpack = map_option (map_prod Some Some) \<circ> ref_text\<rparr>"

interpretation ref_hex: hex_codec ref_lib
proof
  show "hex_lower ref_lib s = concat (map byte_hex s)" for s
    by (simp add: ref_lib_def ref_hex_lower_def)
  show "unhex ref_lib (hex_lower ref_lib s) = Some s" for s
    by (simp add: ref_lib_def ref_unhex_hex_lower)
  show "(\<exists>r. unhex ref_lib s = Some r) \<longleftrightarrow> even (length s) \<and> set s \<subseteq> set hex_digits" for s
    by (simp only: ref_lib_def extlib.simps ref_unhex_defined)
  show "unhex ref_lib s = Some r \<Longrightarrow> length s = 2 * length r" for s r
    by (simp add: ref_lib_def length_ref_unhex)
qed

interpretation ref_json: json_codec ref_lib
  by unfold_locales (auto simp: ref_lib_def ref_parse_print, simp add: ref_parse_def)

interpretation ref_msgpack: msgpack_codec ref_lib
  by unfold_locales (simp add: ref_lib_def ref_pack_def ref_text_escape)

end
