(* ===== verification/Blob_Inode.thy ===== *)
theory Blob_Inode
  imports User_ID Object_ID Reference_Libs
begin

text \<open>
  The metadata of a blob in its three formats: in memory (\<^verbatim>\<open>src/common/hrb/BlobInode.cc\<close>), as
  JSON (the same file and \<^verbatim>\<open>Blob.cc\<close>) and as the database keeps it, one permission character
  before a JSON text (\<^verbatim>\<open>src/server/hrb/BlobInodeDB.cc\<close>).
\<close>

section \<open>In memory\<close>

text \<open>A \<^verbatim>\<open>Timestamp\<close> is the number of milliseconds since the epoch.\<close>

type_synonym Timestamp = int

definition ts_to_json :: "Timestamp \<Rightarrow> json" where
  "ts_to_json t = JInt t"

definition ts_from_json :: "json \<Rightarrow> Timestamp result" where
  "ts_from_json j = get_int j"

record BlobInode =
  bi_perm :: Permission
  bi_filename :: string
  bi_mime :: string
  bi_timestamp :: Timestamp

record Blob =
  b_owner :: string
  b_coll :: string
  b_id :: ObjectID
  b_info :: BlobInode

type_synonym BlobElements = "Blob list"

section \<open>JSON\<close>

text \<open>\<^verbatim>\<open>result.emplace\<close> on a value that starts as an object cannot throw.\<close>

definition inode_to_json :: "BlobInode \<Rightarrow> json" where
  "inode_to_json src = JObj
     (obj_emplace ''perm'' (JStr (description (bi_perm src)))
       (obj_emplace ''mime'' (JStr (bi_mime src))
         (obj_emplace ''filename'' (JStr (bi_filename src))
           (obj_emplace ''timestamp'' (ts_to_json (bi_timestamp src)) []))))"

definition inode_from_json :: "json \<Rightarrow> BlobInode result" where
  "inode_from_json src =
     bind_r (bind_r (json_at src ''timestamp'') ts_from_json) (\<lambda>timestamp.
     bind_r (bind_r (json_at src ''filename'') get_string) (\<lambda>filename.
     bind_r (bind_r (json_at src ''mime'') get_string) (\<lambda>mime.
     bind_r (bind_r (json_at src ''perm'') get_string) (\<lambda>perm.
       ok \<lparr>bi_perm = from_description perm, bi_filename = filename, bi_mime = mime,
           bi_timestamp = timestamp\<rparr>))))"

definition blob_entry_json :: "Blob \<Rightarrow> json" where
  "blob_entry_json blob = (case inode_to_json (b_info blob) of
       JObj kvs \<Rightarrow> JObj (obj_emplace ''collection'' (JStr (b_coll blob))
                        (obj_emplace ''owner'' (JStr (b_owner blob)) kvs))
     | j \<Rightarrow> j)"

definition elements_to_json :: "extlib \<Rightarrow> BlobElements \<Rightarrow> json" where
  "elements_to_json L src = JObj [(''elements'',
     JObj (fold (\<lambda>blob. obj_emplace (to_hex L (b_id blob)) (blob_entry_json blob)) src []))]"

fun elements_from_items :: "extlib \<Rightarrow> (string \<times> json) list \<Rightarrow> BlobElements \<Rightarrow> BlobElements result" where
  "elements_from_items L [] dest = ok dest"
| "elements_from_items L ((key, value) # items) dest =
     (case oid_from_hex L key of
        None \<Rightarrow> elements_from_items L items dest
      | Some blob \<Rightarrow>
          bind_r (bind_r (json_at value ''owner'') get_string) (\<lambda>owner.
          bind_r (bind_r (json_at value ''collection'') get_string) (\<lambda>coll.
          bind_r (inode_from_json value) (\<lambda>info.
            elements_from_items L items
              (dest @ [\<lparr>b_owner = owner, b_coll = coll, b_id = blob, b_info = info\<rparr>])))))"

text \<open>\<^verbatim>\<open>items()\<close> of a value that is no object visits its only element under the empty key.\<close>

definition json_items :: "json \<Rightarrow> (string \<times> json) list" where
  "json_items j = (case j of
       JObj kvs \<Rightarrow> kvs
     | JArr js \<Rightarrow> zip (map (\<lambda>i. show_nat i) [0..<length js]) js
     | JNull \<Rightarrow> []
     | _ \<Rightarrow> [([], j)])"

definition elements_from_json :: "extlib \<Rightarrow> json \<Rightarrow> BlobElements \<Rightarrow> BlobElements result" where
  "elements_from_json L src dest =
     bind_r (json_at src ''elements'') (\<lambda>e. elements_from_items L (json_items e) dest)"

section \<open>The database format\<close>

text \<open>A \<^verbatim>\<open>BlobInodeDB\<close> is its raw text, by default an empty private inode.\<close>

type_synonym BlobInodeDB = string

definition empty_inode_db :: BlobInodeDB where
  "empty_inode_db = '' {}''"

text \<open>\<^verbatim>\<open>json.dump()\<close> throws for a text that is not UTF-8.\<close>

definition inodedb_create :: "extlib \<Rightarrow> Permission \<Rightarrow> string \<Rightarrow> string \<Rightarrow> Timestamp \<Rightarrow> string result" where
  "inodedb_create L p filename mime timestamp =
     (let j0 = obj_emplace ''timestamp'' (ts_to_json timestamp) (obj_emplace ''mime'' (JStr mime) []);
          j = (if filename \<noteq> [] then obj_emplace ''filename'' (JStr filename) j0 else j0)
      in case json_dump L (JObj j) of None \<Rightarrow> Inl TypeError | Some s \<Rightarrow> ok (perm p # s))"

definition inodedb_create_fields :: "extlib \<Rightarrow> BlobInode \<Rightarrow> string result" where
  "inodedb_create_fields L f =
     inodedb_create L (bi_perm f) (bi_filename f) (bi_mime f) (bi_timestamp f)"

definition inodedb_create_json :: "extlib \<Rightarrow> Permission \<Rightarrow> json \<Rightarrow> string result" where
  "inodedb_create_json L p j =
     bind_r (json_value get_string j ''filename'' []) (\<lambda>filename.
     bind_r (json_value get_string j ''mime'' []) (\<lambda>mime.
     bind_r (json_value ts_from_json j ''timestamp'' 0) (\<lambda>timestamp.
       inodedb_create L p filename mime timestamp)))"

definition inodedb_json :: "BlobInodeDB \<Rightarrow> string" where
  "inodedb_json raw = (if raw \<noteq> [] then drop 1 raw else raw)"

definition inodedb_filename :: "extlib \<Rightarrow> BlobInodeDB \<Rightarrow> string result" where
  "inodedb_filename L raw = (case json_parse L (inodedb_json raw) of
       None \<Rightarrow> ok [] | Some doc \<Rightarrow> json_value get_string doc ''filename'' [])"

definition inodedb_mime :: "extlib \<Rightarrow> BlobInodeDB \<Rightarrow> string result" where
  "inodedb_mime L raw = (case json_parse L (inodedb_json raw) of
       None \<Rightarrow> ok [] | Some doc \<Rightarrow> json_value get_string doc ''mime'' [])"

definition inodedb_timestamp :: "extlib \<Rightarrow> BlobInodeDB \<Rightarrow> Timestamp result" where
  "inodedb_timestamp L raw = (case json_parse L (inodedb_json raw) of
       None \<Rightarrow> ok 0 | Some doc \<Rightarrow> json_value ts_from_json doc ''timestamp'' 0)"

definition inodedb_permission :: "BlobInodeDB \<Rightarrow> Permission" where
  "inodedb_permission raw = (if raw = [] then Permission CHR '' '' else Permission (hd raw))"

text \<open>\<^verbatim>\<open>BlobInodeDB::fields()\<close>: no value for a text that does not parse.\<close>

definition inodedb_fields :: "extlib \<Rightarrow> BlobInodeDB \<Rightarrow> BlobInode option result" where
  "inodedb_fields L raw = (case json_parse L (inodedb_json raw) of
       None \<Rightarrow> ok None
     | Some j \<Rightarrow>
        bind_r (json_value get_string j ''filename'' []) (\<lambda>filename.
        bind_r (json_value get_string j ''mime'' []) (\<lambda>mime.
        bind_r (json_value ts_from_json j ''timestamp'' 0) (\<lambda>timestamp.
          ok (Some \<lparr>bi_perm = inodedb_permission raw, bi_filename = filename, bi_mime = mime,
                    bi_timestamp = timestamp\<rparr>)))))"

section \<open>Facts\<close>

lemmas result_simps = bind_r_def json_at_def json_value_def get_string_def get_int_def
  ts_from_json_def ts_to_json_def

lemma inode_json_roundtrip:
  "inode_from_json (inode_to_json e) = ok (e\<lparr>bi_perm := from_description (description (bi_perm e))\<rparr>)"
  by (simp add: inode_from_json_def inode_to_json_def result_simps less_char_def)

lemma wf_inode_to_json: "wf_json (inode_to_json e)" "float_free (inode_to_json e)"
  by (simp_all add: inode_to_json_def ts_to_json_def less_char_def)

context json_codec
begin

lemma inodedb_fields_create:
  assumes "inodedb_create_fields L e = ok raw"
  shows "inodedb_fields L raw = ok (Some e)"
proof -
  let ?j = "JObj (if bi_filename e \<noteq> []
      then [(''filename'', JStr (bi_filename e)), (''mime'', JStr (bi_mime e)), (''timestamp'', JInt (bi_timestamp e))]
      else [(''mime'', JStr (bi_mime e)), (''timestamp'', JInt (bi_timestamp e))])"
  obtain s where dump: "json_dump L ?j = Some s" and raw: "raw = perm (bi_perm e) # s"
    using assms by (auto simp: inodedb_create_fields_def inodedb_create_def Let_def ts_to_json_def
        less_char_def split: option.splits if_splits)
  have "json_parse L s = Some ?j"
    by (rule parse_dump [OF dump]) (simp_all add: less_char_def)
  then show ?thesis
    by (auto simp: inodedb_fields_def raw inodedb_json_def inodedb_permission_def result_simps)
qed

end

end
