(* ===== verification/Collections.thy ===== *)
theory Collections
  imports Blob_Inode
begin

text \<open>
  \<^verbatim>\<open>src/common/hrb/Collection.cc\<close>, \<^verbatim>\<open>CollectionList.cc\<close> and
  \<^verbatim>\<open>src/client/hrbsync/CollectionComparison.cc\<close>: a named set of blobs with its JSON form, a list
  of collections, and the difference between a local and a remote collection.

  The \<^verbatim>\<open>unordered_map\<close> of blobs is an association list in iteration order. A new element goes to
  the end, one of the places the standard allows; the theorems speak of the map it represents.
\<close>

section \<open>std::unordered\_map\<close>

definition um_emplace :: "'k \<Rightarrow> 'v \<Rightarrow> ('k \<times> 'v) list \<Rightarrow> ('k \<times> 'v) list" where
  "um_emplace k v m = (if k \<in> fst ` set m then m else m @ [(k, v)])"

definition um_erase :: "'k \<Rightarrow> ('k \<times> 'v) list \<Rightarrow> ('k \<times> 'v) list" where
  "um_erase k m = filter (\<lambda>(k', _). k' \<noteq> k) m"

definition um_update :: "'k \<Rightarrow> ('v \<Rightarrow> 'v) \<Rightarrow> ('k \<times> 'v) list \<Rightarrow> ('k \<times> 'v) list" where
  "um_update k f m = map (\<lambda>(k', v). if k' = k then (k', f v) else (k', v)) m"

section \<open>Collection\<close>

record Collection =
  c_name :: string
  c_owner :: string
  c_meta :: json
  c_blobs :: "(ObjectID \<times> BlobInode) list"

definition empty_coll :: Collection where
  "empty_coll = \<lparr>c_name = [], c_owner = [], c_meta = JNull, c_blobs = []\<rparr>"

definition Collection_meta :: "string \<Rightarrow> string \<Rightarrow> json \<Rightarrow> Collection" where
  "Collection_meta name owner meta = \<lparr>c_name = name, c_owner = owner, c_meta = meta, c_blobs = []\<rparr>"

definition Collection_cover :: "extlib \<Rightarrow> string \<Rightarrow> string \<Rightarrow> ObjectID \<Rightarrow> Collection" where
  "Collection_cover L name owner cover =
     \<lparr>c_name = name, c_owner = owner, c_meta = JObj [(''cover'', JStr (to_hex L cover))], c_blobs = []\<rparr>"

definition add_blob :: "ObjectID \<Rightarrow> BlobInode \<Rightarrow> Collection \<Rightarrow> Collection" where
  "add_blob i entry c = c\<lparr>c_blobs := um_emplace i entry (c_blobs c)\<rparr>"

text \<open>The collection of a directory: its files with their contents (\<^term>\<open>None\<close> for one that cannot
  be mapped), the digest and what \<^verbatim>\<open>ImageMeta\<close> reads from the contents (the MIME type and the
  original timestamp, if any).\<close>

definition Collection_path ::
  "(string \<Rightarrow> ObjectID) \<Rightarrow> (string \<Rightarrow> string \<times> Timestamp option) \<Rightarrow> string \<Rightarrow> string \<Rightarrow>
   (string \<times> string option) list \<Rightarrow> Collection" where
  "Collection_path blake2 image_meta filename parent_filename files =
     fold (\<lambda>(file, contents) c. case contents of
             None \<Rightarrow> c
           | Some bytes \<Rightarrow> add_blob (blake2 bytes)
               \<lparr>bi_perm = Permission CHR '' '', bi_filename = file, bi_mime = fst (image_meta bytes),
                bi_timestamp = (case snd (image_meta bytes) of Some t \<Rightarrow> t | None \<Rightarrow> 0)\<rparr> c)
       files
       (empty_coll\<lparr>c_name := if filename = ''.'' then parent_filename else filename\<rparr>)"

definition coll_find :: "ObjectID \<Rightarrow> Collection \<Rightarrow> BlobInode option" where
  "coll_find i c = map_of (c_blobs c) i"

definition coll_cover :: "extlib \<Rightarrow> Collection \<Rightarrow> ObjectID option result" where
  "coll_cover L c = (case c_meta c of
       JObj kvs \<Rightarrow> (case map_of kvs ''cover'' of Some j \<Rightarrow> oid_from_json L j | None \<Rightarrow> ok None)
     | _ \<Rightarrow> ok None)"

definition update_timestamp :: "ObjectID \<Rightarrow> Timestamp \<Rightarrow> Collection \<Rightarrow> Collection" where
  "update_timestamp i value c = c\<lparr>c_blobs := um_update i (\<lambda>e. e\<lparr>bi_timestamp := value\<rparr>) (c_blobs c)\<rparr>"

definition remove_blob :: "ObjectID \<Rightarrow> Collection \<Rightarrow> Collection" where
  "remove_blob i c = c\<lparr>c_blobs := um_erase i (c_blobs c)\<rparr>"

definition coll_get_blob :: "ObjectID \<Rightarrow> Collection \<Rightarrow> Blob option" where
  "coll_get_blob i c = (case map_of (c_blobs c) i of
       Some e \<Rightarrow> Some \<lparr>b_owner = c_owner c, b_coll = c_name c, b_id = i, b_info = e\<rparr>
     | None \<Rightarrow> None)"

text \<open>\<^verbatim>\<open>operator==\<close> compares the two iteration sequences.\<close>

definition coll_eq :: "Collection \<Rightarrow> Collection \<Rightarrow> bool" where
  "coll_eq lhs rhs \<longleftrightarrow> c_name lhs = c_name rhs \<and> c_owner lhs = c_owner rhs \<and> c_meta lhs = c_meta rhs \<and>
     length (c_blobs lhs) = length (c_blobs rhs) \<and> list_all2 (=) (c_blobs lhs) (c_blobs rhs)"

definition coll_to_json :: "extlib \<Rightarrow> Collection \<Rightarrow> json" where
  "coll_to_json L src =
     (let blobs = fold (\<lambda>(i, entry). obj_emplace (to_hex L i) (inode_to_json entry)) (c_blobs src) []
      in JObj (obj_emplace ''elements'' (JObj blobs)
           (obj_emplace ''meta'' (c_meta src)
             (obj_emplace ''owner'' (JStr (c_owner src))
               (obj_emplace ''collection'' (JStr (c_name src)) [])))))"

fun coll_from_items ::
  "extlib \<Rightarrow> (string \<times> json) list \<Rightarrow> (ObjectID \<times> BlobInode) list \<Rightarrow> (ObjectID \<times> BlobInode) list result" where
  "coll_from_items L [] blobs = ok blobs"
| "coll_from_items L ((key, value) # items) blobs =
     (case oid_from_hex L key of
        None \<Rightarrow> coll_from_items L items blobs
      | Some blob \<Rightarrow> bind_r (inode_from_json value) (\<lambda>e. coll_from_items L items (um_emplace blob e blobs)))"

definition coll_from_json :: "extlib \<Rightarrow> json \<Rightarrow> Collection result" where
  "coll_from_json L src =
     bind_r (bind_r (json_at src ''collection'') get_string) (\<lambda>name.
     bind_r (bind_r (json_at src ''owner'') get_string) (\<lambda>owner.
     bind_r (json_at src ''meta'') (\<lambda>meta.
     bind_r (json_at src ''elements'') (\<lambda>elements.
     bind_r (coll_from_items L (json_items elements) []) (\<lambda>blobs.
       ok \<lparr>c_name = name, c_owner = owner, c_meta = meta, c_blobs = blobs\<rparr>)))))"

section \<open>CollectionList\<close>

type_synonym CollectionList = "Collection list"

definition list_add :: "string \<Rightarrow> string \<Rightarrow> json \<Rightarrow> CollectionList \<Rightarrow> CollectionList" where
  "list_add owner coll prop entries = entries @ [Collection_meta coll owner prop]"

definition list_add_cover :: "extlib \<Rightarrow> string \<Rightarrow> string \<Rightarrow> ObjectID \<Rightarrow> CollectionList \<Rightarrow> CollectionList" where
  "list_add_cover L owner coll cover entries = entries @ [Collection_cover L coll owner cover]"

definition list_find :: "string \<Rightarrow> string \<Rightarrow> CollectionList \<Rightarrow> Collection option" where
  "list_find owner coll entries = find (\<lambda>en. c_owner en = owner \<and> c_name en = coll) entries"

definition list_eq :: "CollectionList \<Rightarrow> CollectionList \<Rightarrow> bool" where
  "list_eq lhs rhs = list_all2 (\<lambda>coll1 coll2. c_name coll1 = c_name coll2 \<and>
     c_owner coll1 = c_owner coll2 \<and> c_meta coll1 = c_meta coll2) lhs rhs"

definition list_entry_json :: "Collection \<Rightarrow> json result" where
  "list_entry_json en =
     bind_r (emplace ''owner'' (JStr (c_owner en)) (c_meta en)) (emplace ''coll'' (JStr (c_name en)))"

fun list_entries_json :: "CollectionList \<Rightarrow> json list result" where
  "list_entries_json [] = ok []"
| "list_entries_json (en # src) =
     bind_r (list_entry_json en) (\<lambda>j. bind_r (list_entries_json src) (\<lambda>js. ok (j # js)))"

definition list_to_json :: "CollectionList \<Rightarrow> json result" where
  "list_to_json src = bind_r (list_entries_json src) (\<lambda>js. ok (JObj [(''colls'', JArr js)]))"

text \<open>\<^verbatim>\<open>item.erase(key)\<close>.\<close>

definition json_erase :: "string \<Rightarrow> json \<Rightarrow> json result" where
  "json_erase k j = (case j of JObj kvs \<Rightarrow> ok (JObj (obj_erase k kvs)) | _ \<Rightarrow> Inl TypeError)"

fun list_from_items :: "json list \<Rightarrow> CollectionList \<Rightarrow> CollectionList result" where
  "list_from_items [] dest = ok dest"
| "list_from_items (item # items) dest =
     bind_r (bind_r (json_at item ''owner'') get_string) (\<lambda>owner.
     bind_r (bind_r (json_at item ''coll'') get_string) (\<lambda>coll.
     bind_r (bind_r (json_erase ''owner'' item) (json_erase ''coll'')) (\<lambda>rest.
       list_from_items items (list_add owner coll rest dest))))"

definition list_from_json :: "json \<Rightarrow> CollectionList result" where
  "list_from_json src =
     bind_r (json_at src ''colls'') (\<lambda>colls. list_from_items (map snd (json_items colls)) [])"

section \<open>CollectionComparison\<close>

text \<open>The identifiers of a collection as a \<^verbatim>\<open>std::set\<close> iterates over them.\<close>

definition ids_of :: "Collection \<Rightarrow> ObjectID list" where
  "ids_of c = sorted_list_of_set (fst ` set (c_blobs c))"

text \<open>\<^verbatim>\<open>std::set_difference\<close> of two sorted ranges.\<close>

fun set_difference :: "('a :: linorder) list \<Rightarrow> 'a list \<Rightarrow> 'a list" where
  "set_difference [] ys = []"
| "set_difference (x # xs) [] = x # xs"
| "set_difference (x # xs) (y # ys) =
     (if x < y then x # set_difference xs (y # ys)
      else if y < x then set_difference (x # xs) ys
      else set_difference xs ys)"

definition pick_blobs :: "Collection \<Rightarrow> ObjectID list \<Rightarrow> Collection \<Rightarrow> Collection" where
  "pick_blobs from ids dest =
     fold (\<lambda>i c. case coll_find i from of Some e \<Rightarrow> add_blob i e c | None \<Rightarrow> c) ids dest"

record CollectionComparison =
  cmp_upload :: Collection
  cmp_download :: Collection

definition CollectionComparison_of :: "extlib \<Rightarrow> Collection \<Rightarrow> Collection \<Rightarrow> CollectionComparison" where
  "CollectionComparison_of L local remote =
     (let dest = Collection_cover L (c_name remote) (c_owner remote) zero_oid;
          remote_blobids = ids_of remote;
          local_blobids = ids_of local
      in \<lparr>cmp_upload = pick_blobs local (set_difference local_blobids remote_blobids) dest,
          cmp_download = pick_blobs remote (set_difference remote_blobids local_blobids) dest\<rparr>)"

section \<open>Facts: the containers\<close>

lemma map_of_um_emplace [simp]:
  "map_of (um_emplace k v m) = (if map_of m k = None then (map_of m)(k \<mapsto> v) else map_of m)"
proof (cases "map_of m k = None")
  case True
  then have "k \<notin> fst ` set m" by (simp add: map_of_eq_None_iff)
  then have "map_of (um_emplace k v m) x = ((map_of m)(k \<mapsto> v)) x" for x
    using True by (simp add: um_emplace_def map_add_def split: option.splits)
  with True show ?thesis by auto
next
  case False
  then have "k \<in> fst ` set m" by (simp add: map_of_eq_None_iff)
  then show ?thesis using False by (auto simp: um_emplace_def)
qed

lemma distinct_um_emplace: "distinct (map fst m) \<Longrightarrow> distinct (map fst (um_emplace k v m))"
  by (auto simp: um_emplace_def)

lemma map_of_um_erase [simp]: "map_of (um_erase k m) = (map_of m)(k := None)"
  by (induction m) (auto simp: um_erase_def fun_eq_iff)

lemma map_of_um_update [simp]:
  "map_of (um_update k f m) = (map_of m)(k := map_option f (map_of m k))"
  by (induction m) (auto simp: um_update_def fun_eq_iff)

lemma fold_obj_emplace:
  assumes "sorted_wrt (<) (map fst acc)" and "distinct (map (\<lambda>x. f x) xs)"
    and "\<And>x. x \<in> set xs \<Longrightarrow> f x \<notin> fst ` set acc"
  shows "set (fold (\<lambda>x. obj_emplace (f x) (g x)) xs acc) = set acc \<union> (\<lambda>x. (f x, g x)) ` set xs
    \<and> sorted_wrt (<) (map fst (fold (\<lambda>x. obj_emplace (f x) (g x)) xs acc))"
  using assms
proof (induction xs arbitrary: acc)
  case (Cons x xs)
  let ?acc = "obj_emplace (f x) (g x) acc"
  have new: "set ?acc = insert (f x, g x) (set acc)"
  proof -
    have "f x \<notin> fst ` set acc" using Cons.prems(3) by simp
    then show ?thesis by (induction "f x" "g x" acc rule: obj_emplace.induct) auto
  qed
  have "sorted_wrt (<) (map fst ?acc)" using Cons.prems(1) by (rule sorted_obj_emplace)
  moreover have "f y \<notin> fst ` set ?acc" if "y \<in> set xs" for y
  proof -
    have "f y \<in> set (map f xs)" using that by simp
    then have "f y \<noteq> f x" using Cons.prems(2) by auto
    then show ?thesis using Cons.prems(3) that by (simp add: keys_obj_emplace)
  qed
  moreover have "distinct (map f xs)" using Cons.prems(2) by simp
  ultimately show ?case using Cons.IH [of ?acc] new by simp
qed simp

lemma map_of_sorted_set:
  "sorted_wrt (<) (map fst kvs) \<Longrightarrow> map_of kvs (k :: string) = Some v \<longleftrightarrow> (k, v) \<in> set kvs"
  by (rule map_of_eq_Some_iff) (simp add: strict_sorted_iff)

lemma set_difference_spec:
  assumes "sorted_wrt (<) xs" and "sorted_wrt (<) ys"
  shows "set (set_difference xs ys) = set xs - set ys"
  using assms
proof (induction xs ys rule: set_difference.induct)
  case (3 x xs y ys)
  consider "x < y" | "y < x" | "x = y" by (rule linorder_cases)
  then show ?case
  proof cases
    case 1
    then have "x \<notin> set (y # ys)" using 3(5) by auto
    then show ?thesis using 1 3 by auto
  next
    case 2
    then have "y \<notin> set (x # xs)" using 3(4) by auto
    then show ?thesis using 2 3 by (auto dest: less_asym)
  next
    case eq: 3
    then have "x \<notin> set xs" using 3(4) by auto
    then show ?thesis using eq 3 by auto
  qed
qed auto

section \<open>Facts: collections\<close>

lemma coll_find_add: "coll_find j (add_blob i e c) =
    (if j = i \<and> coll_find i c = None then Some e else coll_find j c)"
  by (auto simp: coll_find_def add_blob_def)

lemma coll_find_remove: "coll_find j (remove_blob i c) = (if j = i then None else coll_find j c)"
  by (simp add: coll_find_def remove_blob_def)

lemma coll_find_update_timestamp: "coll_find j (update_timestamp i t c) =
    (if j = i then map_option (\<lambda>e. e\<lparr>bi_timestamp := t\<rparr>) (coll_find i c) else coll_find j c)"
  by (simp add: coll_find_def update_timestamp_def)

lemma coll_find_pick: "coll_find j (pick_blobs c ids dest) =
    (case coll_find j dest of Some e \<Rightarrow> Some e | None \<Rightarrow> if j \<in> set ids then coll_find j c else None)"
  unfolding pick_blobs_def
  by (induction ids arbitrary: dest) (auto simp: coll_find_add split: option.splits)

lemma pick_blobs_names: "c_name (pick_blobs c ids dest) = c_name dest" "c_owner (pick_blobs c ids dest) = c_owner dest"
  unfolding pick_blobs_def by (induction ids arbitrary: dest) (auto simp: add_blob_def split: option.splits)

lemma pick_blobs_distinct: "distinct (map fst (c_blobs dest)) \<Longrightarrow> distinct (map fst (c_blobs (pick_blobs c ids dest)))"
  unfolding pick_blobs_def
  by (induction ids arbitrary: dest) (auto simp: add_blob_def distinct_um_emplace split: option.splits)

lemma comparison_distinct: "distinct (map fst (c_blobs (cmp_download (CollectionComparison_of L local remote))))"
  by (simp add: CollectionComparison_of_def Let_def pick_blobs_distinct Collection_cover_def)

lemma ids_of_spec [simp]: "set (ids_of c) = {i. coll_find i c \<noteq> None}" "sorted_wrt (<) (ids_of c)"
proof -
  have "{i. coll_find i c \<noteq> None} = fst ` set (c_blobs c)"
    unfolding coll_find_def dom_def [symmetric] by (rule dom_map_of_conv_image_fst)
  then show "set (ids_of c) = {i. coll_find i c \<noteq> None}" by (simp add: ids_of_def)
qed (simp add: ids_of_def)

lemma comparison_find:
  "coll_find i (cmp_upload (CollectionComparison_of L local remote)) =
     (if coll_find i remote = None then coll_find i local else None)"
  "coll_find i (cmp_download (CollectionComparison_of L local remote)) =
     (if coll_find i local = None then coll_find i remote else None)"
  by (auto simp: CollectionComparison_of_def Let_def coll_find_pick set_difference_spec
      Collection_cover_def) (auto simp: coll_find_def)

text \<open>The permission that a description names: an unknown one becomes private.\<close>

definition norm_perm :: "BlobInode \<Rightarrow> BlobInode" where
  "norm_perm e = e\<lparr>bi_perm := from_description (description (bi_perm e))\<rparr>"

definition wf_coll :: "Collection \<Rightarrow> bool" where
  "wf_coll c \<longleftrightarrow> distinct (map fst (c_blobs c)) \<and> (\<forall>(i, e) \<in> set (c_blobs c). wf_oid i)"

lemma wf_coll_add: "wf_coll c \<Longrightarrow> wf_oid i \<Longrightarrow> wf_coll (add_blob i e c)"
  by (auto simp: wf_coll_def add_blob_def distinct_um_emplace um_emplace_def)

context hex_codec
begin

lemma coll_from_items_hex:
  assumes "\<And>k j. (k, j) \<in> set items \<Longrightarrow> \<exists>i e. wf_oid i \<and> k = to_hex L i \<and> j = inode_to_json e"
    and "distinct (map fst items)" and "distinct (map fst acc)"
    and "\<And>i e. (i, e) \<in> set acc \<Longrightarrow> (to_hex L i) \<notin> fst ` set items"
  shows "\<exists>blobs. coll_from_items L items acc = ok blobs \<and> distinct (map fst blobs) \<and>
    (\<forall>i x. (i, x) \<in> set blobs \<longleftrightarrow> (i, x) \<in> set acc \<or>
       (\<exists>e. x = norm_perm e \<and> wf_oid i \<and> (to_hex L i, inode_to_json e) \<in> set items))"
  using assms
proof (induction items arbitrary: acc)
  case (Cons kj items)
  obtain i e where kj: "kj = (to_hex L i, inode_to_json e)" and i: "wf_oid i"
    using Cons.prems(1) [of "fst kj" "snd kj"] by (metis list.set_intros(1) prod.collapse)
  have fresh: "i \<notin> fst ` set acc" using Cons.prems(4) kj by force
  let ?acc = "acc @ [(i, norm_perm e)]"
  have step: "coll_from_items L (kj # items) acc = coll_from_items L items ?acc"
    using fresh by (simp add: kj oid_from_hex_to_hex i inode_json_roundtrip bind_r_def norm_perm_def
        um_emplace_def)
  have inj: "inode_to_json e' = inode_to_json e \<Longrightarrow> norm_perm e' = norm_perm e" for e'
    by (metis inode_json_roundtrip norm_perm_def sum.inject(2))
  have "\<exists>blobs. coll_from_items L items ?acc = ok blobs \<and> distinct (map fst blobs) \<and>
    (\<forall>i x. (i, x) \<in> set blobs \<longleftrightarrow> (i, x) \<in> set ?acc \<or>
       (\<exists>e. x = norm_perm e \<and> wf_oid i \<and> (to_hex L i, inode_to_json e) \<in> set items))"
  proof (rule Cons.IH)
    show "\<exists>i e. wf_oid i \<and> k = to_hex L i \<and> j = inode_to_json e" if "(k, j) \<in> set items" for k j
      using Cons.prems(1) that by simp
    show "distinct (map fst items)" "distinct (map fst ?acc)"
      using Cons.prems(2,3) fresh by auto
    show "to_hex L j \<notin> fst ` set items" if "(j, e') \<in> set ?acc" for j e'
      using Cons.prems(2,4) that by (auto simp: kj)
  qed
  moreover have "(\<exists>e. x = norm_perm e \<and> wf_oid j \<and> (to_hex L j, inode_to_json e) \<in> set (kj # items)) \<longleftrightarrow>
      (j, x) = (i, norm_perm e) \<or>
      (\<exists>e. x = norm_perm e \<and> wf_oid j \<and> (to_hex L j, inode_to_json e) \<in> set items)" for j x
    using i inj unfolding kj set_simps insert_iff prod.inject to_hex_inject by blast
  ultimately show ?case unfolding step by auto
qed auto

lemma coll_json_roundtrip:
  assumes "wf_coll c"
  shows "\<exists>c'. coll_from_json L (coll_to_json L c) = ok c' \<and> c_name c' = c_name c \<and> c_owner c' = c_owner c
    \<and> c_meta c' = c_meta c \<and> (\<forall>i. coll_find i c' = map_option norm_perm (coll_find i c))"
proof -
  let ?items = "fold (\<lambda>(i, e). obj_emplace (to_hex L i) (inode_to_json e)) (c_blobs c) []"
  have dist: "distinct (map fst (c_blobs c))" and oid: "\<And>i e. (i, e) \<in> set (c_blobs c) \<Longrightarrow> wf_oid i"
    using assms by (auto simp: wf_coll_def)
  have "distinct (map (\<lambda>x. to_hex L (fst x)) (c_blobs c))"
  proof -
    have "inj (to_hex L)" by (simp add: inj_def to_hex_inject)
    then have "distinct (map (to_hex L) (map fst (c_blobs c)))"
      using dist distinct_map by (metis inj_on_subset subset_UNIV)
    then show ?thesis by (simp add: comp_def)
  qed
  from fold_obj_emplace [of "[]", OF _ this, of "\<lambda>x. inode_to_json (snd x)"]
  have items: "set ?items = (\<lambda>x. (to_hex L (fst x), inode_to_json (snd x))) ` set (c_blobs c)"
    and sorted: "sorted_wrt (<) (map fst ?items)"
    by (simp_all add: case_prod_unfold)
  have "\<exists>blobs. coll_from_items L ?items [] = ok blobs \<and> distinct (map fst blobs) \<and>
    (\<forall>i x. (i, x) \<in> set blobs \<longleftrightarrow> (i, x) \<in> set [] \<or>
       (\<exists>e. x = norm_perm e \<and> wf_oid i \<and> (to_hex L i, inode_to_json e) \<in> set ?items))"
    using sorted by (intro coll_from_items_hex) (auto simp: items strict_sorted_iff intro: oid)
  then obtain blobs where blobs: "coll_from_items L ?items [] = ok blobs" "distinct (map fst blobs)"
    "\<And>i x. (i, x) \<in> set blobs \<longleftrightarrow>
       (\<exists>e. x = norm_perm e \<and> wf_oid i \<and> (to_hex L i, inode_to_json e) \<in> set ?items)"
    by auto
  have inj: "inode_to_json e' = inode_to_json e \<Longrightarrow> norm_perm e' = norm_perm e" for e e'
    by (metis inode_json_roundtrip norm_perm_def sum.inject(2))
  have mem: "(i, e') \<in> set blobs \<longleftrightarrow> (\<exists>e. e' = norm_perm e \<and> (i, e) \<in> set (c_blobs c))" for i e'
  proof -
    have "(to_hex L i, inode_to_json e) \<in> set ?items \<longleftrightarrow>
        (\<exists>e0. (i, e0) \<in> set (c_blobs c) \<and> inode_to_json e = inode_to_json e0)" for e
      unfolding items by (auto simp: to_hex_inject image_iff Bex_def)
    then show ?thesis unfolding blobs(3) using oid inj by blast
  qed
  have "map_of blobs i = map_option norm_perm (map_of (c_blobs c) i)" for i
  proof (cases "map_of (c_blobs c) i")
    case None
    then have "i \<notin> fst ` set blobs" using mem by (force simp: map_of_eq_None_iff)
    then have "map_of blobs i = None" by (simp add: map_of_eq_None_iff)
    then show ?thesis using None by simp
  next
    case (Some e)
    then have "(i, norm_perm e) \<in> set blobs" using mem by (blast dest: map_of_SomeD)
    then show ?thesis using Some blobs(2) by simp
  qed
  then show ?thesis
    by (simp add: coll_from_json_def coll_to_json_def Let_def result_simps json_items_def
        less_char_def blobs(1) coll_find_def)
qed

end

section \<open>Facts: lists of collections\<close>

text \<open>An entry whose metadata survives the list format: an object without the two added keys.\<close>

definition wf_entry :: "Collection \<Rightarrow> bool" where
  "wf_entry en \<longleftrightarrow> (case c_meta en of
       JObj kvs \<Rightarrow> sorted_wrt (<) (map fst kvs) \<and> ''owner'' \<notin> fst ` set kvs \<and> ''coll'' \<notin> fst ` set kvs
     | _ \<Rightarrow> False)"

lemma obj_erase_id: "k \<notin> fst ` set kvs \<Longrightarrow> obj_erase k kvs = kvs"
  unfolding obj_erase_def by (rule filter_True) force

lemma obj_erase_emplace: "k \<notin> fst ` set kvs \<Longrightarrow> obj_erase k (obj_emplace k v kvs) = kvs"
proof (induction k v kvs rule: obj_emplace.induct)
  case (2 k v k' v' kvs)
  have "obj_erase k kvs = kvs" using 2(2) by (intro obj_erase_id) auto
  with 2 show ?case by (auto simp: obj_erase_def)
qed (simp add: obj_erase_def)

lemma obj_erase_emplace_other:
  assumes "k \<noteq> k'" and "k' \<notin> fst ` set kvs"
  shows "obj_erase k' (obj_emplace k v kvs) = obj_emplace k v kvs"
  using assms by (intro obj_erase_id) (simp add: keys_obj_emplace)

lemma list_entry_roundtrip:
  assumes "wf_entry en"
  obtains j where "list_entry_json en = ok j"
    and "json_at j ''owner'' = ok (JStr (c_owner en))" and "json_at j ''coll'' = ok (JStr (c_name en))"
    and "bind_r (json_erase ''owner'' j) (json_erase ''coll'') = ok (c_meta en)"
proof -
  obtain kvs where kvs: "c_meta en = JObj kvs" "sorted_wrt (<) (map fst kvs)"
    "''owner'' \<notin> fst ` set kvs" "''coll'' \<notin> fst ` set kvs"
    using assms by (cases "c_meta en") (auto simp: wf_entry_def)
  let ?k1 = "obj_emplace ''owner'' (JStr (c_owner en)) kvs"
  let ?k2 = "obj_emplace ''coll'' (JStr (c_name en)) ?k1"
  have s1: "sorted_wrt (<) (map fst ?k1)" using kvs(2) by (rule sorted_obj_emplace)
  have nc: "''coll'' \<notin> fst ` set ?k1" using kvs(4) by (simp add: keys_obj_emplace)
  have none: "map_of kvs ''owner'' = None" "map_of ?k1 ''coll'' = None"
    using kvs(3) nc by (simp_all only: map_of_eq_None_iff not_False_eq_True)
  have "map_of ?k1 ''owner'' = Some (JStr (c_owner en))"
    using none by (simp add: map_of_obj_emplace [OF kvs(2)])
  then have at: "map_of ?k2 ''owner'' = Some (JStr (c_owner en))" "map_of ?k2 ''coll'' = Some (JStr (c_name en))"
    using none by (simp_all add: map_of_obj_emplace [OF s1])
  have erase: "obj_erase ''coll'' (obj_erase ''owner'' ?k2) = kvs"
  proof -
    have "obj_erase ''coll'' (obj_erase ''owner'' ?k2) = obj_erase ''owner'' (obj_erase ''coll'' ?k2)"
      by (simp add: obj_erase_def conj_commute case_prod_unfold)
    then show ?thesis using nc kvs(3) by (simp add: obj_erase_emplace)
  qed
  show thesis
  proof (rule that)
    show "list_entry_json en = ok (JObj ?k2)"
      by (simp add: list_entry_json_def emplace_def kvs(1) bind_r_def)
  qed (simp_all add: json_at_def at json_erase_def bind_r_def erase kvs(1))
qed

lemma list_from_items_entries:
  assumes "\<forall>en \<in> set l. wf_entry en"
  obtains js where "list_entries_json l = ok js"
    and "\<And>dest. list_from_items js dest = ok (dest @ map (\<lambda>en. Collection_meta (c_name en) (c_owner en) (c_meta en)) l)"
proof -
  have "\<exists>js. list_entries_json l = ok js \<and> (\<forall>dest. list_from_items js dest =
      ok (dest @ map (\<lambda>en. Collection_meta (c_name en) (c_owner en) (c_meta en)) l))"
    using assms
  proof (induction l)
    case (Cons en l)
    then obtain js where js: "list_entries_json l = ok js" "\<And>dest. list_from_items js dest =
      ok (dest @ map (\<lambda>en. Collection_meta (c_name en) (c_owner en) (c_meta en)) l)" by auto
    from Cons.prems have "wf_entry en" by simp
    then obtain j where "list_entry_json en = ok j" "json_at j ''owner'' = ok (JStr (c_owner en))"
      "json_at j ''coll'' = ok (JStr (c_name en))"
      "bind_r (json_erase ''owner'' j) (json_erase ''coll'') = ok (c_meta en)"
      by (rule list_entry_roundtrip)
    with js show ?case by (simp add: bind_r_def get_string_def list_add_def)
  qed simp
  then show thesis using that by blast
qed

lemma list_json_roundtrip:
  assumes "\<forall>en \<in> set l. wf_entry en"
  obtains j l' where "list_to_json l = ok j" "list_from_json j = ok l'" "list_eq l l'"
proof -
  obtain js where js: "list_entries_json l = ok js"
    "\<And>dest. list_from_items js dest = ok (dest @ map (\<lambda>en. Collection_meta (c_name en) (c_owner en) (c_meta en)) l)"
    using list_from_items_entries [OF assms] by blast
  have "map snd (json_items (JArr js)) = js" by (simp add: json_items_def)
  moreover have "list_eq l (map (\<lambda>en. Collection_meta (c_name en) (c_owner en) (c_meta en)) l)"
    by (simp add: list_eq_def list_all2_conv_all_nth Collection_meta_def)
  ultimately show thesis
    using that [of "JObj [(''colls'', JArr js)]"] js
    by (simp add: list_to_json_def list_from_json_def bind_r_def json_at_def)
qed

lemma coll_from_items_wf:
  assumes "hex_codec L"
  shows "coll_from_items L items blobs = Inr blobs' \<Longrightarrow> distinct (map fst blobs) \<Longrightarrow> \<forall>(i, e) \<in> set blobs. wf_oid i \<Longrightarrow>
    distinct (map fst blobs') \<and> (\<forall>(i, e) \<in> set blobs'. wf_oid i)"
proof (induction items arbitrary: blobs)
  case (Cons item items)
  obtain key v where item: "item = (key, v)" by (cases item)
  show ?case
  proof (cases "oid_from_hex L key")
    case None
    then show ?thesis using Cons by (simp add: item)
  next
    case (Some i)
    then obtain e where e: "coll_from_items L items (um_emplace i e blobs) = Inr blobs'"
      using Cons.prems(1) by (auto simp: item bind_r_def split: sum.splits)
    have "wf_oid i" using hex_codec.oid_from_hex_wf [OF assms Some] .
    then have "\<forall>(i, e) \<in> set (um_emplace i e blobs). wf_oid i" using Cons.prems(3) by (auto simp: um_emplace_def)
    then show ?thesis using Cons.IH [OF e] Cons.prems(2) by (simp add: distinct_um_emplace)
  qed
qed simp

lemma coll_from_json_wf: "hex_codec L \<Longrightarrow> coll_from_json L j = Inr coll \<Longrightarrow> wf_coll coll"
  unfolding coll_from_json_def wf_coll_def
  by (auto simp: bind_r_def dest!: coll_from_items_wf split: sum.splits)

lemma single_blob:
  assumes "wf_coll c" "\<And>j. coll_find j c = (if j = i then Some e else None)"
  shows "c_blobs c = [(i, e)]"
proof -
  have "(j, x) \<in> set (c_blobs c) \<longleftrightarrow> coll_find j c = Some x" for j x
    using assms(1) by (simp add: coll_find_def wf_coll_def map_of_eq_Some_iff)
  then have "(j, x) \<in> set (c_blobs c) \<longleftrightarrow> (j, x) = (i, e)" for j x by (simp add: assms(2)) blast
  then have "set (c_blobs c) = {(i, e)}" by (auto simp only: set_eq_iff singleton_iff split_paired_all)
  moreover have "distinct (c_blobs c)" using assms(1) by (simp add: wf_coll_def distinct_map)
  moreover from this have "length (c_blobs c) = 1" using distinct_card [of "c_blobs c"] \<open>set (c_blobs c) = {(i, e)}\<close> by simp
  ultimately show ?thesis by (auto simp: length_Suc_conv)
qed

end
