(* ===== verification/Redis_Server.thy ===== *)
theory Redis_Server
  imports Redis_Reply "HOL-Library.Word"
begin

text \<open>
  The database. Redis is a service beside the program, so its command interpreter is a
  parameter \<^term>\<open>exec\<close> of every definition that sends a command: it takes the state of the
  server and a command to the next state and the reply. What the program relies on is the
  documented effect of the commands that it uses, stated in the locale \<^verbatim>\<open>redis_server\<close> over an
  abstract view of the keys. The scripts that the sources hold as Lua text run against the same
  parameter: \<^verbatim>\<open>redis.call\<close> raises the error reply of a command and keeps what the script has
  changed before.
\<close>

section \<open>Commands\<close>

datatype rcmd =
    HSET string string string
  | HSETNX string string string
  | HGET string string
  | HDEL string string
  | HEXISTS string string
  | HKEYS string
  | HGETALL string
  | HSCAN string int
  | HMSET string "(string \<times> string) list"
  | HMGET string "string list"
  | SADD string string
  | SREM string string
  | SMEMBERS string
  | SRANDMEMBER string
  | EXISTS string
  | DEL string
  | LREM string string
  | RPUSH string string
  | LPOP string
  | LRANGE string
  | GET string
  | SETEX string string int
  | TTL string

text \<open>The conversion of a \<^verbatim>\<open>long\<close> to an \<^verbatim>\<open>int\<close>; it is also what the formatter of hiredis makes of a 64-bit
  argument when the command says \<^verbatim>\<open>%d\<close>.\<close>

definition narrow_int :: "int \<Rightarrow> int" where
  "narrow_int i = sint (word_of_int i :: 32 word)"

lemma narrow_int_id: "- (2 ^ 31) \<le> i \<Longrightarrow> i < 2 ^ 31 \<Longrightarrow> narrow_int i = i"
  by (simp add: narrow_int_def signed_of_int signed_take_bit_int_eq_self)

lemma narrow_int_cong:
  assumes "t mod 2 ^ 32 = t' mod 2 ^ 32"
  shows "narrow_int t = narrow_int t'"
proof -
  have "(word_of_int t :: 32 word) = word_of_int t'" using assms by (intro word_of_int_eq_iff [THEN iffD2]) (simp add: take_bit_eq_mod)
  then show ?thesis by (simp add: narrow_int_def)
qed

text \<open>What a key holds. An empty aggregate does not exist.\<close>

datatype rvalue =
    Missing
  | Str string
  | Hash "string \<rightharpoonup> string"
  | MemberSet "string set"
  | Queue "string list"

definition is_hash :: "rvalue \<Rightarrow> bool" where
  "is_hash v \<longleftrightarrow> v = Missing \<or> (\<exists>m. v = Hash m)"

definition is_set :: "rvalue \<Rightarrow> bool" where
  "is_set v \<longleftrightarrow> v = Missing \<or> (\<exists>s. v = MemberSet s)"

definition is_list :: "rvalue \<Rightarrow> bool" where
  "is_list v \<longleftrightarrow> v = Missing \<or> (\<exists>l. v = Queue l)"

definition is_str :: "rvalue \<Rightarrow> bool" where
  "is_str v \<longleftrightarrow> v = Missing \<or> (\<exists>s. v = Str s)"

fun hash_of :: "rvalue \<Rightarrow> string \<rightharpoonup> string" where
  "hash_of (Hash m) = m"
| "hash_of _ = Map.empty"

fun set_of :: "rvalue \<Rightarrow> string set" where
  "set_of (MemberSet s) = s"
| "set_of _ = {}"

fun list_of :: "rvalue \<Rightarrow> string list" where
  "list_of (Queue l) = l"
| "list_of _ = []"

fun str_of :: "rvalue \<Rightarrow> string option" where
  "str_of (Str s) = Some s"
| "str_of _ = None"

definition mk_hash :: "(string \<rightharpoonup> string) \<Rightarrow> rvalue" where
  "mk_hash m = (if m = Map.empty then Missing else Hash m)"

definition mk_set :: "string set \<Rightarrow> rvalue" where
  "mk_set s = (if s = {} then Missing else MemberSet s)"

definition mk_list :: "string list \<Rightarrow> rvalue" where
  "mk_list l = (if l = [] then Missing else Queue l)"

definition bulk :: "string option \<Rightarrow> redisReply" where
  "bulk r = (case r of None \<Rightarrow> RNil | Some s \<Rightarrow> RString s)"

lemma value_simps [simp]:
  "is_hash Missing" "is_hash (mk_hash m)" "is_hash (Hash m)" "is_set Missing" "is_set (mk_set s)"
  "is_set (MemberSet s)" "is_list Missing" "is_list (mk_list l)" "is_list (Queue l)"
  "is_str Missing" "is_str (Str t)"
  "hash_of (mk_hash m) = m" "set_of (mk_set s) = s" "list_of (mk_list l) = l"
  by (simp_all add: is_hash_def is_set_def is_list_def is_str_def mk_hash_def mk_set_def mk_list_def)

lemma mk_set_Missing: "mk_set s = Missing \<longleftrightarrow> s = {}"
  by (simp add: mk_set_def)

section \<open>The documented effects\<close>

text \<open>Keys and values of a hash alternate in the reply to \<^verbatim>\<open>HGETALL\<close>.\<close>

definition alternate :: "(string \<times> string) list \<Rightarrow> redisReply list" where
  "alternate kvs = concat (map (\<lambda>(k, v). [RString k, RString v]) kvs)"

text \<open>A full iteration with \<^verbatim>\<open>HSCAN\<close>: from a cursor until the reply has the cursor 0, at most
  \<^term>\<open>n\<close> calls.\<close>

fun scan_cycle :: "('db \<Rightarrow> rcmd \<Rightarrow> 'db \<times> redisReply) \<Rightarrow> nat \<Rightarrow> string \<Rightarrow> int \<Rightarrow> 'db \<Rightarrow> (string \<times> string) list option" where
  "scan_cycle exec 0 k cursor db = None"
| "scan_cycle exec (Suc n) k cursor db = (case exec db (HSCAN k cursor) of
     (db', RArray [RString c, RArray rs]) \<Rightarrow>
       (let kvs = map (\<lambda>(f, v). (f, as_string v)) (pairs_of rs) in
        case stol c of
          None \<Rightarrow> None
        | Some c' \<Rightarrow> if c' = 0 then Some kvs else map_option (\<lambda>r. kvs @ r) (scan_cycle exec n k c' db'))
   | _ \<Rightarrow> None)"

locale redis_server =
  fixes exec :: "'db \<Rightarrow> rcmd \<Rightarrow> 'db \<times> redisReply"
    and view :: "'db \<Rightarrow> string \<Rightarrow> rvalue"
    and ttl :: "'db \<Rightarrow> string \<Rightarrow> int"
  assumes view_hash: "view db k \<noteq> Hash Map.empty" "view db k = Hash m \<Longrightarrow> finite (dom m)"
    and view_set: "view db k \<noteq> MemberSet {}" "view db k = MemberSet s \<Longrightarrow> finite s"
    and view_list: "view db k \<noteq> Queue []"
    and HSET_view: "is_hash (view db k) \<Longrightarrow>
      view (fst (exec db (HSET k f v))) = (view db)(k := Hash ((hash_of (view db k))(f \<mapsto> v)))"
    and HSET_reply: "is_hash (view db k) \<Longrightarrow>
      snd (exec db (HSET k f v)) = RInteger (if hash_of (view db k) f = None then 1 else 0)"
    and HSETNX_view: "is_hash (view db k) \<Longrightarrow> view (fst (exec db (HSETNX k f v))) =
      (if hash_of (view db k) f = None then (view db)(k := Hash ((hash_of (view db k))(f \<mapsto> v))) else view db)"
    and HSETNX_reply: "is_hash (view db k) \<Longrightarrow>
      snd (exec db (HSETNX k f v)) = RInteger (if hash_of (view db k) f = None then 1 else 0)"
    and HGET_view: "view (fst (exec db (HGET k f))) = view db"
    and HGET_reply: "is_hash (view db k) \<Longrightarrow> snd (exec db (HGET k f)) = bulk (hash_of (view db k) f)"
    and HDEL_view: "is_hash (view db k) \<Longrightarrow>
      view (fst (exec db (HDEL k f))) = (view db)(k := mk_hash ((hash_of (view db k))(f := None)))"
    and HDEL_reply: "is_hash (view db k) \<Longrightarrow>
      snd (exec db (HDEL k f)) = RInteger (if hash_of (view db k) f = None then 0 else 1)"
    and HEXISTS_view: "view (fst (exec db (HEXISTS k f))) = view db"
    and HEXISTS_reply: "is_hash (view db k) \<Longrightarrow>
      snd (exec db (HEXISTS k f)) = RInteger (if hash_of (view db k) f = None then 0 else 1)"
    and HKEYS_view: "view (fst (exec db (HKEYS k))) = view db"
    and HKEYS_reply: "is_hash (view db k) \<Longrightarrow>
      \<exists>ks. snd (exec db (HKEYS k)) = RArray (map RString ks) \<and> set ks = dom (hash_of (view db k)) \<and> distinct ks"
    and HGETALL_view: "view (fst (exec db (HGETALL k))) = view db"
    and HGETALL_reply: "is_hash (view db k) \<Longrightarrow>
      \<exists>kvs. snd (exec db (HGETALL k)) = RArray (alternate kvs) \<and> map_of kvs = hash_of (view db k)
        \<and> distinct (map fst kvs)"
    and SADD_view: "is_set (view db k) \<Longrightarrow>
      view (fst (exec db (SADD k x))) = (view db)(k := MemberSet (insert x (set_of (view db k))))"
    and SADD_reply: "is_set (view db k) \<Longrightarrow>
      snd (exec db (SADD k x)) = RInteger (if x \<in> set_of (view db k) then 0 else 1)"
    and SREM_view: "is_set (view db k) \<Longrightarrow>
      view (fst (exec db (SREM k x))) = (view db)(k := mk_set (set_of (view db k) - {x}))"
    and SREM_reply: "is_set (view db k) \<Longrightarrow>
      snd (exec db (SREM k x)) = RInteger (if x \<in> set_of (view db k) then 1 else 0)"
    and SMEMBERS_view: "view (fst (exec db (SMEMBERS k))) = view db"
    and SMEMBERS_reply: "is_set (view db k) \<Longrightarrow>
      \<exists>ms. snd (exec db (SMEMBERS k)) = RArray (map RString ms) \<and> set ms = set_of (view db k) \<and> distinct ms"
    and SRANDMEMBER_view: "view (fst (exec db (SRANDMEMBER k))) = view db"
    and SRANDMEMBER_reply: "is_set (view db k) \<Longrightarrow>
      (if set_of (view db k) = {} then snd (exec db (SRANDMEMBER k)) = RNil
       else \<exists>x \<in> set_of (view db k). snd (exec db (SRANDMEMBER k)) = RString x)"
    and EXISTS_view: "view (fst (exec db (EXISTS k))) = view db"
    and EXISTS_reply: "snd (exec db (EXISTS k)) = RInteger (if view db k = Missing then 0 else 1)"
    and DEL_view: "view (fst (exec db (DEL k))) = (view db)(k := Missing)"
    and DEL_reply: "snd (exec db (DEL k)) = RInteger (if view db k = Missing then 0 else 1)"
    and LREM_view: "is_list (view db k) \<Longrightarrow>
      view (fst (exec db (LREM k v))) = (view db)(k := mk_list (filter (\<lambda>x. x \<noteq> v) (list_of (view db k))))"
    and LREM_reply: "is_list (view db k) \<Longrightarrow>
      snd (exec db (LREM k v)) = RInteger (int (length (filter (\<lambda>x. x = v) (list_of (view db k)))))"
    and RPUSH_view: "is_list (view db k) \<Longrightarrow>
      view (fst (exec db (RPUSH k v))) = (view db)(k := Queue (list_of (view db k) @ [v]))"
    and RPUSH_reply: "is_list (view db k) \<Longrightarrow>
      snd (exec db (RPUSH k v)) = RInteger (int (length (list_of (view db k)) + 1))"
    and LPOP_view: "is_list (view db k) \<Longrightarrow>
      view (fst (exec db (LPOP k))) = (view db)(k := mk_list (tl (list_of (view db k))))"
    and LPOP_reply: "is_list (view db k) \<Longrightarrow> snd (exec db (LPOP k)) =
      (case list_of (view db k) of [] \<Rightarrow> RNil | x # _ \<Rightarrow> RString x)"
    and LRANGE_view: "view (fst (exec db (LRANGE k))) = view db"
    and LRANGE_reply: "is_list (view db k) \<Longrightarrow>
      snd (exec db (LRANGE k)) = RArray (map RString (list_of (view db k)))"
    and HMSET_view: "is_hash (view db k) \<Longrightarrow> fvs \<noteq> [] \<Longrightarrow>
      view (fst (exec db (HMSET k fvs))) = (view db)(k := Hash (fold (\<lambda>(f, v) m. m(f \<mapsto> v)) fvs (hash_of (view db k))))"
    and HMSET_reply: "is_hash (view db k) \<Longrightarrow> fvs \<noteq> [] \<Longrightarrow> snd (exec db (HMSET k fvs)) = RStatus ''OK''"
    and HMGET_view: "view (fst (exec db (HMGET k fs))) = view db"
    and HMGET_reply: "is_hash (view db k) \<Longrightarrow>
      snd (exec db (HMGET k fs)) = RArray (map (\<lambda>f. bulk (hash_of (view db k) f)) fs)"
    and GET_view: "view (fst (exec db (GET k))) = view db"
    and GET_reply: "is_str (view db k) \<Longrightarrow> snd (exec db (GET k)) = bulk (str_of (view db k))"
    and SETEX_view: "0 < n \<Longrightarrow> view (fst (exec db (SETEX k v n))) = (view db)(k := Str v)"
    and SETEX_ttl: "0 < n \<Longrightarrow> ttl (fst (exec db (SETEX k v n))) = (ttl db)(k := n)"
    and SETEX_reply: "0 < n \<Longrightarrow> snd (exec db (SETEX k v n)) = RStatus ''OK''"
    and SETEX_invalid: "n \<le> 0 \<Longrightarrow> view (fst (exec db (SETEX k v n))) = view db"
      "n \<le> 0 \<Longrightarrow> ttl (fst (exec db (SETEX k v n))) = ttl db" "n \<le> 0 \<Longrightarrow> \<exists>e. snd (exec db (SETEX k v n)) = RError e"
    and DEL_ttl: "ttl (fst (exec db (DEL k))) = (ttl db)(k := -2)"
    and GET_ttl: "ttl (fst (exec db (GET k))) = ttl db"
    and TTL_view: "view (fst (exec db (TTL k))) = view db"
    and TTL_ttl: "ttl (fst (exec db (TTL k))) = ttl db"
    and TTL_reply: "snd (exec db (TTL k)) = RInteger (ttl db k)"
    and HSCAN_view: "view (fst (exec db (HSCAN k c))) = view db"
    and HSCAN_cycle: "is_hash (view db k) \<Longrightarrow>
      \<exists>n kvs. scan_cycle exec n k 0 db = Some kvs \<and> set kvs = {(f, v). hash_of (view db k) f = Some v}"
    and ttl_missing: "view db k = Missing \<longleftrightarrow> ttl db k = -2"
begin

lemmas views = HSET_view HSETNX_view HGET_view HDEL_view HEXISTS_view HKEYS_view HGETALL_view
  SADD_view SREM_view SMEMBERS_view SRANDMEMBER_view EXISTS_view DEL_view LREM_view RPUSH_view
  LPOP_view LRANGE_view HMSET_view HMGET_view GET_view SETEX_view TTL_view HSCAN_view

lemmas replies = HSET_reply HSETNX_reply HGET_reply HDEL_reply HEXISTS_reply SADD_reply SREM_reply
  EXISTS_reply DEL_reply LREM_reply RPUSH_reply LPOP_reply LRANGE_reply HMSET_reply HMGET_reply
  GET_reply SETEX_reply TTL_reply

lemma view_missing_hash: "is_hash (view db k) \<Longrightarrow> view db k = Missing \<longleftrightarrow> hash_of (view db k) = Map.empty"
  using view_hash(1) by (auto simp: is_hash_def)

lemma view_missing_set: "is_set (view db k) \<Longrightarrow> view db k = Missing \<longleftrightarrow> set_of (view db k) = {}"
  using view_set(1) by (auto simp: is_set_def)

end

section \<open>Scripts\<close>

text \<open>A script takes the state of the server to the next one and either a value or the message of
  the error that stopped it.\<close>

type_synonym ('db, 'a) script = "'db \<Rightarrow> 'db \<times> (string + 'a)"

definition ret :: "'a \<Rightarrow> ('db, 'a) script" where
  "ret x db = (db, Inr x)"

definition raise :: "string \<Rightarrow> ('db, 'a) script" where
  "raise e db = (db, Inl e)"

definition seq :: "('db, 'a) script \<Rightarrow> ('a \<Rightarrow> ('db, 'b) script) \<Rightarrow> ('db, 'b) script" where
  "seq m f db = (case m db of (db', Inl e) \<Rightarrow> (db', Inl e) | (db', Inr x) \<Rightarrow> f x db')"

text \<open>\<^verbatim>\<open>redis.call\<close>.\<close>

definition call :: "('db \<Rightarrow> rcmd \<Rightarrow> 'db \<times> redisReply) \<Rightarrow> rcmd \<Rightarrow> ('db, redisReply) script" where
  "call exec c db = (case exec db c of (db', r) \<Rightarrow>
     (case r of RError e \<Rightarrow> (db', Inl e) | _ \<Rightarrow> (db', Inr r)))"

text \<open>The Lua values of a bulk reply (\<^verbatim>\<open>false\<close> for nil) and of an array of bulk replies.\<close>

definition lua_string :: "redisReply \<Rightarrow> string option" where
  "lua_string r = (case r of RString s \<Rightarrow> Some s | _ \<Rightarrow> None)"

definition lua_strings :: "redisReply \<Rightarrow> string list" where
  "lua_strings r = (case r of RArray rs \<Rightarrow> map (\<lambda>x. case x of RString s \<Rightarrow> s | _ \<Rightarrow> []) rs | _ \<Rightarrow> [])"

text \<open>The reply of \<^verbatim>\<open>EVAL\<close>.\<close>

definition eval :: "('db, redisReply) script \<Rightarrow> 'db \<Rightarrow> 'db \<times> redisReply" where
  "eval m db = (case m db of (db', Inl e) \<Rightarrow> (db', RError e) | (db', Inr r) \<Rightarrow> (db', r))"

fun for_each :: "'a list \<Rightarrow> ('a \<Rightarrow> ('db, 'b) script) \<Rightarrow> ('db, 'b list) script" where
  "for_each [] f = ret []"
| "for_each (x # xs) f = seq (f x) (\<lambda>y. seq (for_each xs f) (\<lambda>ys. ret (y # ys)))"

lemma ret_simps [script_simps]: "ret x db = (db, Inr x)" "raise e db = (db, Inl e)"
  by (simp_all add: ret_def raise_def)

lemma seq_simps [script_simps]:
  "m db = (db', Inr x) \<Longrightarrow> seq m f db = f x db'"
  "m db = (db', Inl e) \<Longrightarrow> seq m f db = (db', Inl e)"
  by (simp_all add: seq_def)

lemma call_ok: "\<forall>e. snd (exec db c) \<noteq> RError e \<Longrightarrow> call exec c db = (fst (exec db c), Inr (snd (exec db c)))"
  by (cases "exec db c") (auto simp: call_def split: redisReply.splits)

lemma lua_bulk [simp]: "lua_string (bulk r) = r" "bulk r \<noteq> RError e"
  by (auto simp: lua_string_def bulk_def split: option.splits)

lemma lua_strings_map [simp]: "lua_strings (RArray (map RString ks)) = ks"
  by (simp add: lua_strings_def comp_def)

lemma lua_strings_alternate: "lua_strings (RArray (alternate kvs)) = concat (map (\<lambda>(k, v). [k, v]) kvs)"
  by (induction kvs) (auto simp: lua_strings_def alternate_def)

end
