(* ===== verification/Redis_Keys.thy ===== *)
theory Redis_Keys
  imports Object_ID Redis_Server
begin

text \<open>
  \<^verbatim>\<open>src/server/hrb/RedisKeys.cc\<close> and the key prefixes of \<^verbatim>\<open>src/server/crypto/Authentication.cc\<close>:
  the names under which the program keeps its data. Two different objects have different keys
  as long as no user name contains a colon.
\<close>

definition key_blob_refs :: "string \<Rightarrow> ObjectID \<Rightarrow> string" where
  "key_blob_refs user blob = ''blob-refs:'' @ user @ '':'' @ blob"

definition key_blob_owners :: "ObjectID \<Rightarrow> string" where
  "key_blob_owners blob = ''blob-owners:'' @ blob"

definition key_collection :: "string \<Rightarrow> string \<Rightarrow> string" where
  "key_collection user coll = ''coll:'' @ user @ '':'' @ coll"

definition key_collection_list :: "string \<Rightarrow> string" where
  "key_collection_list user = ''colls:'' @ user"

definition key_public_blobs :: string where
  "key_public_blobs = ''public_blobs''"

definition key_blob_inode :: "string \<Rightarrow> string" where
  "key_blob_inode user = ''blob-inodes:'' @ user"

definition key_session :: "string \<Rightarrow> string" where
  "key_session session = ''session:'' @ session"

definition key_user :: "string \<Rightarrow> string" where
  "key_user username = ''user:'' @ username"

definition key_shared_auth :: "string \<Rightarrow> string \<Rightarrow> string" where
  "key_shared_auth owner resource = ''shared_auth:'' @ owner @ '':'' @ resource"

lemmas key_defs = key_blob_refs_def key_blob_owners_def key_collection_def key_collection_list_def
  key_public_blobs_def key_blob_inode_def key_session_def key_user_def key_shared_auth_def

text \<open>A user name that keeps the keys apart.\<close>

definition plain_user :: "string \<Rightarrow> bool" where
  "plain_user u \<longleftrightarrow> CHR '':'' \<notin> set u"

lemma key_blob_refs_inject [key_simps]:
  "wf_oid b \<Longrightarrow> wf_oid b' \<Longrightarrow> key_blob_refs u b = key_blob_refs u' b' \<longleftrightarrow> u = u' \<and> b = b'"
  by (auto simp: key_blob_refs_def wf_oid_def)

lemma key_blob_owners_inject [key_simps]: "key_blob_owners b = key_blob_owners b' \<longleftrightarrow> b = b'"
  by (simp add: key_blob_owners_def)

lemma key_collection_inject [key_simps]:
  "plain_user u \<Longrightarrow> plain_user u' \<Longrightarrow> key_collection u c = key_collection u' c' \<longleftrightarrow> u = u' \<and> c = c'"
  by (simp add: key_collection_def plain_user_def append_colon_inject)

lemma key_collection_same [key_simps]: "key_collection u c = key_collection u c' \<longleftrightarrow> c = c'"
  by (simp add: key_collection_def)

lemma key_collection_list_inject [key_simps]: "key_collection_list u = key_collection_list u' \<longleftrightarrow> u = u'"
  by (simp add: key_collection_list_def)

lemma key_blob_inode_inject [key_simps]: "key_blob_inode u = key_blob_inode u' \<longleftrightarrow> u = u'"
  by (simp add: key_blob_inode_def)

lemma key_session_inject [key_simps]: "key_session u = key_session u' \<longleftrightarrow> u = u'"
  by (simp add: key_session_def)

lemma key_user_inject [key_simps]: "key_user u = key_user u' \<longleftrightarrow> u = u'"
  by (simp add: key_user_def)

lemma key_shared_auth_inject [key_simps]:
  "plain_user u \<Longrightarrow> plain_user u' \<Longrightarrow> key_shared_auth u c = key_shared_auth u' c' \<longleftrightarrow> u = u' \<and> c = c'"
  by (simp add: key_shared_auth_def plain_user_def append_colon_inject)

text \<open>Keys of different kinds differ in their prefix.\<close>

lemma keys_distinct [key_simps]:
  "key_blob_refs u b \<noteq> key_blob_owners b'" "key_blob_refs u b \<noteq> key_collection u' c"
  "key_blob_refs u b \<noteq> key_collection_list u'" "key_blob_refs u b \<noteq> key_public_blobs"
  "key_blob_refs u b \<noteq> key_blob_inode u'"
  "key_blob_owners b' \<noteq> key_blob_refs u b" "key_blob_owners b \<noteq> key_collection u c"
  "key_blob_owners b \<noteq> key_collection_list u" "key_blob_owners b \<noteq> key_public_blobs"
  "key_blob_owners b \<noteq> key_blob_inode u"
  "key_collection u' c \<noteq> key_blob_refs u b" "key_collection u c \<noteq> key_blob_owners b"
  "key_collection u c \<noteq> key_collection_list u'" "key_collection u c \<noteq> key_public_blobs"
  "key_collection u c \<noteq> key_blob_inode u'"
  "key_collection_list u' \<noteq> key_blob_refs u b" "key_collection_list u \<noteq> key_blob_owners b"
  "key_collection_list u' \<noteq> key_collection u c" "key_collection_list u \<noteq> key_public_blobs"
  "key_collection_list u \<noteq> key_blob_inode u'"
  "key_public_blobs \<noteq> key_blob_refs u b" "key_public_blobs \<noteq> key_blob_owners b"
  "key_public_blobs \<noteq> key_collection u c" "key_public_blobs \<noteq> key_collection_list u"
  "key_public_blobs \<noteq> key_blob_inode u"
  "key_blob_inode u' \<noteq> key_blob_refs u b" "key_blob_inode u \<noteq> key_blob_owners b"
  "key_blob_inode u' \<noteq> key_collection u c" "key_blob_inode u' \<noteq> key_collection_list u"
  "key_blob_inode u \<noteq> key_public_blobs"
  by (simp_all add: key_defs)

text \<open>The keys of sessions, users and shares are apart from each other and from the keys of the
  blobs.\<close>

lemma auth_keys_distinct [key_simps]:
  "key_session s \<noteq> key_user u" "key_session s \<noteq> key_shared_auth o' r" "key_user u \<noteq> key_session s"
  "key_user u \<noteq> key_shared_auth o' r" "key_shared_auth o' r \<noteq> key_session s"
  "key_shared_auth o' r \<noteq> key_user u"
  by (simp_all add: key_defs)

text \<open>A colon in a user name makes two collections share their key.\<close>

lemma key_collection_collision: "key_collection ''a:b'' ''c'' = key_collection ''a'' ''b:c''"
  by (simp add: key_collection_def)

end
