(* ===== verification/Ownership.thy ===== *)
theory Ownership
  imports Collections Redis_Keys
begin

text \<open>
  \<^verbatim>\<open>src/server/hrb/Ownership.cc\<close> and \<^verbatim>\<open>Ownership.ipp\<close>: the blobs of a user in the database. Each
  \<^verbatim>\<open>*_command\<close> is the Lua script that the source holds as text, with the keys and arguments that
  the source passes; each operation runs its command on the server and gives the arguments of
  the completion callback. A callback is a function of its own where the connection may deliver
  an error instead of the reply. An \<^verbatim>\<open>Ownership\<close> object is the name of its user.
\<close>

section \<open>Lua\<close>

text \<open>\<^verbatim>\<open>tohex\<close> of the script.\<close>

definition lua_tohex :: "string \<Rightarrow> string" where
  "lua_tohex str = concat (map byte_hex str)"

definition lua_decode :: "extlib \<Rightarrow> string option \<Rightarrow> ('db, json) script" where
  "lua_decode L s = (case s of
       None \<Rightarrow> raise ''bad argument #1 to 'decode' (string expected, got boolean)''
     | Some t \<Rightarrow> (case cjson_decode L t of None \<Rightarrow> raise ''Expected value but found invalid token'' | Some j \<Rightarrow> ret j))"

text \<open>\<^verbatim>\<open>album['cover']\<close> compared with a string, and assigned.\<close>

definition cover_is :: "json \<Rightarrow> string \<Rightarrow> bool" where
  "cover_is album hex = (case album of JObj kvs \<Rightarrow> map_of kvs ''cover'' = Some (JStr hex) | _ \<Rightarrow> False)"

definition assign_cover :: "json \<Rightarrow> string \<Rightarrow> ('db, json) script" where
  "assign_cover album hex = (case album of
       JObj kvs \<Rightarrow> ret (JObj (obj_set ''cover'' (JStr hex) kvs))
     | _ \<Rightarrow> raise ''attempt to index a non-table value'')"

definition cover_json :: "string \<Rightarrow> json" where
  "cover_json hex = JObj [(''cover'', JStr hex)]"

section \<open>The commands that change the database\<close>

definition link_script ::
  "('db \<Rightarrow> rcmd \<Rightarrow> 'db \<times> redisReply) \<Rightarrow> extlib \<Rightarrow> string \<Rightarrow> string \<Rightarrow> ObjectID \<Rightarrow> string \<Rightarrow> string \<Rightarrow>
   ('db, redisReply) script" where
  "link_script exec L user coll blob entry filename =
     (let blob_ref = key_blob_refs user blob; blob_owner = key_blob_owners blob;
          blob_meta = key_blob_inode user; coll_key = key_collection user coll;
          coll_list = key_collection_list user; cover = to_hex L blob
      in seq (call exec (SADD blob_ref coll)) (\<lambda>_.
         seq (call exec (SADD blob_owner user)) (\<lambda>_.
         seq (if entry \<noteq> [] then call exec (HSETNX blob_meta blob entry) else ret RNil) (\<lambda>_.
         seq (call exec (HSET coll_key blob filename)) (\<lambda>_.
         seq (call exec (HSETNX coll_list coll (cjson_encode L (cover_json cover)))) (\<lambda>_.
         ret RNil))))))"

text \<open>\<^verbatim>\<open>BlobInodeDB::create\<close> may throw before the command is sent.\<close>

definition link_command ::
  "('db \<Rightarrow> rcmd \<Rightarrow> 'db \<times> redisReply) \<Rightarrow> extlib \<Rightarrow> string \<Rightarrow> string \<Rightarrow> ObjectID \<Rightarrow> BlobInode \<Rightarrow>
   ('db, redisReply) script result" where
  "link_command exec L user coll blob coll_entry =
     bind_r (inodedb_create_fields L coll_entry) (\<lambda>entry.
       let filename = (if bi_filename coll_entry = [] then ''hello'' else bi_filename coll_entry)
       in ok (link_script exec L user coll blob entry filename))"

definition move_command ::
  "('db \<Rightarrow> rcmd \<Rightarrow> 'db \<times> redisReply) \<Rightarrow> extlib \<Rightarrow> string \<Rightarrow> string \<Rightarrow> string \<Rightarrow> ObjectID \<Rightarrow>
   ('db, redisReply) script" where
  "move_command exec L user src_coll dest_coll blob =
     (let blob_ref = key_blob_refs user blob; src_key = key_collection user src_coll;
          dest_key = key_collection user dest_coll; coll_list = key_collection_list user;
          cover = to_hex L blob
      in seq (call exec (SADD blob_ref dest_coll)) (\<lambda>_.
         seq (call exec (SREM blob_ref src_coll)) (\<lambda>_.
         seq (call exec (HGET src_key blob)) (\<lambda>filename.
         seq (case lua_string filename of
                None \<Rightarrow> raise ''Lua redis() command arguments must be strings or integers''
              | Some name \<Rightarrow> call exec (HSET dest_key blob name)) (\<lambda>_.
         seq (call exec (HDEL src_key blob)) (\<lambda>_.
         seq (call exec (HSETNX coll_list dest_coll (cjson_encode L (cover_json cover)))) (\<lambda>_.
         ret RNil)))))))"

text \<open>The end of the unlink script, in two parts: the cover that replaces a removed one, and the
  removal of the entry with what it means for the list of collections.\<close>

definition unlink_cover ::
  "('db \<Rightarrow> rcmd \<Rightarrow> 'db \<times> redisReply) \<Rightarrow> extlib \<Rightarrow> string \<Rightarrow> string \<Rightarrow> json \<Rightarrow> ('db, redisReply) script" where
  "unlink_cover exec L user coll album =
     seq (call exec (HKEYS (key_collection user coll))) (\<lambda>ks.
     case lua_strings ks of
       [] \<Rightarrow> raise ''bad argument #1 to 'tohex' (string expected, got nil)''
     | k # _ \<Rightarrow>
         seq (assign_cover album (lua_tohex k)) (\<lambda>album'.
         seq (call exec (HSET (key_collection_list user) coll (cjson_encode L album'))) (\<lambda>_. ret RNil)))"

definition unlink_entry ::
  "('db \<Rightarrow> rcmd \<Rightarrow> 'db \<times> redisReply) \<Rightarrow> extlib \<Rightarrow> string \<Rightarrow> string \<Rightarrow> ObjectID \<Rightarrow> ('db, redisReply) script" where
  "unlink_entry exec L user coll blob =
     (let coll_hash = key_collection user coll; coll_list = key_collection_list user
      in seq (call exec (HDEL coll_hash blob)) (\<lambda>_.
         seq (call exec (EXISTS coll_hash)) (\<lambda>m.
         if m = RInteger 0 then
           seq (call exec (HDEL coll_list coll)) (\<lambda>_. ret RNil)
         else
           seq (call exec (HGET coll_list coll)) (\<lambda>json.
           seq (lua_decode L (lua_string json)) (\<lambda>album.
           if cover_is album (lua_tohex blob) then unlink_cover exec L user coll album
           else ret RNil)))))"

definition unlink_command ::
  "('db \<Rightarrow> rcmd \<Rightarrow> 'db \<times> redisReply) \<Rightarrow> extlib \<Rightarrow> string \<Rightarrow> string \<Rightarrow> ObjectID \<Rightarrow> ('db, redisReply) script" where
  "unlink_command exec L user coll blob =
     (let blob_ref = key_blob_refs user blob; blob_owner = key_blob_owners blob;
          blob_meta = key_blob_inode user; pub_list = key_public_blobs
      in seq (call exec (SREM blob_ref coll)) (\<lambda>_.
         seq (call exec (EXISTS blob_ref)) (\<lambda>n.
         seq (if n = RInteger 0 then
                seq (call exec (SREM blob_owner user)) (\<lambda>_.
                seq (call exec (HDEL blob_meta blob)) (\<lambda>_.
                call exec (LREM pub_list (msgpack_pack L user blob))))
              else ret RNil) (\<lambda>_.
         unlink_entry exec L user coll blob))))"

definition set_permission_command ::
  "('db \<Rightarrow> rcmd \<Rightarrow> 'db \<times> redisReply) \<Rightarrow> extlib \<Rightarrow> string \<Rightarrow> ObjectID \<Rightarrow> Permission \<Rightarrow> ('db, redisReply) script" where
  "set_permission_command exec L user blob p =
     (let pub_list = key_public_blobs; blob_meta = key_blob_inode user
      in seq (call exec (HGET blob_meta blob)) (\<lambda>original.
         seq (case lua_string original of
                None \<Rightarrow> raise ''bad argument #1 to 'sub' (string expected, got boolean)''
              | Some s \<Rightarrow> ret (perm p # drop 1 s)) (\<lambda>updated.
         seq (call exec (HSET blob_meta blob updated)) (\<lambda>_.
         let msgpack = msgpack_pack L user blob
         in if perm p = CHR ''*'' then
              seq (call exec (LREM pub_list msgpack)) (\<lambda>_.
              seq (call exec (RPUSH pub_list msgpack)) (\<lambda>n.
              seq (if 100 < as_int (Some n) then call exec (LPOP pub_list) else ret RNil) (\<lambda>_. ret RNil)))
            else seq (call exec (LREM pub_list msgpack)) (\<lambda>_. ret RNil)))))"

definition set_cover_command ::
  "('db \<Rightarrow> rcmd \<Rightarrow> 'db \<times> redisReply) \<Rightarrow> extlib \<Rightarrow> string \<Rightarrow> string \<Rightarrow> ObjectID \<Rightarrow> ('db, redisReply) script" where
  "set_cover_command exec L user coll cover =
     (let coll_list = key_collection_list user; coll_hash = key_collection user coll
      in seq (call exec (HGET coll_list coll)) (\<lambda>json.
         seq (call exec (HEXISTS coll_hash cover)) (\<lambda>in_coll.
         if lua_string json \<noteq> None \<and> in_coll = RInteger 1 then
           seq (lua_decode L (lua_string json)) (\<lambda>album.
           seq (assign_cover album (to_hex L cover)) (\<lambda>album'.
           seq (call exec (HSET coll_list coll (cjson_encode L album'))) (\<lambda>_.
           ret (RInteger 1))))
         else ret (RInteger 0))))"

section \<open>The commands that read it\<close>

definition scan_collection_command ::
  "('db \<Rightarrow> rcmd \<Rightarrow> 'db \<times> redisReply) \<Rightarrow> string \<Rightarrow> string \<Rightarrow> ('db, redisReply) script" where
  "scan_collection_command exec user coll =
     (let coll_hash = key_collection user coll; coll_list = key_collection_list user;
          blob_meta = key_blob_inode user
      in seq (call exec (HGETALL coll_hash)) (\<lambda>all.
         seq (for_each (enumerate 1 (lua_strings all)) (\<lambda>(i, v).
                if i mod 2 = 1
                then seq (call exec (HGET blob_meta v)) (\<lambda>r. ret [RString v, r])
                else ret [RString v])) (\<lambda>dirs.
         seq (call exec (HGET coll_list coll)) (\<lambda>c. ret (RArray [RArray (concat dirs), c])))))"

definition get_blob_command ::
  "('db \<Rightarrow> rcmd \<Rightarrow> 'db \<times> redisReply) \<Rightarrow> string \<Rightarrow> string \<Rightarrow> ObjectID \<Rightarrow> ('db, redisReply) script" where
  "get_blob_command exec user coll blob =
     (let coll_hash = key_collection user coll; blob_meta = key_blob_inode user
      in seq (call exec (HEXISTS coll_hash blob)) (\<lambda>e.
         if e = RInteger 1 then
           seq (call exec (HGET blob_meta blob)) (\<lambda>inode.
           seq (call exec (HGET coll_hash blob)) (\<lambda>name. ret (RArray [inode, name])))
         else ret RNil))"

definition list_public_blob_command ::
  "('db \<Rightarrow> rcmd \<Rightarrow> 'db \<times> redisReply) \<Rightarrow> extlib \<Rightarrow> ('db, redisReply) script" where
  "list_public_blob_command exec L =
     seq (call exec (LRANGE key_public_blobs)) (\<lambda>pub_list.
     seq (for_each (lua_strings pub_list) (\<lambda>msgpack.
            case msgpack_unpack L msgpack of
              None \<Rightarrow> raise ''Bad data format in input.''
            | Some (Some user, Some blob) \<Rightarrow>
                seq (call exec (SRANDMEMBER (''blob-refs:'' @ user @ '':'' @ blob))) (\<lambda>c.
                seq (call exec (HGET (''blob-inodes:'' @ user) blob)) (\<lambda>inode.
                ret [RArray [RString user, RString blob, c, inode]]))
            | Some _ \<Rightarrow> ret [])) (\<lambda>elements.
     ret (RArray (concat elements))))"

definition query_blob_command ::
  "('db \<Rightarrow> rcmd \<Rightarrow> 'db \<times> redisReply) \<Rightarrow> string \<Rightarrow> ObjectID \<Rightarrow> ('db, redisReply) script" where
  "query_blob_command exec user blob =
     (let blob_ref = key_blob_refs user blob; blob_meta = key_blob_inode user
      in seq (call exec (SMEMBERS blob_ref)) (\<lambda>colls.
         seq (for_each (lua_strings colls) (\<lambda>coll.
                seq (call exec (HGET blob_meta blob)) (\<lambda>inode. ret [RString coll, inode]))) (\<lambda>dirs.
         ret (RArray (concat dirs)))))"

section \<open>Callbacks\<close>

text \<open>\<^verbatim>\<open>link_blob\<close>, \<^verbatim>\<open>unlink_blob\<close>, \<^verbatim>\<open>rename_blob\<close>, \<^verbatim>\<open>set_permission\<close> and \<^verbatim>\<open>move_blob\<close> pass on
  the error code of the connection and only log an error reply.\<close>

definition ec_callback :: "Reply \<Rightarrow> error_code \<Rightarrow> error_code" where
  "ec_callback reply ec = ec"

fun from_rows ::
  "extlib \<Rightarrow> string \<Rightarrow> UserID \<Rightarrow> redisReply list \<Rightarrow> Collection \<Rightarrow> Collection result" where
  "from_rows L user requester (b # p # f # rs) result =
     (let blob = as_string (Some b); raw = as_string (Some p); filename = as_string (Some f)
      in if raw = [] then from_rows L user requester rs result
         else case from_raw blob of
           None \<Rightarrow> from_rows L user requester rs result
         | Some blob_id \<Rightarrow>
             if allow (inodedb_permission raw) requester user then
               bind_r (inodedb_fields L raw) (\<lambda>fields.
                 case fields of
                   None \<Rightarrow> from_rows L user requester rs result
                 | Some e \<Rightarrow> from_rows L user requester rs
                     (add_blob blob_id (if filename \<noteq> [] then e\<lparr>bi_filename := filename\<rparr> else e) result))
             else from_rows L user requester rs result)"
| "from_rows L user requester _ result = ok result"

definition from_reply ::
  "extlib \<Rightarrow> string \<Rightarrow> Reply \<Rightarrow> string \<Rightarrow> UserID \<Rightarrow> json \<Rightarrow> Collection result" where
  "from_reply L user reply coll requester meta =
     from_rows L user requester (elements reply) (Collection_meta coll user meta)"

definition get_collection_callback ::
  "extlib \<Rightarrow> string \<Rightarrow> UserID \<Rightarrow> string \<Rightarrow> Reply \<Rightarrow> error_code \<Rightarrow> (Collection \<times> error_code) result" where
  "get_collection_callback L user requester coll reply ec =
     (if array_size reply = 2 then
        (let meta0 = (case json_parse L (as_string (as_array reply 1)) of None \<Rightarrow> JObj [] | Some j \<Rightarrow> j);
             meta = (if is_object meta0 then meta0 else JObj [])
         in bind_r (from_reply L user (as_array reply 0) coll requester meta) (\<lambda>c. ok (c, ec)))
      else ok (empty_coll, Hrb_error H_redis_command_error))"

definition get_blob_callback :: "Reply \<Rightarrow> error_code \<Rightarrow> BlobInodeDB \<times> string \<times> error_code" where
  "get_blob_callback entry ec =
     (if ec = No_error \<and> array_size entry = 2
      then (as_string (as_array entry 0), as_string (as_array entry 1), ec)
      else (empty_inode_db, [], Hrb_error H_object_not_exist))"

definition get_inode_callback :: "string \<Rightarrow> UserID \<Rightarrow> Reply \<Rightarrow> error_code \<Rightarrow> BlobInodeDB \<times> error_code" where
  "get_inode_callback user requester reply ec =
     (case reply of
        Some (RString raw) \<Rightarrow>
          if ec \<noteq> No_error then (empty_inode_db, Hrb_error H_object_not_exist)
          else if allow (inodedb_permission raw) requester user then (raw, ec)
          else (empty_inode_db, Hrb_error H_object_not_exist)
      | _ \<Rightarrow> (empty_inode_db, Hrb_error H_object_not_exist))"

definition public_row :: "extlib \<Rightarrow> redisReply \<Rightarrow> Blob option result" where
  "public_row L row = (case as_tuple 4 (Some row) No_error of
       ([owner, blob, coll, entry_str], err) \<Rightarrow>
         (case from_raw (as_string blob) of
            Some blob_id \<Rightarrow>
              if err = No_error then
                bind_r (inodedb_fields L (as_string entry_str)) (\<lambda>fields.
                  ok (map_option (\<lambda>e. \<lparr>b_owner = as_string owner, b_coll = as_string coll, b_id = blob_id,
                                      b_info = e\<rparr>) fields))
              else ok None
          | None \<Rightarrow> ok None)
     | _ \<Rightarrow> ok None)"

text \<open>The lazy range keeps the rows that have a value.\<close>

fun collect :: "('a \<Rightarrow> 'b option result) \<Rightarrow> 'a list \<Rightarrow> 'b list result" where
  "collect f [] = ok []"
| "collect f (x # xs) = bind_r (f x) (\<lambda>y. bind_r (collect f xs) (\<lambda>ys.
     ok (case y of None \<Rightarrow> ys | Some b \<Rightarrow> b # ys)))"

definition list_public_callback :: "extlib \<Rightarrow> Reply \<Rightarrow> error_code \<Rightarrow> (Blob list \<times> error_code) result" where
  "list_public_callback L reply ec =
     bind_r (collect (public_row L) (elements reply)) (\<lambda>blobs. ok (blobs, ec))"

definition query_row :: "extlib \<Rightarrow> string \<Rightarrow> ObjectID \<Rightarrow> string \<times> Reply \<Rightarrow> Blob option result" where
  "query_row L user blob = (\<lambda>(coll, value).
     bind_r (inodedb_fields L (as_string value)) (\<lambda>fields.
       ok (map_option (\<lambda>e. \<lparr>b_owner = user, b_coll = coll, b_id = blob, b_info = e\<rparr>) fields)))"

definition query_blob_callback ::
  "extlib \<Rightarrow> string \<Rightarrow> ObjectID \<Rightarrow> Reply \<Rightarrow> error_code \<Rightarrow> (Blob list \<times> error_code) result" where
  "query_blob_callback L user blob reply ec =
     bind_r (collect (query_row L user blob) (kv_pairs reply)) (\<lambda>blobs. ok (blobs, ec))"

definition set_cover_callback :: "Reply \<Rightarrow> error_code \<Rightarrow> bool \<times> error_code" where
  "set_cover_callback reply ec = (as_int reply = 1, ec)"

section \<open>The operations\<close>

text \<open>Each operation sends one command; the reply arrives without an error of the connection. The
  result is the next state of the server and what the completion callback receives.\<close>

definition link_blob ::
  "('db \<Rightarrow> rcmd \<Rightarrow> 'db \<times> redisReply) \<Rightarrow> extlib \<Rightarrow> string \<Rightarrow> string \<Rightarrow> ObjectID \<Rightarrow> BlobInode \<Rightarrow> 'db \<Rightarrow>
   ('db \<times> error_code) result" where
  "link_blob exec L user coll blob entry db =
     bind_r (link_command exec L user coll blob entry) (\<lambda>script.
       case eval script db of (db', r) \<Rightarrow> ok (db', ec_callback (Some r) No_error))"

definition unlink_blob ::
  "('db \<Rightarrow> rcmd \<Rightarrow> 'db \<times> redisReply) \<Rightarrow> extlib \<Rightarrow> string \<Rightarrow> string \<Rightarrow> ObjectID \<Rightarrow> 'db \<Rightarrow> 'db \<times> error_code" where
  "unlink_blob exec L user coll blob db =
     (case eval (unlink_command exec L user coll blob) db of (db', r) \<Rightarrow> (db', ec_callback (Some r) No_error))"

definition move_blob ::
  "('db \<Rightarrow> rcmd \<Rightarrow> 'db \<times> redisReply) \<Rightarrow> extlib \<Rightarrow> string \<Rightarrow> string \<Rightarrow> string \<Rightarrow> ObjectID \<Rightarrow> 'db \<Rightarrow>
   'db \<times> error_code" where
  "move_blob exec L user src dest blob db =
     (case eval (move_command exec L user src dest blob) db of (db', r) \<Rightarrow> (db', ec_callback (Some r) No_error))"

definition rename_blob ::
  "('db \<Rightarrow> rcmd \<Rightarrow> 'db \<times> redisReply) \<Rightarrow> string \<Rightarrow> string \<Rightarrow> ObjectID \<Rightarrow> string \<Rightarrow> 'db \<Rightarrow> 'db \<times> error_code" where
  "rename_blob exec user coll blob filename db =
     (case exec db (HSET (key_collection user coll) blob filename) of
        (db', r) \<Rightarrow> (db', ec_callback (Some r) No_error))"

definition set_permission ::
  "('db \<Rightarrow> rcmd \<Rightarrow> 'db \<times> redisReply) \<Rightarrow> extlib \<Rightarrow> string \<Rightarrow> ObjectID \<Rightarrow> Permission \<Rightarrow> 'db \<Rightarrow> 'db \<times> error_code" where
  "set_permission exec L user blob p db =
     (case eval (set_permission_command exec L user blob p) db of (db', r) \<Rightarrow> (db', ec_callback (Some r) No_error))"

definition set_cover ::
  "('db \<Rightarrow> rcmd \<Rightarrow> 'db \<times> redisReply) \<Rightarrow> extlib \<Rightarrow> string \<Rightarrow> string \<Rightarrow> ObjectID \<Rightarrow> 'db \<Rightarrow> 'db \<times> bool \<times> error_code" where
  "set_cover exec L user coll blob db =
     (case eval (set_cover_command exec L user coll blob) db of (db', r) \<Rightarrow> (db', set_cover_callback (Some r) No_error))"

definition update :: "('db \<Rightarrow> rcmd \<Rightarrow> 'db \<times> redisReply) \<Rightarrow> string \<Rightarrow> ObjectID \<Rightarrow> BlobInodeDB \<Rightarrow> 'db \<Rightarrow> 'db" where
  "update exec user blob entry db = fst (exec db (HSET (key_blob_inode user) blob entry))"

definition update_blob ::
  "('db \<Rightarrow> rcmd \<Rightarrow> 'db \<times> redisReply) \<Rightarrow> extlib \<Rightarrow> string \<Rightarrow> ObjectID \<Rightarrow> BlobInode \<Rightarrow> 'db \<Rightarrow> 'db result" where
  "update_blob exec L user blob entry db =
     bind_r (inodedb_create_fields L entry) (\<lambda>s. ok (update exec user blob s db))"

definition update_blob_json ::
  "('db \<Rightarrow> rcmd \<Rightarrow> 'db \<times> redisReply) \<Rightarrow> extlib \<Rightarrow> string \<Rightarrow> ObjectID \<Rightarrow> json \<Rightarrow> 'db \<Rightarrow> 'db result" where
  "update_blob_json exec L user blob entry db =
     bind_r (bind_r (json_at entry ''perm'') get_string) (\<lambda>p.
     bind_r (inodedb_create_json L (from_description p) entry) (\<lambda>s. ok (update exec user blob s db)))"

definition get_collection ::
  "('db \<Rightarrow> rcmd \<Rightarrow> 'db \<times> redisReply) \<Rightarrow> extlib \<Rightarrow> string \<Rightarrow> UserID \<Rightarrow> string \<Rightarrow> 'db \<Rightarrow>
   'db \<times> (Collection \<times> error_code) result" where
  "get_collection exec L user requester coll db =
     (case eval (scan_collection_command exec user coll) db of
        (db', r) \<Rightarrow> (db', get_collection_callback L user requester coll (Some r) No_error))"

definition get_blob ::
  "('db \<Rightarrow> rcmd \<Rightarrow> 'db \<times> redisReply) \<Rightarrow> string \<Rightarrow> string \<Rightarrow> ObjectID \<Rightarrow> 'db \<Rightarrow>
   'db \<times> BlobInodeDB \<times> string \<times> error_code" where
  "get_blob exec user coll blob db =
     (case eval (get_blob_command exec user coll blob) db of (db', r) \<Rightarrow> (db', get_blob_callback (Some r) No_error))"

definition get_inode ::
  "('db \<Rightarrow> rcmd \<Rightarrow> 'db \<times> redisReply) \<Rightarrow> string \<Rightarrow> UserID \<Rightarrow> ObjectID \<Rightarrow> 'db \<Rightarrow> 'db \<times> BlobInodeDB \<times> error_code" where
  "get_inode exec user requester blob db =
     (case exec db (HGET (key_blob_inode user) blob) of
        (db', r) \<Rightarrow> (db', get_inode_callback user requester (Some r) No_error))"

definition list_public_blobs ::
  "('db \<Rightarrow> rcmd \<Rightarrow> 'db \<times> redisReply) \<Rightarrow> extlib \<Rightarrow> 'db \<Rightarrow> 'db \<times> (Blob list \<times> error_code) result" where
  "list_public_blobs exec L db =
     (case eval (list_public_blob_command exec L) db of (db', r) \<Rightarrow> (db', list_public_callback L (Some r) No_error))"

definition query_blob ::
  "('db \<Rightarrow> rcmd \<Rightarrow> 'db \<times> redisReply) \<Rightarrow> extlib \<Rightarrow> string \<Rightarrow> ObjectID \<Rightarrow> 'db \<Rightarrow> 'db \<times> (Blob list \<times> error_code) result" where
  "query_blob exec L user blob db =
     (case eval (query_blob_command exec user blob) db of
        (db', r) \<Rightarrow> (db', query_blob_callback L user blob (Some r) No_error))"

text \<open>One collection of the reply of \<^verbatim>\<open>HSCAN\<close>; \<^verbatim>\<open>nlohmann::json::parse\<close> throws here.\<close>

fun scan_dirs :: "extlib \<Rightarrow> string \<Rightarrow> (string \<times> Reply) list \<Rightarrow> CollectionList \<Rightarrow> CollectionList result" where
  "scan_dirs L user [] coll_list = ok coll_list"
| "scan_dirs L user ((key, value) # ps) coll_list =
     (let sv = as_string value in
      if sv \<noteq> [] then
        (case json_parse L sv of
           None \<Rightarrow> Inl ParseError
         | Some json \<Rightarrow> scan_dirs L user ps (list_add user key json coll_list))
      else scan_dirs L user ps coll_list)"

text \<open>\<^verbatim>\<open>scan_collections\<close> with the callbacks of \<^verbatim>\<open>scan_all_collections\<close>, whose completion always
  asks for more. The cursor, a \<^verbatim>\<open>long\<close>, is sent with \<^verbatim>\<open>%d\<close>. At most \<^term>\<open>fuel\<close> commands are sent; \<^term>\<open>None\<close> when that is not enough or the
  cursor is no number.\<close>

fun scan_collections ::
  "('db \<Rightarrow> rcmd \<Rightarrow> 'db \<times> redisReply) \<Rightarrow> extlib \<Rightarrow> nat \<Rightarrow> string \<Rightarrow> int \<Rightarrow> CollectionList \<Rightarrow> 'db \<Rightarrow>
   ('db \<times> (CollectionList \<times> error_code) result) option" where
  "scan_collections exec L 0 user cursor coll_list db = None"
| "scan_collections exec L (Suc fuel) user cursor coll_list db =
     (case exec db (HSCAN (key_collection_list user) (narrow_int cursor)) of (db', r) \<Rightarrow>
        case as_tuple 2 (Some r) No_error of
          ([cursor_reply, dirs], ec) \<Rightarrow>
            if ec = No_error then
              (case to_int cursor_reply of
                 None \<Rightarrow> None
               | Some cursor' \<Rightarrow>
                   (case scan_dirs L user (kv_pairs dirs) coll_list of
                      Inl e \<Rightarrow> Some (db', Inl e)
                    | Inr coll_list' \<Rightarrow>
                        if cursor' \<noteq> 0 then scan_collections exec L fuel user cursor' coll_list' db'
                        else Some (db', ok (coll_list', ec))))
            else Some (db', ok (coll_list, ec))
        | _ \<Rightarrow> None)"

definition scan_all_collections ::
  "('db \<Rightarrow> rcmd \<Rightarrow> 'db \<times> redisReply) \<Rightarrow> extlib \<Rightarrow> nat \<Rightarrow> string \<Rightarrow> 'db \<Rightarrow>
   ('db \<times> (CollectionList \<times> error_code) result) option" where
  "scan_all_collections exec L fuel user db = scan_collections exec L fuel user 0 [] db"

end
