(* ===== verification/Authentication.thy ===== *)
theory Authentication
  imports User_ID Redis_Keys "HOL-Library.Word" "HOL-Library.Signed_Division"
begin

text \<open>
  \<^verbatim>\<open>src/server/crypto/Authentication.cc\<close> and \<^verbatim>\<open>Authentication.ipp\<close>: users, sessions and guests.
  The key derivation function of OpenSSL is the parameter \<^term>\<open>kdf\<close> (\<^term>\<open>None\<close> when it throws),
  random values and the clock are arguments. Each operation sends its commands to \<^term>\<open>exec\<close>,
  the connection delivers the replies without an error of its own, and the result is the next
  state of the server with what the completion receives.
\<close>

type_synonym kdf = "string \<Rightarrow> string \<Rightarrow> int \<Rightarrow> string \<Rightarrow> string option"

section \<open>Passwords\<close>

definition min_iteration :: int where "min_iteration = 5000"
definition default_hash_algorithm :: string where "default_hash_algorithm = ''sha512''"

text \<open>\<^verbatim>\<open>boost::algorithm::to_lower\<close> in the classic locale.\<close>

definition to_lower :: "string \<Rightarrow> string" where
  "to_lower s = map tolower s"

text \<open>\<^verbatim>\<open>verify_password\<close>. The parameter of \<^verbatim>\<open>derive_key\<close> is an \<^verbatim>\<open>int\<close>. The value is the error code, \<^term>\<open>None\<close> when an exception leaves it. The
  test of \<^verbatim>\<open>hash_algorithm\<close> is \<^verbatim>\<open>Reply::operator bool\<close>, which holds of a nil reply too.\<close>

definition verify_password :: "kdf \<Rightarrow> string \<Rightarrow> Reply \<Rightarrow> error_code \<Rightarrow> error_code option" where
  "verify_password kdf password reply ec0 =
     (case as_tuple 4 reply ec0 of
        ([salt, key, iter, hash_algorithm], ec) \<Rightarrow>
          if ec \<noteq> No_error then Some ec
          else (case (salt, key, iter) of
            (Some (RString s), Some (RString skey), Some (RString i)) \<Rightarrow>
              (case to_int iter of
                 None \<Rightarrow> None
               | Some n \<Rightarrow>
                   if 0 < n then
                     (case kdf password s (narrow_int n)
                        (if reply_ok hash_algorithm then as_string hash_algorithm else default_hash_algorithm) of
                        None \<Rightarrow> None
                      | Some pkey \<Rightarrow>
                          if length pkey \<noteq> length skey \<or> take (length pkey) pkey \<noteq> take (length pkey) skey
                          then Some (Hrb_error H_login_incorrect) else Some ec)
                   else Some (Hrb_error H_login_incorrect))
          | _ \<Rightarrow> Some (Hrb_error H_login_incorrect))
      | _ \<Rightarrow> None)"

section \<open>Operations on users and sessions\<close>

text \<open>The 64-bit length of a session is an argument for \<^verbatim>\<open>%d\<close>, which reads an \<^verbatim>\<open>int\<close>. The reply is not looked at,
  so a length that the server refuses goes unnoticed.\<close>

definition create_session ::
  "('db \<Rightarrow> rcmd \<Rightarrow> 'db \<times> redisReply) \<Rightarrow> SessionID \<Rightarrow> string \<Rightarrow> int \<Rightarrow> 'db \<Rightarrow> 'db \<times> error_code \<times> UserID" where
  "create_session exec random username session_length db =
     (let auth = UserID_of random username False
      in case exec db (SETEX (key_session (m_session auth)) (''_'' @ username) (narrow_int session_length)) of
           (db', _) \<Rightarrow> (db', No_error, auth))"

definition add_user ::
  "('db \<Rightarrow> rcmd \<Rightarrow> 'db \<times> redisReply) \<Rightarrow> kdf \<Rightarrow> string \<Rightarrow> string \<Rightarrow> string \<Rightarrow> 'db \<Rightarrow> ('db \<times> error_code) option" where
  "add_user exec kdf salt username_mixed_case password db =
     (case kdf password salt min_iteration default_hash_algorithm of
        None \<Rightarrow> None
      | Some key \<Rightarrow>
          (let username = to_lower username_mixed_case
           in case exec db (HMSET (key_user username) [(''salt'', salt), (''key'', key),
                (''iteration'', to_string min_iteration), (''hash_algorithm'', default_hash_algorithm)]) of
                (db', reply) \<Rightarrow>
                  Some (db', if \<not> reply_ok (Some reply) then Hrb_error H_redis_command_error else No_error)))"

definition verify_user ::
  "('db \<Rightarrow> rcmd \<Rightarrow> 'db \<times> redisReply) \<Rightarrow> kdf \<Rightarrow> SessionID \<Rightarrow> string \<Rightarrow> string \<Rightarrow> int \<Rightarrow> 'db \<Rightarrow>
   ('db \<times> error_code \<times> UserID) option" where
  "verify_user exec kdf random username_mixed_case password session_length db =
     (let username = to_lower username_mixed_case
      in case exec db (HMGET (key_user username) [''salt'', ''key'', ''iteration'', ''hash_algorithm'']) of
           (db', reply) \<Rightarrow>
             (case verify_password kdf password (Some reply) No_error of
                None \<Rightarrow> None
              | Some ec \<Rightarrow>
                  if ec = No_error then Some (create_session exec random username session_length db')
                  else Some (db', ec, no_user)))"

text \<open>The script of \<^verbatim>\<open>renew_session\<close>: \<^verbatim>\<open>string.sub\<close> of \<^verbatim>\<open>false\<close>, the value of a missing key, is an
  error of the script.\<close>

definition renew_command ::
  "('db \<Rightarrow> rcmd \<Rightarrow> 'db \<times> redisReply) \<Rightarrow> SessionID \<Rightarrow> SessionID \<Rightarrow> string \<Rightarrow> int \<Rightarrow> ('db, redisReply) script" where
  "renew_command exec old_cookie new_cookie username session_length =
     seq (call exec (GET (key_session old_cookie))) (\<lambda>r.
       case lua_string r of
         None \<Rightarrow> raise ''bad argument #1 to 'sub' (string expected, got boolean)''
       | Some s \<Rightarrow>
           if take 1 s = ''_'' then
             seq (call exec (SETEX (key_session old_cookie) (''#'' @ username) 30)) (\<lambda>_.
             seq (call exec (SETEX (key_session new_cookie) (''_'' @ username) (narrow_int session_length))) (\<lambda>_.
             ret (RInteger 1)))
           else ret (RInteger 0))"

definition renew_session ::
  "('db \<Rightarrow> rcmd \<Rightarrow> 'db \<times> redisReply) \<Rightarrow> SessionID \<Rightarrow> UserID \<Rightarrow> int \<Rightarrow> 'db \<Rightarrow> 'db \<times> error_code \<times> UserID" where
  "renew_session exec new_cookie m_uid session_length db =
     (case eval (renew_command exec (m_session m_uid) new_cookie (m_user m_uid) session_length) db of
        (db', reply) \<Rightarrow>
          if as_int (Some reply) \<noteq> 1 then (db', No_error, m_uid)
          else (db', No_error, UserID_of new_cookie (m_user m_uid) False))"

definition verify_session_command :: "('db \<Rightarrow> rcmd \<Rightarrow> 'db \<times> redisReply) \<Rightarrow> SessionID \<Rightarrow> ('db, redisReply) script" where
  "verify_session_command exec cookie =
     seq (call exec (GET (key_session cookie))) (\<lambda>user.
     seq (call exec (TTL (key_session cookie))) (\<lambda>t. ret (RArray [user, t])))"

definition verify_session ::
  "('db \<Rightarrow> rcmd \<Rightarrow> 'db \<times> redisReply) \<Rightarrow> SessionID \<Rightarrow> SessionID \<Rightarrow> int \<Rightarrow> 'db \<Rightarrow> 'db \<times> error_code \<times> UserID" where
  "verify_session exec random cookie session_length db =
     (case eval (verify_session_command exec cookie) db of
        (db', reply) \<Rightarrow>
          (case as_tuple 2 (Some reply) No_error of
             ([user, t], ec) \<Rightarrow>
               if ec \<noteq> No_error \<or> user = Some RNil \<or> length (as_string user) \<le> 1 \<or> as_int t < 0
               then (db', ec, no_user)
               else
                 (let auth = UserID_of cookie (drop 1 (as_string user)) False
                  in if as_int t < session_length sdiv 2
                     then renew_session exec random auth session_length db'
                     else (db', ec, auth))
           | (_, ec) \<Rightarrow> (db', ec, no_user)))"

definition destroy_session ::
  "('db \<Rightarrow> rcmd \<Rightarrow> 'db \<times> redisReply) \<Rightarrow> UserID \<Rightarrow> 'db \<Rightarrow> 'db \<times> error_code" where
  "destroy_session exec m_uid db = (fst (exec db (DEL (key_session (m_session m_uid)))), No_error)"

section \<open>Guests\<close>

text \<open>The clock counts nanoseconds; the time of expiry is stored in seconds.\<close>

definition share_resource ::
  "('db \<Rightarrow> rcmd \<Rightarrow> 'db \<times> redisReply) \<Rightarrow> SessionID \<Rightarrow> int \<Rightarrow> string \<Rightarrow> string \<Rightarrow> int \<Rightarrow> 'db \<Rightarrow> 'db \<times> UserID \<times> error_code" where
  "share_resource exec random now owner resource valid_period db =
     (let expired = now + valid_period
      in case exec db (HSET (key_shared_auth owner resource) random (to_string (expired sdiv 10 ^ 9))) of
           (db', _) \<Rightarrow> (db', UserID_of random owner True, No_error))"

definition is_shared_resource ::
  "('db \<Rightarrow> rcmd \<Rightarrow> 'db \<times> redisReply) \<Rightarrow> int \<Rightarrow> UserID \<Rightarrow> string \<Rightarrow> 'db \<Rightarrow> ('db \<times> bool \<times> error_code) option" where
  "is_shared_resource exec time m_uid resource db =
     (case exec db (HGET (key_shared_auth (m_user m_uid) resource) (m_session m_uid)) of
        (db', reply) \<Rightarrow> map_option (\<lambda>n. (db', time < n, No_error)) (to_int (Some reply)))"

definition list_guests ::
  "('db \<Rightarrow> rcmd \<Rightarrow> 'db \<times> redisReply) \<Rightarrow> string \<Rightarrow> string \<Rightarrow> 'db \<Rightarrow> 'db \<times> UserID list \<times> error_code" where
  "list_guests exec owner resource db =
     (case exec db (HGETALL (key_shared_auth owner resource)) of
        (db', reply) \<Rightarrow>
          (db', map (\<lambda>(k, _). UserID_of k owner True)
             (filter (\<lambda>(k, _). length k = SessionID_size) (kv_pairs (Some reply))), No_error))"

section \<open>Facts\<close>

lemma tuple2 [simp]: "as_tuple 2 (Some (RArray [a, b])) No_error = ([Some a, Some b], No_error)"
  by (simp add: as_tuple_array)

lemma tuple4 [simp]: "as_tuple 4 (Some (RArray [a, b, c, d])) No_error = ([Some a, Some b, Some c, Some d], No_error)"
  by (simp add: as_tuple_array)

text \<open>The four fields of a user decide about a password.\<close>

definition password_matches :: "kdf \<Rightarrow> string \<Rightarrow> (string \<rightharpoonup> string) \<Rightarrow> bool" where
  "password_matches kdf password m \<longleftrightarrow>
     (\<exists>salt key iter n. m ''salt'' = Some salt \<and> m ''key'' = Some key \<and> m ''iteration'' = Some iter \<and>
        to_int (Some (RString iter)) = Some n \<and> 0 < n \<and>
        kdf password salt (narrow_int n) (case m ''hash_algorithm'' of None \<Rightarrow> [] | Some h \<Rightarrow> h) = Some key)"

lemma same_prefix: "length p = length s \<and> take (length p) p = take (length p) s \<longleftrightarrow> p = s"
  by auto

lemma verify_password_fields:
  "verify_password kdf password
     (Some (RArray [bulk (f ''salt''), bulk (f ''key''), bulk (f ''iteration''), bulk (f ''hash_algorithm'')])) No_error = Some No_error
   \<longleftrightarrow> password_matches kdf password f"
  unfolding password_matches_def verify_password_def
  using same_prefix
  by (auto simp: bulk_def reply_ok_def as_string_def split: option.splits redisReply.splits if_splits)

lemma min_iteration_stored:
  "to_int (Some (RString (to_string min_iteration))) = Some min_iteration" "narrow_int min_iteration = min_iteration"
  "0 < min_iteration"
  using to_int_to_string [of min_iteration]
  by (simp_all add: narrow_int_def min_iteration_def signed_take_bit_numeral_bit1)

context redis_server
begin

lemma call_GET: "is_str (view db k) \<Longrightarrow> call exec (GET k) db = (fst (exec db (GET k)), Inr (bulk (str_of (view db k))))"
  by (subst call_ok) (simp_all add: GET_reply)

lemma call_TTL: "call exec (TTL k) db = (fst (exec db (TTL k)), Inr (RInteger (ttl db k)))"
  by (subst call_ok) (simp_all add: TTL_reply)

lemma call_SETEX: "0 < n \<Longrightarrow> call exec (SETEX k v n) db = (fst (exec db (SETEX k v n)), Inr (RStatus ''OK''))"
  by (subst call_ok) (simp_all add: SETEX_reply)

lemmas auth_rules = call_GET call_TTL call_SETEX GET_view TTL_view SETEX_view GET_ttl TTL_ttl SETEX_ttl

text \<open>The login of a user.\<close>

lemma verify_user_cases:
  assumes "is_hash (view db (key_user (to_lower name)))" and name: "name \<noteq> []"
    and run: "verify_user exec kdf random name password n db = Some (db', ec, uid)"
  shows "if password_matches kdf password (hash_of (view db (key_user (to_lower name))))
    then ec = No_error \<and> uid = UserID_of random (to_lower name) False \<and>
      view db' = (if 0 < narrow_int n then (view db)(key_session random := Str (''_'' @ to_lower name)) else view db) \<and>
      (0 < narrow_int n \<longrightarrow> ttl db' (key_session random) = narrow_int n)
    else ec \<noteq> No_error \<and> uid = no_user \<and> view db' = view db"
proof -
  let ?u = "to_lower name"
  let ?f = "hash_of (view db (key_user ?u))"
  let ?row = "RArray [bulk (?f ''salt''), bulk (?f ''key''), bulk (?f ''iteration''), bulk (?f ''hash_algorithm'')]"
  have u: "?u \<noteq> []" using name by (simp add: to_lower_def)
  obtain db1 where reply: "exec db (HMGET (key_user ?u) [''salt'', ''key'', ''iteration'', ''hash_algorithm'']) = (db1, ?row)"
    and same: "view db1 = view db"
    by (rule that [of "fst (exec db (HMGET (key_user ?u) [''salt'', ''key'', ''iteration'', ''hash_algorithm'']))"])
       (simp_all add: prod_eq_iff HMGET_reply assms(1) HMGET_view)
  have verified: "verify_password kdf password (Some ?row) No_error = Some No_error \<longleftrightarrow> password_matches kdf password ?f"
    by (rule verify_password_fields)
  show ?thesis
  proof (cases "password_matches kdf password ?f")
    case True
    then have "verify_password kdf password (Some ?row) No_error = Some No_error" using verified by blast
    then have "(db', ec, uid) = create_session exec random ?u n db1"
      using run by (simp add: verify_user_def Let_def reply)
    then show ?thesis using True u
      by (simp add: create_session_def UserID_of_def Let_def split_beta SETEX_view SETEX_ttl SETEX_invalid not_less same)
  next
    case False
    then have "verify_password kdf password (Some ?row) No_error \<noteq> Some No_error" using verified by blast
    then have "ec \<noteq> No_error \<and> uid = no_user \<and> db' = db1"
      using run by (auto simp: verify_user_def Let_def reply split: option.splits if_splits)
    then show ?thesis using False same by simp
  qed
qed

lemma add_user_effect:
  assumes "is_hash (view db (key_user (to_lower name)))"
    and run: "add_user exec kdf salt name password db = Some (db', ec)"
  shows "ec = No_error" and "password_matches kdf password (hash_of (view db' (key_user (to_lower name))))"
    and "\<forall>k. k \<noteq> key_user (to_lower name) \<longrightarrow> view db' k = view db k"
proof -
  obtain key where key: "kdf password salt min_iteration default_hash_algorithm = Some key"
    using run by (auto simp: add_user_def split: option.splits)
  let ?fvs = "[(''salt'', salt), (''key'', key), (''iteration'', to_string min_iteration), (''hash_algorithm'', default_hash_algorithm)]"
  have exec: "db' = fst (exec db (HMSET (key_user (to_lower name)) ?fvs))" "ec = No_error"
    using run key assms(1) by (auto simp: add_user_def Let_def HMSET_reply reply_ok_def split_beta)
  note iter = min_iteration_stored
  show "ec = No_error" by (rule exec)
  show "\<forall>k. k \<noteq> key_user (to_lower name) \<longrightarrow> view db' k = view db k"
    using exec assms(1) by (simp add: HMSET_view)
  show "password_matches kdf password (hash_of (view db' (key_user (to_lower name))))"
    using exec assms(1) key iter by (simp add: HMSET_view password_matches_def)
qed

lemma renew_session_effect:
  assumes str: "is_str (view db (key_session (m_session uid)))" "str_of (view db (key_session (m_session uid))) = Some s"
    and n: "0 < narrow_int n"
  shows "if take 1 s = ''_''
    then \<exists>db'. renew_session exec random uid n db = (db', No_error, UserID_of random (m_user uid) False) \<and>
      view db' = (view db)(key_session (m_session uid) := Str (''#'' @ m_user uid), key_session random := Str (''_'' @ m_user uid)) \<and>
      ttl db' = (ttl db)(key_session (m_session uid) := 30, key_session random := narrow_int n)
    else \<exists>db'. renew_session exec random uid n db = (db', No_error, uid) \<and> view db' = view db \<and> ttl db' = ttl db"
  using assms
  by (simp add: renew_session_def renew_command_def eval_def seq_def ret_def auth_rules as_int_def bulk_def lua_string_def)

text \<open>Whatever the length, a renewal yields a session of the same user; when the server refuses the length,
  the script stops after the old session was marked, and the old session goes on for 30 seconds.\<close>

lemma renew_session_user:
  "\<exists>db' new. renew_session exec random uid n db = (db', No_error, new) \<and>
    (new = uid \<or> new = UserID_of random (m_user uid) False)"
  by (auto simp: renew_session_def split: prod.splits)

lemma verify_session_eq:
  assumes "is_str (view db (key_session cookie))"
  shows "\<exists>db'. view db' = view db \<and> ttl db' = ttl db \<and>
    verify_session exec random cookie n db =
      (case str_of (view db (key_session cookie)) of
         None \<Rightarrow> (db', No_error, no_user)
       | Some s \<Rightarrow>
           if length s \<le> 1 \<or> ttl db (key_session cookie) < 0 then (db', No_error, no_user)
           else if ttl db (key_session cookie) < n sdiv 2
             then renew_session exec random (UserID_of cookie (drop 1 s) False) n db'
             else (db', No_error, UserID_of cookie (drop 1 s) False))"
proof -
  let ?d1 = "fst (exec db (GET (key_session cookie)))"
  let ?d2 = "fst (exec ?d1 (TTL (key_session cookie)))"
  have "eval (verify_session_command exec cookie) db =
      (?d2, RArray [bulk (str_of (view db (key_session cookie))), RInteger (ttl db (key_session cookie))])"
    using assms by (simp add: verify_session_command_def eval_def seq_def ret_def auth_rules)
  then show ?thesis
    by (intro exI [of _ ?d2])
       (auto simp: verify_session_def auth_rules bulk_def as_string_def as_int_def Let_def split: option.splits)
qed

end

end
