(* ===== verification/PHash_Db.thy ===== *)
theory PHash_Db
  imports Authentication
begin

text \<open>
  \<^verbatim>\<open>src/server/hrb/index/PHashDb.cc\<close>: the index of blobs by perceptual hash. The hash is passed to
  the \<^verbatim>\<open>%d\<close> of the command formatter, which reads an \<^verbatim>\<open>int\<close>, so that only its low 32 bits are
  used as the field. The value of a field is the concatenation of the identifiers.
\<close>

definition phash_key :: string where
  "phash_key = ''phash-oid''"

definition phash_field :: "64 word \<Rightarrow> string" where
  "phash_field h = to_string (narrow_int (uint h))"

definition phash_add_script ::
  "('db \<Rightarrow> rcmd \<Rightarrow> 'db \<times> redisReply) \<Rightarrow> ObjectID \<Rightarrow> 64 word \<Rightarrow> ('db, redisReply) script" where
  "phash_add_script exec blob h =
     seq (call exec (HGET phash_key (phash_field h))) (\<lambda>r.
       let oids = (case lua_string r of
             None \<Rightarrow> blob
           | Some oids \<Rightarrow> if find_sub oids blob = None then oids @ blob else oids)
       in call exec (HSET phash_key (phash_field h) oids))"

definition phash_add :: "('db \<Rightarrow> rcmd \<Rightarrow> 'db \<times> redisReply) \<Rightarrow> ObjectID \<Rightarrow> 64 word \<Rightarrow> 'db \<Rightarrow> 'db" where
  "phash_add exec blob h db = fst (eval (phash_add_script exec blob h) db)"

function split_oids :: "string \<Rightarrow> ObjectID list" where
  "split_oids oids =
     (if Blake2_size \<le> length oids then
        (case from_raw (take Blake2_size oids) of Some i \<Rightarrow> [i] | None \<Rightarrow> []) @ split_oids (drop Blake2_size oids)
      else [])"
  by auto
termination by (relation "measure length") (auto simp: Blake2_size_def)

declare split_oids.simps [simp del]

definition exact_match :: "('db \<Rightarrow> rcmd \<Rightarrow> 'db \<times> redisReply) \<Rightarrow> 64 word \<Rightarrow> 'db \<Rightarrow> 'db \<times> ObjectID list \<times> error_code" where
  "exact_match exec h db =
     (case exec db (HGET phash_key (phash_field h)) of
        (db', reply) \<Rightarrow> (db', split_oids (as_string (Some reply)), No_error))"

section \<open>Facts\<close>

lemma split_oids_concat: "\<forall>i \<in> set ids. wf_oid i \<Longrightarrow> split_oids (concat ids) = ids"
proof (induction ids)
  case Nil
  then show ?case by (subst split_oids.simps) (simp add: Blake2_size_def)
next
  case (Cons i ids)
  then show ?case by (subst split_oids.simps) (simp add: wf_oid_def from_raw_def)
qed

text \<open>An index that is a list of identifiers.\<close>

definition indexed :: "(string \<Rightarrow> rvalue) \<Rightarrow> 64 word \<Rightarrow> ObjectID list \<Rightarrow> bool" where
  "indexed V h ids \<longleftrightarrow> (\<forall>i \<in> set ids. wf_oid i) \<and>
     hash_of (V phash_key) (phash_field h) = (if ids = [] then None else Some (concat ids))"

context redis_server
begin

lemma phash_add_effect:
  assumes h: "is_hash (view db phash_key)"
  shows "view (phash_add exec blob h db) = (view db)(phash_key := Hash ((hash_of (view db phash_key))(phash_field h \<mapsto>
    (case hash_of (view db phash_key) (phash_field h) of None \<Rightarrow> blob
     | Some oids \<Rightarrow> if find_sub oids blob = None then oids @ blob else oids))))"
proof -
  have get: "call exec (HGET phash_key (phash_field h)) db =
      (fst (exec db (HGET phash_key (phash_field h))), Inr (bulk (hash_of (view db phash_key) (phash_field h))))"
    by (subst call_ok) (simp_all add: HGET_reply h)
  have same: "view (fst (exec db (HGET phash_key (phash_field h)))) = view db" by (rule HGET_view)
  have set: "fst (call exec (HSET phash_key (phash_field h) v) d) = fst (exec d (HSET phash_key (phash_field h) v))" for v d
    by (simp add: call_def split: prod.splits redisReply.splits)
  have ev: "fst (eval m d) = fst (m d)" for m :: "('a, redisReply) script" and d
    by (simp add: eval_def split: prod.splits sum.splits)
  show ?thesis
    by (simp add: phash_add_def phash_add_script_def ev seq_def get Let_def set HSET_view same h)
qed

lemma exact_match_indexed:
  assumes "is_hash (view db phash_key)" and "indexed (view db) h ids"
  shows "fst (snd (exact_match exec h db)) = ids"
proof -
  have "split_oids [] = []" by (subst split_oids.simps) (simp add: Blake2_size_def)
  then show ?thesis using assms split_oids_concat [of ids]
    by (auto simp: exact_match_def split_beta HGET_reply indexed_def bulk_def as_string_def)
qed

end

end
