(* ===== verification/URL_Intent.thy ===== *)
theory URL_Intent
  imports Object_ID
begin

text \<open>
  \<^verbatim>\<open>src/common/hrb/URLIntent.cc\<close> and \<^verbatim>\<open>URLIntent.hh\<close>: what a request asks for, read from its
  URL, and the URL of an intent. A \<^verbatim>\<open>string_view&\<close> argument that is consumed is returned.
\<close>

section \<open>Data\<close>

datatype Action = Login | Logout | View | Upload | Home | Lib | Query | Api | NoAction

datatype QueryTarget = QBlob | QCollection | QBlobSet | QNone

datatype Parameter = PUser | PCollection | PFilename | PBlob | PQueryTarget

record URLIntent =
  i_action :: Action
  i_user :: string
  i_coll :: string
  i_filename :: string
  i_option :: string
  i_query_target :: QueryTarget
  i_valid :: bool

definition empty_intent :: URLIntent where
  "empty_intent = \<lparr>i_action = NoAction, i_user = [], i_coll = [], i_filename = [], i_option = [],
     i_query_target = QNone, i_valid = False\<rparr>"

fun require_user :: "Action \<Rightarrow> bool" where
  "require_user Login = False"
| "require_user Logout = False"
| "require_user View = True"
| "require_user Upload = True"
| "require_user Home = False"
| "require_user Lib = False"
| "require_user Query = False"
| "require_user Api = True"
| "require_user NoAction = False"

fun require_filename :: "Action \<Rightarrow> bool" where
  "require_filename Login = False"
| "require_filename Logout = False"
| "require_filename View = False"
| "require_filename Upload = True"
| "require_filename Home = False"
| "require_filename Lib = True"
| "require_filename Query = False"
| "require_filename Api = False"
| "require_filename NoAction = False"

fun intent_definitions :: "Action \<Rightarrow> Parameter list" where
  "intent_definitions View = [PUser, PCollection, PBlob]"
| "intent_definitions Upload = [PUser, PCollection, PFilename]"
| "intent_definitions Lib = [PFilename]"
| "intent_definitions Query = [PQueryTarget]"
| "intent_definitions Api = [PUser, PCollection, PBlob]"
| "intent_definitions _ = []"

definition separator_fields :: "Parameter list" where
  "separator_fields = [PCollection]"

section \<open>Parsing\<close>

definition extract_left :: "string \<Rightarrow> string \<times> string" where
  "extract_left target =
     (case split_left target ''/?#'' of (field, sep, tmp) \<Rightarrow>
        if sep = CHR ''/'' then (field, tmp) else (field, drop (length field) target))"

definition trim :: "string \<Rightarrow> string" where
  "trim s = trim_both (\<lambda>c. c = CHR ''/'') s"

definition parse_action :: "string \<Rightarrow> Action" where
  "parse_action str =
     (if str = ''view'' then View
      else if str = ''upload'' then Upload
      else if str = ''login'' then Login
      else if str = ''logout'' then Logout
      else if str = ''lib'' then Lib
      else if str = ''query'' then Query
      else if str = ''api'' then Api
      else if str = [] then Home
      else NoAction)"

definition parse_query_target :: "string \<Rightarrow> QueryTarget" where
  "parse_query_target str =
     (if str = ''blob'' then QBlob
      else if str = ''collection'' then QCollection
      else if str = ''blob_set'' then QBlobSet
      else QNone)"

definition query_target_to_string :: "QueryTarget \<Rightarrow> string" where
  "query_target_to_string q = (case q of
       QBlob \<Rightarrow> ''blob'' | QCollection \<Rightarrow> ''collection'' | QBlobSet \<Rightarrow> ''blob_set'' | QNone \<Rightarrow> [])"

definition parse_field_from_left :: "Parameter \<Rightarrow> URLIntent \<times> string \<Rightarrow> URLIntent \<times> string" where
  "parse_field_from_left p = (\<lambda>(i, target).
     case extract_left target of (field, target') \<Rightarrow>
       ((case p of
           PUser \<Rightarrow> i\<lparr>i_user := url_decode field\<rparr>
         | PFilename \<Rightarrow> i\<lparr>i_filename := url_decode field\<rparr>
         | PQueryTarget \<Rightarrow> i\<lparr>i_query_target := parse_query_target field\<rparr>
         | _ \<Rightarrow> i), target'))"

definition parse_field_from_right :: "Parameter \<Rightarrow> URLIntent \<times> string \<Rightarrow> URLIntent \<times> string" where
  "parse_field_from_right p = (\<lambda>(i, target).
     if p = PFilename \<or> p = PBlob then
       (case split_right target ''/'' of (field, sep, target_copy) \<Rightarrow>
          if p = PFilename \<or> is_hex field
          then (i\<lparr>i_filename := url_decode field\<rparr>, target_copy)
          else (i, target))
     else if p = PCollection \<and> CHR ''?'' \<notin> set target then
       (i\<lparr>i_coll := url_decode (trim target)\<rparr>, [])
     else (i, target))"

text \<open>The loops over the parameters of the action: from the left up to the separator, then from
  the right down to it.\<close>

definition parse_params :: "Action \<Rightarrow> URLIntent \<times> string \<Rightarrow> URLIntent" where
  "parse_params a st =
     (let params = intent_definitions a;
          left = takeWhile (\<lambda>p. p \<notin> set separator_fields) params;
          right = dropWhile (\<lambda>p. p \<notin> set separator_fields) params;
          (i, target) = fold parse_field_from_right (rev right) (fold parse_field_from_left left st)
      in if target \<noteq> [] then i\<lparr>i_valid := False\<rparr> else i)"

text \<open>\<^verbatim>\<open>URLIntent::URLIntent(std::string_view target)\<close>.\<close>

definition URLIntent_of :: "string \<Rightarrow> URLIntent" where
  "URLIntent_of boost_target =
     (if boost_target = [] \<or> hd boost_target \<noteq> CHR ''/'' then empty_intent
      else (case extract_left (tl boost_target) of (act, target0) \<Rightarrow>
        let a = parse_action act in
        if a = NoAction then empty_intent
        else
          let i0 = empty_intent\<lparr>i_action := a, i_valid := True\<rparr>;
              (field, sep, tmp) = split_left target0 ''?'';
              (i1, target1) = (if sep = CHR ''?'' then (i0\<lparr>i_option := tmp\<rparr>, field) else (i0, target0));
              i2 = (if a = Query \<and> i_option i1 = [] then i1\<lparr>i_valid := False\<rparr> else i1)
          in parse_params a (i2, target1)))"

section \<open>The other constructors\<close>

definition URLIntent_act :: "Action \<Rightarrow> URLIntent" where
  "URLIntent_act act =
     empty_intent\<lparr>i_action := act, i_valid := act = Login \<or> act = Logout \<or> act = Home\<rparr>"

definition URLIntent_name :: "Action \<Rightarrow> string \<Rightarrow> string \<Rightarrow> string \<Rightarrow> string \<Rightarrow> URLIntent" where
  "URLIntent_name act user coll name opt =
     (let i = empty_intent\<lparr>i_action := act, i_user := trim user, i_coll := trim coll,
                i_filename := trim name, i_option := opt\<rparr>
      in if act = Api \<or> act = View
         then i\<lparr>i_valid := i_filename i = [] \<or> is_hex (i_filename i)\<rparr>
         else i\<lparr>i_valid := act = Upload \<or> act = Lib\<rparr>)"

definition URLIntent_blob ::
  "extlib \<Rightarrow> Action \<Rightarrow> string \<Rightarrow> string \<Rightarrow> ObjectID \<Rightarrow> string \<Rightarrow> URLIntent" where
  "URLIntent_blob L act user coll blob opt =
     (URLIntent_name act user coll (to_hex L blob) opt)\<lparr>i_valid := act = Api \<or> act = View\<rparr>"

definition URLIntent_query :: "QueryTarget \<Rightarrow> string \<Rightarrow> URLIntent" where
  "URLIntent_query target opt =
     empty_intent\<lparr>i_action := Query, i_option := opt, i_query_target := target\<rparr>"

definition add_option :: "string \<Rightarrow> URLIntent \<Rightarrow> URLIntent" where
  "add_option opt i =
     i\<lparr>i_option := (if i_option i \<noteq> [] then i_option i @ ''&'' else i_option i) @ opt\<rparr>"

section \<open>Printing\<close>

definition action_path :: "Action \<Rightarrow> string" where
  "action_path a = (case a of
       Login \<Rightarrow> ''login'' | Logout \<Rightarrow> ''logout'' | View \<Rightarrow> ''view/'' | Upload \<Rightarrow> ''upload/''
     | Lib \<Rightarrow> ''lib/'' | Query \<Rightarrow> ''query/'' | Api \<Rightarrow> ''api/'' | Home \<Rightarrow> [] | NoAction \<Rightarrow> [])"

definition write_field :: "URLIntent \<Rightarrow> Parameter \<Rightarrow> string" where
  "write_field i p = (case p of
       PUser \<Rightarrow> url_encode (i_user i) @ (if i_user i \<noteq> [] then ''/'' else [])
     | PCollection \<Rightarrow> url_encode (i_coll i) @ (if i_coll i \<noteq> [] then ''/'' else [])
     | PFilename \<Rightarrow> url_encode (i_filename i)
     | PBlob \<Rightarrow> i_filename i
     | PQueryTarget \<Rightarrow> query_target_to_string (i_query_target i))"

definition write_path :: "URLIntent \<Rightarrow> string" where
  "write_path i =
     ''/'' @ action_path (i_action i) @
     (if i_action i = NoAction then []
      else concat (map (write_field i) (intent_definitions (i_action i))))"

definition intent_str :: "URLIntent \<Rightarrow> string" where
  "intent_str i = write_path i @ (if i_option i \<noteq> [] then ''?'' @ i_option i else [])"

definition intent_valid :: "URLIntent \<Rightarrow> bool" where
  "intent_valid i =
     (if i_action i \<noteq> NoAction then
        if require_user (i_action i) \<and> i_user i = [] then False
        else if require_filename (i_action i) \<and> i_filename i = [] then False
        else i_valid i
      else False)"

definition intent_blob :: "extlib \<Rightarrow> URLIntent \<Rightarrow> ObjectID option" where
  "intent_blob L i = oid_from_hex L (i_filename i)"

section \<open>Facts\<close>

lemma set_encode_no_delim:
  assumes "CHR ''/'' \<notin> set s"
  shows "set (url_encode s) \<inter> set ''/?#'' = {}"
proof -
  have "c \<notin> {CHR ''?'', CHR ''#''}" if "c \<in> set (url_encode s)" for c
    using set_url_encode [OF that] by (auto simp: need_escape_def is_unreserved_def)
  with assms slash_in_url_encode [of s] show ?thesis by auto
qed

lemma no_qmark_url_encode: "CHR ''?'' \<notin> set (url_encode s)"
  using set_url_encode [of "CHR ''?''" s] by (auto simp: need_escape_def is_unreserved_def)

lemma extract_left_slash:
  "set s \<inter> set ''/?#'' = {} \<Longrightarrow> extract_left (s @ CHR ''/'' # t) = (s, t)"
  by (simp add: extract_left_def split_left_Some)

lemma extract_left_end: "set s \<inter> set ''/?#'' = {} \<Longrightarrow> extract_left s = (s, [])"
  by (simp add: extract_left_def split_left_None)

lemma extract_left_qmark:
  "set s \<inter> set ''/?#'' = {} \<Longrightarrow> extract_left (s @ CHR ''?'' # t) = (s, CHR ''?'' # t)"
  by (simp add: extract_left_def split_left_Some)

lemma hd_url_encode_slash: "s \<noteq> [] \<Longrightarrow> hd (url_encode s) = CHR ''/'' \<longleftrightarrow> hd s = CHR ''/''"
  by (cases s) (auto simp: need_escape_def)

lemma last_url_encode_slash: "s \<noteq> [] \<Longrightarrow> last (url_encode s) = CHR ''/'' \<longleftrightarrow> last s = CHR ''/''"
proof (induction s rule: rev_induct)
  case (snoc c s)
  have "CHR ''/'' \<noteq> hex_upper_digits ! (of_char c mod 16)" by (simp add: hex_upper_digit_not_slash)
  then show ?case by (auto simp: url_encode_append need_escape_def)
qed simp

text \<open>A name without slashes at its ends, as the constructors leave it.\<close>

definition no_end_slash :: "string \<Rightarrow> bool" where
  "no_end_slash s \<longleftrightarrow> s = [] \<or> hd s \<noteq> CHR ''/'' \<and> last s \<noteq> CHR ''/''"

lemma trim_no_end_slash: "no_end_slash (trim s)"
  using trim_both_no_ends [of "\<lambda>c. c = CHR ''/''" s] by (auto simp: no_end_slash_def trim_def)

lemma trim_encode:
  assumes "no_end_slash s"
  shows "trim (url_encode s) = url_encode s"
  unfolding trim_def using assms
  by (intro trim_both_id) (auto simp: no_end_slash_def hd_url_encode_slash last_url_encode_slash)

lemma trim_encode_slash:
  assumes "no_end_slash s"
  shows "trim (url_encode s @ ''/'') = url_encode s"
proof (cases "s = []")
  case False
  let ?e = "url_encode s" and ?p = "\<lambda>c. c = CHR ''/''"
  have ne: "?e \<noteq> []" using False by (cases s) auto
  have ends: "hd ?e \<noteq> CHR ''/''" "last ?e \<noteq> CHR ''/''"
    using assms False by (auto simp: no_end_slash_def hd_url_encode_slash last_url_encode_slash)
  have front: "dropWhile ?p (?e @ ''/'') = ?e @ ''/''"
    using ne ends(1) by (cases ?e) auto
  have rear: "dropWhile ?p (rev ?e) = rev ?e"
    using ne ends(2) by (simp only: dropWhile_eq_self_iff hd_rev simp_thms)
  show ?thesis by (simp only: trim_def trim_both_def front) (simp add: rear)
qed (simp add: trim_def trim_both_def)

lemma is_hex_chars: "is_hex f \<Longrightarrow> c \<in> set f \<Longrightarrow> c \<in> set hex_digits"
  by (auto simp: is_hex_iff)

lemma hex_digits_plain:
  "c \<in> set hex_digits \<Longrightarrow> c \<noteq> CHR ''/'' \<and> c \<noteq> CHR ''?'' \<and> c \<noteq> CHR ''%'' \<and> c \<noteq> CHR ''#''"
  by (auto simp: hex_digits_def hex_lower_digits_def)

lemma url_decode_is_hex: "is_hex f \<Longrightarrow> url_decode f = f"
  using is_hex_chars hex_digits_plain by (intro url_decode_no_percent) blast

lemma no_qmark_is_hex: "is_hex f \<Longrightarrow> CHR ''?'' \<notin> set f"
  using is_hex_chars hex_digits_plain by blast

lemma not_is_hex_Nil [simp]: "\<not> is_hex []"
  by (simp add: is_hex_def Blake2_size_def)

section \<open>Round trip\<close>

text \<open>The intents that their URL determines, by the fields that the action prints: a user and a file name of one
  segment, a collection without slashes at its ends, a blob as the file name of a view or api intent, no other fields,
  and the validity that the parser gives. The program also builds intents that are not of this kind; what becomes
  of those is stated with \<open>built_intents\<close> below.\<close>

definition segment :: "string \<Rightarrow> bool" where
  "segment s \<longleftrightarrow> CHR ''/'' \<notin> set s"

fun canonical :: "URLIntent \<Rightarrow> bool" where
  "canonical i =
     (case i_action i of
        NoAction \<Rightarrow> False
      | Query \<Rightarrow> i_user i = [] \<and> i_coll i = [] \<and> i_filename i = [] \<and> (i_valid i \<longleftrightarrow> i_option i \<noteq> [])
      | Lib \<Rightarrow> i_user i = [] \<and> i_coll i = [] \<and> segment (i_filename i) \<and> i_query_target i = QNone \<and> i_valid i
      | Upload \<Rightarrow> i_user i \<noteq> [] \<and> segment (i_user i) \<and> no_end_slash (i_coll i) \<and> segment (i_filename i)
          \<and> i_query_target i = QNone \<and> i_valid i
      | a \<Rightarrow> if a = View \<or> a = Api
             then i_user i \<noteq> [] \<and> segment (i_user i) \<and> no_end_slash (i_coll i)
               \<and> (i_filename i = [] \<or> is_hex (i_filename i)) \<and> i_query_target i = QNone \<and> i_valid i
             else i_user i = [] \<and> i_coll i = [] \<and> i_filename i = [] \<and> i_query_target i = QNone \<and> i_valid i)"

lemma URLIntent_of_parts:
  assumes left: "extract_left (t @ (if opt \<noteq> [] then ''?'' @ opt else [])) =
      (act, p @ (if opt \<noteq> [] then ''?'' @ opt else []))"
    and a: "parse_action act = a" "a \<noteq> NoAction" and p: "CHR ''?'' \<notin> set p"
  shows "URLIntent_of (''/'' @ t @ (if opt \<noteq> [] then ''?'' @ opt else [])) =
    parse_params a (empty_intent\<lparr>i_action := a, i_option := opt, i_valid := a = Query \<longrightarrow> opt \<noteq> []\<rparr>, p)"
  unfolding URLIntent_of_def
  by (auto simp: left a Let_def empty_intent_def split_left_None split_left_Some p)

lemma extract_left_action:
  assumes "set act \<inter> set ''/?#'' = {}"
  shows "extract_left (act @ ''/'' @ s) = (act, s)"
    and "extract_left (act @ (if opt \<noteq> [] then ''?'' @ opt else [])) =
      (act, [] @ (if opt \<noteq> [] then ''?'' @ opt else []))"
  using assms by (simp_all add: extract_left_slash extract_left_end extract_left_qmark)

lemma extract_left_segment:
  "segment s \<Longrightarrow> extract_left (url_encode s @ CHR ''/'' # t) = (url_encode s, t)"
  "segment s \<Longrightarrow> extract_left (url_encode s) = (url_encode s, [])"
  using set_encode_no_delim [of s] by (simp_all add: segment_def extract_left_slash extract_left_end)

lemma split_right_filename:
  assumes "CHR ''/'' \<notin> set f"
  shows "split_right (url_encode c @ (if c \<noteq> [] then ''/'' else []) @ f) ''/'' =
    (if c = [] then (f, CHR 0x00, []) else (f, CHR ''/'', url_encode c))"
  using assms by (simp add: split_right_None split_right_Some)

text \<open>The part after the user: the collection and the file name.\<close>

definition rest_path :: "string \<Rightarrow> string \<Rightarrow> string" where
  "rest_path c f = url_encode c @ (if c \<noteq> [] then ''/'' else []) @ f"

lemma parse_right_filename:
  assumes "segment f"
  shows "parse_field_from_right PFilename (i, rest_path c (url_encode f)) =
    (i\<lparr>i_filename := f\<rparr>, url_encode c)"
proof -
  have "CHR ''/'' \<notin> set (url_encode f)" using assms by (simp add: slash_in_url_encode segment_def)
  from split_right_filename [OF this, of c] show ?thesis
    by (simp add: parse_field_from_right_def rest_path_def url_decode_encode)
qed

lemma parse_right_blob:
  assumes "is_hex f"
  shows "parse_field_from_right PBlob (i, rest_path c f) = (i\<lparr>i_filename := f\<rparr>, url_encode c)"
proof -
  have "CHR ''/'' \<notin> set f" using is_hex_chars [OF assms] hex_digits_plain by blast
  from split_right_filename [OF this, of c] show ?thesis
    by (simp add: parse_field_from_right_def rest_path_def url_decode_is_hex [OF assms] assms)
qed

lemma parse_right_no_blob:
  "parse_field_from_right PBlob (i, rest_path c []) = (i, rest_path c [])"
  using split_right_filename [of "[]" c] by (simp add: parse_field_from_right_def rest_path_def)

lemma parse_right_collection:
  assumes "no_end_slash c"
  shows "parse_field_from_right PCollection (i, url_encode c) = (i\<lparr>i_coll := c\<rparr>, [])"
    and "parse_field_from_right PCollection (i, rest_path c []) = (i\<lparr>i_coll := c\<rparr>, [])"
  using assms trim_encode [OF assms] trim_encode_slash [OF assms] no_qmark_url_encode
  by (auto simp: parse_field_from_right_def rest_path_def url_decode_encode)

lemmas parse_params_simps = parse_params_def separator_fields_def parse_field_from_left_def
  extract_left_segment parse_right_filename parse_right_blob parse_right_no_blob
  parse_right_collection url_decode_encode

lemma parse_params_user:
  assumes "segment u" "no_end_slash c"
  shows "segment f \<Longrightarrow> parse_params Upload (i, url_encode u @ ''/'' @ rest_path c (url_encode f)) =
      i\<lparr>i_user := u, i_filename := f, i_coll := c\<rparr>"
    and "a = View \<or> a = Api \<Longrightarrow> is_hex f \<Longrightarrow> parse_params a (i, url_encode u @ ''/'' @ rest_path c f) =
      i\<lparr>i_user := u, i_filename := f, i_coll := c\<rparr>"
    and "a = View \<or> a = Api \<Longrightarrow> parse_params a (i, url_encode u @ ''/'' @ rest_path c []) =
      i\<lparr>i_user := u, i_coll := c\<rparr>"
  using assms by (auto simp: parse_params_simps)

lemma parse_params_lib: "segment f \<Longrightarrow> parse_params Lib (i, url_encode f) = i\<lparr>i_filename := f\<rparr>"
  by (auto simp: parse_params_simps)

lemma parse_params_query:
  "parse_params Query (i, query_target_to_string q) = i\<lparr>i_query_target := q\<rparr>"
  by (cases q) (auto simp: parse_params_simps query_target_to_string_def parse_query_target_def
      extract_left_def split_left_None)

lemma no_qmark_rest_path:
  "CHR ''?'' \<notin> set f \<Longrightarrow> CHR ''?'' \<notin> set (rest_path c f)"
  by (simp add: rest_path_def no_qmark_url_encode)

lemma no_qmark_query: "CHR ''?'' \<notin> set (query_target_to_string q)"
  by (cases q) (auto simp: query_target_to_string_def)

lemma intent_str_parse:
  assumes "write_path i = ''/'' @ act @ ''/'' @ p" and "set act \<inter> set ''/?#'' = {}"
    and "parse_action act = i_action i" "i_action i \<noteq> NoAction" and "CHR ''?'' \<notin> set p"
  shows "URLIntent_of (intent_str i) = parse_params (i_action i)
    (empty_intent\<lparr>i_action := i_action i, i_option := i_option i,
       i_valid := i_action i = Query \<longrightarrow> i_option i \<noteq> []\<rparr>, p)"
proof -
  let ?o = "if i_option i \<noteq> [] then ''?'' @ i_option i else []"
  have "extract_left ((act @ ''/'' @ p) @ ?o) = (act, p @ ?o)"
    using extract_left_action(1) [OF assms(2), of "p @ ?o"] by (simp only: append_assoc)
  from URLIntent_of_parts [OF this assms(3-5)] assms(1) show ?thesis
    by (simp only: intent_str_def append_assoc)
qed

lemma parse_str_user:
  assumes "canonical i" and "i_action i \<in> {View, Api, Upload}"
  shows "URLIntent_of (intent_str i) = i"
proof -
  let ?f = "if i_action i = Upload then url_encode (i_filename i) else i_filename i"
  let ?p = "url_encode (i_user i) @ ''/'' @ rest_path (i_coll i) ?f"
  let ?act = "if i_action i = View then ''view'' else if i_action i = Api then ''api'' else ''upload''"
  have u: "i_user i \<noteq> []" "segment (i_user i)" "no_end_slash (i_coll i)" "i_query_target i = QNone" "i_valid i"
    using assms by auto
  have path: "write_path i = ''/'' @ ?act @ ''/'' @ ?p"
    using assms(2) u(1) by (auto simp: write_path_def action_path_def write_field_def rest_path_def)
  have "CHR ''?'' \<notin> set ?f"
    using assms no_qmark_is_hex by (auto simp: no_qmark_url_encode)
  then have q: "CHR ''?'' \<notin> set ?p" by (simp add: no_qmark_rest_path no_qmark_url_encode)
  have "URLIntent_of (intent_str i) = parse_params (i_action i)
    (empty_intent\<lparr>i_action := i_action i, i_option := i_option i,
       i_valid := i_action i = Query \<longrightarrow> i_option i \<noteq> []\<rparr>, ?p)"
    using assms(2) by (intro intent_str_parse [OF path _ _ _ q]) (auto simp: parse_action_def)
  also have "\<dots> = (empty_intent\<lparr>i_action := i_action i, i_option := i_option i, i_valid := True\<rparr>)
      \<lparr>i_user := i_user i, i_filename := i_filename i, i_coll := i_coll i\<rparr>"
  proof (cases "i_action i = Upload")
    case True
    then have "segment (i_filename i)" using assms(1) by simp
    from parse_params_user(1) [OF u(2,3) this] True show ?thesis by simp
  next
    case False
    then have va: "i_action i = View \<or> i_action i = Api" using assms(2) by simp
    then have "i_filename i = [] \<or> is_hex (i_filename i)" using assms(1) by auto
    then show ?thesis
      using va parse_params_user(2,3) [OF u(2,3) va] by (auto simp: empty_intent_def)
  qed
  also have "\<dots> = i" using u(4,5) by (simp add: empty_intent_def)
  finally show ?thesis .
qed

lemma parse_str_plain:
  assumes "canonical i" and "i_action i \<in> {Login, Logout, Home}"
  shows "URLIntent_of (intent_str i) = i"
proof -
  let ?t = "action_path (i_action i)"
  have "extract_left (?t @ (if i_option i \<noteq> [] then ''?'' @ i_option i else [])) =
      (?t, [] @ (if i_option i \<noteq> [] then ''?'' @ i_option i else []))"
    using assms(2) by (intro extract_left_action(2)) (auto simp: action_path_def)
  moreover have "parse_action ?t = i_action i" "i_action i \<noteq> NoAction"
    using assms(2) by (auto simp: parse_action_def action_path_def)
  ultimately have "URLIntent_of (''/'' @ ?t @ (if i_option i \<noteq> [] then ''?'' @ i_option i else [])) =
    parse_params (i_action i) (empty_intent\<lparr>i_action := i_action i, i_option := i_option i,
      i_valid := i_action i = Query \<longrightarrow> i_option i \<noteq> []\<rparr>, [])"
    by (intro URLIntent_of_parts) auto
  moreover have "intent_str i = ''/'' @ ?t @ (if i_option i \<noteq> [] then ''?'' @ i_option i else [])"
    using assms(2) by (auto simp: intent_str_def write_path_def)
  ultimately show ?thesis
    using assms by (auto simp: parse_params_def empty_intent_def intro!: URLIntent.equality)
qed

lemma parse_str_single:
  assumes "canonical i" and "i_action i \<in> {Lib, Query}"
  shows "URLIntent_of (intent_str i) = i"
proof -
  let ?p = "if i_action i = Lib then url_encode (i_filename i)
    else query_target_to_string (i_query_target i)"
  let ?act = "if i_action i = Lib then ''lib'' else ''query''"
  have path: "write_path i = ''/'' @ ?act @ ''/'' @ ?p"
    using assms by (auto simp: write_path_def action_path_def write_field_def)
  have "URLIntent_of (intent_str i) = parse_params (i_action i)
    (empty_intent\<lparr>i_action := i_action i, i_option := i_option i,
       i_valid := i_action i = Query \<longrightarrow> i_option i \<noteq> []\<rparr>, ?p)"
    using assms(2) by (intro intent_str_parse [OF path])
      (auto simp: parse_action_def no_qmark_url_encode no_qmark_query)
  also have "\<dots> = i"
    using assms by (auto simp: parse_params_lib parse_params_query empty_intent_def
        intro!: URLIntent.equality)
  finally show ?thesis .
qed

lemma URLIntent_of_str: "canonical i \<Longrightarrow> URLIntent_of (intent_str i) = i"
  by (cases "i_action i") (simp_all add: parse_str_user parse_str_plain parse_str_single del: canonical.simps,
      simp)

text \<open>The fields that the constructors fill in.\<close>

lemma trim_segment: "segment s \<Longrightarrow> trim s = s"
  by (auto simp: trim_def segment_def intro!: trim_both_id dest: last_in_set hd_in_set)

lemma trim_ends: "no_end_slash s \<Longrightarrow> trim s = s"
  by (auto simp: trim_def no_end_slash_def intro!: trim_both_id)

lemma URLIntent_name_fields:
  assumes "segment owner" "no_end_slash coll" "segment name"
  shows "URLIntent_name a owner coll name opt = \<lparr>i_action = a, i_user = owner, i_coll = coll, i_filename = name, i_option = opt,
    i_query_target = QNone, i_valid = (if a = Api \<or> a = View then name = [] \<or> is_hex name else a = Upload \<or> a = Lib)\<rparr>"
  using assms by (simp add: URLIntent_name_def empty_intent_def trim_segment trim_ends)

lemma segment_is_hex: "is_hex f \<Longrightarrow> segment f"
  using is_hex_chars hex_digits_plain by (auto simp: segment_def)

lemma intent_str_valid [simp]: "intent_str (i\<lparr>i_valid := b\<rparr>) = intent_str i"
  by (auto simp: intent_str_def write_path_def write_field_def fun_eq_iff split: Parameter.splits intro!: arg_cong [of _ _ concat])

text \<open>A view or api intent with a file name that is no blob: the name becomes a part of the collection.\<close>

lemma name_becomes_collection:
  assumes "a = View \<or> a = Api" and u: "owner \<noteq> []" "segment owner" "no_end_slash coll"
    and f: "f \<noteq> []" "segment f" "\<not> is_hex f" "CHR ''?'' \<notin> set f" "CHR ''%'' \<notin> set f"
  shows "URLIntent_of (intent_str (URLIntent_name a owner coll f opt)) =
    URLIntent_name a owner (if coll = [] then f else coll @ ''/'' @ f) [] opt"
proof -
  define j where "j = URLIntent_name a owner coll f opt"
  let ?act = "if a = View then ''view'' else ''api''"
  let ?r = "rest_path coll f" and ?c = "if coll = [] then f else coll @ ''/'' @ f"
  have i: "i_action j = a" "i_user j = owner" "i_coll j = coll" "i_filename j = f" "i_option j = opt"
    using URLIntent_name_fields [OF u(2,3) f(2)] by (simp_all add: j_def)
  have path: "write_path j = ''/'' @ ?act @ ''/'' @ url_encode owner @ ''/'' @ ?r"
    using assms(1) u(1) by (auto simp: write_path_def action_path_def write_field_def rest_path_def i)
  have q: "CHR ''?'' \<notin> set ?r" using f(4) by (rule no_qmark_rest_path)
  have parsed: "URLIntent_of (intent_str j) = parse_params a
      (empty_intent\<lparr>i_action := a, i_option := opt, i_valid := True\<rparr>, url_encode owner @ ''/'' @ ?r)"
    using intent_str_parse [OF path] assms(1) q i by (auto simp: parse_action_def no_qmark_url_encode)
  have slash: "CHR ''/'' \<notin> set f" using f(2) by (simp add: segment_def)
  have fends: "hd f \<noteq> CHR ''/''" "last f \<noteq> CHR ''/''" using f(1) slash hd_in_set last_in_set by metis+
  have blob: "parse_field_from_right PBlob (k, ?r) = (k, ?r)" for k
    using split_right_filename [OF slash, of coll] f(3) by (simp add: parse_field_from_right_def rest_path_def)
  have trim: "trim ?r = ?r"
    using f(1) u(3) fends by (auto simp: trim_def rest_path_def no_end_slash_def hd_append hd_url_encode_slash intro!: trim_both_id)
  have "url_decode ?r = ?c" using f(5) by (simp add: rest_path_def url_decode_encode_append url_decode_no_percent)
  then have coll: "parse_field_from_right PCollection (k, ?r) = (k\<lparr>i_coll := ?c\<rparr>, [])" for k
    using q trim by (simp add: parse_field_from_right_def)
  have ends: "no_end_slash ?c" using f(1) u(3) fends by (auto simp: no_end_slash_def)
  have "URLIntent_name a owner ?c [] opt = \<lparr>i_action = a, i_user = owner, i_coll = ?c, i_filename = [], i_option = opt, i_query_target = QNone, i_valid = True\<rparr>"
    using URLIntent_name_fields [OF u(2) ends, of "[]"] assms(1) by (auto simp: segment_def)
  moreover have "parse_params a (k, url_encode owner @ ''/'' @ r) = k\<lparr>i_user := owner, i_coll := c\<rparr>"
    if "\<And>k. parse_field_from_right PBlob (k, r) = (k, r)" "\<And>k. parse_field_from_right PCollection (k, r) = (k\<lparr>i_coll := c\<rparr>, [])" for k r c
    using assms(1) extract_left_segment(1) [OF u(2), of r]
    by (auto simp: parse_params_def separator_fields_def parse_field_from_left_def that url_decode_encode)
  from this [OF blob coll] have "parse_params a (k, url_encode owner @ ''/'' @ ?r) = k\<lparr>i_user := owner, i_coll := ?c\<rparr>" for k .
  ultimately show ?thesis unfolding j_def [symmetric] parsed by (simp add: empty_intent_def)
qed

text \<open>The intents that the server and the clients build.\<close>

lemma built_intents:
  assumes u: "owner \<noteq> []" "segment owner" "no_end_slash coll"
  shows "hex_codec L \<Longrightarrow> wf_oid blob \<Longrightarrow> a = View \<or> a = Api \<Longrightarrow> canonical (URLIntent_blob L a owner coll blob opt)"
    and "a = View \<or> a = Api \<Longrightarrow> canonical (URLIntent_name a owner coll [] opt)"
    and "segment name \<Longrightarrow> canonical (URLIntent_name Upload owner coll name opt)"
    and "canonical ((URLIntent_query q opt)\<lparr>i_valid := opt \<noteq> []\<rparr>)"
    and "canonical ((URLIntent_name Login [] [] [] opt)\<lparr>i_valid := True\<rparr>)"
    and "a = Login \<or> a = Logout \<or> a = Home \<Longrightarrow> canonical (URLIntent_act a)"
proof -
  show "canonical (URLIntent_blob L a owner coll blob opt)" if "hex_codec L" "wf_oid blob" "a = View \<or> a = Api"
  proof -
    have "is_hex (to_hex L blob)" using that(1,2) by (rule hex_codec.is_hex_to_hex)
    then show ?thesis using URLIntent_name_fields [OF u(2,3) segment_is_hex] u that(3) by (auto simp: URLIntent_blob_def)
  qed
  show "canonical (URLIntent_name a owner coll [] opt)" if "a = View \<or> a = Api"
    using URLIntent_name_fields [OF u(2,3), of "[]"] u that by (auto simp: segment_def)
  show "canonical (URLIntent_name Upload owner coll name opt)" if "segment name"
    using URLIntent_name_fields [OF u(2,3) that] u that by simp
  show "canonical ((URLIntent_query q opt)\<lparr>i_valid := opt \<noteq> []\<rparr>)" by (simp add: URLIntent_query_def empty_intent_def)
  show "canonical ((URLIntent_name Login [] [] [] opt)\<lparr>i_valid := True\<rparr>)"
    by (simp add: URLIntent_name_def empty_intent_def trim_def trim_both_def)
  show "canonical (URLIntent_act a)" if "a = Login \<or> a = Logout \<or> a = Home"
    using that by (auto simp: URLIntent_act_def empty_intent_def)
qed

lemma blob_intent_parsed:
  assumes "hex_codec L" "wf_oid i" "owner \<noteq> []" "segment owner" "no_end_slash coll"
  shows "URLIntent_of (intent_str (URLIntent_blob L Api owner coll i opt)) =
    \<lparr>i_action = Api, i_user = owner, i_coll = coll, i_filename = to_hex L i, i_option = opt, i_query_target = QNone, i_valid = True\<rparr>"
proof -
  have hex: "is_hex (to_hex L i)" using assms(1,2) by (rule hex_codec.is_hex_to_hex)
  then have "CHR ''/'' \<notin> set (to_hex L i)" using is_hex_chars hex_digits_plain by blast
  then have "trim (to_hex L i) = to_hex L i" "trim owner = owner" "trim coll = coll"
    using assms(3-5) by (auto simp: trim_def segment_def no_end_slash_def intro!: trim_both_id dest: last_in_set hd_in_set)
  then have "URLIntent_blob L Api owner coll i opt =
      \<lparr>i_action = Api, i_user = owner, i_coll = coll, i_filename = to_hex L i, i_option = opt, i_query_target = QNone, i_valid = True\<rparr>"
    by (simp add: URLIntent_blob_def URLIntent_name_def empty_intent_def hex)
  then show ?thesis using URLIntent_of_str hex assms(3-5) by simp
qed

section \<open>What a target can hold\<close>

lemma from_left_filename:
  "p \<in> {PUser, PQueryTarget} \<Longrightarrow> i_filename (fst (parse_field_from_left p st)) = i_filename (fst st) \<and>
     i_action (fst (parse_field_from_left p st)) = i_action (fst st)"
  by (cases st) (auto simp: parse_field_from_left_def split: prod.splits)

lemma from_right_filename:
  "p \<in> {PCollection, PBlob} \<Longrightarrow> i_filename (fst st) = [] \<or> is_hex (i_filename (fst st)) \<Longrightarrow>
     i_filename (fst (parse_field_from_right p st)) = [] \<or> is_hex (i_filename (fst (parse_field_from_right p st)))"
  by (cases st) (auto simp: parse_field_from_right_def url_decode_is_hex split: prod.splits)

lemma from_right_action: "i_action (fst (parse_field_from_right p st)) = i_action (fst st)"
  by (cases st) (auto simp: parse_field_from_right_def split: prod.splits)

lemma from_left_action: "i_action (fst (parse_field_from_left p st)) = i_action (fst st)"
  by (cases st) (auto simp: parse_field_from_left_def split: prod.splits Parameter.splits)

lemma parse_params_action: "i_action (parse_params a st) = i_action (fst st)"
proof -
  have r: "i_action (fst (fold parse_field_from_right ps st)) = i_action (fst st)" for ps st
    by (induction ps arbitrary: st) (simp_all add: from_right_action)
  have l: "i_action (fst (fold parse_field_from_left ps st)) = i_action (fst st)" for ps st
    by (induction ps arbitrary: st) (simp_all add: from_left_action)
  show ?thesis
    unfolding parse_params_def Let_def case_prod_unfold by (simp add: r l)
qed

lemma parse_params_filename:
  assumes "a = View \<or> a = Api" and "i_filename (fst st) = []"
  shows "i_filename (parse_params a st) = [] \<or> is_hex (i_filename (parse_params a st))"
proof -
  let ?r = "parse_field_from_right PCollection (parse_field_from_right PBlob (parse_field_from_left PUser st))"
  have "i_filename (fst (parse_field_from_left PUser st)) = []" using assms(2) from_left_filename [of PUser st] by simp
  then have "i_filename (fst ?r) = [] \<or> is_hex (i_filename (fst ?r))" by (simp add: from_right_filename)
  moreover have "parse_params a st = (if snd ?r \<noteq> [] then (fst ?r)\<lparr>i_valid := False\<rparr> else fst ?r)"
    using assms(1) by (auto simp: parse_params_def separator_fields_def Let_def case_prod_unfold)
  ultimately show ?thesis by simp
qed

lemma URLIntent_of_cases:
  obtains "URLIntent_of target = empty_intent"
  | a i p where "URLIntent_of target = parse_params a (i, p)" "i_action i = a" "i_filename i = []"
proof -
  obtain act t0 where ex: "extract_left (tl target) = (act, t0)" by force
  obtain f s tmp where sl: "split_left t0 ''?'' = (f, s, tmp)" by (metis prod_cases3)
  let ?a = "parse_action act"
  let ?i0 = "empty_intent\<lparr>i_action := ?a, i_valid := True\<rparr>"
  let ?i1 = "if s = CHR ''?'' then ?i0\<lparr>i_option := tmp\<rparr> else ?i0"
  let ?i2 = "if ?a = Query \<and> i_option ?i1 = [] then ?i1\<lparr>i_valid := False\<rparr> else ?i1"
  have "URLIntent_of target = empty_intent \<or>
      URLIntent_of target = parse_params ?a (?i2, if s = CHR ''?'' then f else t0)"
    unfolding URLIntent_of_def Let_def by (simp add: ex sl)
  moreover have "i_action ?i2 = ?a" "i_filename ?i2 = []" by (simp_all add: empty_intent_def)
  ultimately show thesis using that by blast
qed

lemma URLIntent_of_filename:
  assumes "i_action (URLIntent_of target) = View \<or> i_action (URLIntent_of target) = Api"
  shows "i_filename (URLIntent_of target) = [] \<or> is_hex (i_filename (URLIntent_of target))"
proof (cases rule: URLIntent_of_cases [of target])
  case 1
  then show ?thesis by (simp add: empty_intent_def)
next
  case (2 a i p)
  then have "a = View \<or> a = Api" using assms parse_params_action [of a "(i, p)"] by simp
  then show ?thesis using 2 parse_params_filename [of a "(i, p)"] by simp
qed

text \<open>The action is read from the first segment, so a printed intent never turns into a login.\<close>

lemma URLIntent_of_action:
  "i_action (URLIntent_of t) = (if t = [] \<or> hd t \<noteq> CHR ''/'' then NoAction else parse_action (fst (extract_left (tl t))))"
  unfolding URLIntent_of_def Let_def case_prod_unfold by (simp add: parse_params_action) (auto simp: empty_intent_def)

lemma printed_action:
  "\<exists>act rest. intent_str i = ''/'' @ act @ rest \<and> set act \<inter> set ''/?#'' = {} \<and> (rest = [] \<or> hd rest \<in> set ''/?'') \<and>
     parse_action act = (if i_action i = NoAction then Home else i_action i)"
proof -
  let ?o = "if i_option i \<noteq> [] then ''?'' @ i_option i else []"
  let ?p = "concat (map (write_field i) (intent_definitions (i_action i)))"
  let ?act = "case i_action i of Login \<Rightarrow> ''login'' | Logout \<Rightarrow> ''logout'' | View \<Rightarrow> ''view'' | Upload \<Rightarrow> ''upload''
     | Lib \<Rightarrow> ''lib'' | Query \<Rightarrow> ''query'' | Api \<Rightarrow> ''api'' | _ \<Rightarrow> []"
  let ?rest = "(if i_action i \<in> {Login, Logout, Home, NoAction} then ?o else ''/'' @ ?p @ ?o)"
  have "intent_str i = ''/'' @ ?act @ ?rest"
    by (cases "i_action i") (simp_all add: intent_str_def write_path_def action_path_def)
  moreover have "set ?act \<inter> set ''/?#'' = {}" "parse_action ?act = (if i_action i = NoAction then Home else i_action i)"
    by (cases "i_action i"; simp add: parse_action_def)+
  moreover have "?rest = [] \<or> hd ?rest \<in> set ''/?''" by simp
  ultimately show ?thesis by blast
qed

lemma printed_not_login: "i_action i \<noteq> Login \<Longrightarrow> i_action (URLIntent_of (intent_str i)) \<noteq> Login"
proof -
  assume "i_action i \<noteq> Login"
  moreover obtain act rest where p: "intent_str i = ''/'' @ act @ rest" "set act \<inter> set ''/?#'' = {}"
    "rest = [] \<or> hd rest \<in> set ''/?''" "parse_action act = (if i_action i = NoAction then Home else i_action i)"
    using printed_action [of i] by blast
  moreover have "fst (extract_left (act @ rest)) = act"
    using p(3) extract_left_end [OF p(2)] extract_left_slash [OF p(2), of "tl rest"] extract_left_qmark [OF p(2), of "tl rest"]
    by (cases rest) auto
  ultimately show ?thesis by (simp add: URLIntent_of_action)
qed

end
