(* ===== verification/HTTP.thy ===== *)
theory HTTP
  imports HRB_Prelude
begin

text \<open>
  Requests and responses as the handlers of the server see them: the message types of
  Boost.Beast that \<^verbatim>\<open>src/server/net/Request.hh\<close> names. A header field that is absent reads as the
  empty string, and setting a field replaces its value.
\<close>

datatype verb = V_get | V_post | V_put | V_delete | V_head | V_other string

datatype status =
    St_ok | St_created | St_no_content | St_moved_permanently | St_see_other | St_not_modified | St_bad_request
  | St_forbidden | St_not_found | St_internal_server_error

text \<open>The three types of request body, and the bodies of the responses: nothing, a string, the
  buffers of a page template (\<^verbatim>\<open>SplitBuffers\<close>: the segments and the strings between them) and a
  mapped file (\<^verbatim>\<open>MMapResponseBody\<close>).\<close>

datatype 'u request_body = Req_empty | Req_string string | Req_upload 'u

datatype response_body = Empty_body | String_body string | Split_body "string list" "string list" | File_body string

record 'u request =
  rq_method :: verb
  rq_target :: string
  rq_fields :: "string \<Rightarrow> string"
  rq_body :: "'u request_body"

record response =
  res_status :: status
  res_fields :: "string \<rightharpoonup> string"
  res_body :: response_body

definition respond :: "status \<Rightarrow> response_body \<Rightarrow> response" where
  "respond st body = \<lparr>res_status = st, res_fields = Map.empty, res_body = body\<rparr>"

definition empty_response :: "status \<Rightarrow> response" where
  "empty_response st = respond st Empty_body"

definition set_field :: "string \<Rightarrow> string \<Rightarrow> response \<Rightarrow> response" where
  "set_field name v res = res\<lparr>res_fields := (res_fields res)(name \<mapsto> v)\<rparr>"

lemma respond_simps [simp]:
  "res_status (respond st b) = st" "res_body (respond st b) = b" "res_fields (respond st b) = Map.empty"
  "res_status (empty_response st) = st" "res_body (empty_response st) = Empty_body"
  "res_fields (empty_response st) = Map.empty"
  "res_status (set_field n v r) = res_status r" "res_body (set_field n v r) = res_body r"
  "res_fields (set_field n v r) = (res_fields r)(n \<mapsto> v)"
  by (simp_all add: respond_def empty_response_def set_field_def)

end
