(* ===== verification/Web_Page.thy ===== *)
theory Web_Page
  imports HTTP Object_ID Reference_Libs
begin

text \<open>
  \<^verbatim>\<open>src/server/util/StringTemplate.cc\<close> and \<^verbatim>\<open>src/server/hrb/WebResources.cc\<close>: the files of the web
  interface and the page in which the server puts the JSON of a reply. The list of the resource
  names is generated by the build, libmagic and the Blake2 hash are libraries: all three are
  parameters, as are the files on disk.
\<close>

section \<open>Templates\<close>

text \<open>A template is the list of its segments. \<^verbatim>\<open>inject\<close> splits the first segment that holds the needle.\<close>

fun tpl_inject :: "string \<Rightarrow> nat \<Rightarrow> nat \<Rightarrow> string list \<Rightarrow> string list" where
  "tpl_inject needle needle_before needle_after [] = [[]]"
| "tpl_inject needle needle_before needle_after (s # ss) =
     (case (if needle = [] then None else find_sub s needle) of
        Some offset \<Rightarrow> take (offset + needle_before) s # drop (offset + length needle - needle_after) s # ss
      | None \<Rightarrow> s # tpl_inject needle needle_before needle_after ss)"

definition tpl_replace :: "string \<Rightarrow> string list \<Rightarrow> string list" where
  "tpl_replace needle src = tpl_inject needle 0 0 src"

definition tpl_replace_sub :: "string \<Rightarrow> string \<Rightarrow> string list \<Rightarrow> string list" where
  "tpl_replace_sub needle subneedle src =
     (case find_sub needle subneedle of
        Some offset \<Rightarrow> tpl_inject needle offset (length needle - offset - length subneedle) src
      | None \<Rightarrow> src)"

definition tpl_inject_before :: "string \<Rightarrow> string list \<Rightarrow> string list" where
  "tpl_inject_before needle src = tpl_inject needle 0 (length needle) src"

definition tpl_inject_after :: "string \<Rightarrow> string list \<Rightarrow> string list" where
  "tpl_inject_after needle src = tpl_inject needle (length needle) 0 src"

text \<open>\<^verbatim>\<open>InstantiatedStringTemplate<2>\<close>: three segments and two strings between them. The
  constructor throws when it gets more segments.\<close>

definition instantiate :: "string list \<Rightarrow> response_body option" where
  "instantiate src = (if 3 < length src then None
     else Some (Split_body (src @ replicate (3 - length src) []) [[], []]))"

definition set_extra :: "nat \<Rightarrow> string \<Rightarrow> response_body \<Rightarrow> response_body" where
  "set_extra i extra body = (case body of Split_body src extras \<Rightarrow> Split_body src (extras[i := extra]) | b \<Rightarrow> b)"

text \<open>\<^verbatim>\<open>data()\<close> and \<^verbatim>\<open>str()\<close>: the buffers that are sent; empty ones are left out after the first.\<close>

fun tpl_data :: "string list \<Rightarrow> string list \<Rightarrow> string list" where
  "tpl_data (src # srcs) (extra # extras) =
     (if extra \<noteq> [] then [extra] else []) @ (if src \<noteq> [] then [src] else []) @ tpl_data srcs extras"
| "tpl_data _ _ = []"

definition body_str :: "response_body \<Rightarrow> string" where
  "body_str body = (case body of
       Split_body (src # srcs) extras \<Rightarrow> concat (src # tpl_data srcs extras)
     | Split_body [] extras \<Rightarrow> []
     | Empty_body \<Rightarrow> [] | String_body s \<Rightarrow> s | File_body s \<Rightarrow> s)"

text \<open>The bodies as Boost.Beast asks for them: the size it announces (\<^verbatim>\<open>size\<close>), and the buffers of the one
  call of \<^verbatim>\<open>get\<close> with the mark that no more follow.\<close>

definition split_size :: "string list \<Rightarrow> string list \<Rightarrow> nat" where
  "split_size srcs extras = sum_list (map length (hd srcs # tpl_data (tl srcs) extras))"

definition split_get :: "string list \<Rightarrow> string list \<Rightarrow> (string list \<times> bool) option" where
  "split_get srcs extras = Some (hd srcs # tpl_data (tl srcs) extras, False)"

definition mmap_size :: "string \<Rightarrow> nat" where
  "mmap_size body = length body"

definition mmap_get :: "string \<Rightarrow> (string \<times> bool) option" where
  "mmap_get body = Some (body, False)"

lemma split_sent: "srcs \<noteq> [] \<Longrightarrow> split_size srcs extras = length (body_str (Split_body srcs extras))
    \<and> map_option (concat \<circ> fst) (split_get srcs extras) = Some (body_str (Split_body srcs extras))"
  by (cases srcs) (simp_all add: split_size_def split_get_def body_str_def length_concat)

section \<open>Resources\<close>

record resource =
  r_name :: string
  r_src :: "string list"
  r_mime :: string
  r_etag :: string

record web_env =
  we_magic :: "string \<Rightarrow> string"
  we_hash :: "string \<Rightarrow> ObjectID"
  we_extension :: "string \<Rightarrow> string"

definition dir_needle :: string where
  "dir_needle = ''{/** dynamic json placeholder for dir **/}''"

definition meta_needle :: string where
  "meta_needle = ''<meta property='' @ [CHR 0x22] @ ''og:title'' @ [CHR 0x22] @ '' content='' @ [CHR 0x22] @ ''Hearty Rabbit'' @ [CHR 0x22] @ ''>''"

definition resource_mime :: "web_env \<Rightarrow> string \<Rightarrow> string \<Rightarrow> string" where
  "resource_mime E ext content =
     (if ext = ''.css'' then ''text/css''
      else if ext = ''.js'' then ''application/javascript''
      else we_magic E content)"

definition Resource :: "string \<Rightarrow> string \<Rightarrow> string \<Rightarrow> string \<Rightarrow> resource" where
  "Resource name file mime etag =
     \<lparr>r_name = name,
      r_src = (if name = ''index.html'' then tpl_replace meta_needle (tpl_replace dir_needle [file]) else [file]),
      r_mime = mime, r_etag = etag\<rparr>"

text \<open>\<^verbatim>\<open>load\<close>: every resource has to exist. A name that is already there is not inserted again.\<close>

fun load_resources :: "extlib \<Rightarrow> web_env \<Rightarrow> (string \<rightharpoonup> string) \<Rightarrow> string list \<Rightarrow> resource list \<Rightarrow> resource list option" where
  "load_resources L E files [] result = Some result"
| "load_resources L E files (name # names) result =
     (case files name of
        None \<Rightarrow> None
      | Some content \<Rightarrow>
          (let etag = to_quoted_hex L (we_hash E content); mime = resource_mime E (we_extension E name) content
           in load_resources L E files names
                (if name \<in> r_name ` set result then result else result @ [Resource name content mime etag])))"

record web =
  w_static :: "resource list"
  w_dynamic :: "resource list"

definition WebResources ::
  "extlib \<Rightarrow> web_env \<Rightarrow> (string \<rightharpoonup> string) \<Rightarrow> (string \<rightharpoonup> string) \<Rightarrow> string list \<Rightarrow> string list \<Rightarrow> web option" where
  "WebResources L E static_files dynamic_files static_resources dynamic_resources =
     (case load_resources L E static_files static_resources [] of
        None \<Rightarrow> None
      | Some st \<Rightarrow> map_option (\<lambda>dy. \<lparr>w_static = st, w_dynamic = dy\<rparr>)
          (load_resources L E dynamic_files dynamic_resources []))"

definition find_resource :: "string \<Rightarrow> resource list \<Rightarrow> resource option" where
  "find_resource name rs = find (\<lambda>r. r_name r = name) rs"

text \<open>\<^verbatim>\<open>Resource::get\<close>; the constructor of the body never throws, as a resource has at most three
  segments.\<close>

definition resource_get :: "resource \<Rightarrow> bool \<Rightarrow> response" where
  "resource_get r dynamic =
     set_field ''ETag'' (r_etag r)
       (set_field ''Cache-Control''
          (if dynamic then ''no-cache, no-store, must-revalidate'' else ''public, max-age=0, must-revalidate'')
          (set_field ''Content-Type'' (r_mime r)
             (respond St_ok (case instantiate (r_src r) of Some b \<Rightarrow> b | None \<Rightarrow> Empty_body))))"

definition default_split :: response_body where
  "default_split = Split_body [[], [], []] [[], []]"

definition find_static :: "web \<Rightarrow> string \<Rightarrow> string \<Rightarrow> response" where
  "find_static w filename etag =
     (case find_resource filename (w_static w) of
        None \<Rightarrow> respond St_not_found default_split
      | Some r \<Rightarrow>
          if etag \<noteq> [] \<and> etag = r_etag r then
            set_field ''ETag'' (r_etag r)
              (set_field ''Cache-Control'' ''private, max-age=0, must-revalidate'' (respond St_not_modified default_split))
          else resource_get r False)"

definition find_dynamic :: "web \<Rightarrow> string \<Rightarrow> response" where
  "find_dynamic w filename =
     (case find_resource filename (w_dynamic w) of
        Some r \<Rightarrow> resource_get r True
      | None \<Rightarrow> respond St_not_found default_split)"

definition is_static :: "web \<Rightarrow> string \<Rightarrow> bool" where
  "is_static w filename \<longleftrightarrow> find_resource filename (w_static w) \<noteq> None"

definition web_inject :: "web \<Rightarrow> status \<Rightarrow> string \<Rightarrow> string \<Rightarrow> response" where
  "web_inject w st json meta =
     (let res = find_dynamic w ''index.html''
      in res\<lparr>res_body := set_extra 1 meta (set_extra 0 json (res_body res)), res_status := st\<rparr>)"

section \<open>Facts\<close>

lemma tpl_inject_length: "length (tpl_inject needle nb na src) = Suc (length src)"
  by (induction src) (auto split: option.splits)

text \<open>The segments of a template hold the text of the file, less the needle when it was found.\<close>

lemma tpl_replace_concat:
  "tpl_replace needle src = src @ [[]] \<or>
   (\<exists>ss1 s ss2 a b. src = ss1 @ s # ss2 \<and> s = a @ needle @ b \<and> tpl_replace needle src = ss1 @ a # b # ss2 \<and> needle \<noteq> [])"
proof (induction src)
  case (Cons s ss)
  show ?case
  proof (cases "if needle = [] then None else find_sub s needle")
    case None
    then have "tpl_replace needle (s # ss) = s # tpl_replace needle ss" by (simp add: tpl_replace_def)
    then show ?thesis using Cons.IH by (metis append_Cons)
  next
    case (Some i)
    then have ne: "needle \<noteq> []" and f: "find_sub s needle = Some i" by (auto split: if_splits)
    have "tpl_replace needle (s # ss) = [] @ take i s # drop (i + length needle) s # ss"
      using ne f by (simp add: tpl_replace_def)
    moreover have "s # ss = [] @ s # ss" by simp
    moreover have "s = take i s @ needle @ drop (i + length needle) s" using find_sub_Some [OF f] by simp
    ultimately show ?thesis using ne by blast
  qed
qed (simp add: tpl_replace_def)

lemma concat_tpl_data: "length srcs = length extras \<Longrightarrow> concat (tpl_data srcs extras) = concat (map2 (@) extras srcs)"
  by (induction srcs extras rule: list_induct2) auto

lemma resource_segments: "length (r_src (Resource name file mime etag)) \<le> 3"
  by (simp add: Resource_def tpl_replace_def tpl_inject_length del: tpl_inject.simps)

text \<open>Every resource that was loaded is found under its name.\<close>

lemma load_resources_find:
  "load_resources L E files names result = Some rs \<Longrightarrow>
   find_resource name rs = (case find_resource name result of Some r \<Rightarrow> Some r
     | None \<Rightarrow> if name \<in> set names then map_option (\<lambda>content. Resource name content
         (resource_mime E (we_extension E name) content) (to_quoted_hex L (we_hash E content))) (files name) else None)"
proof (induction names arbitrary: result)
  case Nil
  then show ?case by (simp split: option.splits)
next
  case (Cons n names)
  then obtain content where c: "files n = Some content" by (auto split: option.splits)
  let ?r = "Resource n content (resource_mime E (we_extension E n) content) (to_quoted_hex L (we_hash E content))"
  let ?result = "if n \<in> r_name ` set result then result else result @ [?r]"
  have rn: "r_name ?r = n" by (simp add: Resource_def)
  have IH: "find_resource name rs = (case find_resource name ?result of Some r \<Rightarrow> Some r
     | None \<Rightarrow> if name \<in> set names then map_option (\<lambda>content. Resource name content
         (resource_mime E (we_extension E name) content) (to_quoted_hex L (we_hash E content))) (files name) else None)"
    by (rule Cons.IH) (use Cons.prems c in \<open>simp add: Let_def\<close>)
  have app: "find_resource name (result @ [?r]) = (case find_resource name result of Some r \<Rightarrow> Some r | None \<Rightarrow> if n = name then Some ?r else None)"
    by (induction result) (auto simp: find_resource_def rn)
  have known: "find_resource name result \<noteq> None \<longleftrightarrow> name \<in> r_name ` set result"
    by (auto simp: find_resource_def find_None_iff)
  show ?case unfolding IH using app known c by (auto split: option.splits)
qed

lemma index_segments:
  assumes "find_sub (a @ dir_needle @ b @ meta_needle @ c) dir_needle = Some (length a)"
    and "find_sub a meta_needle = None" and "find_sub (b @ meta_needle @ c) meta_needle = Some (length b)"
  shows "tpl_replace meta_needle (tpl_replace dir_needle [a @ dir_needle @ b @ meta_needle @ c]) = [a, b, c]"
proof -
  have ne: "dir_needle \<noteq> []" "meta_needle \<noteq> []" by (simp_all add: dir_needle_def meta_needle_def)
  show ?thesis using assms ne by (simp add: tpl_replace_def)
qed

section \<open>Property\<close>

text \<open>The page of a reply is the file \<^verbatim>\<open>index.html\<close> with the JSON of the reply in place of the first
  placeholder and the meta tags in place of the second, byte for byte and whatever they hold, and it
  is never cached.\<close>

theorem injected_page:
  assumes "WebResources L E static_files dynamic_files static_resources dynamic_resources = Some w"
    and "''index.html'' \<in> set dynamic_resources"
    and "dynamic_files ''index.html'' = Some (a @ dir_needle @ b @ meta_needle @ c)"
    and "find_sub (a @ dir_needle @ b @ meta_needle @ c) dir_needle = Some (length a)"
    and "find_sub a meta_needle = None" and "find_sub (b @ meta_needle @ c) meta_needle = Some (length b)"
  shows "body_str (res_body (web_inject w st json meta)) = a @ json @ b @ meta @ c \<and>
    res_status (web_inject w st json meta) = st \<and>
    res_fields (web_inject w st json meta) ''Cache-Control'' = Some ''no-cache, no-store, must-revalidate''"
proof -
  have "load_resources L E dynamic_files dynamic_resources [] = Some (w_dynamic w)"
    using assms(1) by (auto simp: WebResources_def split: option.splits)
  from load_resources_find [OF this, of "''index.html''"] obtain mime etag
    where "find_resource ''index.html'' (w_dynamic w) = Some (Resource ''index.html'' (a @ dir_needle @ b @ meta_needle @ c) mime etag)"
    using assms(2,3) by (auto simp: find_resource_def)
  then have "find_dynamic w ''index.html'' = resource_get \<lparr>r_name = ''index.html'', r_src = [a, b, c], r_mime = mime, r_etag = etag\<rparr> True"
    by (simp add: find_dynamic_def Resource_def index_segments [OF assms(4-6)])
  then show ?thesis
    by (simp add: web_inject_def Let_def resource_get_def instantiate_def set_extra_def body_str_def numeral_3_eq_3)
qed

text \<open>A page with both placeholders.\<close>

definition demo_env :: web_env where
  "demo_env = \<lparr>we_magic = (\<lambda>_. ''text/html''), we_hash = (\<lambda>_. zero_oid), we_extension = (\<lambda>_. ''.html'')\<rparr>"

definition demo_page :: string where
  "demo_page = ''var dir = '' @ dir_needle @ '';'' @ meta_needle @ ''<p>''"

definition demo_files :: "string \<rightharpoonup> string" where
  "demo_files = [''index.html'' \<mapsto> demo_page]"

lemma demo_web: "\<exists>w. WebResources ref_lib demo_env Map.empty demo_files [] [''index.html''] = Some w"
  by (simp add: WebResources_def demo_files_def)

lemma demo_page_needles:
  "find_sub (''var dir = '' @ dir_needle @ '';'' @ meta_needle @ ''<p>'') dir_needle = Some (length ''var dir = '')"
  "find_sub ''var dir = '' meta_needle = None" "find_sub ('';'' @ meta_needle @ ''<p>'') meta_needle = Some (length '';'')"
  by code_simp+

theorem injected_page_witness:
  "\<exists>w. WebResources ref_lib demo_env Map.empty demo_files [] [''index.html''] = Some w \<and>
     body_str (res_body (web_inject w St_ok ''{}'' ''<meta>'')) = ''var dir = {};<meta><p>''"
proof -
  obtain w where w: "WebResources ref_lib demo_env Map.empty demo_files [] [''index.html''] = Some w"
    using demo_web by blast
  have "demo_files ''index.html'' = Some (''var dir = '' @ dir_needle @ '';'' @ meta_needle @ ''<p>'')"
    by (simp add: demo_files_def demo_page_def)
  from injected_page [OF w _ this demo_page_needles, of St_ok "''{}''" "''<meta>''"] w show ?thesis by simp
qed

end
