(* ===== verification/Calendar.thy ===== *)
theory Calendar
  imports String_Fields Blob_Inode
begin

text \<open>
  Dates: the HTTP format of a \<^verbatim>\<open>Timestamp\<close> (\<^verbatim>\<open>src/common/util/Timestamp.cc\<close>), the expiry time of a cookie
  (\<^verbatim>\<open>Cookie::expires\<close>) and the date that a camera leaves in a photograph (\<^verbatim>\<open>src/common/image/EXIF2.cc\<close>), with the
  functions of the C library they call. The calendar functions are inverse, and a date that was
  printed is read back.
\<close>

section \<open>The calendar of the C library\<close>

record tm =
  tm_sec :: int
  tm_min :: int
  tm_hour :: int
  tm_mday :: int
  tm_mon :: int
  tm_year :: int
  tm_wday :: int

definition zero_tm :: tm where
  "zero_tm = \<lparr>tm_sec = 0, tm_min = 0, tm_hour = 0, tm_mday = 0, tm_mon = 0, tm_year = 0, tm_wday = 0\<rparr>"

text \<open>The number of a day, from 1 January 1970, of a year, a month from 1 to 12 and a day of the month. Counted
  from March the months have 31, 30, 31, 30, 31 days, again and again, and the leap day is the last
  of the year.\<close>

definition days_from_civil :: "int \<Rightarrow> int \<Rightarrow> int \<Rightarrow> int" where
  "days_from_civil y m d =
     (let y' = (if m \<le> 2 then y - 1 else y);
          mp = (m + 9) mod 12
      in 365 * y' + y' div 4 - y' div 100 + y' div 400 + (153 * mp + 2) div 5 + d - 1 - 719468)"

text \<open>The year, month and day: cycles of 400, 100, 4 years and a year, the last of each may be longer.\<close>

definition civil_from_days :: "int \<Rightarrow> int \<times> int \<times> int" where
  "civil_from_days days =
     (let z = days + 719468;
          q = z div 146097; r = z mod 146097;
          c = min 3 (r div 36524); r2 = r - 36524 * c;
          p = r2 div 1461; r3 = r2 mod 1461;
          k = min 3 (r3 div 365); doy = r3 - 365 * k;
          mp = (5 * doy + 2) div 153;
          d = doy - (153 * mp + 2) div 5 + 1;
          m = (if mp < 10 then mp + 3 else mp - 9);
          y = 400 * q + 100 * c + 4 * p + k
      in (if m \<le> 2 then y + 1 else y, m, d))"

text \<open>\<^verbatim>\<open>gmtime_r\<close>; the years of all times of the program fit into an \<^verbatim>\<open>int\<close>.\<close>

definition gmtime :: "int \<Rightarrow> tm" where
  "gmtime t =
     (let days = t div 86400; s = t mod 86400
      in case civil_from_days days of (y, m, d) \<Rightarrow>
        \<lparr>tm_sec = s mod 60, tm_min = s div 60 mod 60, tm_hour = s div 3600, tm_mday = d, tm_mon = m - 1,
         tm_year = y - 1900, tm_wday = (days + 4) mod 7\<rparr>)"

text \<open>\<^verbatim>\<open>timegm\<close>, for a month in range; days and seconds out of range carry over.\<close>

definition timegm :: "tm \<Rightarrow> int" where
  "timegm t = days_from_civil (tm_year t + 1900) (tm_mon t + 1) (tm_mday t) * 86400 +
     tm_hour t * 3600 + tm_min t * 60 + tm_sec t"

section \<open>Printing and reading\<close>

definition wday_names :: "string list" where
  "wday_names = [''Sun'', ''Mon'', ''Tue'', ''Wed'', ''Thu'', ''Fri'', ''Sat'']"

definition wday_full_names :: "string list" where
  "wday_full_names = [''Sunday'', ''Monday'', ''Tuesday'', ''Wednesday'', ''Thursday'', ''Friday'', ''Saturday'']"

definition month_names :: "string list" where
  "month_names = [''Jan'', ''Feb'', ''Mar'', ''Apr'', ''May'', ''Jun'', ''Jul'', ''Aug'', ''Sep'', ''Oct'', ''Nov'', ''Dec'']"

definition month_full_names :: "string list" where
  "month_full_names = [''January'', ''February'', ''March'', ''April'', ''May'', ''June'', ''July'', ''August'',
     ''September'', ''October'', ''November'', ''December'']"

text \<open>The two digits of \<^verbatim>\<open>%d\<close>, \<^verbatim>\<open>%H\<close>, \<^verbatim>\<open>%M\<close> and \<^verbatim>\<open>%S\<close>.\<close>

definition two_digits :: "int \<Rightarrow> string" where
  "two_digits n = [char_of (48 + nat n div 10), char_of (48 + nat n mod 10)]"

text \<open>\<^verbatim>\<open>std::put_time(tm, "%a, %d %b %Y %H:%M:%S GMT")\<close> in the classic locale.\<close>

definition put_time :: "tm \<Rightarrow> string" where
  "put_time t = wday_names ! nat (tm_wday t) @ '', '' @ two_digits (tm_mday t) @ '' '' @
     month_names ! nat (tm_mon t) @ '' '' @ to_string (tm_year t + 1900) @ '' '' @
     two_digits (tm_hour t) @ '':'' @ two_digits (tm_min t) @ '':'' @ two_digits (tm_sec t) @ '' GMT''"

text \<open>What a conversion specifier of \<^verbatim>\<open>strptime\<close> reads: white space is skipped, then at most \<^term>\<open>n\<close> digits are
  taken, no more than make a number up to \<^term>\<open>hi\<close>, and the number must be in range.\<close>

fun take_number :: "nat \<Rightarrow> nat \<Rightarrow> nat \<Rightarrow> string \<Rightarrow> nat \<times> string" where
  "take_number hi 0 v s = (v, s)"
| "take_number hi (Suc n) v [] = (v, [])"
| "take_number hi (Suc n) v (c # s) =
     (if v * 10 \<le> hi \<and> isdigit c then take_number hi n (v * 10 + (of_char c - 48)) s else (v, c # s))"

definition get_number :: "nat \<Rightarrow> nat \<Rightarrow> nat \<Rightarrow> string \<Rightarrow> (int \<times> string) option" where
  "get_number lo hi n s =
     (let u = dropWhile isspace s
      in if u = [] \<or> \<not> isdigit (hd u) then None
         else case take_number hi n 0 u of (v, rest) \<Rightarrow>
           if lo \<le> v \<and> v \<le> hi then Some (int v, rest) else None)"

text \<open>A name, in full or abbreviated, of any case.\<close>

definition starts_with_nocase :: "string \<Rightarrow> string \<Rightarrow> bool" where
  "starts_with_nocase name s \<longleftrightarrow> map tolower (take (length name) s) = map tolower name"

fun get_name :: "nat \<Rightarrow> (string \<times> string) list \<Rightarrow> string \<Rightarrow> (int \<times> string) option" where
  "get_name i [] s = None"
| "get_name i ((full, short) # names) s =
     (if starts_with_nocase full s then Some (int i, drop (length full) s)
      else if starts_with_nocase short s then Some (int i, drop (length short) s)
      else get_name (Suc i) names s)"

datatype conversion = Conv_a | Conv_b | Conv_d | Conv_m | Conv_Y | Conv_H | Conv_M | Conv_S | Space | Literal char

definition read_number :: "nat \<Rightarrow> nat \<Rightarrow> nat \<Rightarrow> (int \<Rightarrow> tm \<Rightarrow> tm) \<Rightarrow> string \<times> tm \<Rightarrow> (string \<times> tm) option" where
  "read_number lo hi n upd st = map_option (\<lambda>(v, rest). (rest, upd v (snd st))) (get_number lo hi n (fst st))"

fun convert :: "conversion \<Rightarrow> string \<times> tm \<Rightarrow> (string \<times> tm) option" where
  "convert Conv_a st = map_option (\<lambda>(v, rest). (rest, (snd st)\<lparr>tm_wday := v\<rparr>)) (get_name 0 (zip wday_full_names wday_names) (fst st))"
| "convert Conv_b st = map_option (\<lambda>(v, rest). (rest, (snd st)\<lparr>tm_mon := v\<rparr>)) (get_name 0 (zip month_full_names month_names) (fst st))"
| "convert Conv_d st = read_number 1 31 2 (\<lambda>v t. t\<lparr>tm_mday := v\<rparr>) st"
| "convert Conv_m st = read_number 1 12 2 (\<lambda>v t. t\<lparr>tm_mon := v - 1\<rparr>) st"
| "convert Conv_Y st = read_number 0 9999 4 (\<lambda>v t. t\<lparr>tm_year := v - 1900\<rparr>) st"
| "convert Conv_H st = read_number 0 23 2 (\<lambda>v t. t\<lparr>tm_hour := v\<rparr>) st"
| "convert Conv_M st = read_number 0 59 2 (\<lambda>v t. t\<lparr>tm_min := v\<rparr>) st"
| "convert Conv_S st = read_number 0 61 2 (\<lambda>v t. t\<lparr>tm_sec := v\<rparr>) st"
| "convert Space st = Some (dropWhile isspace (fst st), snd st)"
| "convert (Literal c) st = (case fst st of [] \<Rightarrow> None | x # s \<Rightarrow> if x = c then Some (s, snd st) else None)"

fun strptime :: "conversion list \<Rightarrow> string \<times> tm \<Rightarrow> (string \<times> tm) option" where
  "strptime [] st = Some st"
| "strptime (c # cs) st = (case convert c st of None \<Rightarrow> None | Some st' \<Rightarrow> strptime cs st')"

section \<open>The functions of the program\<close>

text \<open>Durations: \<^verbatim>\<open>std::chrono\<close> counts nanoseconds in 64 bits, which wrap, and a cast to a longer unit
  truncates towards zero.\<close>

definition wrap64 :: "int \<Rightarrow> int" where
  "wrap64 i = sint (word_of_int i :: 64 word)"

definition trunc_div :: "int \<Rightarrow> int \<Rightarrow> int" where
  "trunc_div a b = (if a < 0 then - (- a div b) else a div b)"

text \<open>\<^verbatim>\<open>Timestamp::http_format\<close>: \<^verbatim>\<open>to_time_t\<close> takes nanoseconds.\<close>

definition http_format :: "Timestamp \<Rightarrow> string" where
  "http_format t = put_time (gmtime (trunc_div (wrap64 (t * 10 ^ 6)) (10 ^ 9)))"

definition expires_format :: "conversion list" where
  "expires_format = [Conv_a, Literal CHR '','', Space, Conv_d, Space, Conv_b, Space, Conv_Y, Space,
     Conv_H, Literal CHR '':'', Conv_M, Literal CHR '':'', Conv_S]"

text \<open>\<^verbatim>\<open>Cookie::expires\<close>, in nanoseconds: the time is cached in the cookie. Without a date that can be read the
  optional is empty, and reading it is undefined.\<close>

definition cookie_expires :: "cookie \<Rightarrow> cookie \<times> int option" where
  "cookie_expires c =
     (let c' = (if m_expires c \<noteq> None then c
        else case strptime expires_format (dropWhile isspace (cookie_field c ''Expires''), zero_tm) of
            Some (rest, t) \<Rightarrow> c\<lparr>m_expires := Some (wrap64 (timegm t * 10 ^ 9))\<rparr>
          | None \<Rightarrow> c)
      in (c', m_expires c'))"

definition exif_format :: "conversion list" where
  "exif_format = [Conv_Y, Literal CHR '':'', Conv_m, Literal CHR '':'', Conv_d, Space,
     Conv_H, Literal CHR '':'', Conv_M, Literal CHR '':'', Conv_S]"

text \<open>\<^verbatim>\<open>EXIF2::date_time\<close>, in nanoseconds; \<^term>\<open>entry\<close> is the text of the tag that libexif finds, if any.\<close>

definition exif_date_time :: "string option \<Rightarrow> int option" where
  "exif_date_time entry = (case entry of
       None \<Rightarrow> None
     | Some buf \<Rightarrow> map_option (\<lambda>(rest, t). wrap64 (timegm t * 10 ^ 9)) (strptime exif_format (buf, zero_tm)))"

section \<open>The calendar\<close>

lemma div_between: "0 < b \<Longrightarrow> b * (a div b) \<le> a \<and> a < b * (a div b) + b" for a b :: int
  using pos_mod_bound [of b a] pos_mod_sign [of b a] mult_div_mod_eq [of b a] by linarith

lemma month_of_day:
  assumes "0 \<le> doy" and "doy \<le> (365 :: int)"
  shows "let mp = (5 * doy + 2) div 153 in 0 \<le> mp \<and> mp \<le> 11 \<and>
    (153 * mp + 2) div 5 \<le> doy \<and> doy \<le> (153 * mp + 2) div 5 + 30"
proof -
  define mp where "mp = (5 * doy + 2) div 153"
  have mp: "153 * mp \<le> 5 * doy + 2 \<and> 5 * doy + 2 < 153 * mp + 153" unfolding mp_def by (rule div_between) simp
  have "5 * ((153 * mp + 2) div 5) \<le> 153 * mp + 2 \<and> 153 * mp + 2 < 5 * ((153 * mp + 2) div 5) + 5" by (rule div_between) simp
  with mp assms have "0 \<le> mp" "mp \<le> 11" "(153 * mp + 2) div 5 \<le> doy" "doy \<le> (153 * mp + 2) div 5 + 30" by linarith+
  then show ?thesis by (simp add: Let_def mp_def [symmetric])
qed

text \<open>A number of days, counted from 1 March of the year 0, in cycles of years.\<close>

lemma civil_parts:
  fixes z :: int
  assumes "q = z div 146097" "r = z mod 146097" "c = min 3 (r div 36524)" "r2 = r - 36524 * c"
    and "p = r2 div 1461" "r3 = r2 mod 1461" "k = min 3 (r3 div 365)" "doy = r3 - 365 * k"
  shows "0 \<le> c \<and> c \<le> 3" and "0 \<le> p \<and> p \<le> 24" and "0 \<le> k \<and> k \<le> 3" and "0 \<le> doy \<and> doy \<le> 365"
    and "z = 146097 * q + 36524 * c + 1461 * p + 365 * k + doy"
proof -
  have r: "0 \<le> r" "r < 146097" "z = 146097 * q + r" using assms(1,2) by simp_all
  show c: "0 \<le> c \<and> c \<le> 3" using r assms(3) by (simp add: pos_imp_zdiv_nonneg_iff)
  have "r < 36524 * c + 36525" "36524 * c \<le> r"
    using r(1,2) assms(3) div_between [of 36524 r] by (auto simp: min_def split: if_splits)
  then have r2: "0 \<le> r2" "r2 < 36525" using assms(4) by linarith+
  show p: "0 \<le> p \<and> p \<le> 24" using r2 assms(5) div_between [of 1461 r2] by linarith
  have r3: "0 \<le> r3" "r3 < 1461" "r2 = 1461 * p + r3" using assms(5,6) by simp_all
  show k: "0 \<le> k \<and> k \<le> 3" using r3 assms(7) by (simp add: pos_imp_zdiv_nonneg_iff)
  show "0 \<le> doy \<and> doy \<le> 365"
    using r3(1,2) assms(7,8) div_between [of 365 r3] by (auto simp: min_def split: if_splits)
  show "z = 146097 * q + 36524 * c + 1461 * p + 365 * k + doy" using r(3) r3(3) assms(4,8) by linarith
qed

lemma year_divs:
  fixes q c p k :: int
  assumes "0 \<le> c \<and> c \<le> 3" and "0 \<le> p \<and> p \<le> 24" and "0 \<le> k \<and> k \<le> 3"
  shows "(400 * q + 100 * c + 4 * p + k) div 4 = 100 * q + 25 * c + p"
    and "(400 * q + 100 * c + 4 * p + k) div 100 = 4 * q + c"
    and "(400 * q + 100 * c + 4 * p + k) div 400 = q"
proof -
  show "(400 * q + 100 * c + 4 * p + k) div 4 = 100 * q + 25 * c + p"
    by (rule int_div_pos_eq [where r = k]) (use assms in auto)
  show "(400 * q + 100 * c + 4 * p + k) div 100 = 4 * q + c"
    by (rule int_div_pos_eq [where r = "4 * p + k"]) (use assms in auto)
  show "(400 * q + 100 * c + 4 * p + k) div 400 = q"
    by (rule int_div_pos_eq [where r = "100 * c + 4 * p + k"]) (use assms in auto)
qed

lemma civil_from_days_inverse:
  assumes "civil_from_days days = (y, m, d)"
  shows "days_from_civil y m d = days" and "1 \<le> m \<and> m \<le> 12" and "1 \<le> d \<and> d \<le> 31"
    and "0 \<le> days \<Longrightarrow> days < 106752 \<Longrightarrow> 1000 \<le> y \<and> y < 10000"
proof -
  define z where "z = days + 719468"
  define q where "q = z div 146097"
  define r where "r = z mod 146097"
  define c where "c = min 3 (r div 36524)"
  define r2 where "r2 = r - 36524 * c"
  define p where "p = r2 div 1461"
  define r3 where "r3 = r2 mod 1461"
  define k where "k = min 3 (r3 div 365)"
  define doy where "doy = r3 - 365 * k"
  define mp where "mp = (5 * doy + 2) div 153"
  define y' where "y' = 400 * q + 100 * c + 4 * p + k"
  note parts = civil_parts [OF q_def r_def c_def r2_def p_def r3_def k_def doy_def]
  note divs = year_divs [OF parts(1-3), of q, folded y'_def]
  have month: "0 \<le> mp" "mp \<le> 11" "(153 * mp + 2) div 5 \<le> doy" "doy \<le> (153 * mp + 2) div 5 + 30"
    using month_of_day [of doy] parts(4) by (auto simp: Let_def mp_def)
  have ymd: "m = (if mp < 10 then mp + 3 else mp - 9)" "y = (if m \<le> 2 then y' + 1 else y')"
    "d = doy - (153 * mp + 2) div 5 + 1"
    using assms unfolding civil_from_days_def Let_def z_def [symmetric] q_def [symmetric] r_def [symmetric]
      c_def [symmetric] r2_def [symmetric] p_def [symmetric] r3_def [symmetric] k_def [symmetric] doy_def [symmetric]
      mp_def [symmetric] y'_def [symmetric] by auto
  show m: "1 \<le> m \<and> m \<le> 12" using ymd(1) month(1,2) by auto
  show "1 \<le> d \<and> d \<le> 31" using ymd(3) month(3,4) by linarith
  have "(m + 9) mod 12 = mp" using ymd(1) month(1,2) by (auto simp: mod_add_right_eq)
  moreover have "(if m \<le> 2 then y - 1 else y) = y'" using ymd(2) by simp
  ultimately show "days_from_civil y m d = days"
    using divs parts(5) ymd(3) by (simp add: days_from_civil_def Let_def z_def y'_def)
  assume "0 \<le> days" "days < 106752"
  then have "q = 4 \<or> q = 5" using div_between [of 146097 z] unfolding q_def z_def by linarith
  then show "1000 \<le> y \<and> y < 10000" using parts(1-3) ymd(2) unfolding y'_def by auto
qed

text \<open>The calendar is the Gregorian one: every day follows the day before in its month, the months have
  their lengths, and the years follow each other.\<close>

definition leap_year :: "int \<Rightarrow> bool" where
  "leap_year y \<longleftrightarrow> y mod 4 = 0 \<and> (y mod 100 \<noteq> 0 \<or> y mod 400 = 0)"

definition days_in_month :: "int \<Rightarrow> int \<Rightarrow> int" where
  "days_in_month y m = (if m = 2 then (if leap_year y then 29 else 28) else if m \<in> {4, 6, 9, 11} then 30 else 31)"

lemma div_step: "0 < n \<Longrightarrow> y div n = (y - 1) div n + (if n dvd y then 1 else 0)" for y n :: int
proof (cases "n dvd y")
  case True
  assume "0 < n"
  from True obtain q where "y = n * q" by blast
  moreover have "(n * q - 1) div n = q - 1"
    by (rule int_div_pos_eq [where r = "n - 1"]) (use \<open>0 < n\<close> in \<open>auto simp: algebra_simps\<close>)
  ultimately show ?thesis using \<open>0 < n\<close> by simp
next
  case False
  assume n: "0 < n"
  with False have "y mod n \<noteq> 0" "0 \<le> y mod n" by (simp_all add: dvd_eq_mod_eq_0)
  then have "1 \<le> y mod n" by linarith
  then have "(y - 1) div n = y div n"
    by (intro int_div_pos_eq [where r = "y mod n - 1"]) (use n pos_mod_bound [of n y] mult_div_mod_eq [of n y] in linarith)+
  with False show ?thesis by simp
qed

lemma leap_days:
  "\<lbrakk>a = a' + (if P then 1 else 0); b = b' + (if Q then 1 else 0); c = c' + (if R then 1 else 0); R \<longrightarrow> Q; Q \<longrightarrow> P\<rbrakk> \<Longrightarrow>
   365 * y + a - b + c = 365 * (y - 1) + a' - b' + c' + 337 + (if P \<and> (\<not> Q \<or> R) then 29 else 28)" for a b c y :: int
  by (cases P; cases Q; cases R) simp_all

lemma gregorian_steps:
  shows "days_from_civil 1970 1 1 = 0" and "days_from_civil y m (d + 1) = days_from_civil y m d + 1"
    and "1 \<le> m \<Longrightarrow> m \<le> 11 \<Longrightarrow> days_from_civil y (m + 1) 1 = days_from_civil y m 1 + days_in_month y m"
    and "days_from_civil (y + 1) 1 1 = days_from_civil y 12 1 + 31"
proof -
  show "days_from_civil 1970 1 1 = 0" "days_from_civil y m (d + 1) = days_from_civil y m d + 1"
    by (simp_all add: days_from_civil_def Let_def)
  show "days_from_civil (y + 1) 1 1 = days_from_civil y 12 1 + 31" by (simp add: days_from_civil_def Let_def)
  assume "1 \<le> m" "m \<le> 11"
  then have "m \<in> {1, 2, 3, 4, 5, 6, 7, 8, 9, 10, 11}" 
    by (simp only: insert_iff empty_iff) presburger
  then consider "m = 2" | "m \<in> {1, 3, 4, 5, 6, 7, 8, 9, 10, 11}" by blast
  then show "days_from_civil y (m + 1) 1 = days_from_civil y m 1 + days_in_month y m"
  proof cases
    case 1
    have leap: "leap_year y \<longleftrightarrow> 4 dvd y \<and> (\<not> 100 dvd y \<or> 400 dvd y)" by (simp add: leap_year_def dvd_eq_mod_eq_0)
    have "400 dvd y \<longrightarrow> 100 dvd y" "100 dvd y \<longrightarrow> 4 dvd y"
      using dvd_trans [of 100 400 y] dvd_trans [of 4 100 y] by simp_all
    from leap_days [OF div_step [of 4 y] div_step [of 100 y] div_step [of 400 y] this] show ?thesis
      by (simp only: days_from_civil_def days_in_month_def leap Let_def 1) simp
  qed (auto simp: days_from_civil_def Let_def days_in_month_def)
qed

lemma clock_parts: "a * 60 + b = s \<Longrightarrow> h * 60 + c = a \<Longrightarrow> h * 3600 + c * 60 + b = s" for s a b h c :: int
  by auto

theorem timegm_gmtime: "timegm (gmtime t) = t"
proof -
  obtain y m d where ymd: "civil_from_days (t div 86400) = (y, m, d)" by (cases "civil_from_days (t div 86400)")
  have "(t mod 86400) div 3600 * 3600 + (t mod 86400) div 60 mod 60 * 60 + (t mod 86400) mod 60 = t mod 86400"
  proof -
    have "t mod 86400 div 60 div 60 = t mod 86400 div 3600" by (simp add: zdiv_zmult2_eq [symmetric])
    from clock_parts [OF div_mult_mod_eq div_mult_mod_eq [of "t mod 86400 div 60" 60, unfolded this]] show ?thesis .
  qed
  then show ?thesis
    by (simp only: timegm_def gmtime_def Let_def ymd prod.case tm.simps diff_add_cancel civil_from_days_inverse(1) [OF ymd]
        add.assoc div_mult_mod_eq)
qed

section \<open>A printed date is read back\<close>

lemma decimal_char [simp]: "k < 10 \<Longrightarrow> isdigit (char_of (48 + k))" "k < 10 \<Longrightarrow> of_char (char_of (48 + k)) = (48 + k :: nat)"
  "k < 10 \<Longrightarrow> \<not> isspace (char_of (48 + k))" for k :: nat
proof -
  have all: "\<forall>k < 10. isdigit (char_of (48 + k)) \<and> of_char (char_of (48 + k)) = (48 + k :: nat) \<and> \<not> isspace (char_of (48 + k :: nat))"
    by code_simp
  show "k < 10 \<Longrightarrow> isdigit (char_of (48 + k))" "k < 10 \<Longrightarrow> of_char (char_of (48 + k)) = (48 + k :: nat)"
    "k < 10 \<Longrightarrow> \<not> isspace (char_of (48 + k))" using all by blast+
qed

lemma take_number_digit:
  "k < 10 \<Longrightarrow> v * 10 \<le> hi \<Longrightarrow> take_number hi (Suc n) v (char_of (48 + k) # s) = take_number hi n (v * 10 + k) s"
  by (simp only: take_number.simps decimal_char add_diff_cancel_left' simp_thms if_True)

lemma read_two_digits:
  assumes "0 \<le> n" and "lo \<le> nat n" and "nat n \<le> hi" and "hi < 100"
  shows "get_number lo hi 2 (two_digits n @ s) = Some (n, s)"
proof -
  define k where "k = nat n"
  have k: "k div 10 < 10" "k mod 10 < 10" "k div 10 * 10 + k mod 10 = k" "k div 10 * 10 \<le> hi"
    using assms(3,4) by (auto simp: k_def less_mult_imp_div_less intro: order_trans [OF _ assms(3)])
  have "take_number hi 2 0 (two_digits n @ s) = (k, s)"
    using k by (simp add: two_digits_def k_def [symmetric] numeral_2_eq_2)
  with k assms show ?thesis by (simp add: get_number_def two_digits_def k_def [symmetric] Let_def) (simp add: k_def)
qed

lemma show_nat_4:
  assumes "1000 \<le> y" and "y < 10000"
  shows "show_nat y = [char_of (48 + y div 1000), char_of (48 + y div 100 mod 10), char_of (48 + y div 10 mod 10), char_of (48 + y mod 10)]"
proof -
  have "y div 10 div 10 div 10 = y div 1000" "y div 10 div 10 = y div 100" by (simp_all add: div_mult2_eq [symmetric])
  moreover have "\<not> y < 10" "\<not> y div 10 < 10" "\<not> y div 100 < 10" "y div 1000 < 10"
    using assms by (auto simp: div_less_iff_less_mult not_less less_eq_div_iff_mult_less_eq)
  ultimately show ?thesis by (simp add: show_nat.simps [of y] show_nat.simps [of "y div 10"] show_nat.simps [of "y div 100"] show_nat.simps [of "y div 1000"])
qed

lemma read_year:
  assumes "1000 \<le> y" and "y < 10000"
  shows "get_number 0 9999 4 (to_string y @ s) = Some (y, s)"
proof -
  define k where "k = nat y"
  have k: "1000 \<le> k" "k < 10000" "int k = y" using assms by (simp_all add: k_def)
  note digits = show_nat_4 [OF k(1,2)]
  have d: "k div 1000 < 10" "k div 1000 * 10 + k div 100 mod 10 = k div 100" "k div 100 * 10 + k div 10 mod 10 = k div 10"
    "k div 10 * 10 + k mod 10 = k"
    using k(2) div_mult_mod_eq [of "k div 100" 10] div_mult_mod_eq [of "k div 10" 10]
    by (simp_all add: div_less_iff_less_mult div_mult2_eq [symmetric])
  have small: "k div 1000 * 10 \<le> 9999" "k div 100 * 10 \<le> 9999" "k div 10 * 10 \<le> 9999"
    using k(2) by simp_all
  have four: "4 = Suc (Suc (Suc (Suc 0)))" by simp
  have "take_number 9999 4 0 (show_nat k @ s) = (k, s)"
    unfolding digits four
    by (simp only: append_Cons append_Nil take_number_digit d small mult_0 add_0 mod_less_divisor zero_less_numeral
        zero_le take_number.simps(1))
  moreover have "dropWhile isspace (show_nat k @ s) = show_nat k @ s" "isdigit (hd (show_nat k @ s))" "show_nat k @ s \<noteq> []"
    unfolding digits append_Cons dropWhile.simps list.sel using d(1) by (simp_all only: decimal_char) simp_all
  moreover have "to_string y = show_nat k" using assms by (simp add: to_string_def k_def)
  ultimately show ?thesis using k by (simp add: get_number_def Let_def)
qed

lemma read_names:
  shows "i < 7 \<Longrightarrow> get_name 0 (zip wday_full_names wday_names) (wday_names ! i @ CHR '','' # s) = Some (int i, CHR '','' # s)"
    and "i < 12 \<Longrightarrow> get_name 0 (zip month_full_names month_names) (month_names ! i @ CHR '' '' # s) = Some (int i, CHR '' '' # s)"
proof -
  note eval = wday_full_names_def wday_names_def month_full_names_def month_names_def starts_with_nocase_def tolower_def less_eq_char_def
  show "i < 7 \<Longrightarrow> get_name 0 (zip wday_full_names wday_names) (wday_names ! i @ CHR '','' # s) = Some (int i, CHR '','' # s)"
    by (simp add: numeral_eq_Suc less_Suc_eq) (elim disjE; simp add: eval)
  show "i < 12 \<Longrightarrow> get_name 0 (zip month_full_names month_names) (month_names ! i @ CHR '' '' # s) = Some (int i, CHR '' '' # s)"
    by (simp add: numeral_eq_Suc less_Suc_eq) (elim disjE; simp add: eval)
qed

definition tm_ok :: "tm \<Rightarrow> bool" where
  "tm_ok t \<longleftrightarrow> 0 \<le> tm_sec t \<and> tm_sec t < 60 \<and> 0 \<le> tm_min t \<and> tm_min t < 60 \<and> 0 \<le> tm_hour t \<and> tm_hour t < 24 \<and>
     1 \<le> tm_mday t \<and> tm_mday t \<le> 31 \<and> 0 \<le> tm_mon t \<and> tm_mon t < 12 \<and> 0 \<le> tm_wday t \<and> tm_wday t < 7 \<and>
     1000 \<le> tm_year t + 1900 \<and> tm_year t + 1900 < 10000"

lemma gmtime_ok:
  assumes "0 \<le> t" and "t < 106752 * 86400"
  shows "tm_ok (gmtime t)"
proof -
  obtain y m d where ymd: "civil_from_days (t div 86400) = (y, m, d)" by (cases "civil_from_days (t div 86400)")
  have days: "0 \<le> t div 86400" "t div 86400 < 106752" using assms div_between [of 86400 t] by linarith+
  have s: "0 \<le> t mod 86400" "t mod 86400 < 86400" by simp_all
  then have "0 \<le> t mod 86400 div 3600" "t mod 86400 div 3600 < 24" using div_between [of 3600 "t mod 86400"] by linarith+
  then show ?thesis
    using civil_from_days_inverse(2-4) [OF ymd] days
    by (simp only: tm_ok_def gmtime_def Let_def ymd prod.case tm.simps) (simp add: pos_mod_bound)
qed

lemma wrap64_id: "- (2 ^ 63) \<le> i \<Longrightarrow> i < 2 ^ 63 \<Longrightarrow> wrap64 i = i"
  unfolding wrap64_def sint_sbintrunc' by (rule signed_take_bit_int_eq_self) simp_all

lemma put_time_plain:
  assumes "tm_ok t"
  shows "CHR '';'' \<notin> set (put_time t)" and "dropWhile isspace (put_time t) = put_time t"
proof -
  have digit: "char_of (48 + k) \<noteq> CHR '';''" if "k < 10" for k :: nat
  proof
    assume "char_of (48 + k) = CHR '';''"
    with decimal_char(1) [OF that] have "isdigit CHR '';''" by simp
    then show False by (simp add: isdigit_def less_eq_char_def)
  qed
  have two: "CHR '';'' \<notin> set (two_digits n)" if "0 \<le> n" "n < 100" for n
  proof -
    have "nat n div 10 < 10" using that by (simp add: div_less_iff_less_mult)
    then show ?thesis using digit [of "nat n div 10"] digit [of "nat n mod 10"] unfolding two_digits_def by auto
  qed
  have names: "CHR '';'' \<notin> set (wday_names ! i)" if "i < 7" for i
    using that by (simp add: numeral_eq_Suc less_Suc_eq) (elim disjE; simp add: wday_names_def)
  have months: "CHR '';'' \<notin> set (month_names ! i)" if "i < 12" for i
    using that by (simp add: numeral_eq_Suc less_Suc_eq) (elim disjE; simp add: month_names_def)
  have "CHR '';'' \<notin> set (to_string n)" if "0 \<le> n" for n
    using set_show_nat [of "nat n"] that by (auto simp: to_string_def)
  then show "CHR '';'' \<notin> set (put_time t)"
    using assms two names [of "nat (tm_wday t)"] months [of "nat (tm_mon t)"]
    by (auto simp: tm_ok_def put_time_def nat_less_iff)
  have "nat (tm_wday t) < 7" using assms by (auto simp: tm_ok_def)
  then show "dropWhile isspace (put_time t) = put_time t"
    unfolding put_time_def by (simp add: numeral_eq_Suc less_Suc_eq) (elim disjE; simp add: wday_names_def isspace_def)
qed

lemma skip_no_space: "dropWhile isspace (two_digits n @ s) = two_digits n @ s" if "0 \<le> n" "n < 100"
proof -
  have "nat n div 10 < 10" using that by (simp add: div_less_iff_less_mult)
  then show ?thesis unfolding two_digits_def append_Cons dropWhile.simps by (simp only: decimal_char) simp
qed

lemma skip_no_space_month: "i < 12 \<Longrightarrow> dropWhile isspace (month_names ! i @ s) = month_names ! i @ s"
  by (simp add: numeral_eq_Suc less_Suc_eq) (elim disjE; simp add: month_names_def isspace_def)

lemma skip_no_space_year:
  assumes "1000 \<le> y" and "y < 10000"
  shows "dropWhile isspace (to_string y @ s) = to_string y @ s"
proof -
  have y: "1000 \<le> nat y" "nat y < 10000" "to_string y = show_nat (nat y)" using assms by (simp_all add: to_string_def)
  then have "nat y div 1000 < 10" by (simp add: div_less_iff_less_mult)
  then show ?thesis unfolding y(3) show_nat_4 [OF y(1,2)] append_Cons dropWhile.simps by (simp only: decimal_char) simp
qed

lemma read_put_time:
  assumes "tm_ok t"
  shows "strptime expires_format (put_time t, zero_tm) = Some ('' GMT'', t)"
proof -
  have names: "nat (tm_wday t) < 7" "int (nat (tm_wday t)) = tm_wday t" "nat (tm_mon t) < 12" "int (nat (tm_mon t)) = tm_mon t"
    using assms by (auto simp: tm_ok_def)
  have numbers: "get_number 1 31 2 (two_digits (tm_mday t) @ s) = Some (tm_mday t, s)"
    "get_number 0 23 2 (two_digits (tm_hour t) @ s) = Some (tm_hour t, s)"
    "get_number 0 59 2 (two_digits (tm_min t) @ s) = Some (tm_min t, s)"
    "get_number 0 61 2 (two_digits (tm_sec t) @ s) = Some (tm_sec t, s)" for s
    using assms by (auto simp: tm_ok_def intro!: read_two_digits)
  show ?thesis
    using assms names
    by (simp del: One_nat_def add: tm_ok_def put_time_def expires_format_def read_names read_number_def numbers read_year
        skip_no_space skip_no_space_month skip_no_space_year isspace_space zero_tm_def)
qed

text \<open>C21: The date of an HTTP header is read back. A cookie that gets the HTTP form of a time between 1970 and 2262 as
  its expiry date expires at that time, to the second; and the calendar functions behind it are
  inverse for every time.\<close>

theorem http_date_roundtrip:
  assumes "0 \<le> t" and "t < 9223372036000" and "m_expires c = None"
  shows "snd (cookie_expires (cookie_add ''Expires'' (http_format t) c)) = Some (t div 1000 * 10 ^ 9) \<and> timegm (gmtime s) = s"
proof (rule conjI)
  have wrap: "wrap64 (t * 10 ^ 6) = t * 10 ^ 6" "wrap64 (t div 1000 * 10 ^ 9) = t div 1000 * 10 ^ 9"
    using assms(1,2) div_between [of 1000 t] by (auto intro!: wrap64_id)
  have secs: "trunc_div (t * 10 ^ 6) (10 ^ 9) = t div 1000"
    using assms(1) div_mult_mult1 [of "10 ^ 6" t 1000] by (simp add: trunc_div_def mult.commute)
  have ok: "tm_ok (gmtime (t div 1000))"
    using assms(1,2) div_between [of 1000 t] by (intro gmtime_ok) linarith+
  note read = read_put_time [OF ok]
  show "timegm (gmtime s) = s" by (rule timegm_gmtime)
  show "snd (cookie_expires (cookie_add ''Expires'' (http_format t) c)) = Some (t div 1000 * 10 ^ 9)"
  proof -
    have format: "http_format t = put_time (gmtime (t div 1000))" by (simp only: http_format_def wrap(1) secs)
    note plain = put_time_plain [OF ok]
    moreover have "cookie_name ''Expires''" by (simp add: cookie_name_def isspace_def)
    ultimately have "cookie_field (cookie_add ''Expires'' (http_format t) c) ''Expires'' = put_time (gmtime (t div 1000))"
      using cookie_field_add [of "''Expires''" "http_format t" "''Expires''" c] by (simp add: format)
    moreover have "m_expires (cookie_add ''Expires'' (http_format t) c) = None" using assms(3) by (simp add: cookie_add_def Let_def)
    ultimately show ?thesis
      using plain(2) read wrap(2)
      by (simp add: cookie_expires_def Let_def timegm_gmtime)
  qed
qed

theorem http_date_roundtrip_witness:
  "snd (cookie_expires (cookie_add ''Expires'' (http_format 1445412480000) (Cookie []))) = Some 1445412480000000000"
  using http_date_roundtrip [of 1445412480000 "Cookie []"] by (simp add: Cookie_def)

text \<open>The date of a photograph, as cameras write it, is read exactly.\<close>

definition exif_text :: "tm \<Rightarrow> string" where
  "exif_text t = to_string (tm_year t + 1900) @ '':'' @ two_digits (tm_mon t + 1) @ '':'' @ two_digits (tm_mday t) @ '' '' @
     two_digits (tm_hour t) @ '':'' @ two_digits (tm_min t) @ '':'' @ two_digits (tm_sec t)"

theorem exif_date_read:
  assumes "0 \<le> s" and "s < 9223372036"
  shows "exif_date_time (Some (exif_text (gmtime s))) = Some (s * 10 ^ 9)"
proof -
  define t where "t = gmtime s"
  have ok: "tm_ok t" unfolding t_def using assms by (intro gmtime_ok) simp_all
  have numbers: "get_number 1 31 2 (two_digits (tm_mday t) @ u) = Some (tm_mday t, u)"
    "get_number 1 12 2 (two_digits (tm_mon t + 1) @ u) = Some (tm_mon t + 1, u)"
    "get_number 0 23 2 (two_digits (tm_hour t) @ u) = Some (tm_hour t, u)"
    "get_number 0 59 2 (two_digits (tm_min t) @ u) = Some (tm_min t, u)"
    "get_number 0 61 2 (two_digits (tm_sec t) @ u) = Some (tm_sec t, u)" for u
    using ok by (auto simp: tm_ok_def intro!: read_two_digits)
  have "strptime exif_format (exif_text t, zero_tm) = Some ([], t\<lparr>tm_wday := 0\<rparr>)"
    using ok numbers(5) [of "[]"]
    by (simp del: One_nat_def add: tm_ok_def exif_text_def exif_format_def read_number_def numbers read_year skip_no_space zero_tm_def)
  moreover have "timegm (t\<lparr>tm_wday := 0\<rparr>) = s" using timegm_gmtime [of s] by (simp add: timegm_def t_def)
  ultimately show ?thesis
    using assms by (simp add: exif_date_time_def t_def wrap64_id)
qed

end
