(* ===== verification/Image_Crop.thy ===== *)
theory Image_Crop
  imports HRB_Prelude
begin

text \<open>
  \<^verbatim>\<open>src/server/image/ImageContent.cc\<close>: the square part of an image that a thumbnail shows. A window as
  wide as the shorter side moves along the longer one; every face or feature enters and leaves the
  window at one position each, and the window is placed where the score is highest. The detection of
  faces and features is OpenCV code: its result is the state. The sizes are those of images, whose
  products fit into an \<^verbatim>\<open>int\<close>. The order that \<^verbatim>\<open>std::sort\<close> gives to points at the same position is
  not specified: the sorting function is a parameter.
\<close>

section \<open>Definitions\<close>

record rect =
  r_x :: int
  r_y :: int
  r_width :: int
  r_height :: int

record image_content =
  ic_cols :: int
  ic_rows :: int
  ic_faces :: "rect list"
  ic_eyes :: "rect list"
  ic_features :: "rect list"

text \<open>The constructor: \<^term>\<open>detected\<close> are the faces that the model finds, each with the eyes in it, relative
  to the face, and \<^term>\<open>points\<close> the features.\<close>

definition add_face :: "rect \<times> rect list \<Rightarrow> image_content \<Rightarrow> image_content" where
  "add_face = (\<lambda>(face, eyes) img.
     let img1 = img\<lparr>ic_eyes := ic_eyes img @ map (\<lambda>eye. \<lparr>r_x = r_x eye + r_x face, r_y = r_y eye + r_y face,
           r_width = r_width eye, r_height = r_height eye\<rparr>) eyes\<rparr>
     in if eyes = [] then img1\<lparr>ic_features := ic_features img @ [face]\<rparr> else img1\<lparr>ic_faces := ic_faces img @ [face]\<rparr>)"

definition ImageContent_of :: "int \<Rightarrow> int \<Rightarrow> (rect \<times> rect list) list \<Rightarrow> (int \<times> int) list \<Rightarrow> image_content" where
  "ImageContent_of cols rows detected points =
     (let img = fold add_face detected \<lparr>ic_cols = cols, ic_rows = rows, ic_faces = [], ic_eyes = [], ic_features = []\<rparr>
      in img\<lparr>ic_features := ic_features img @ map (\<lambda>(x, y). \<lparr>r_x = x, r_y = y, r_width = 0, r_height = 0\<rparr>) points\<rparr>)"

record InflectionPoint =
  ip_pos :: int
  ip_score :: int
  ip_total :: int

definition add_content :: "image_content \<Rightarrow> int \<Rightarrow> rect \<Rightarrow> InflectionPoint list \<Rightarrow> InflectionPoint list" where
  "add_content img score_ratio content infections =
     (let window_size = min (ic_cols img) (ic_rows img);
          score = max (score_ratio * r_width content * r_height content) 1;
          wide = ic_cols img > ic_rows img
      in infections @
         [\<lparr>ip_pos = (if wide then r_x content + r_width content else r_y content + r_height content) - window_size,
           ip_score = score, ip_total = 0\<rparr>,
          \<lparr>ip_pos = (if wide then r_x content else r_y content), ip_score = - score, ip_total = 0\<rparr>])"

fun running_total :: "int \<Rightarrow> InflectionPoint list \<Rightarrow> InflectionPoint list" where
  "running_total score [] = []"
| "running_total score (pt # pts) = pt\<lparr>ip_total := score + ip_score pt\<rparr> # running_total (score + ip_score pt) pts"

text \<open>The points outside the image become one point at 0.\<close>

definition aggregate_outside :: "InflectionPoint list \<Rightarrow> InflectionPoint list" where
  "aggregate_outside pts =
     (let start = length (takeWhile (\<lambda>p. ip_pos p < 0) pts)
      in if start \<noteq> 0 \<and> start \<noteq> length pts then (pts ! (start - 1))\<lparr>ip_pos := 0\<rparr> # drop start pts
         else drop start pts)"

text \<open>\<^verbatim>\<open>std::max_element\<close>: the first of the greatest elements.\<close>

fun max_from :: "InflectionPoint \<Rightarrow> InflectionPoint list \<Rightarrow> InflectionPoint" where
  "max_from best [] = best"
| "max_from best (p # ps) = max_from (if ip_total best < ip_total p then p else best) ps"

fun max_element :: "InflectionPoint list \<Rightarrow> InflectionPoint option" where
  "max_element [] = None"
| "max_element (p # ps) = Some (max_from p ps)"

definition inflection_points :: "image_content \<Rightarrow> InflectionPoint list" where
  "inflection_points img = fold (add_content img 0) (ic_features img) (fold (add_content img 1) (ic_faces img) [])"

definition square_crop :: "(InflectionPoint list \<Rightarrow> InflectionPoint list) \<Rightarrow> image_content \<Rightarrow> rect" where
  "square_crop sorting img =
     (let window_length = min (ic_cols img) (ic_rows img);
          infections = aggregate_outside (running_total 0 (sorting (inflection_points img)));
          roi = \<lparr>r_x = 0, r_y = 0, r_width = window_length, r_height = window_length\<rparr>
      in case max_element infections of
           Some optimal \<Rightarrow>
             if ic_cols img > ic_rows img then roi\<lparr>r_x := ip_pos optimal\<rparr> else roi\<lparr>r_y := ip_pos optimal\<rparr>
         | None \<Rightarrow>
             if ic_cols img > ic_rows img then roi\<lparr>r_x := ic_cols img div 2 - window_length div 2\<rparr>
             else roi\<lparr>r_y := ic_rows img div 2 - window_length div 2\<rparr>)"

section \<open>Facts\<close>

lemma max_from_first:
  "\<exists>k < Suc (length ps). (b # ps) ! k = max_from b ps \<and> (\<forall>j < k. ip_total ((b # ps) ! j) < ip_total (max_from b ps)) \<and>
    ip_total b \<le> ip_total (max_from b ps)"
proof (induction ps arbitrary: b)
  case (Cons p ps)
  show ?case
  proof (cases "ip_total b < ip_total p")
    case True
    obtain k where k: "k < Suc (length ps)" "(p # ps) ! k = max_from p ps"
      "\<forall>j < k. ip_total ((p # ps) ! j) < ip_total (max_from p ps)" "ip_total p \<le> ip_total (max_from p ps)"
      using Cons.IH [of p] by blast
    then have "\<forall>j < Suc k. ip_total ((b # p # ps) ! j) < ip_total (max_from p ps)"
      using True by (auto simp: nth_Cons split: nat.splits)
    then show ?thesis using k True by (intro exI [of _ "Suc k"]) auto
  next
    case False
    obtain k where k: "k < Suc (length ps)" "(b # ps) ! k = max_from b ps"
      "\<forall>j < k. ip_total ((b # ps) ! j) < ip_total (max_from b ps)" "ip_total b \<le> ip_total (max_from b ps)"
      using Cons.IH [of b] by blast
    show ?thesis
    proof (cases k)
      case 0
      then show ?thesis using k False by (intro exI [of _ 0]) auto
    next
      case (Suc k')
      then have "\<forall>j < Suc (Suc k'). ip_total ((b # p # ps) ! j) < ip_total (max_from b ps)"
        using k False by (auto simp: nth_Cons split: nat.splits)
      then show ?thesis using k False Suc by (intro exI [of _ "Suc (Suc k')"]) auto
    qed
  qed
qed simp

lemma max_element_first:
  assumes "max_element ps = Some m"
  obtains k where "k < length ps" "ps ! k = m" "\<And>j. j < k \<Longrightarrow> ip_total (ps ! j) < ip_total m"
  using assms max_from_first [of "tl ps" "hd ps"] by (cases ps) auto

lemma length_running_total [simp]: "length (running_total s ps) = length ps"
  by (induction ps arbitrary: s) auto

lemma running_total_nth:
  "k < length ps \<Longrightarrow> ip_pos (running_total s ps ! k) = ip_pos (ps ! k) \<and> ip_score (running_total s ps ! k) = ip_score (ps ! k)"
  by (induction ps arbitrary: s k) (auto simp: nth_Cons split: nat.splits)

lemma running_total_step:
  "Suc k < length ps \<Longrightarrow> ip_total (running_total s ps ! Suc k) = ip_total (running_total s ps ! k) + ip_score (ps ! Suc k)"
proof (induction ps arbitrary: s k)
  case (Cons p ps)
  then show ?case by (cases k; cases ps) auto
qed simp

text \<open>Every point either raises the score and lies where the window fits, or lowers it, inside the image and
  not before a point that raises it.\<close>

definition well_placed :: "int \<Rightarrow> InflectionPoint list \<Rightarrow> bool" where
  "well_placed room pts \<longleftrightarrow> (\<forall>p \<in> set pts. (0 < ip_score p \<and> ip_pos p \<le> room) \<or>
     (ip_score p < 0 \<and> 0 \<le> ip_pos p \<and> (\<exists>q \<in> set pts. 0 < ip_score q \<and> ip_pos q \<le> room \<and> ip_pos q \<le> ip_pos p)))"

definition inside :: "image_content \<Rightarrow> rect \<Rightarrow> bool" where
  "inside img r \<longleftrightarrow> 0 \<le> r_x r \<and> 0 \<le> r_y r \<and> 0 \<le> r_width r \<and> 0 \<le> r_height r \<and>
     r_x r + r_width r \<le> ic_cols img \<and> r_y r + r_height r \<le> ic_rows img"

text \<open>A rectangle that is not longer than the window, along the side on which the window moves.\<close>

definition fits_window :: "image_content \<Rightarrow> rect \<Rightarrow> bool" where
  "fits_window img r \<longleftrightarrow> (if ic_cols img > ic_rows img then r_width r \<le> ic_rows img else r_height r \<le> ic_cols img)"

definition room :: "image_content \<Rightarrow> int" where
  "room img = max (ic_cols img) (ic_rows img) - min (ic_cols img) (ic_rows img)"

lemma well_placed_add:
  assumes "well_placed (room img) pts" "inside img r" "fits_window img r"
  shows "well_placed (room img) (add_content img k r pts)"
  using assms unfolding well_placed_def add_content_def Let_def inside_def fits_window_def room_def by (auto split: if_splits)

lemma well_placed_fold:
  "\<forall>r \<in> set rs. inside img r \<and> fits_window img r \<Longrightarrow> well_placed (room img) pts \<Longrightarrow> well_placed (room img) (fold (add_content img k) rs pts)"
  by (induction rs arbitrary: pts) (auto intro: well_placed_add)

lemma well_placed_points:
  assumes "\<forall>r \<in> set (ic_faces img) \<union> set (ic_features img). inside img r \<and> fits_window img r"
  shows "well_placed (room img) (inflection_points img)"
  unfolding inflection_points_def using assms by (intro well_placed_fold) (auto simp: well_placed_def)

lemma takeWhile_split:
  assumes "\<forall>i < length xs. \<forall>j < i. f (xs ! j) \<le> (f (xs ! i) :: int)"
  shows "\<And>i. i < length (takeWhile (\<lambda>x. f x < 0) xs) \<Longrightarrow> f (xs ! i) < 0"
    and "\<And>i. length (takeWhile (\<lambda>x. f x < 0) xs) \<le> i \<Longrightarrow> i < length xs \<Longrightarrow> 0 \<le> f (xs ! i)"
proof -
  let ?n = "length (takeWhile (\<lambda>x. f x < 0) xs)"
  show "f (xs ! i) < 0" if "i < ?n" for i
    using that by (metis nth_mem set_takeWhileD takeWhile_nth)
  show "0 \<le> f (xs ! i)" if "?n \<le> i" "i < length xs" for i
  proof -
    have "\<not> f (xs ! ?n) < 0" using that nth_length_takeWhile [of "\<lambda>x. f x < 0" xs] by simp
    moreover have "f (xs ! ?n) \<le> f (xs ! i)" using assms that by (cases "?n = i") auto
    ultimately show ?thesis by simp
  qed
qed

text \<open>The chosen position is in the image, with room for the window.\<close>

lemma optimal_fits:
  assumes sorted: "sorted_wrt (\<lambda>p q. ip_pos p \<le> ip_pos q) pts" and placed: "well_placed rm pts" and "0 \<le> rm"
    and max: "max_element (aggregate_outside (running_total 0 pts)) = Some m"
  shows "0 \<le> ip_pos m \<and> ip_pos m \<le> rm"
proof -
  let ?t = "running_total 0 pts"
  define n where "n = length (takeWhile (\<lambda>p. ip_pos p < 0) ?t)"
  have pos: "ip_pos (?t ! k) = ip_pos (pts ! k)" if "k < length pts" for k using running_total_nth that by simp
  have mono: "\<forall>i < length ?t. \<forall>j < i. ip_pos (?t ! j) \<le> ip_pos (?t ! i)"
    using sorted_wrt_nth_less [OF sorted] pos by simp
  note split = takeWhile_split [OF mono, folded n_def]
  have raises: "ip_pos (pts ! Suc k) \<le> rm" if "Suc k < length pts" "ip_total (?t ! k) < ip_total (?t ! Suc k)" for k
    using running_total_step [OF that(1), of 0] that placed unfolding well_placed_def by fastforce
  have first: "ip_pos (pts ! 0) \<le> rm" if "pts \<noteq> []"
  proof -
    have "ip_pos (pts ! 0) \<le> ip_pos q" if "q \<in> set pts" for q
      using that sorted by (cases pts) auto
    then show ?thesis using placed that unfolding well_placed_def by (metis length_greater_0_conv nth_mem order_trans)
  qed
  obtain k where k: "k < length (aggregate_outside ?t)" "aggregate_outside ?t ! k = m"
    "\<And>j. j < k \<Longrightarrow> ip_total (aggregate_outside ?t ! j) < ip_total m"
    using max_element_first [OF max] by blast
  have n: "n \<le> length pts" unfolding n_def using length_takeWhile_le [of _ ?t] by simp
  show ?thesis
  proof (cases "n \<noteq> 0 \<and> n \<noteq> length pts")
    case True
    then have agg: "aggregate_outside ?t = (?t ! (n - 1))\<lparr>ip_pos := 0\<rparr> # drop n ?t"
      by (simp add: aggregate_outside_def Let_def n_def)
    show ?thesis
    proof (cases k)
      case 0
      then show ?thesis using k(2) agg assms(3) by auto
    next
      case (Suc k')
      then have i: "n + k' < length pts" "m = ?t ! (n + k')" using k(1,2) agg by auto
      have "ip_total (?t ! (n + k' - 1)) < ip_total m"
        using k(3) [of k'] Suc agg True i by (cases k') (auto simp: add.commute)
      then have "ip_pos (pts ! (n + k')) \<le> rm" using raises [of "n + k' - 1"] True i by (simp add: add.commute)
      then show ?thesis using split(2) [of "n + k'"] i pos by simp
    qed
  next
    case False
    then have agg: "aggregate_outside ?t = drop n ?t" by (auto simp: aggregate_outside_def Let_def n_def)
    then have "n = 0" using False k(1) by auto
    then have i: "k < length pts" "m = ?t ! k" using k(1,2) agg by auto
    have "ip_pos (pts ! k) \<le> rm"
    proof (cases k)
      case 0
      then show ?thesis using first i by auto
    next
      case (Suc k')
      then show ?thesis using k(3) [of k'] raises [of k'] i agg \<open>n = 0\<close> by simp
    qed
    then show ?thesis using split(2) [of k] i pos \<open>n = 0\<close> by simp
  qed
qed

section \<open>Properties\<close>

text \<open>C16: The crop lies in the image: whatever faces and features were found in the image, none longer than
  the window, and however points at the same position are ordered, the chosen square has the length
  of the shorter side and is inside the image.\<close>

theorem crop_inside_image:
  assumes "0 \<le> ic_cols img" "0 \<le> ic_rows img"
    and "\<forall>r \<in> set (ic_faces img) \<union> set (ic_features img). inside img r \<and> fits_window img r"
    and "set (sorting (inflection_points img)) = set (inflection_points img)"
    and "sorted_wrt (\<lambda>p q. ip_pos p \<le> ip_pos q) (sorting (inflection_points img))"
  shows "inside img (square_crop sorting img) \<and> r_width (square_crop sorting img) = min (ic_cols img) (ic_rows img) \<and>
    r_height (square_crop sorting img) = min (ic_cols img) (ic_rows img)"
proof -
  have placed: "well_placed (room img) (sorting (inflection_points img))"
    using well_placed_points [OF assms(3)] assms(4) by (simp add: well_placed_def)
  have "0 \<le> room img" by (simp add: room_def)
  note fits = optimal_fits [OF assms(5) placed this]
  show ?thesis
  proof (cases "max_element (aggregate_outside (running_total 0 (sorting (inflection_points img))))")
    case None
    then show ?thesis using assms(1,2) by (auto simp: square_crop_def Let_def inside_def)
  next
    case (Some m)
    then show ?thesis using fits [OF Some] assms(1,2) by (auto simp: square_crop_def Let_def inside_def room_def)
  qed
qed

theorem crop_inside_image_witness:
  "let img = ImageContent_of 100 60 [(\<lparr>r_x = 70, r_y = 10, r_width = 20, r_height = 20\<rparr>,
       [\<lparr>r_x = 2, r_y = 3, r_width = 4, r_height = 4\<rparr>])] [(5, 5)]
   in inside img (square_crop (sort_key ip_pos) img) \<and> r_x (square_crop (sort_key ip_pos) img) = 30"
proof -
  let ?img = "ImageContent_of 100 60 [(\<lparr>r_x = 70, r_y = 10, r_width = 20, r_height = 20\<rparr>,
    [\<lparr>r_x = 2, r_y = 3, r_width = 4, r_height = 4\<rparr>])] [(5, 5)]"
  have img: "ic_cols ?img = 100" "ic_rows ?img = 60" "ic_faces ?img = [\<lparr>r_x = 70, r_y = 10, r_width = 20, r_height = 20\<rparr>]"
    "ic_features ?img = [\<lparr>r_x = 5, r_y = 5, r_width = 0, r_height = 0\<rparr>]"
    by (simp_all add: ImageContent_of_def add_face_def Let_def)
  have "sorted_wrt (\<lambda>p q. ip_pos p \<le> ip_pos q) (sort_key ip_pos (inflection_points ?img))"
    using sorted_sort_key [of ip_pos "inflection_points ?img"] by (simp add: sorted_wrt_map)
  moreover have "r_x (square_crop (sort_key ip_pos) ?img) = 30" by code_simp
  ultimately show ?thesis using crop_inside_image [of ?img "sort_key ip_pos"]
    by (simp add: img Let_def inside_def fits_window_def)
qed

end
