(* ===== verification/Image_Processing.thy ===== *)
theory Image_Processing
  imports Image_Crop "HOL-Library.Word"
begin

text \<open>
  What the program does with OpenCV: the perceptual hash of an image (\<^verbatim>\<open>src/common/image/PHash.cc\<close>), the detection
  of faces (\<^verbatim>\<open>HAARModel\<close> and the constructor of \<^verbatim>\<open>ImageContent\<close>) and the picture of a rendition
  (\<^verbatim>\<open>BlobFile::generate_image_rendition\<close>). The functions of OpenCV are the record \<^verbatim>\<open>opencv\<close>; the locale
  \<^verbatim>\<open>opencv_laws\<close> states what is used of them. A picture that is saved never exceeds its configured size, a
  square thumbnail is square, and a bit of the hash is a comparison of one coefficient with the mean.
\<close>

section \<open>OpenCV\<close>

datatype mat_type = CV_8U | CV_8UC3 | CV_8UC4 | CV_other

record Mat =
  mat_type :: mat_type
  mat_cols :: int
  mat_rows :: int
  mat_data :: string

text \<open>\<^term>\<open>None\<close> is an exception, for the readers an image that cannot be decoded. The factor of
  \<^verbatim>\<open>cv_resize_by\<close> is the \<^verbatim>\<open>double\<close> quotient of two integers, a \<^verbatim>\<open>float\<close> is its bit pattern. \<^verbatim>\<open>cv_dct8\<close> are the 64
  coefficients in the upper left corner of the cosine transform, row by row. A classifier is the text of its file.\<close>

record opencv =
  cv_imread :: "string \<Rightarrow> Mat option"
  cv_imdecode_gray :: "string \<Rightarrow> Mat option"
  cv_resize_by :: "int \<times> int \<Rightarrow> Mat \<Rightarrow> Mat option"
  cv_resize_32 :: "Mat \<Rightarrow> Mat"
  cv_gray :: "Mat \<Rightarrow> Mat option"
  cv_gray_alpha :: "Mat \<Rightarrow> Mat option"
  cv_equalize :: "Mat \<Rightarrow> Mat"
  cv_roi :: "rect \<Rightarrow> Mat \<Rightarrow> Mat option"
  cv_load_cascade :: "string \<Rightarrow> bool"
  cv_detect :: "string \<Rightarrow> int \<times> int \<Rightarrow> Mat \<Rightarrow> rect list"
  cv_good_features :: "Mat \<Rightarrow> (int \<times> int) list"
  cv_imencode :: "string \<Rightarrow> int \<Rightarrow> Mat \<Rightarrow> string option"
  cv_dct8 :: "Mat \<Rightarrow> 32 word list"
  cv_mean :: "32 word list \<Rightarrow> 32 word"
  cv_gt :: "32 word \<Rightarrow> 32 word \<Rightarrow> bool"

section \<open>Perceptual hashes\<close>

text \<open>\<^verbatim>\<open>PHashImpl::compute\<close>. The comparisons are packed into bytes, the first of eight into the lowest bit.\<close>

definition pack_bits :: "bool list \<Rightarrow> char" where
  "pack_bits bs = Char (bs ! 0) (bs ! 1) (bs ! 2) (bs ! 3) (bs ! 4) (bs ! 5) (bs ! 6) (bs ! 7)"

fun pack_bytes :: "nat \<Rightarrow> bool list \<Rightarrow> string" where
  "pack_bytes 0 bs = []"
| "pack_bytes (Suc j) bs = pack_bits (take 8 bs) # pack_bytes j (drop 8 bs)"

definition phash_bits :: "opencv \<Rightarrow> Mat \<Rightarrow> bool list option" where
  "phash_bits cv input =
     (if mat_type input = CV_other then None
      else
        (let resized = cv_resize_32 cv input;
             gray = (case mat_type input of CV_8UC3 \<Rightarrow> cv_gray cv resized | CV_8UC4 \<Rightarrow> cv_gray_alpha cv resized | _ \<Rightarrow> Some resized)
         in map_option (\<lambda>g.
              let top_left = (cv_dct8 cv g)[0 := 0];
                  mean = cv_mean cv top_left
              in map (\<lambda>x. cv_gt cv x mean) top_left) gray))"

definition phash_compute :: "opencv \<Rightarrow> Mat \<Rightarrow> string option" where
  "phash_compute cv input = map_option (pack_bytes 8) (phash_bits cv input)"

text \<open>The constructor of \<^verbatim>\<open>PHash\<close> reads the eight bytes in little-endian order.\<close>

definition PHash_of :: "string \<Rightarrow> 64 word" where
  "PHash_of bytes = foldr (\<lambda>c w. push_bit 8 w + of_char c) bytes 0"

definition phash_mat :: "opencv \<Rightarrow> Mat \<Rightarrow> 64 word option" where
  "phash_mat cv input = map_option PHash_of (phash_compute cv input)"

text \<open>\<^verbatim>\<open>phash(BufferView)\<close>: an image that cannot be decoded has the hash 0; \<^term>\<open>None\<close> is an exception.\<close>

definition phash :: "opencv \<Rightarrow> string \<Rightarrow> 64 word option" where
  "phash cv picture = (case cv_imdecode_gray cv picture of Some m \<Rightarrow> phash_mat cv m | None \<Rightarrow> Some 0)"

text \<open>\<^verbatim>\<open>phash(void*, size_t)\<close> and \<^verbatim>\<open>phash(fs::path)\<close>; \<^term>\<open>contents\<close> is the mapped file, if it can be mapped.\<close>

definition phash_buffer :: "opencv \<Rightarrow> string \<Rightarrow> 64 word option" where
  "phash_buffer cv picture = (if 2 ^ 31 - 1 < length picture then None else phash cv picture)"

definition phash_file :: "opencv \<Rightarrow> string option \<Rightarrow> 64 word option" where
  "phash_file cv contents = (case contents of None \<Rightarrow> Some 0 | Some picture \<Rightarrow> phash cv picture)"

section \<open>Faces\<close>

record HAARModel =
  hm_face :: "string option"
  hm_eyes :: "string option"

text \<open>The constructor: a file that exists must load. The model is \<^verbatim>\<open>thread_local\<close>, so its files are taken as they are at
  the first use.\<close>

definition haar_load :: "opencv \<Rightarrow> string option \<Rightarrow> string option option" where
  "haar_load cv contents = (case contents of None \<Rightarrow> Some None | Some c \<Rightarrow> if cv_load_cascade cv c then Some (Some c) else None)"

definition HAARModel_of :: "opencv \<Rightarrow> (string \<rightharpoonup> string) \<Rightarrow> string \<Rightarrow> HAARModel option" where
  "HAARModel_of cv fs path =
     (case haar_load cv (fs (path @ ''/haarcascade_frontalface_default.xml'')) of
        None \<Rightarrow> None
      | Some face \<Rightarrow> map_option (\<lambda>eyes. \<lparr>hm_face = face, hm_eyes = eyes\<rparr>)
          (haar_load cv (fs (path @ ''/haarcascade_eye_tree_eyeglasses.xml''))))"

definition haar_complete :: "HAARModel \<Rightarrow> bool" where
  "haar_complete model \<longleftrightarrow> hm_face model \<noteq> None \<and> hm_eyes model \<noteq> None"

definition detect_faces :: "opencv \<Rightarrow> HAARModel \<Rightarrow> Mat \<Rightarrow> rect list" where
  "detect_faces cv model gray = (case hm_face model of
       None \<Rightarrow> [] | Some c \<Rightarrow> cv_detect cv c (mat_cols gray div 20, mat_rows gray div 20) gray)"

definition detect_eyes :: "opencv \<Rightarrow> HAARModel \<Rightarrow> Mat \<Rightarrow> rect list" where
  "detect_eyes cv model face = (case hm_eyes model of
       None \<Rightarrow> [] | Some c \<Rightarrow> cv_detect cv c (mat_cols face div 5, mat_rows face div 5) face)"

text \<open>The constructor of \<^verbatim>\<open>ImageContent\<close>; an exception of the model or of OpenCV is \<^term>\<open>None\<close>. The eyes of all faces
  are looked for in turn.\<close>

fun faces_with_eyes :: "opencv \<Rightarrow> HAARModel \<Rightarrow> Mat \<Rightarrow> rect list \<Rightarrow> (rect \<times> rect list) list option" where
  "faces_with_eyes cv model picture [] = Some []"
| "faces_with_eyes cv model picture (face # faces) = (case cv_roi cv face picture of
       None \<Rightarrow> None
     | Some part \<Rightarrow> map_option (Cons (face, detect_eyes cv model part)) (faces_with_eyes cv model picture faces))"

definition ImageContent :: "opencv \<Rightarrow> HAARModel option \<Rightarrow> Mat \<Rightarrow> image_content option" where
  "ImageContent cv haar picture = (case haar of None \<Rightarrow> None | Some model \<Rightarrow>
     (case cv_gray cv picture of None \<Rightarrow> None | Some g \<Rightarrow>
        (let gray = cv_equalize cv g
         in map_option (\<lambda>detected. ImageContent_of (mat_cols picture) (mat_rows picture) detected (cv_good_features cv gray))
              (faces_with_eyes cv model picture (detect_faces cv model gray)))))"

section \<open>Renditions\<close>

definition center_roi :: "Mat \<Rightarrow> rect" where
  "center_roi picture =
     (let window_length = min (mat_cols picture) (mat_rows picture)
      in if mat_cols picture > mat_rows picture
         then \<lparr>r_x = mat_cols picture div 2 - window_length div 2, r_y = 0, r_width = window_length, r_height = window_length\<rparr>
         else \<lparr>r_x = 0, r_y = mat_rows picture div 2 - window_length div 2, r_width = window_length, r_height = window_length\<rparr>)"

text \<open>\<^verbatim>\<open>square_crop\<close> of \<^verbatim>\<open>BlobFile.cc\<close>: every exception is caught, and the middle is taken.\<close>

definition crop_to_square ::
  "opencv \<Rightarrow> (InflectionPoint list \<Rightarrow> InflectionPoint list) \<Rightarrow> HAARModel option \<Rightarrow> Mat \<Rightarrow> Mat option" where
  "crop_to_square cv sorting haar picture =
     (case (case ImageContent cv haar picture of None \<Rightarrow> None | Some content \<Rightarrow> cv_roi cv (square_crop sorting content) picture) of
        Some part \<Rightarrow> Some part
      | None \<Rightarrow> cv_roi cv (center_roi picture) picture)"

text \<open>The smaller of \<^verbatim>\<open>width / cols\<close> and \<^verbatim>\<open>height / rows\<close>, as \<^verbatim>\<open>std::min\<close> chooses it.\<close>

definition scale_ratio :: "int \<Rightarrow> int \<Rightarrow> Mat \<Rightarrow> int \<times> int" where
  "scale_ratio width height jpeg =
     (if height * mat_cols jpeg < width * mat_rows jpeg then (height, mat_rows jpeg) else (width, mat_cols jpeg))"

definition scaled_image ::
  "opencv \<Rightarrow> (InflectionPoint list \<Rightarrow> InflectionPoint list) \<Rightarrow> HAARModel option \<Rightarrow> int \<Rightarrow> int \<Rightarrow> bool \<Rightarrow> Mat \<Rightarrow> Mat option" where
  "scaled_image cv sorting haar width height crop jpeg =
     (let (n, d) = scale_ratio width height jpeg;
          out = (if n < d then cv_resize_by cv (n, d) jpeg else Some jpeg)
      in if crop then Option.bind out (crop_to_square cv sorting haar) else out)"

text \<open>The encoded rendition: \<^term>\<open>None\<close> for an exception, \<^term>\<open>Some None\<close> when the master cannot be decoded.\<close>

definition render_image ::
  "opencv \<Rightarrow> (InflectionPoint list \<Rightarrow> InflectionPoint list) \<Rightarrow> HAARModel option \<Rightarrow> int \<Rightarrow> int \<Rightarrow> int \<Rightarrow> bool \<Rightarrow> bool \<Rightarrow>
   string \<Rightarrow> string option option" where
  "render_image cv sorting haar width height quality crop png master = (case cv_imread cv master of
       None \<Rightarrow> Some None
     | Some jpeg \<Rightarrow> (case scaled_image cv sorting haar width height crop jpeg of
         None \<Rightarrow> None
       | Some out \<Rightarrow> map_option Some (cv_imencode cv (if png then ''.png'' else ''.jpg'') quality out)))"

section \<open>What the hash says\<close>

lemma bit_of_char: "bit (of_char (pack_bits bs) :: 64 word) i \<longleftrightarrow> i < 8 \<and> bs ! i"
proof (cases "i < 8")
  case True
  then have "i = 0 \<or> i = 1 \<or> i = 2 \<or> i = 3 \<or> i = 4 \<or> i = 5 \<or> i = 6 \<or> i = 7" by presburger
  then show ?thesis
    by (elim disjE) (simp_all only: of_char_def pack_bits_def bit_horner_sum_bit_iff char.sel list.size nth_Cons_numeral
        nth_Cons_0 One_nat_def nth_Cons_Suc, simp_all)
next
  case False
  then show ?thesis unfolding of_char_def bit_horner_sum_bit_iff by simp
qed

lemma bit_PHash_Cons: "bit (PHash_of (pack_bits bs # cs)) i \<longleftrightarrow> (if i < 8 then bs ! i else i < 64 \<and> bit (PHash_of cs) (i - 8))"
proof -
  have "push_bit 8 (PHash_of cs) + of_char (pack_bits bs) = or (push_bit 8 (PHash_of cs)) (of_char (pack_bits bs))"
    by (rule disjunctive_add) (auto simp: bit_of_char bit_push_bit_iff)
  then show ?thesis by (auto simp: PHash_of_def bit_or_iff bit_push_bit_iff bit_of_char)
qed

lemma bit_PHash_pack:
  "length bs = 8 * n \<Longrightarrow> n \<le> 8 \<Longrightarrow> bit (PHash_of (pack_bytes n bs)) i \<longleftrightarrow> i < 8 * n \<and> bs ! i"
proof (induction n arbitrary: bs i)
  case 0
  then show ?case by (simp add: PHash_of_def)
next
  case (Suc n)
  then show ?case using Suc.IH [of "drop 8 bs" "i - 8"] by (auto simp: bit_PHash_Cons)
qed

section \<open>What a rendition looks like\<close>

lemma square_crop_size:
  "r_width (square_crop sorting img) = min (ic_cols img) (ic_rows img) \<and> r_height (square_crop sorting img) = min (ic_cols img) (ic_rows img)"
  by (auto simp: square_crop_def Let_def split: option.splits)

lemma ImageContent_size:
  assumes "ImageContent cv haar m = Some content"
  shows "ic_cols content = mat_cols m \<and> ic_rows content = mat_rows m"
proof -
  have "ic_cols (fold add_face fs img) = ic_cols img \<and> ic_rows (fold add_face fs img) = ic_rows img" for fs img
    by (induction fs arbitrary: img) (auto simp: add_face_def Let_def)
  then show ?thesis
    using assms by (auto simp: ImageContent_def ImageContent_of_def Let_def split: option.splits)
qed

text \<open>The documentation of OpenCV: an image that is scaled by a factor gets the nearest integers as its
  size, which must not be 0; a region must lie in the image, and has its own size.\<close>

locale opencv_laws =
  fixes cv :: opencv
  assumes resize_size: "\<lbrakk>cv_resize_by cv (n, d) m = Some m'; 0 < n; 0 < d\<rbrakk> \<Longrightarrow>
      0 < mat_cols m' \<and> 0 < mat_rows m' \<and> 2 * \<bar>d * mat_cols m' - n * mat_cols m\<bar> \<le> d \<and> 2 * \<bar>d * mat_rows m' - n * mat_rows m\<bar> \<le> d"
    and roi_size: "cv_roi cv r m = Some m' \<Longrightarrow> mat_cols m' = r_width r \<and> mat_rows m' = r_height r"
    and roi_inside: "\<lbrakk>0 \<le> r_x r; 0 \<le> r_width r; r_x r + r_width r \<le> mat_cols m; 0 \<le> r_y r; 0 \<le> r_height r;
      r_y r + r_height r \<le> mat_rows m\<rbrakk> \<Longrightarrow> cv_roi cv r m \<noteq> None"
    and dct8_size: "length (cv_dct8 cv m) = 64"
begin

lemma nearest_fits:
  fixes c' n c w d :: int
  assumes "2 * \<bar>d * c' - n * c\<bar> \<le> d" and "n * c \<le> w * d" and "0 < d"
  shows "c' \<le> w"
proof (rule ccontr)
  assume "\<not> c' \<le> w"
  then have "d * (w + 1) \<le> d * c'" using assms(3) by simp
  then show False using assms by (simp add: algebra_simps)
qed

lemma crop_square:
  assumes "0 < mat_cols m" and "0 < mat_rows m"
  shows "\<exists>out. crop_to_square cv sorting haar m = Some out \<and>
    mat_cols out = min (mat_cols m) (mat_rows m) \<and> mat_rows out = min (mat_cols m) (mat_rows m)"
proof -
  have "cv_roi cv (center_roi m) m \<noteq> None"
    using assms by (intro roi_inside) (auto simp: center_roi_def Let_def min_def)
  then obtain centre where centre: "cv_roi cv (center_roi m) m = Some centre" by blast
  have "mat_cols centre = min (mat_cols m) (mat_rows m)" "mat_rows centre = min (mat_cols m) (mat_rows m)"
    using roi_size [OF centre] by (auto simp: center_roi_def Let_def)
  moreover have "mat_cols part = min (mat_cols m) (mat_rows m) \<and> mat_rows part = min (mat_cols m) (mat_rows m)"
    if "ImageContent cv haar m = Some content" "cv_roi cv (square_crop sorting content) m = Some part" for content part
    using roi_size [OF that(2)] ImageContent_size [OF that(1)] square_crop_size [of sorting content] by simp
  ultimately show ?thesis
    using centre by (auto simp: crop_to_square_def split: option.splits)
qed

lemma scaled_fits:
  assumes "0 < mat_cols m" "0 < mat_rows m" "0 < width" "0 < height"
    and "(if n < d then cv_resize_by cv (n, d) m else Some m) = Some out" and "scale_ratio width height m = (n, d)"
  shows "0 < mat_cols out \<and> mat_cols out \<le> width" and "0 < mat_rows out \<and> mat_rows out \<le> height"
proof -
  have nd: "0 < n" "0 < d" "n * mat_cols m \<le> width * d" "n * mat_rows m \<le> height * d"
    using assms(1-4,6) by (auto simp: scale_ratio_def algebra_simps split: if_splits)
  have "0 < mat_cols out \<and> mat_cols out \<le> width \<and> 0 < mat_rows out \<and> mat_rows out \<le> height"
  proof (cases "n < d")
    case True
    then have "cv_resize_by cv (n, d) m = Some out" using assms(5) by simp
    from resize_size [OF this nd(1,2)] show ?thesis
      using nearest_fits nd(2-4) by blast
  next
    case False
    then have "mat_cols m * d \<le> mat_cols m * n" "mat_rows m * d \<le> mat_rows m * n" "out = m" using assms(1,2,5) by auto
    then have "d * mat_cols m \<le> d * width" "d * mat_rows m \<le> d * height" using nd(3,4) by (auto simp: algebra_simps)
    then show ?thesis using nd(2) assms(1,2) \<open>out = m\<close> by simp
  qed
  then show "0 < mat_cols out \<and> mat_cols out \<le> width" and "0 < mat_rows out \<and> mat_rows out \<le> height" by auto
qed

lemma phash_mat_bits:
  assumes "phash_mat cv m = Some h"
  obtains bs where "phash_bits cv m = Some bs" "\<And>i. bit h i \<longleftrightarrow> i < 64 \<and> bs ! i"
proof -
  obtain bs where bs: "phash_bits cv m = Some bs" "h = PHash_of (pack_bytes 8 bs)"
    using assms by (auto simp: phash_mat_def phash_compute_def)
  have "length bs = 8 * 8"
    using bs(1) dct8_size by (auto simp: phash_bits_def Let_def split: if_splits mat_type.splits)
  from bit_PHash_pack [OF this] bs show thesis by (intro that [of bs]) simp_all
qed

end

text \<open>An implementation that has these laws: every file is a colour image of 4000 by 3000 points, scaled to the nearest
  size.\<close>

definition ref_cv :: opencv where
  "ref_cv = \<lparr>cv_imread = (\<lambda>s. Some \<lparr>mat_type = CV_8UC3, mat_cols = 4000, mat_rows = 3000, mat_data = s\<rparr>),
     cv_imdecode_gray = (\<lambda>s. Some \<lparr>mat_type = CV_8U, mat_cols = 4000, mat_rows = 3000, mat_data = s\<rparr>),
     cv_resize_by = (\<lambda>(n, d) m. let c = (2 * n * mat_cols m + d) div (2 * d); r = (2 * n * mat_rows m + d) div (2 * d)
       in if 0 < c \<and> 0 < r then Some (m\<lparr>mat_cols := c, mat_rows := r\<rparr>) else None),
     cv_resize_32 = (\<lambda>m. m\<lparr>mat_cols := 32, mat_rows := 32\<rparr>),
     cv_gray = (\<lambda>m. if mat_type m = CV_8UC3 then Some (m\<lparr>mat_type := CV_8U\<rparr>) else None),
     cv_gray_alpha = (\<lambda>m. if mat_type m = CV_8UC4 then Some (m\<lparr>mat_type := CV_8U\<rparr>) else None),
     cv_equalize = (\<lambda>m. m),
     cv_roi = (\<lambda>r m. if 0 \<le> r_x r \<and> 0 \<le> r_width r \<and> r_x r + r_width r \<le> mat_cols m \<and> 0 \<le> r_y r \<and> 0 \<le> r_height r \<and>
         r_y r + r_height r \<le> mat_rows m then Some (m\<lparr>mat_cols := r_width r, mat_rows := r_height r\<rparr>) else None),
     cv_load_cascade = (\<lambda>_. True), cv_detect = (\<lambda>_ _ _. []), cv_good_features = (\<lambda>_. []),
     cv_imencode = (\<lambda>ext q m. Some (ext @ mat_data m)),
     cv_dct8 = (\<lambda>m. map (\<lambda>c. of_char c) (take 64 (mat_data m @ replicate 64 CHR 0x00))),
     cv_mean = (\<lambda>_. 0), cv_gt = (\<lambda>a b. b < a)\<rparr>"

lemma nearest_div: "0 < d \<Longrightarrow> 2 * \<bar>d * ((2 * x + d) div (2 * d)) - x\<bar> \<le> d" for x d :: int
proof -
  assume d: "0 < d"
  define q where "q = (2 * x + d) div (2 * d)"
  have "2 * d * q \<le> 2 * x + d" "2 * x + d < 2 * d * q + 2 * d"
    using d pos_mod_bound [of "2 * d" "2 * x + d"] pos_mod_sign [of "2 * d" "2 * x + d"] mult_div_mod_eq [of "2 * d" "2 * x + d"]
    unfolding q_def by linarith+
  then show ?thesis unfolding q_def [symmetric] by (auto simp: mult.assoc abs_if)
qed

interpretation ref_cv: opencv_laws ref_cv
proof unfold_locales
  fix n d m m'
  assume "cv_resize_by ref_cv (n, d) m = Some m'" "0 < n" "0 < d"
  then show "0 < mat_cols m' \<and> 0 < mat_rows m' \<and> 2 * \<bar>d * mat_cols m' - n * mat_cols m\<bar> \<le> d \<and> 2 * \<bar>d * mat_rows m' - n * mat_rows m\<bar> \<le> d"
    using nearest_div [of d "n * mat_cols m"] nearest_div [of d "n * mat_rows m"]
    by (auto simp: ref_cv_def Let_def mult.assoc split: if_splits)
qed (auto simp: ref_cv_def split: if_splits)

text \<open>C17: A rendition has the size that the configuration asks for. Whatever is found in the image, the picture that is
  encoded is not empty and not larger than the configured width and height, it is square when a
  square was asked for, and an image that is small enough is kept as it is.\<close>

theorem rendition_fits:
  assumes "opencv_laws cv" and "0 < width" and "0 < height"
    and "cv_imread cv master = Some jpeg" and "0 < mat_cols jpeg" and "0 < mat_rows jpeg"
    and "render_image cv sorting haar width height quality crop png master = Some (Some bytes)"
  shows "\<exists>out. cv_imencode cv (if png then ''.png'' else ''.jpg'') quality out = Some bytes \<and>
    0 < mat_cols out \<and> mat_cols out \<le> width \<and> 0 < mat_rows out \<and> mat_rows out \<le> height \<and>
    (crop \<longrightarrow> mat_cols out = mat_rows out) \<and>
    (\<not> crop \<and> mat_cols jpeg \<le> width \<and> mat_rows jpeg \<le> height \<longrightarrow> out = jpeg)"
proof -
  obtain n d where nd: "scale_ratio width height jpeg = (n, d)" by fastforce
  obtain out where out: "scaled_image cv sorting haar width height crop jpeg = Some out"
    and bytes: "cv_imencode cv (if png then ''.png'' else ''.jpg'') quality out = Some bytes"
    using assms(4,7) by (auto simp: render_image_def split: option.splits)
  obtain mid where mid: "(if n < d then cv_resize_by cv (n, d) jpeg else Some jpeg) = Some mid"
    and crop: "if crop then crop_to_square cv sorting haar mid = Some out else out = mid"
    using out nd by (auto simp: scaled_image_def Let_def bind_eq_Some_conv split: if_splits)
  note fits = opencv_laws.scaled_fits [OF assms(1,5,6,2,3) mid nd]
  have "0 < mat_cols out \<and> mat_cols out \<le> width \<and> 0 < mat_rows out \<and> mat_rows out \<le> height \<and> (crop \<longrightarrow> mat_cols out = mat_rows out)"
    using fits crop opencv_laws.crop_square [OF assms(1), of mid sorting haar] by (cases crop) auto
  moreover have "out = jpeg" if "\<not> crop" "mat_cols jpeg \<le> width" "mat_rows jpeg \<le> height"
    using that crop mid nd by (auto simp: scale_ratio_def split: if_splits)
  ultimately show ?thesis using bytes by blast
qed

theorem rendition_fits_witness:
  "\<exists>out. cv_imencode ref_cv ''.jpg'' 70 out = Some ''.jpgx'' \<and> mat_cols out \<le> 768 \<and> mat_cols out = mat_rows out"
proof -
  have "render_image ref_cv (\<lambda>ps. ps) None 768 768 70 True False ''x'' = Some (Some ''.jpgx'')" by code_simp
  from rendition_fits [OF ref_cv.opencv_laws_axioms _ _ _ _ _ this]
  show ?thesis by (auto simp: ref_cv_def)
qed

end
