(* ===== verification/Blob_Store.thy ===== *)
theory Blob_Store
  imports HTTP Calendar Image_Processing
begin

text \<open>
  The blobs on disk: \<^verbatim>\<open>src/server/hrb/BlobDatabase.cc\<close>, \<^verbatim>\<open>BlobFile.cc\<close> and \<^verbatim>\<open>UploadFile.cc\<close>, with
  the rendition settings of \<^verbatim>\<open>src/server/util/Configuration.cc\<close> and the image metadata of
  \<^verbatim>\<open>src/common/image/Image.cc\<close>. The file system is a map from paths to contents. The functions of
  libmagic, OpenCV, the EXIF and hash libraries, the clock, and which paths can be written are
  parameters, in a record.
\<close>

unbundle bit_operations_syntax

section \<open>Rendition settings\<close>

record JPEGRenditionSetting =
  js_width :: int
  js_height :: int
  js_quality :: int
  js_square_crop :: bool

record RenditionSetting =
  m_default :: string
  m_renditions :: "string \<rightharpoonup> JPEGRenditionSetting"

definition default_settings :: RenditionSetting where
  "default_settings = \<lparr>m_default = ''2048x2048'',
     m_renditions = [''2048x2048'' \<mapsto> \<lparr>js_width = 2048, js_height = 2048, js_quality = 70, js_square_crop = False\<rparr>]\<rparr>"

text \<open>\<^verbatim>\<open>find\<close> calls itself with the default name; the number bounds the depth of the calls.\<close>

fun rend_find :: "nat \<Rightarrow> RenditionSetting \<Rightarrow> string \<Rightarrow> JPEGRenditionSetting option" where
  "rend_find 0 cfg rend = None"
| "rend_find (Suc n) cfg rend =
     (let r = (if rend = [] then m_default cfg else rend)
      in case m_renditions cfg r of Some s \<Rightarrow> Some s | None \<Rightarrow> rend_find n cfg (m_default cfg))"

definition rend_valid :: "RenditionSetting \<Rightarrow> string \<Rightarrow> bool" where
  "rend_valid cfg rend \<longleftrightarrow> m_renditions cfg rend \<noteq> None"

definition rend_add :: "string \<Rightarrow> int \<Rightarrow> int \<Rightarrow> int \<Rightarrow> bool \<Rightarrow> RenditionSetting \<Rightarrow> RenditionSetting" where
  "rend_add rend width height quality crop cfg =
     cfg\<lparr>m_renditions := (m_renditions cfg)(rend \<mapsto>
       \<lparr>js_width = width, js_height = height, js_quality = quality, js_square_crop = crop\<rparr>)\<rparr>"

section \<open>Files\<close>

type_synonym files = "string \<rightharpoonup> string"

definition join :: "string \<Rightarrow> string \<Rightarrow> string" where
  "join a b = a @ ''/'' @ b"

text \<open>\<^verbatim>\<open>MMap::open\<close>: \<^term>\<open>None\<close> for an error, which an empty file gives too.\<close>

definition mmap_open :: "files \<Rightarrow> string \<Rightarrow> string option" where
  "mmap_open fs path = (case fs path of Some c \<Rightarrow> if c = [] then None else Some c | None \<Rightarrow> None)"

text \<open>The libraries: the type of a file, OpenCV, the order that \<^verbatim>\<open>std::sort\<close> gives, the date tag of an image and the
  digest of a file; then which paths can be written, the clock and the configuration.\<close>

record blob_env =
  be_magic :: "string \<Rightarrow> string"
  be_cv :: opencv
  be_sort :: "InflectionPoint list \<Rightarrow> InflectionPoint list"
  be_exif_entry :: "string \<Rightarrow> string option"
  be_blake2 :: "string \<Rightarrow> ObjectID"
  be_writable :: "string \<Rightarrow> bool"
  be_now :: int
  be_blob_path :: string
  be_settings :: RenditionSetting
  be_haar_path :: string

section \<open>Digests\<close>

text \<open>\<^verbatim>\<open>src/common/crypto/Blake2.cc\<close>: a context of BLAKE2b, from \<^verbatim>\<open>blake2b_init\<close> on. The library documents that the digest
  is that of the bytes passed to all updates, so the context is these bytes.\<close>

type_synonym Blake2 = string

definition Blake2_new :: Blake2 where
  "Blake2_new = []"

definition Blake2_update :: "string \<Rightarrow> Blake2 \<Rightarrow> Blake2" where
  "Blake2_update data m_ctx = m_ctx @ data"

definition Blake2_finalize :: "blob_env \<Rightarrow> Blake2 \<Rightarrow> ObjectID" where
  "Blake2_finalize E m_ctx = be_blake2 E m_ctx"

lemmas Blake2_simps [simp] = Blake2_new_def Blake2_update_def Blake2_finalize_def

lemma Blake2_chunks: "Blake2_finalize E (fold Blake2_update chunks Blake2_new) = be_blake2 E (concat chunks)"
proof -
  have "fold Blake2_update chunks ctx = ctx @ concat chunks" for ctx by (induction chunks arbitrary: ctx) simp_all
  then show ?thesis by simp
qed

section \<open>Uploads\<close>

text \<open>The temporary file is in the file system under its path; the digest takes what was passed to
  \<^verbatim>\<open>write\<close>.\<close>

record UploadFile =
  up_open :: bool
  up_tmp_path :: string
  up_hashed :: Blake2

definition no_upload :: UploadFile where
  "no_upload = \<lparr>up_open = False, up_tmp_path = [], up_hashed = Blake2_new\<rparr>"

text \<open>\<^verbatim>\<open>open\<close>: \<^term>\<open>tmp\<close> is the name that \<^verbatim>\<open>mkstemp\<close> picks.\<close>

definition upload_open :: "blob_env \<Rightarrow> string \<Rightarrow> string \<Rightarrow> files \<Rightarrow> files \<times> UploadFile \<times> bool" where
  "upload_open E parent_directory tmp fs =
     (let path = join parent_directory tmp
      in if be_writable E path then (fs(path \<mapsto> []), \<lparr>up_open = True, up_tmp_path = path, up_hashed = Blake2_new\<rparr>, True)
         else (fs, \<lparr>up_open = False, up_tmp_path = path, up_hashed = Blake2_new\<rparr>, False))"

definition upload_write :: "string \<Rightarrow> UploadFile \<times> files \<Rightarrow> UploadFile \<times> files" where
  "upload_write buffer = (\<lambda>(u, fs).
     (u\<lparr>up_hashed := Blake2_update buffer (up_hashed u)\<rparr>,
      fs(up_tmp_path u \<mapsto> (case fs (up_tmp_path u) of Some c \<Rightarrow> c | None \<Rightarrow> []) @ buffer)))"

text \<open>\<^verbatim>\<open>UploadRequestBody::reader::put\<close>, when no write fails.\<close>

definition upload_put :: "string list \<Rightarrow> UploadFile \<times> files \<Rightarrow> UploadFile \<times> files" where
  "upload_put buffers s = fold upload_write buffers s"

text \<open>\<^verbatim>\<open>UploadRequestBody::reader::init\<close>: whether there is no error.\<close>

definition upload_init :: "UploadFile \<Rightarrow> bool" where
  "upload_init u = up_open u"

definition upload_size :: "UploadFile \<Rightarrow> files \<Rightarrow> nat option" where
  "upload_size u fs = (if up_open u then map_option length (fs (up_tmp_path u)) else None)"

text \<open>\<^verbatim>\<open>pread\<close>: at most \<^term>\<open>n\<close> bytes from \<^term>\<open>pos\<close> on.\<close>

definition upload_pread :: "nat \<Rightarrow> nat \<Rightarrow> UploadFile \<Rightarrow> files \<Rightarrow> string option" where
  "upload_pread n pos u fs = (if up_open u then map_option (\<lambda>c. take n (drop pos c)) (fs (up_tmp_path u)) else None)"

definition upload_ID :: "blob_env \<Rightarrow> UploadFile \<Rightarrow> ObjectID" where
  "upload_ID E u = Blake2_finalize E (up_hashed u)"

text \<open>\<^verbatim>\<open>move\<close> forgets the temporary path also when \<^verbatim>\<open>rename\<close> fails.\<close>

definition upload_move :: "blob_env \<Rightarrow> string \<Rightarrow> UploadFile \<Rightarrow> files \<Rightarrow> files \<times> UploadFile \<times> bool" where
  "upload_move E dest u fs =
     (if up_tmp_path u \<noteq> [] then
        (case fs (up_tmp_path u) of
           Some c \<Rightarrow> if be_writable E dest
             then ((fs(up_tmp_path u := None))(dest \<mapsto> c), u\<lparr>up_tmp_path := []\<rparr>, True)
             else (fs, u\<lparr>up_tmp_path := []\<rparr>, False)
         | None \<Rightarrow> (fs, u\<lparr>up_tmp_path := []\<rparr>, False))
      else (fs, u, False))"

definition upload_destroy :: "UploadFile \<Rightarrow> files \<Rightarrow> files" where
  "upload_destroy u fs = (if up_tmp_path u \<noteq> [] \<and> fs (up_tmp_path u) \<noteq> None then fs(up_tmp_path u := None) else fs)"

section \<open>Image metadata\<close>

record ImageMeta =
  im_mime :: string
  im_phash :: "64 word option"
  im_original :: "Timestamp option"
  im_uploaded :: Timestamp

definition ImageMeta_of :: "blob_env \<Rightarrow> string \<Rightarrow> ImageMeta" where
  "ImageMeta_of E master =
     (let mime = be_magic E master;
          exif = (if mime = ''image/jpeg'' then map_option (\<lambda>ns. trunc_div ns (10 ^ 6)) (exif_date_time (be_exif_entry E master)) else None);
          original = (case exif of Some t \<Rightarrow> t | None \<Rightarrow> be_now E)
      in \<lparr>im_mime = mime, im_phash = phash (be_cv E) master, im_original = Some original, im_uploaded = original\<rparr>)"

definition meta_to_json :: "ImageMeta \<Rightarrow> json" where
  "meta_to_json m =
     (let j1 = [(''mime'', JStr (im_mime m))];
          j2 = (case im_original m of Some t \<Rightarrow> obj_emplace ''original_datetime'' (ts_to_json t) j1 | None \<Rightarrow> j1);
          j3 = (case im_phash m of Some h \<Rightarrow> obj_emplace ''phash'' (JInt (uint h)) j2 | None \<Rightarrow> j2)
      in JObj j3)"

text \<open>\<^verbatim>\<open>from_json\<close> for metadata: a value that is no object changes nothing. The operator \<^verbatim>\<open>[]\<close> for a key that is
  missing is outside its contract; here it is the error of \<^verbatim>\<open>at\<close>.\<close>

definition meta_from_json :: "json \<Rightarrow> ImageMeta \<Rightarrow> ImageMeta result" where
  "meta_from_json src m = (case src of
       JObj kvs \<Rightarrow>
         bind_r (bind_r (json_at src ''mime'') get_string) (\<lambda>mime.
         bind_r (case map_of kvs ''original_datetime'' of Some t \<Rightarrow> bind_r (ts_from_json t) (\<lambda>t. ok (Some t)) | None \<Rightarrow> ok None) (\<lambda>original.
         bind_r (case map_of kvs ''phash'' of Some h \<Rightarrow> bind_r (get_int h) (\<lambda>h. ok (Some (word_of_int h))) | None \<Rightarrow> ok None) (\<lambda>hash.
           ok (m\<lparr>im_mime := mime, im_original := original, im_phash := hash\<rparr>))))
     | _ \<Rightarrow> ok m)"

lemma meta_json_roundtrip:
  "meta_from_json (meta_to_json m) m' = ok (m\<lparr>im_uploaded := im_uploaded m'\<rparr>)"
  by (cases "im_original m"; cases "im_phash m")
    (simp_all add: meta_from_json_def meta_to_json_def bind_r_def json_at_def get_string_def ts_to_json_def ts_from_json_def get_int_def Let_def)

section \<open>BlobFile\<close>

record BlobFile =
  bf_id :: ObjectID
  bf_dir :: string
  bf_meta :: "ImageMeta option"

definition master_rendition :: string where
  "master_rendition = ''master''"

definition load_master :: "BlobFile \<Rightarrow> files \<Rightarrow> string option" where
  "load_master b fs = mmap_open fs (join (bf_dir b) master_rendition)"

text \<open>\<^verbatim>\<open>deduce_meta\<close> with the mapped master, or with nothing; a master that cannot be mapped is an
  empty buffer. Writing \<^verbatim>\<open>meta.json\<close> may fail silently; \<^term>\<open>json_dump\<close> throws for a type
  that is not UTF-8, after the file was truncated.\<close>

definition blob_master :: "string option \<Rightarrow> BlobFile \<Rightarrow> files \<Rightarrow> string option" where
  "blob_master master b fs = (case master of Some c \<Rightarrow> Some c | None \<Rightarrow> load_master b fs)"

definition deduce_meta :: "extlib \<Rightarrow> blob_env \<Rightarrow> string option \<Rightarrow> BlobFile \<Rightarrow> files \<Rightarrow> files \<times> BlobFile" where
  "deduce_meta L E master b fs =
     (let m = blob_master master b fs;
          meta = ImageMeta_of E (case m of Some c \<Rightarrow> c | None \<Rightarrow> []);
          path = join (bf_dir b) ''meta.json''
      in (if be_writable E path
          then fs(path \<mapsto> (case json_dump L (meta_to_json meta) of Some s \<Rightarrow> s | None \<Rightarrow> []))
          else fs,
          b\<lparr>bf_meta := Some meta\<rparr>))"

text \<open>\<^verbatim>\<open>update_meta\<close>: what is read from \<^verbatim>\<open>meta.json\<close> is replaced by \<^verbatim>\<open>deduce_meta({})\<close>, which is
  called in every case, so that reading has no effect.\<close>

definition update_meta :: "extlib \<Rightarrow> blob_env \<Rightarrow> BlobFile \<Rightarrow> files \<Rightarrow> files \<times> BlobFile" where
  "update_meta L E b fs = (if bf_meta b = None then deduce_meta L E None b fs else (fs, b))"

definition meta_of :: "BlobFile \<Rightarrow> ImageMeta" where
  "meta_of b = (case bf_meta b of Some m \<Rightarrow> m | None \<Rightarrow> \<lparr>im_mime = [], im_phash = None, im_original = None, im_uploaded = 0\<rparr>)"

definition is_image_mime :: "string \<Rightarrow> bool" where
  "is_image_mime mime \<longleftrightarrow> mime \<noteq> [] \<and> take (length ''image'') mime = ''image''"

definition blob_is_image :: "extlib \<Rightarrow> blob_env \<Rightarrow> BlobFile \<Rightarrow> files \<Rightarrow> (files \<times> BlobFile) \<times> bool" where
  "blob_is_image L E b fs = (let (fs1, b1) = update_meta L E b fs in ((fs1, b1), is_image_mime (im_mime (meta_of b1))))"

text \<open>The other accessors: each updates the metadata first.\<close>

definition blob_phash :: "extlib \<Rightarrow> blob_env \<Rightarrow> BlobFile \<Rightarrow> files \<Rightarrow> (files \<times> BlobFile) \<times> 64 word option" where
  "blob_phash L E b fs = (let (fs1, b1) = update_meta L E b fs in ((fs1, b1), im_phash (meta_of b1)))"

definition blob_mime :: "extlib \<Rightarrow> blob_env \<Rightarrow> BlobFile \<Rightarrow> files \<Rightarrow> (files \<times> BlobFile) \<times> string" where
  "blob_mime L E b fs = (let (fs1, b1) = update_meta L E b fs in ((fs1, b1), im_mime (meta_of b1)))"

definition meta_json :: "extlib \<Rightarrow> blob_env \<Rightarrow> BlobFile \<Rightarrow> files \<Rightarrow> (files \<times> BlobFile) \<times> json" where
  "meta_json L E b fs = (let (fs1, b1) = update_meta L E b fs in ((fs1, b1), meta_to_json (meta_of b1)))"

definition original_datetime :: "BlobFile \<Rightarrow> Timestamp" where
  "original_datetime b = (case im_original (meta_of b) of Some t \<Rightarrow> t | None \<Rightarrow> im_uploaded (meta_of b))"

text \<open>The constructor for an uploaded file; the result tells whether there was no error.\<close>

definition BlobFile_upload ::
  "extlib \<Rightarrow> blob_env \<Rightarrow> UploadFile \<Rightarrow> string \<Rightarrow> files \<Rightarrow> files \<times> UploadFile \<times> BlobFile \<times> bool" where
  "BlobFile_upload L E tmp dir fs =
     (let b = \<lparr>bf_id = upload_ID E tmp, bf_dir = dir, bf_meta = None\<rparr>
      in case mmap_open fs (up_tmp_path tmp) of
           None \<Rightarrow> (fs, tmp, b, False)
         | Some master \<Rightarrow>
             if be_writable E dir then
               (let (fs1, tmp1, moved) = upload_move E (join dir master_rendition) tmp fs;
                    (fs2, b2) = deduce_meta L E (Some master) b fs1
                in (fs2, tmp1, b2, moved))
             else (fs, tmp, b, False))"

text \<open>\<^verbatim>\<open>save_blob\<close>: a file that cannot be opened is not written, and the error is that of the write.\<close>

definition save_blob :: "blob_env \<Rightarrow> string \<Rightarrow> string \<Rightarrow> files \<Rightarrow> files" where
  "save_blob E blob dest fs = (if be_writable E dest then fs(dest \<mapsto> blob) else fs)"

text \<open>\<^term>\<open>None\<close> when an exception of OpenCV leaves the function.\<close>

definition generate_image_rendition ::
  "extlib \<Rightarrow> blob_env \<Rightarrow> JPEGRenditionSetting \<Rightarrow> string \<Rightarrow> BlobFile \<Rightarrow> files \<Rightarrow> files option" where
  "generate_image_rendition L E cfg dest b fs =
     (case fs (join (bf_dir b) master_rendition) of
        None \<Rightarrow> Some fs
      | Some master \<Rightarrow>
          (case render_image (be_cv E) (be_sort E) (HAARModel_of (be_cv E) fs (be_haar_path E)) (js_width cfg) (js_height cfg)
               (js_quality cfg) (js_square_crop cfg) (im_mime (meta_of b) = ''image/png'') master of
             None \<Rightarrow> None
           | Some None \<Rightarrow> Some fs
           | Some (Some out) \<Rightarrow> Some (save_blob E out dest fs)))"

text \<open>The rendition that is used for a name: one that the configuration does not allow is replaced by
  the default.\<close>

definition rend_name :: "blob_env \<Rightarrow> string \<Rightarrow> string" where
  "rend_name E rendition = (if rend_valid (be_settings E) rendition then rendition else m_default (be_settings E))"

text \<open>\<^verbatim>\<open>rendition\<close>; the last \<^verbatim>\<open>MMap::open\<close> decides about the error code. \<^term>\<open>None\<close> of the outer
  option: the settings have no default rendition, and the search for it does not end, or an exception of
  OpenCV leaves it.\<close>

definition blob_rendition ::
  "extlib \<Rightarrow> blob_env \<Rightarrow> string \<Rightarrow> BlobFile \<Rightarrow> files \<Rightarrow> (files \<times> string option) option" where
  "blob_rendition L E rendition b fs =
     (if rendition = master_rendition then Some (fs, load_master b fs)
      else
        (let cfg = be_settings E;
             rend = rend_name E rendition;
             rend_path = join (bf_dir b) rend;
             finish = (\<lambda>fs. Some (fs, if fs rend_path \<noteq> None then mmap_open fs rend_path else load_master b fs))
         in if fs rend_path = None then
              (let ((fs1, b1), img) = blob_is_image L E b fs
               in if img then
                    (case rend_find 2 cfg rend of
                       None \<Rightarrow> None
                     | Some setting \<Rightarrow> Option.bind (generate_image_rendition L E setting rend_path b1 fs1) finish)
                  else finish fs1)
            else finish fs))"

definition load_meta :: "extlib \<Rightarrow> blob_env \<Rightarrow> BlobFile \<Rightarrow> files \<Rightarrow> files \<times> string option" where
  "load_meta L E b fs =
     (let path = join (bf_dir b) ''meta.json'' in
      case mmap_open fs path of
        Some c \<Rightarrow> (fs, Some c)
      | None \<Rightarrow> (let (fs1, b1) = deduce_meta L E None b fs in (fs1, mmap_open fs1 path)))"

text \<open>\<^verbatim>\<open>PHash::compare\<close>: the Hamming distance of the bytes.\<close>

definition hamming :: "64 word \<Rightarrow> 64 word \<Rightarrow> nat" where
  "hamming x y = length (filter (\<lambda>i. bit (x XOR y) i) [0..<64])"

text \<open>\<^verbatim>\<open>compare\<close>; \<^term>\<open>None\<close> is the largest \<^verbatim>\<open>double\<close>.\<close>

definition blob_compare :: "BlobFile \<Rightarrow> BlobFile \<Rightarrow> nat option" where
  "blob_compare b1 b2 = (case (im_phash (meta_of b1), im_phash (meta_of b2)) of
     (Some h1, Some h2) \<Rightarrow> Some (hamming h1 h2) | _ \<Rightarrow> None)"

section \<open>BlobDatabase\<close>

definition dest :: "extlib \<Rightarrow> blob_env \<Rightarrow> ObjectID \<Rightarrow> string" where
  "dest L E i = (let hex = to_hex L i in join (join (be_blob_path E) (take 2 hex)) hex)"

definition prepare_upload :: "blob_env \<Rightarrow> string \<Rightarrow> files \<Rightarrow> files \<times> UploadFile \<times> bool" where
  "prepare_upload E tmp fs = upload_open E (be_blob_path E) tmp fs"

definition save :: "extlib \<Rightarrow> blob_env \<Rightarrow> UploadFile \<Rightarrow> files \<Rightarrow> files \<times> UploadFile \<times> BlobFile \<times> bool" where
  "save L E tmp fs = BlobFile_upload L E tmp (dest L E (upload_ID E tmp)) fs"

definition find_blob :: "extlib \<Rightarrow> blob_env \<Rightarrow> ObjectID \<Rightarrow> BlobFile" where
  "find_blob L E i = \<lparr>bf_id = i, bf_dir = dest L E i, bf_meta = None\<rparr>"

definition set_cache_control :: "extlib \<Rightarrow> ObjectID \<Rightarrow> response \<Rightarrow> response" where
  "set_cache_control L i res =
     set_field ''ETag'' (to_quoted_hex L i) (set_field ''Cache-Control'' ''private, max-age=31536000, immutable'' res)"

definition meta_response :: "extlib \<Rightarrow> blob_env \<Rightarrow> ObjectID \<Rightarrow> files \<Rightarrow> files \<times> response" where
  "meta_response L E i fs =
     (case load_meta L E (find_blob L E i) fs of
        (fs1, None) \<Rightarrow> (fs1, empty_response St_not_found)
      | (fs1, Some c) \<Rightarrow>
          (fs1, set_cache_control L i (set_field ''Content-Type'' ''application/json'' (respond St_ok (File_body c)))))"

definition blob_response :: "extlib \<Rightarrow> blob_env \<Rightarrow> ObjectID \<Rightarrow> string \<Rightarrow> files \<Rightarrow> (files \<times> response) option" where
  "blob_response L E i rendition fs =
     (if \<exists>c \<in> set rendition. \<not> isalpha c \<and> \<not> isdigit c then Some (fs, empty_response St_bad_request)
      else case blob_rendition L E rendition (find_blob L E i) fs of
        None \<Rightarrow> None
      | Some (fs1, None) \<Rightarrow> Some (fs1, empty_response St_not_found)
      | Some (fs1, Some c) \<Rightarrow>
          Some (fs1, set_cache_control L i (set_field ''Content-Type'' (be_magic E c) (respond St_ok (File_body c)))))"

text \<open>\<^verbatim>\<open>compare\<close> of two identifiers, which computes the metadata of both, and \<^verbatim>\<open>find_similar\<close>.\<close>

definition compare_ids :: "extlib \<Rightarrow> blob_env \<Rightarrow> ObjectID \<Rightarrow> ObjectID \<Rightarrow> files \<Rightarrow> files \<times> nat option" where
  "compare_ids L E id1 id2 fs =
     (let (fs1, b1) = update_meta L E (find_blob L E id1) fs
      in if im_phash (meta_of b1) = None then (fs1, None)
         else (let (fs2, b2) = update_meta L E (find_blob L E id2) fs1 in (fs2, blob_compare b1 b2)))"

fun similar_to ::
  "extlib \<Rightarrow> blob_env \<Rightarrow> nat \<Rightarrow> ObjectID \<Rightarrow> ObjectID list \<Rightarrow> files \<Rightarrow> files \<times> (ObjectID \<times> ObjectID \<times> nat) list" where
  "similar_to L E threshold id1 [] fs = (fs, [])"
| "similar_to L E threshold id1 (id2 # ids) fs =
     (let (fs1, norm) = compare_ids L E id1 id2 fs; (fs2, rest) = similar_to L E threshold id1 ids fs1
      in (fs2, (case norm of Some d \<Rightarrow> if d < threshold then [(id1, id2, d)] else [] | None \<Rightarrow> []) @ rest))"

fun find_similar ::
  "extlib \<Rightarrow> blob_env \<Rightarrow> nat \<Rightarrow> ObjectID list \<Rightarrow> files \<Rightarrow> files \<times> (ObjectID \<times> ObjectID \<times> nat) list" where
  "find_similar L E threshold [] fs = (fs, [])"
| "find_similar L E threshold (id1 # ids) fs =
     (let (fs1, row) = similar_to L E threshold id1 ids fs; (fs2, rest) = find_similar L E threshold ids fs1
      in (fs2, row @ rest))"

section \<open>Facts\<close>

lemma join_simps [simp]:
  "join a b = join a c \<longleftrightarrow> b = c" "join (join a b) c = join a (join b c)" "set (join a b) = set a \<union> {CHR ''/''} \<union> set b"
  by (auto simp: join_def)

text \<open>A plain name in the directory of the blobs is no path below it.\<close>

lemma plain_name_ne: "CHR ''/'' \<notin> set tmp \<Longrightarrow> tmp \<noteq> join a b"
  by (auto simp: join_def)

lemma default_found: "m_renditions cfg (m_default cfg) \<noteq> None \<Longrightarrow> rend_find (Suc (Suc n)) cfg rend \<noteq> None"
  by (auto simp: Let_def split: option.splits)

lemma default_not_found:
  "\<lbrakk>m_renditions cfg (m_default cfg) = None; m_renditions cfg rend = None\<rbrakk> \<Longrightarrow> rend_find n cfg rend = None"
proof (induction n arbitrary: rend)
  case (Suc n)
  then show ?case using Suc.IH [of "m_default cfg"] by (simp add: Let_def)
qed simp

lemma upload_put_effect:
  "fs (up_tmp_path u) = Some c \<Longrightarrow> upload_put bufs (u, fs) =
     (u\<lparr>up_hashed := up_hashed u @ concat bufs\<rparr>, fs(up_tmp_path u \<mapsto> c @ concat bufs))"
proof (induction bufs arbitrary: u fs c)
  case Nil
  then show ?case by (simp add: upload_put_def fun_upd_idem)
next
  case (Cons b bufs)
  let ?u = "u\<lparr>up_hashed := up_hashed u @ b\<rparr>" and ?fs = "fs(up_tmp_path u \<mapsto> c @ b)"
  have "upload_put (b # bufs) (u, fs) = upload_put bufs (?u, ?fs)"
    using Cons.prems by (simp add: upload_put_def upload_write_def)
  also have "\<dots> = (?u\<lparr>up_hashed := up_hashed ?u @ concat bufs\<rparr>, ?fs(up_tmp_path ?u \<mapsto> (c @ b) @ concat bufs))"
    by (rule Cons.IH) simp
  finally show ?case by (simp add: fun_eq_iff)
qed

lemma deduce_meta_frame:
  "deduce_meta L E master b fs = (fs', b') \<Longrightarrow>
   bf_id b' = bf_id b \<and> bf_dir b' = bf_dir b \<and> (\<forall>p. p \<noteq> join (bf_dir b) ''meta.json'' \<longrightarrow> fs' p = fs p)"
  by (auto simp: deduce_meta_def blob_master_def Let_def split: if_splits)

lemma blob_is_image_frame:
  "blob_is_image L E b fs = ((fs', b'), img) \<Longrightarrow>
   bf_dir b' = bf_dir b \<and> (\<forall>p. p \<noteq> join (bf_dir b) ''meta.json'' \<longrightarrow> fs' p = fs p)"
  by (auto simp: blob_is_image_def update_meta_def dest: deduce_meta_frame split: prod.splits if_splits)

lemma generate_frame:
  "generate_image_rendition L E cfg rend_path b fs = Some fs' \<Longrightarrow> p \<noteq> rend_path \<Longrightarrow> fs' p = fs p"
  by (auto simp: generate_image_rendition_def save_blob_def split: option.splits if_splits)

lemma blob_rendition_frame:
  assumes "blob_rendition L E rendition b fs = Some (fs', r)"
  shows "\<forall>p. fs' p \<noteq> fs p \<longrightarrow> p \<in> {join (bf_dir b) ''meta.json'', join (bf_dir b) (rend_name E rendition)}"
    and "\<forall>c. r = Some c \<longrightarrow> (\<exists>n \<in> {master_rendition, rend_name E rendition}. fs' (join (bf_dir b) n) = Some c)"
proof -
  let ?path = "join (bf_dir b) (rend_name E rendition)"
  let ?frame = "\<forall>p. fs' p \<noteq> fs p \<longrightarrow> p \<in> {join (bf_dir b) ''meta.json'', ?path}"
  let ?read = "\<forall>c. r = Some c \<longrightarrow> (\<exists>n \<in> {master_rendition, rend_name E rendition}. fs' (join (bf_dir b) n) = Some c)"
  have reads: "\<exists>n \<in> {master_rendition, rend_name E rendition}. g (join (bf_dir b) n) = Some c"
    if "(if g ?path \<noteq> None then mmap_open g ?path else load_master b g) = Some c" for g c
    using that by (auto simp: mmap_open_def load_master_def split: if_splits option.splits)
  have "?frame \<and> ?read"
  proof (cases "rendition = master_rendition")
    case True
    then show ?thesis using assms
      by (auto simp: blob_rendition_def load_master_def mmap_open_def split: option.splits if_splits)
  next
    case not_master: False
    show ?thesis
    proof (cases "fs ?path = None")
      case False
      then have "fs' = fs" and "r = (if fs ?path \<noteq> None then mmap_open fs ?path else load_master b fs)"
        using assms not_master by (auto simp: blob_rendition_def Let_def)
      then show ?thesis using reads by auto
    next
      case True
      obtain fs1 b1 im where img: "blob_is_image L E b fs = ((fs1, b1), im)" by (metis prod.collapse)
      note frame1 = blob_is_image_frame [OF img]
      obtain g where g: "fs' = g" "r = (if g ?path \<noteq> None then mmap_open g ?path else load_master b g)"
        and frame: "\<forall>p. p \<noteq> ?path \<longrightarrow> g p = fs1 p"
      proof (cases im)
        case True
        then obtain setting where "rend_find 2 (be_settings E) (rend_name E rendition) = Some setting"
          using assms not_master \<open>fs ?path = None\<close> img
          by (auto simp: blob_rendition_def Let_def split: option.splits)
        moreover from this obtain g where "generate_image_rendition L E setting ?path b1 fs1 = Some g"
          using assms not_master \<open>fs ?path = None\<close> img True by (auto simp: blob_rendition_def Let_def bind_eq_Some_conv)
        ultimately show ?thesis
          using assms not_master \<open>fs ?path = None\<close> img True generate_frame
          by (intro that [of g]) (auto simp: blob_rendition_def Let_def)
      next
        case False
        then show ?thesis
          using assms not_master \<open>fs ?path = None\<close> img
          by (intro that [of fs1]) (auto simp: blob_rendition_def Let_def)
      qed
      then show ?thesis using frame1 reads [of g] by auto
    qed
  qed
  then show ?frame ?read by blast+
qed

lemma blob_rendition_returns:
  assumes "m_renditions (be_settings E) (m_default (be_settings E)) \<noteq> None"
    and no_exn: "\<And>setting d b fs. rend_find 2 (be_settings E) (rend_name E rendition) = Some setting \<Longrightarrow>
      generate_image_rendition L E setting d b fs \<noteq> None"
  shows "blob_rendition L E rendition b fs \<noteq> None"
proof -
  have "rend_find 2 (be_settings E) r \<noteq> None" for r
    unfolding numeral_2_eq_2 by (rule default_found [OF assms(1)])
  then have found: "rend_find 2 (be_settings E) r = Some (the (rend_find 2 (be_settings E) r))" for r by simp
  obtain x where x: "rend_find 2 (be_settings E) (rend_name E rendition) = Some x" using found by blast
  obtain fs1 b1 im where img: "blob_is_image L E b fs = ((fs1, b1), im)" by (metis prod.collapse)
  obtain g where "generate_image_rendition L E x (join (bf_dir b) (rend_name E rendition)) b1 fs1 = Some g" using no_exn [OF x] by blast
  with x img show ?thesis by (simp add: blob_rendition_def Let_def)
qed

lemma save_effect:
  assumes run: "save L E u fs = (fs', u', b, True)" and content: "fs (up_tmp_path u) = Some c" and tmp: "up_tmp_path u \<noteq> []"
  defines "d \<equiv> dest L E (upload_ID E u)"
  shows "bf_id b = upload_ID E u" and "c \<noteq> []" and "fs' (join d master_rendition) = Some c"
    and "\<forall>p. p \<notin> {up_tmp_path u, join d master_rendition, join d ''meta.json''} \<longrightarrow> fs' p = fs p"
    and "up_tmp_path u \<notin> {join d master_rendition, join d ''meta.json''} \<Longrightarrow> fs' (up_tmp_path u) = None"
    and "up_tmp_path u' = []"
proof -
  let ?b = "\<lparr>bf_id = upload_ID E u, bf_dir = d, bf_meta = None\<rparr>"
  have open1: "mmap_open fs (up_tmp_path u) = Some c"
    using run content by (auto simp: save_def BlobFile_upload_def Let_def mmap_open_def split: option.splits if_splits)
  show "c \<noteq> []" using open1 content by (auto simp: mmap_open_def)
  obtain fs1 u1 m where mv: "upload_move E (join d master_rendition) u fs = (fs1, u1, m)" by (metis prod_cases3)
  obtain fs2 b2 where dd: "deduce_meta L E (Some c) ?b fs1 = (fs2, b2)" by fastforce
  have res: "fs' = fs2" "u' = u1" "b = b2" "m" "be_writable E d"
    using run open1 mv dd by (auto simp: save_def BlobFile_upload_def Let_def d_def split: if_splits)
  have moved: "fs1 = (fs(up_tmp_path u := None))(join d master_rendition \<mapsto> c)" "up_tmp_path u1 = []"
    using mv \<open>m\<close> content tmp by (auto simp: upload_move_def split: if_splits)
  note frame = deduce_meta_frame [OF dd]
  have ne: "join d master_rendition \<noteq> join d ''meta.json''" by (simp add: master_rendition_def)
  show "bf_id b = upload_ID E u" "up_tmp_path u' = []" using res frame moved by auto
  show "fs' (join d master_rendition) = Some c" using frame ne by (simp add: res moved)
  show "\<forall>p. p \<notin> {up_tmp_path u, join d master_rendition, join d ''meta.json''} \<longrightarrow> fs' p = fs p"
    using frame by (simp add: res moved)
  show "fs' (up_tmp_path u) = None" if "up_tmp_path u \<notin> {join d master_rendition, join d ''meta.json''}"
    using frame that by (simp add: res moved)
qed

section \<open>Properties\<close>

text \<open>Libraries for the witnesses: every file is an image, without a perceptual hash, and its digest is its first 20 bytes.\<close>

definition demo_cv :: opencv where
  "demo_cv = ref_cv\<lparr>cv_imdecode_gray := \<lambda>s. Some \<lparr>mat_type = CV_other, mat_cols = 1, mat_rows = 1, mat_data = s\<rparr>\<rparr>"

lemma demo_phash [simp]: "phash demo_cv c = None"
  by (simp add: demo_cv_def phash_def phash_mat_def phash_compute_def phash_bits_def)

definition demo_blob_env :: blob_env where
  "demo_blob_env = \<lparr>be_magic = (\<lambda>_. ''image/jpeg''), be_cv = demo_cv, be_sort = (\<lambda>ps. ps), be_exif_entry = (\<lambda>_. None),
     be_blake2 = (\<lambda>c. take 20 (c @ zero_oid)), be_writable = (\<lambda>_. True),
     be_now = 7, be_blob_path = ''/blobs'', be_settings = default_settings, be_haar_path = ''/haar''\<rparr>"

text \<open>C38: What is uploaded is what is served. When the buffers of a request were written to the temporary
  file and the blob was saved without an error, its identifier is the digest of the bytes, the
  master rendition is served with exactly these bytes under the quoted identifier as its tag, and
  the temporary file is gone.\<close>

theorem uploaded_blob_served:
  assumes "prepare_upload E tmp fs0 = (fs1, u1, True)" and "CHR ''/'' \<notin> set tmp"
    and "upload_put bufs (u1, fs1) = (u2, fs2)" and "save L E u2 fs2 = (fs3, u3, b, True)"
  shows "bf_id b = be_blake2 E (concat bufs) \<and>
    (\<exists>r. blob_response L E (bf_id b) ''master'' fs3 = Some (fs3, r) \<and> res_status r = St_ok \<and>
       res_body r = File_body (concat bufs) \<and> res_fields r ''ETag'' = Some (to_quoted_hex L (bf_id b))) \<and>
    fs3 (join (be_blob_path E) tmp) = None"
proof -
  have u1: "up_tmp_path u1 = join (be_blob_path E) tmp" "up_hashed u1 = []" "fs1 (up_tmp_path u1) = Some []"
    using assms(1) by (auto simp: prepare_upload_def upload_open_def Let_def split: if_splits)
  have u2: "u2 = u1\<lparr>up_hashed := concat bufs\<rparr>" "fs2 = fs1(up_tmp_path u1 \<mapsto> concat bufs)"
    using assms(3) upload_put_effect [of fs1 u1 "[]" bufs, OF u1(3)] u1(2) by simp_all
  have content: "fs2 (up_tmp_path u2) = Some (concat bufs)" by (simp add: u2)
  have path: "up_tmp_path u2 \<noteq> []" by (simp add: u2 u1 join_def)
  note eff = save_effect [OF assms(4) content path]
  have ID: "upload_ID E u2 = be_blake2 E (concat bufs)" by (simp add: upload_ID_def u2)
  have "up_tmp_path u2 \<noteq> join (dest L E (upload_ID E u2)) n" for n
    using plain_name_ne [OF assms(2)] by (simp add: u2 u1 dest_def Let_def)
  then have gone: "fs3 (join (be_blob_path E) tmp) = None" using eff(5) by (simp add: u2 u1)
  have alnum: "\<not> (\<exists>c \<in> set ''master''. \<not> isalpha c \<and> \<not> isdigit c)" by code_simp
  have "load_master (find_blob L E (bf_id b)) fs3 = Some (concat bufs)"
    using eff(1-3) by (simp add: load_master_def find_blob_def mmap_open_def)
  then show ?thesis using alnum eff(1) ID gone
    by (simp add: blob_response_def blob_rendition_def master_rendition_def set_cache_control_def)
qed

theorem uploaded_blob_served_witness:
  "\<exists>fs3 u3 b r. save ref_lib demo_blob_env \<lparr>up_open = True, up_tmp_path = ''/blobs/blob-1'', up_hashed = ''abcd''\<rparr>
       [''/blobs/blob-1'' \<mapsto> ''abcd''] = (fs3, u3, b, True) \<and>
     blob_response ref_lib demo_blob_env (bf_id b) ''master'' fs3 = Some (fs3, r) \<and> res_body r = File_body ''abcd''"
proof -
  let ?u = "\<lparr>up_open = True, up_tmp_path = ''/blobs/blob-1'', up_hashed = ''abcd''\<rparr>" and ?fs = "[''/blobs/blob-1'' \<mapsto> ''abcd'']"
  have prep: "prepare_upload demo_blob_env ''blob-1'' Map.empty =
      ([''/blobs/blob-1'' \<mapsto> []], \<lparr>up_open = True, up_tmp_path = ''/blobs/blob-1'', up_hashed = []\<rparr>, True)"
    by (simp add: prepare_upload_def upload_open_def demo_blob_env_def join_def Let_def)
  have put: "upload_put [''ab'', ''cd''] (\<lparr>up_open = True, up_tmp_path = ''/blobs/blob-1'', up_hashed = []\<rparr>, [''/blobs/blob-1'' \<mapsto> []]) = (?u, ?fs)"
    by (simp add: upload_put_def upload_write_def)
  have "\<exists>fs3 u3 b. save ref_lib demo_blob_env ?u ?fs = (fs3, u3, b, True)"
    by (simp add: save_def BlobFile_upload_def mmap_open_def upload_move_def demo_blob_env_def deduce_meta_def blob_master_def Let_def)
  then obtain fs3 u3 b where run: "save ref_lib demo_blob_env ?u ?fs = (fs3, u3, b, True)" by blast
  from uploaded_blob_served [OF prep _ put run] run show ?thesis by auto
qed

text \<open>C40: A request for a rendition stays in the directory of its blob: it changes no file but the
  metadata and the file of an allowed rendition there, never the original, and what it serves is the
  contents of the original or of that rendition. A name that is not alphanumeric is refused before
  any file is touched.\<close>

theorem rendition_stays_in_directory:
  assumes "blob_response L E i rendition fs = Some (fs', r)" and "m_default (be_settings E) \<noteq> ''master''"
    and "\<not> rend_valid (be_settings E) ''master''"
  shows "(\<forall>p. fs' p \<noteq> fs p \<longrightarrow> p \<in> {join (dest L E i) ''meta.json'', join (dest L E i) (rend_name E rendition)}) \<and>
    fs' (join (dest L E i) ''master'') = fs (join (dest L E i) ''master'') \<and>
    (\<forall>c. res_body r = File_body c \<longrightarrow> (\<exists>n \<in> {''master'', rend_name E rendition}. fs' (join (dest L E i) n) = Some c)) \<and>
    ((\<exists>c \<in> set rendition. \<not> isalpha c \<and> \<not> isdigit c) \<longrightarrow> fs' = fs \<and> res_status r = St_bad_request)"
proof -
  have rn: "rend_name E rendition \<noteq> ''master''" using assms(2,3) by (auto simp: rend_name_def)
  show ?thesis
  proof (cases "\<exists>c \<in> set rendition. \<not> isalpha c \<and> \<not> isdigit c")
    case True
    then show ?thesis using assms(1) by (auto simp: blob_response_def)
  next
    case False
    then obtain x where run: "blob_rendition L E rendition (find_blob L E i) fs = Some (fs', x)"
      and body: "\<And>c. res_body r = File_body c \<Longrightarrow> x = Some c"
      using assms(1) by (auto simp: blob_response_def set_cache_control_def split: option.splits if_splits)
    have d: "bf_dir (find_blob L E i) = dest L E i" by (simp add: find_blob_def)
    note frame = blob_rendition_frame [OF run, unfolded d master_rendition_def]
    have "fs' (join (dest L E i) ''master'') = fs (join (dest L E i) ''master'')"
    proof (rule ccontr)
      assume "fs' (join (dest L E i) ''master'') \<noteq> fs (join (dest L E i) ''master'')"
      then have "join (dest L E i) ''master'' \<in> {join (dest L E i) ''meta.json'', join (dest L E i) (rend_name E rendition)}"
        using frame(1) by blast
      then show False using rn by simp
    qed
    then show ?thesis using False frame body by blast
  qed
qed

theorem rendition_stays_in_directory_witness:
  "\<exists>fs' r. blob_response ref_lib demo_blob_env zero_oid ''thumbnail''
       [join (dest ref_lib demo_blob_env zero_oid) ''master'' \<mapsto> ''x''] = Some (fs', r) \<and>
     fs' (join (dest ref_lib demo_blob_env zero_oid) ''master'') = Some ''x''"
proof -
  let ?fs = "[join (dest ref_lib demo_blob_env zero_oid) ''master'' \<mapsto> ''x'']"
  have alnum: "\<not> (\<exists>c \<in> set ''thumbnail''. \<not> isalpha c \<and> \<not> isdigit c)" by code_simp
  have "m_renditions (be_settings demo_blob_env) (m_default (be_settings demo_blob_env)) \<noteq> None"
    by (simp add: demo_blob_env_def default_settings_def)
  then have "blob_rendition ref_lib demo_blob_env ''thumbnail'' (find_blob ref_lib demo_blob_env zero_oid) ?fs \<noteq> None"
    by (rule blob_rendition_returns)
      (auto simp: demo_blob_env_def default_settings_def rend_name_def rend_valid_def numeral_2_eq_2 generate_image_rendition_def
        render_image_def demo_cv_def ref_cv_def scaled_image_def scale_ratio_def split: option.splits)
  then obtain fs1 x where "blob_rendition ref_lib demo_blob_env ''thumbnail'' (find_blob ref_lib demo_blob_env zero_oid) ?fs = Some (fs1, x)"
    by fastforce
  then obtain fs' r where "blob_response ref_lib demo_blob_env zero_oid ''thumbnail'' ?fs = Some (fs', r)"
    unfolding blob_response_def if_not_P [OF alnum] by (cases x) simp_all
  then show ?thesis
    using rendition_stays_in_directory [of ref_lib demo_blob_env zero_oid "''thumbnail''" ?fs fs' r]
    by (simp add: demo_blob_env_def default_settings_def rend_valid_def)
qed

text \<open>The settings of a rendition are found when the default rendition is configured, after at most
  one further call; when it is not, the search for a name that is not configured calls itself
  forever.\<close>

theorem rendition_search_ends:
  "(m_renditions cfg (m_default cfg) \<noteq> None \<longrightarrow> (\<exists>s. \<forall>n\<ge>2. rend_find n cfg rend = Some s)) \<and>
   (m_renditions cfg (m_default cfg) = None \<longrightarrow> m_renditions cfg rend = None \<longrightarrow> (\<forall>n. rend_find n cfg rend = None))"
proof (intro conjI impI)
  assume ok: "m_renditions cfg (m_default cfg) \<noteq> None"
  have "rend_find (Suc (Suc n)) cfg rend = rend_find 2 cfg rend" for n
    using ok by (auto simp: Let_def numeral_2_eq_2 split: option.splits)
  moreover obtain s where "rend_find 2 cfg rend = Some s" using default_found [OF ok, of 0] by (auto simp: numeral_2_eq_2)
  ultimately show "\<exists>s. \<forall>n\<ge>2. rend_find n cfg rend = Some s" by (metis add_2_eq_Suc le_Suc_ex)
qed (simp add: default_not_found)

theorem rendition_search_ends_witness:
  "\<exists>s. \<forall>n\<ge>2. rend_find n default_settings ''thumbnail'' = Some s"
  using rendition_search_ends [of default_settings "''thumbnail''"] by (simp add: default_settings_def)

text \<open>The distance of two perceptual hashes counts the coefficients of the cosine transform that lie on
  different sides of the mean.\<close>

theorem phash_distance:
  assumes "opencv_laws cv" and "phash_mat cv m1 = Some h1" and "phash_mat cv m2 = Some h2"
  shows "\<exists>b1 b2. phash_bits cv m1 = Some b1 \<and> phash_bits cv m2 = Some b2 \<and>
    hamming h1 h2 = card {i. i < 64 \<and> b1 ! i \<noteq> b2 ! i} \<and> (hamming h1 h2 = 0 \<longleftrightarrow> h1 = h2)"
proof -
  obtain b1 where b1: "phash_bits cv m1 = Some b1" "\<And>i. bit h1 i \<longleftrightarrow> i < 64 \<and> b1 ! i"
    using opencv_laws.phash_mat_bits [OF assms(1,2)] by blast
  obtain b2 where b2: "phash_bits cv m2 = Some b2" "\<And>i. bit h2 i \<longleftrightarrow> i < 64 \<and> b2 ! i"
    using opencv_laws.phash_mat_bits [OF assms(1,3)] by blast
  have "hamming h1 h2 = card {i. i < 64 \<and> b1 ! i \<noteq> b2 ! i}"
    unfolding hamming_def by (subst distinct_card [symmetric]) (auto simp: b1(2) b2(2) bit_xor_iff intro: arg_cong [where f = card])
  moreover have "hamming h1 h2 = 0 \<longleftrightarrow> h1 = h2"
    by (auto simp: hamming_def filter_empty_conv bit_xor_iff intro!: bit_word_eqI)
  ultimately show ?thesis using b1(1) b2(1) by (intro exI conjI)
qed

theorem phash_distance_witness:
  "\<exists>b1 b2. phash_bits ref_cv \<lparr>mat_type = CV_8U, mat_cols = 8, mat_rows = 8, mat_data = ''ab''\<rparr> = Some b1 \<and>
    phash_bits ref_cv \<lparr>mat_type = CV_8U, mat_cols = 8, mat_rows = 8, mat_data = ''a''\<rparr> = Some b2"
proof -
  have "phash_mat ref_cv \<lparr>mat_type = CV_8U, mat_cols = 8, mat_rows = 8, mat_data = s\<rparr> \<noteq> None" for s
    by (simp add: phash_mat_def phash_compute_def phash_bits_def)
  then show ?thesis using phash_distance [OF ref_cv.opencv_laws_axioms] by fastforce
qed

end
