(* ===== verification/Session_Handler.thy ===== *)
theory Session_Handler
  imports Ownership Authentication PHash_Db URL_Intent Web_Page Blob_Store
begin

text \<open>
  \<^verbatim>\<open>src/server/hrb/SessionHandler.cc\<close> and \<^verbatim>\<open>SessionHandler.ipp\<close>: one HTTP request from its header to
  the response. A handler takes the state (the database, the files, the members \<^verbatim>\<open>m_auth\<close> and
  \<^verbatim>\<open>m_request_session_id\<close>) to the next state and the response that is passed to \<^verbatim>\<open>send\<close>. The
  callbacks of the database run at once, with a reply and without an error of the connection
  (Database_Failure has the errors). The result is \<^term>\<open>None\<close> when an exception leaves a callback, when an empty \<^verbatim>\<open>std::optional\<close> is
  dereferenced, or when a loop of the libraries below does not end.
\<close>

section \<open>State and environment\<close>

record 'db srv =
  s_db :: 'db
  s_files :: files
  s_auth :: UserID
  s_request_session :: "SessionID option"

text \<open>What a handler does not change: the libraries, the web pages, the configuration, the random
  value and the clock (in nanoseconds) of this request, the elapsed time as a \<^verbatim>\<open>double\<close> (when the
  header was seen), and a bound for \<^verbatim>\<open>HSCAN\<close>.\<close>

record 'db henv =
  h_exec :: "'db \<Rightarrow> rcmd \<Rightarrow> 'db \<times> redisReply"
  h_lib :: extlib
  h_kdf :: kdf
  h_web :: web
  h_blobs :: blob_env
  h_root :: string
  h_session_length :: int
  h_random :: SessionID
  h_now :: int
  h_elapse :: "64 word option"
  h_scan_fuel :: nat

text \<open>An exception of a library function leaves the handler.\<close>

definition of_result :: "'a result \<Rightarrow> 'a option" where
  "of_result r = (case r of Inl _ \<Rightarrow> None | Inr x \<Rightarrow> Some x)"

definition new_handler :: "'db \<Rightarrow> files \<Rightarrow> 'db srv" where
  "new_handler db fs = \<lparr>s_db = db, s_files = fs, s_auth = no_user, s_request_session = None\<rparr>"

section \<open>Requests for blobs\<close>

record BlobRequest =
  br_url :: URLIntent
  br_etag :: string
  br_body :: string

definition form_type :: string where
  "form_type = ''application/x-www-form-urlencoded''"

definition BlobRequest_of :: "'u request \<Rightarrow> URLIntent \<Rightarrow> BlobRequest" where
  "BlobRequest_of req intent =
     \<lparr>br_url = intent, br_etag = rq_fields req ''If-None-Match'',
      br_body = (case rq_body req of
        Req_string body \<Rightarrow> if rq_fields req ''Content-Type'' = form_type then body else []
      | _ \<Rightarrow> [])\<rparr>"

definition br_blob :: "extlib \<Rightarrow> BlobRequest \<Rightarrow> ObjectID option" where
  "br_blob L r = oid_from_hex L (i_filename (br_url r))"

definition br_owner :: "BlobRequest \<Rightarrow> string" where
  "br_owner r = i_user (br_url r)"

definition br_collection :: "BlobRequest \<Rightarrow> string" where
  "br_collection r = i_coll (br_url r)"

definition br_option :: "BlobRequest \<Rightarrow> string" where
  "br_option r = i_option (br_url r)"

definition request_by_owner :: "BlobRequest \<Rightarrow> UserID \<Rightarrow> bool" where
  "request_by_owner r requester \<longleftrightarrow> \<not> m_guest requester \<and> m_user requester = i_user (br_url r)"

section \<open>Responses\<close>

definition no_store :: string where
  "no_store = ''no-cache, no-store, must-revalidate''"

definition see_other :: "string \<Rightarrow> response" where
  "see_other where_to = set_field ''Location'' where_to (empty_response St_see_other)"

definition bad_request :: "string \<Rightarrow> response" where
  "bad_request why = set_field ''Content-Type'' ''text/html'' (respond St_bad_request (String_body why))"

definition server_error :: "string \<Rightarrow> response" where
  "server_error what =
     set_field ''Content-Type'' ''text/plain''
       (respond St_internal_server_error (String_body (''An error occurred: '' @ [CHR 0x27] @ what @ [CHR 0x27])))"

text \<open>The name of the user may not be UTF-8; \<^verbatim>\<open>dump\<close> throws then.\<close>

definition not_found :: "'db henv \<Rightarrow> 'db srv \<Rightarrow> response option" where
  "not_found E s =
     map_option (\<lambda>dir. web_inject (h_web E) St_not_found dir ''<meta></meta>'')
       (json_dump (h_lib E) (JObj [(''error_message'', JStr ''The request resource was not found.''),
                                    (''username'', JStr (m_user (s_auth s)))]))"

section \<open>SendJSON\<close>

text \<open>\<^verbatim>\<open>json.value(json_pointer{"/a/b"}, "")\<close>: an unresolved pointer gives the default, an array on
  the way an exception, as the token is not a number.\<close>

definition value_ptr2 :: "json \<Rightarrow> string \<Rightarrow> string \<Rightarrow> string \<Rightarrow> string result" where
  "value_ptr2 j a b d = (case j of
       JObj kvs \<Rightarrow> (case map_of kvs a of
           Some (JObj kvs2) \<Rightarrow> (case map_of kvs2 b of Some v \<Rightarrow> get_string v | None \<Rightarrow> ok d)
         | Some (JArr _) \<Rightarrow> Inl ParseError
         | _ \<Rightarrow> ok d)
     | _ \<Rightarrow> Inl TypeError)"

definition og_meta :: "string \<Rightarrow> string \<Rightarrow> string \<Rightarrow> string \<Rightarrow> string" where
  "og_meta root cover_url view_url coll =
     (let q = [CHR 0x22]; nl = [CHR 0x0A, CHR 0x09] in
      ''<meta property='' @ q @ ''og:image'' @ q @ '' content='' @ q @ root @ cover_url @ q @ ''>'' @ nl @
      ''<meta property='' @ q @ ''og:url'' @ q @ '' content='' @ q @ root @ view_url @ q @ ''>'' @ nl @
      ''<meta property='' @ q @ ''og:title'' @ q @ '' content='' @ q @ ''Hearty Rabbit: '' @ coll @ q @ ''>'' @ nl)"

text \<open>The fields that are added to every document.\<close>

definition decorate :: "'db henv \<Rightarrow> 'db srv \<Rightarrow> ObjectID option \<Rightarrow> json \<Rightarrow> json result" where
  "decorate E s blob json =
     bind_r (if \<not> m_guest (s_auth s) \<and> valid (s_auth s) then emplace ''username'' (JStr (m_user (s_auth s))) json else ok json) (\<lambda>j1.
     bind_r (if m_guest (s_auth s) then emplace ''auth'' (JStr (to_hex (h_lib E) (m_session (s_auth s)))) j1 else ok j1) (\<lambda>j2.
     bind_r (case blob of Some b \<Rightarrow> emplace ''blob'' (JStr (to_hex (h_lib E) b)) j2 | None \<Rightarrow> ok j2) (\<lambda>j3.
     case h_elapse E of Some d \<Rightarrow> emplace ''elapse'' (JFloat d) j3 | None \<Rightarrow> ok j3)))"

definition json_text :: "extlib \<Rightarrow> json \<Rightarrow> string result" where
  "json_text L j = (case json_dump L j of Some t \<Rightarrow> ok t | None \<Rightarrow> Inl TypeError)"

definition page_meta :: "'db henv \<Rightarrow> 'db srv \<Rightarrow> json \<Rightarrow> string result" where
  "page_meta E s json =
     bind_r (value_ptr2 json ''meta'' ''cover'' []) (\<lambda>meta_cover.
     bind_r (json_value get_string json ''blob'' meta_cover) (\<lambda>cover.
     bind_r (json_value get_string json ''owner'' []) (\<lambda>owner.
     bind_r (json_value get_string json ''collection'' []) (\<lambda>coll.
       let guest = (\<lambda>i. if m_guest (s_auth s) then add_option (''auth='' @ to_hex (h_lib E) (m_session (s_auth s))) i else i);
           cover_url = add_option ''rendition=thumbnail'' (guest (URLIntent_name Api owner coll cover []));
           view_url = guest (URLIntent_name View owner coll ''Hearty Rabbit'' [])
       in ok (og_meta (h_root E) (intent_str cover_url) (intent_str view_url) coll)))))"

text \<open>\<^verbatim>\<open>send_json\<close>; \<^term>\<open>page\<close> tells whether there is a page to put the document in.\<close>

definition send_json :: "'db henv \<Rightarrow> 'db srv \<Rightarrow> ObjectID option \<Rightarrow> bool \<Rightarrow> json \<Rightarrow> error_code \<Rightarrow> response result" where
  "send_json E s blob page json ec =
     (if ec \<noteq> No_error then ok (empty_response St_internal_server_error)
      else bind_r (decorate E s blob json) (\<lambda>j.
        if page then
          bind_r (page_meta E s j) (\<lambda>meta.
          bind_r (json_text (h_lib E) j) (\<lambda>text. ok (web_inject (h_web E) St_ok text meta)))
        else
          bind_r (json_text (h_lib E) j) (\<lambda>text.
            ok (set_field ''Content-Type'' ''application/json'' (respond St_ok (String_body text))))))"

text \<open>\<^verbatim>\<open>operator()\<close>: an exception, also one of the conversion to JSON, gives an error response.\<close>

definition SendJSON :: "'db henv \<Rightarrow> 'db srv \<Rightarrow> ObjectID option \<Rightarrow> bool \<Rightarrow> json result \<Rightarrow> error_code \<Rightarrow> response" where
  "SendJSON E s blob page json ec =
     (case bind_r json (\<lambda>j. send_json E s blob page j ec) of
        Inr res \<Rightarrow> res
      | Inl _ \<Rightarrow> empty_response St_internal_server_error)"

section \<open>Login and logout\<close>

definition on_login :: "'db henv \<Rightarrow> 'u request \<Rightarrow> string \<Rightarrow> 'db srv \<Rightarrow> ('db srv \<times> response) option" where
  "on_login E req body s =
     (if rq_fields req ''Content-Type'' = form_type then
        (case find_fields urlform body [''username'', ''password''] of
           [username, password] \<Rightarrow>
             (case verify_user (h_exec E) (h_kdf E) (h_random E) username password (h_session_length E) (s_db s) of
                None \<Rightarrow> None
              | Some (db, ec, session) \<Rightarrow>
                  (let st = (if ec = Hrb_error H_login_incorrect then St_forbidden
                             else if ec \<noteq> No_error then St_internal_server_error else St_no_content);
                       s1 = s\<lparr>s_db := db\<rparr>
                   in Some (if ec = No_error then s1\<lparr>s_auth := session\<rparr> else s1,
                            set_field ''Cache-Control'' no_store (empty_response st))))
         | _ \<Rightarrow> None)
      else Some (s, empty_response St_bad_request))"

definition on_logout :: "'db henv \<Rightarrow> 'db srv \<Rightarrow> ('db srv \<times> response) option" where
  "on_logout E s =
     (case destroy_session (h_exec E) (s_auth s) (s_db s) of
        (db, _) \<Rightarrow>
          Some (s\<lparr>s_db := db, s_auth := no_user\<rparr>,
                set_field ''Connection'' ''close'' (set_field ''Cache-Control'' no_store (empty_response St_ok))))"

section \<open>Changes to blobs\<close>

text \<open>\<^verbatim>\<open>unlink\<close> is called for every \<^verbatim>\<open>DELETE\<close>, also without a blob in the URL; it asserts that there is one before it
  looks at the owner.\<close>

definition unlink :: "'db henv \<Rightarrow> BlobRequest \<Rightarrow> 'db srv \<Rightarrow> ('db srv \<times> response) option" where
  "unlink E req s =
     (case br_blob (h_lib E) req of
        None \<Rightarrow> None
      | Some blob \<Rightarrow>
          if \<not> request_by_owner req (s_auth s) then Some (s, empty_response St_forbidden)
          else (case unlink_blob (h_exec E) (h_lib E) (br_owner req) (br_collection req) blob (s_db s) of
             (db, ec) \<Rightarrow>
               Some (s\<lparr>s_db := db\<rparr>, empty_response
                 (if ec = Hrb_error H_object_not_exist then St_bad_request
                  else if ec \<noteq> No_error then St_internal_server_error else St_no_content))))"

definition complete_status :: "error_code \<Rightarrow> response" where
  "complete_status ec = empty_response (if ec \<noteq> No_error then St_internal_server_error else St_no_content)"

definition post_blob :: "'db henv \<Rightarrow> BlobRequest \<Rightarrow> 'db srv \<Rightarrow> ('db srv \<times> response) option" where
  "post_blob E req s =
     (if \<not> request_by_owner req (s_auth s) then Some (s, empty_response St_forbidden)
      else case (br_blob (h_lib E) req, find_fields urlform (br_body req) [''perm'', ''move'']) of
        (Some blob, [perm_str, move_destination]) \<Rightarrow>
          if perm_str = [] \<and> move_destination = [] then Some (s, empty_response St_bad_request)
          else if perm_str \<noteq> [] then
            (case set_permission (h_exec E) (h_lib E) (br_owner req) blob (from_description perm_str) (s_db s) of
               (db, ec) \<Rightarrow> Some (s\<lparr>s_db := db\<rparr>, complete_status ec))
          else
            (case move_blob (h_exec E) (h_lib E) (br_owner req) (br_collection req) move_destination blob (s_db s) of
               (db, ec) \<Rightarrow> Some (s\<lparr>s_db := db\<rparr>, complete_status ec))
      | _ \<Rightarrow> None)"

definition on_upload :: "'db henv \<Rightarrow> UploadFile request \<Rightarrow> UploadFile \<Rightarrow> 'db srv \<Rightarrow> ('db srv \<times> UploadFile \<times> response) option" where
  "on_upload E req body s =
     (let path_url = URLIntent_of (rq_target req); L = h_lib E in
      if m_user (s_auth s) \<noteq> i_user path_url then Some (s, body, empty_response St_forbidden)
      else if \<not> up_open body then Some (s, body, empty_response St_internal_server_error)
      else if (case s_files s (up_tmp_path body) of Some c \<Rightarrow> c | None \<Rightarrow> []) = [] then
        Some (s, body, empty_response St_bad_request)
      else
        (case save L (h_blobs E) body (s_files s) of
           (fs, body1, blob, saved) \<Rightarrow>
             if \<not> saved then Some (s\<lparr>s_files := fs\<rparr>, body1, empty_response St_internal_server_error)
             else
               (let db1 = (case im_phash (meta_of blob) of
                      Some h \<Rightarrow> phash_add (h_exec E) (bf_id blob) h (s_db s) | None \<Rightarrow> s_db s);
                    entry = \<lparr>bi_perm = private_perm, bi_filename = i_filename path_url,
                             bi_mime = im_mime (meta_of blob), bi_timestamp = original_datetime blob\<rparr>;
                    location = intent_str (URLIntent_name Api (m_user (s_auth s)) (i_coll path_url) (to_hex L (bf_id blob)) [])
                in case link_blob (h_exec E) L (m_user (s_auth s)) (i_coll path_url) (bf_id blob) entry db1 of
                     Inl _ \<Rightarrow> None
                   | Inr (db2, ec) \<Rightarrow>
                       Some (s\<lparr>s_db := db2, s_files := fs\<rparr>, body1,
                         set_field ''Cache-Control'' no_store
                           (if ec = No_error then set_field ''Location'' location (empty_response St_created)
                            else empty_response St_internal_server_error)))))"

definition post_view :: "'db henv \<Rightarrow> BlobRequest \<Rightarrow> 'db srv \<Rightarrow> ('db srv \<times> response) option" where
  "post_view E req s =
     (if \<not> request_by_owner req (s_auth s) then Some (s, empty_response St_forbidden)
      else case find_fields urlform (br_body req) [''cover'', ''share''] of
        [cover, share] \<Rightarrow>
          (case oid_from_hex (h_lib E) cover of
             Some cover_blob \<Rightarrow>
               (case set_cover (h_exec E) (h_lib E) (br_owner req) (br_collection req) cover_blob (s_db s) of
                  (db, covered, ec) \<Rightarrow>
                    Some (s\<lparr>s_db := db\<rparr>, empty_response
                      (if ec \<noteq> No_error then St_internal_server_error
                       else if covered then St_no_content else St_bad_request)))
           | None \<Rightarrow>
               if share = ''create'' then
                 (case share_resource (h_exec E) (h_random E) (h_now E) (br_owner req) (br_collection req)
                         (3600 * 10 ^ 9) (s_db s) of
                    (db, auth, _) \<Rightarrow>
                      Some (s\<lparr>s_db := db\<rparr>, set_field ''Location''
                        (intent_str (URLIntent_name View (br_owner req) (br_collection req) []
                           (''auth='' @ to_hex (h_lib E) (m_session auth)))) (empty_response St_no_content)))
               else if share = ''list'' then
                 (case list_guests (h_exec E) (br_owner req) (br_collection req) (s_db s) of
                    (db, guests, _) \<Rightarrow>
                      map_option (\<lambda>text. (s\<lparr>s_db := db\<rparr>,
                          set_field ''Content-Type'' ''application/json'' (respond St_ok (String_body text))))
                        (json_dump (h_lib E) (JArr (map (\<lambda>g. JStr (to_hex (h_lib E) (m_session g))) guests))))
               else Some (s, empty_response St_bad_request))
      | _ \<Rightarrow> None)"

section \<open>Reading\<close>

text \<open>\<^verbatim>\<open>validate_collection\<close> fills in missing times, in the collection and in the database: in the
  table of the requester, whoever owns the collection.\<close>

fun validate_entries ::
  "'db henv \<Rightarrow> (ObjectID \<times> BlobInode) list \<Rightarrow> Collection \<Rightarrow> 'db srv \<Rightarrow> ('db srv \<times> Collection) option" where
  "validate_entries E [] coll s = Some (s, coll)"
| "validate_entries E ((i, entry) # entries) coll s =
     (if bi_timestamp entry = 0 then
        (let (fs, b) = update_meta (h_lib E) (h_blobs E) (find_blob (h_lib E) (h_blobs E) i) (s_files s);
             t = original_datetime b
         in case update_blob (h_exec E) (h_lib E) (m_user (s_auth s)) i (entry\<lparr>bi_timestamp := t\<rparr>) (s_db s) of
              Inl _ \<Rightarrow> None
            | Inr db \<Rightarrow> validate_entries E entries (update_timestamp i t coll) (s\<lparr>s_files := fs, s_db := db\<rparr>))
      else validate_entries E entries coll s)"

definition validate_collection :: "'db henv \<Rightarrow> Collection \<Rightarrow> 'db srv \<Rightarrow> ('db srv \<times> Collection) option" where
  "validate_collection E coll s = validate_entries E (c_blobs coll) coll s"

text \<open>The callback of \<^verbatim>\<open>get_blob\<close>.\<close>

definition get_blob_reply ::
  "'db henv \<Rightarrow> BlobRequest \<Rightarrow> ObjectID \<Rightarrow> 'db srv \<Rightarrow> BlobInodeDB \<times> string \<times> error_code \<Rightarrow> ('db srv \<times> response) option" where
  "get_blob_reply E req blob s = (\<lambda>(entry, filename, ec).
     (let L = h_lib E in
      if ec = Hrb_error H_object_not_exist then
        Some (s, empty_response (if request_by_owner req (s_auth s) then St_not_found else St_forbidden))
      else if ec \<noteq> No_error then Some (s, empty_response St_internal_server_error)
      else if \<not> allow (inodedb_permission entry) (s_auth s) (br_owner req) then
        Some (s, empty_response St_forbidden)
      else if find_optional urlform (br_option req) [''json''] \<noteq> [None] then
        (case meta_response L (h_blobs E) blob (s_files s) of (fs, res) \<Rightarrow> Some (s\<lparr>s_files := fs\<rparr>, res))
      else
        (case blob_response L (h_blobs E) blob (hd (find_fields urlform (br_option req) [''rendition''])) (s_files s) of
           None \<Rightarrow> None
         | Some (fs, res) \<Rightarrow>
             map_option (\<lambda>t. (s\<lparr>s_files := fs\<rparr>,
                 set_field ''Last-Modified'' (http_format t)
                   (set_field ''Content-Disposition'' (''inline; filename='' @ url_encode filename) res)))
               (of_result (inodedb_timestamp L entry)))))"

definition handle_get_blob :: "'db henv \<Rightarrow> BlobRequest \<Rightarrow> ObjectID \<Rightarrow> 'db srv \<Rightarrow> ('db srv \<times> response) option" where
  "handle_get_blob E req blob s =
     (let L = h_lib E in
      if br_etag req = to_quoted_hex L blob then
        Some (s, set_cache_control L blob (empty_response St_not_modified))
      else
        (case get_blob (h_exec E) (br_owner req) (br_collection req) blob (s_db s) of
           (db, reply) \<Rightarrow> get_blob_reply E req blob (s\<lparr>s_db := db\<rparr>) reply))"

definition send_collection_list :: "'db henv \<Rightarrow> string \<Rightarrow> bool \<Rightarrow> 'db srv \<Rightarrow> ('db srv \<times> response) option" where
  "send_collection_list E user page s =
     (case scan_all_collections (h_exec E) (h_lib E) (h_scan_fuel E) user (s_db s) of
        Some (db, Inr (colls, ec)) \<Rightarrow> Some (s\<lparr>s_db := db\<rparr>, SendJSON E s None page (list_to_json colls) ec)
      | _ \<Rightarrow> None)"

definition scan_collection :: "'db henv \<Rightarrow> URLIntent \<Rightarrow> 'db srv \<Rightarrow> ('db srv \<times> response) option" where
  "scan_collection E intent s =
     (case find_optional urlform (i_option intent) [''user'', ''json''] of
        [Some user, json] \<Rightarrow>
          if m_user (s_auth s) \<noteq> user then Some (s, respond St_forbidden (String_body []))
          else send_collection_list E user (json = None) s
      | _ \<Rightarrow> Some (s, bad_request ''invalid user in query''))"

text \<open>The callback of the second \<^verbatim>\<open>get_blob\<close>.\<close>

definition query_blob_reply ::
  "'db henv \<Rightarrow> ObjectID \<Rightarrow> string \<Rightarrow> 'db srv \<Rightarrow> BlobInodeDB \<times> error_code \<Rightarrow> ('db srv \<times> response) option" where
  "query_blob_reply E blob rendition s = (\<lambda>(entry, ec).
     (let L = h_lib E in
      if ec = Hrb_error H_object_not_exist then map_option (\<lambda>r. (s, r)) (not_found E s)
      else if ec \<noteq> No_error then Some (s, server_error ''internal server error'')
      else (case blob_response L (h_blobs E) blob rendition (s_files s) of
         None \<Rightarrow> None
       | Some (fs, res) \<Rightarrow>
           (case (of_result (inodedb_filename L entry), of_result (inodedb_timestamp L entry)) of
              (Some filename, Some t) \<Rightarrow>
                Some (s\<lparr>s_files := fs\<rparr>,
                  set_field ''Last-Modified'' (http_format t)
                    (set_field ''Content-Disposition'' (''inline; filename='' @ url_encode filename) res))
            | _ \<Rightarrow> None))))"

definition handle_query_blob :: "'db henv \<Rightarrow> BlobRequest \<Rightarrow> 'db srv \<Rightarrow> ('db srv \<times> response) option" where
  "handle_query_blob E req s =
     (let L = h_lib E in
      case find_fields urlform (br_option req) [''id'', ''rendition'', ''owner''] of
        [blob_arg, rendition, owner0] \<Rightarrow>
          (case oid_from_hex L blob_arg of
             None \<Rightarrow> Some (s, bad_request ''invalid blob ID'')
           | Some blob \<Rightarrow>
               (let owner = (if owner0 = [] then m_user (s_auth s) else owner0) in
                case get_inode (h_exec E) owner (s_auth s) blob (s_db s) of
                  (db, reply) \<Rightarrow> query_blob_reply E blob rendition (s\<lparr>s_db := db\<rparr>) reply))
      | _ \<Rightarrow> None)"

definition handle_list_public :: "'db henv \<Rightarrow> bool \<Rightarrow> string \<Rightarrow> 'db srv \<Rightarrow> ('db srv \<times> response) option" where
  "handle_list_public E is_json user s =
     (case list_public_blobs (h_exec E) (h_lib E) (s_db s) of
        (db, Inl _) \<Rightarrow> None
      | (db, Inr (blobs, ec)) \<Rightarrow>
          (let pub_blobs = filter (\<lambda>b. (user = [] \<or> user = b_owner b) \<and> bi_perm (b_info b) = public_perm) blobs
           in Some (s\<lparr>s_db := db\<rparr>, SendJSON E s None (\<not> is_json) (ok (elements_to_json (h_lib E) pub_blobs)) ec)))"

text \<open>The \<^verbatim>\<open>double\<close> of a small number.\<close>

fun ilog2 :: "nat \<Rightarrow> nat" where
  "ilog2 n = (if n < 2 then 0 else Suc (ilog2 (n div 2)))"

declare ilog2.simps [simp del]

definition double_of_nat :: "nat \<Rightarrow> 64 word" where
  "double_of_nat n = (if n = 0 then 0 else
     word_of_int (int ((1023 + ilog2 n) * 2 ^ 52 + (n * 2 ^ (52 - ilog2 n) - 2 ^ 52))))"

definition match_json :: "extlib \<Rightarrow> ObjectID \<times> ObjectID \<times> nat \<Rightarrow> json" where
  "match_json L = (\<lambda>(id1, id2, norm). JObj [(''ham'', JFloat (double_of_nat norm)),
     (''id1'', JStr (to_hex L id1)), (''id2'', JStr (to_hex L id2))])"

definition query_blob_set :: "'db henv \<Rightarrow> URLIntent \<Rightarrow> 'db srv \<Rightarrow> ('db srv \<times> response) option" where
  "query_blob_set E intent s =
     (case find_optional urlform (i_option intent) [''public'', ''detect_dup'', ''json''] of
        [Some pub, _, json] \<Rightarrow> handle_list_public E (json \<noteq> None) pub s
      | [None, Some dup_coll, json] \<Rightarrow>
          (case get_collection (h_exec E) (h_lib E) (m_user (s_auth s)) (s_auth s) dup_coll (s_db s) of
             (db, Inl _) \<Rightarrow> None
           | (db, Inr (coll, ec)) \<Rightarrow>
               (case find_similar (h_lib E) (h_blobs E) 10 (map fst (c_blobs coll)) (s_files s) of
                  (fs, similar) \<Rightarrow>
                    Some (s\<lparr>s_db := db, s_files := fs\<rparr>,
                      SendJSON E s None (json = None)
                        (ok (JObj [(''dups'', JArr (map (match_json (h_lib E)) similar))])) ec)))
      | _ \<Rightarrow> Some (s, bad_request ''invalid query''))"

definition on_query :: "'db henv \<Rightarrow> BlobRequest \<Rightarrow> 'db srv \<Rightarrow> ('db srv \<times> response) option" where
  "on_query E req s = (case i_query_target (br_url req) of
       QCollection \<Rightarrow> scan_collection E (br_url req) s
     | QBlob \<Rightarrow> handle_query_blob E req s
     | QBlobSet \<Rightarrow> query_blob_set E (br_url req) s
     | QNone \<Rightarrow> Some (s, bad_request ''unsupported query target''))"

section \<open>Dispatch\<close>

definition on_request_api :: "'db henv \<Rightarrow> UploadFile request \<Rightarrow> URLIntent \<Rightarrow> 'db srv \<Rightarrow> ('db srv \<times> response) option" where
  "on_request_api E req intent s =
     (let breq = BlobRequest_of req intent in
      case rq_method req of
        V_delete \<Rightarrow> unlink E breq s
      | V_get \<Rightarrow>
          (case br_blob (h_lib E) breq of
             Some blob \<Rightarrow> handle_get_blob E breq blob s
           | None \<Rightarrow>
               (case get_collection (h_exec E) (h_lib E) (br_owner breq) (s_auth s) (br_collection breq) (s_db s) of
                  (db, Inl _) \<Rightarrow> None
                | (db, Inr (coll, ec)) \<Rightarrow>
                    map_option (\<lambda>(s1, coll1). (s1, SendJSON E s1 None False (ok (coll_to_json (h_lib E) coll1)) ec))
                      (validate_collection E coll (s\<lparr>s_db := db\<rparr>))))
      | V_post \<Rightarrow> (if br_blob (h_lib E) breq \<noteq> None then post_blob E breq s else post_view E breq s)
      | _ \<Rightarrow> Some (s, empty_response St_bad_request))"

definition on_request_view :: "'db henv \<Rightarrow> UploadFile request \<Rightarrow> URLIntent \<Rightarrow> 'db srv \<Rightarrow> ('db srv \<times> response) option" where
  "on_request_view E req intent s =
     (let breq = BlobRequest_of req intent in
      if rq_method req = V_get then
        (case get_collection (h_exec E) (h_lib E) (br_owner breq) (s_auth s) (br_collection breq) (s_db s) of
           (db, Inl _) \<Rightarrow> None
         | (db, Inr (coll, ec)) \<Rightarrow>
             Some (s\<lparr>s_db := db\<rparr>, SendJSON E s (br_blob (h_lib E) breq) True (ok (coll_to_json (h_lib E) coll)) ec))
      else Some (s, empty_response St_bad_request))"

definition file_request :: "'db henv \<Rightarrow> URLIntent \<Rightarrow> string \<Rightarrow> response" where
  "file_request E intent etag =
     (if i_filename intent = ''login_incorrect.html''
      then web_inject (h_web E) St_ok (''{login_message: '' @ [CHR 0x22] @ ''Login incorrect... Try again?'' @ [CHR 0x22] @ ''}'') []
      else find_static (h_web E) (i_filename intent) etag)"

text \<open>The requests without a body.\<close>

definition on_empty_request :: "'db henv \<Rightarrow> UploadFile request \<Rightarrow> URLIntent \<Rightarrow> 'db srv \<Rightarrow> ('db srv \<times> response) option" where
  "on_empty_request E req intent s =
     (if rq_method req \<noteq> V_get then Some (s, bad_request ''unsupported HTTP method'')
      else case i_action intent of
        Lib \<Rightarrow> Some (s, file_request E intent (rq_fields req ''If-None-Match''))
      | Home \<Rightarrow> (if valid (s_auth s) then send_collection_list E (m_user (s_auth s)) True s
                  else handle_list_public E False [] s)
      | Query \<Rightarrow> on_query E (BlobRequest_of req intent) s
      | Logout \<Rightarrow> on_logout E s
      | _ \<Rightarrow> map_option (\<lambda>r. (s, r)) (not_found E s))"

text \<open>\<^verbatim>\<open>on_request_body\<close>; the request, with the temporary file of an upload, is destroyed at the
  end.\<close>

definition on_request_body :: "'db henv \<Rightarrow> UploadFile request \<Rightarrow> 'db srv \<Rightarrow> ('db srv \<times> response) option" where
  "on_request_body E req s =
     (let intent = URLIntent_of (rq_target req);
          discard = (\<lambda>(s1, r). (case rq_body req of
            Req_upload u \<Rightarrow> (s1\<lparr>s_files := upload_destroy u (s_files s1)\<rparr>, r) | _ \<Rightarrow> (s1, r)))
      in if i_action intent = Login then
           (case rq_body req of
              Req_string body \<Rightarrow> if rq_method req = V_post then on_login E req body s else Some (s, empty_response St_bad_request)
            | _ \<Rightarrow> Some (discard (s, empty_response St_bad_request)))
         else if i_action intent = View then map_option discard (on_request_view E req intent s)
         else if i_action intent = Api then map_option discard (on_request_api E req intent s)
         else case rq_body req of
           Req_empty \<Rightarrow> on_empty_request E req intent s
         | Req_upload u \<Rightarrow>
             if i_action intent = Upload then
               map_option (\<lambda>(s1, u1, r). (s1\<lparr>s_files := upload_destroy u1 (s_files s1)\<rparr>, r)) (on_upload E req u s)
             else map_option (\<lambda>r. discard (s, r)) (not_found E s)
         | Req_string _ \<Rightarrow> map_option (\<lambda>r. (s, r)) (not_found E s))"

section \<open>The header\<close>

datatype RequestBodyType = RB_string | RB_upload | RB_empty

definition body_type_for :: "error_code \<Rightarrow> Action \<Rightarrow> verb \<Rightarrow> RequestBodyType" where
  "body_type_for ec action method =
     (if ec = No_error \<and> action = Upload \<and> method = V_put then RB_upload
      else if ec = No_error \<and> action = Api \<and> method = V_post then RB_string
      else RB_empty)"

definition on_request_header ::
  "'db henv \<Rightarrow> 'u request \<Rightarrow> 'db srv \<Rightarrow> ('db srv \<times> RequestBodyType \<times> error_code) option" where
  "on_request_header E header s0 =
     (let intent = URLIntent_of (rq_target header); L = h_lib E in
      if i_action intent = Login then Some (s0, RB_string, No_error)
      else
        (let s = s0\<lparr>s_request_session := parse_cookie L (Cookie (rq_fields header ''Cookie''))\<rparr>
         in case s_request_session s of
              None \<Rightarrow>
                (case hex_to_array L SessionID_size (hd (find_fields urlform (i_option intent) [''auth''])) of
                   Some auth_key \<Rightarrow>
                     if rq_method header = V_get then
                       (let auth = UserID_of auth_key (i_user intent) True
                        in case is_shared_resource (h_exec E) (h_now E sdiv 10 ^ 9) auth (i_coll intent) (s_db s) of
                             None \<Rightarrow> None
                           | Some (db, shared, err) \<Rightarrow>
                               Some (if err = No_error \<and> shared then s\<lparr>s_db := db, s_auth := auth\<rparr> else s\<lparr>s_db := db\<rparr>,
                                     RB_empty, err))
                     else Some (s, RB_empty, No_error)
                 | None \<Rightarrow> Some (s, RB_empty, No_error))
            | Some session \<Rightarrow>
                (case verify_session (h_exec E) (h_random E) session (h_session_length E) (s_db s) of
                   (db, ec, auth) \<Rightarrow>
                     Some (s\<lparr>s_db := db, s_auth := auth\<rparr>, body_type_for ec (i_action intent) (rq_method header), ec))))"

definition renewed_auth :: "'db srv \<Rightarrow> bool" where
  "renewed_auth s = (case s_request_session s of
       Some session \<Rightarrow> session \<noteq> m_session (s_auth s)
     | None \<Rightarrow> valid (s_auth s) \<and> \<not> m_guest (s_auth s))"

end
