(* ===== verification/Script_Logic.thy ===== *)
theory Script_Logic
  imports Redis_Server
begin

text \<open>
  A weakest-precondition calculus for the scripts. \<^term>\<open>wp view m V Q\<close> says that the script
  \<^term>\<open>m\<close>, run on any state of the server whose view is \<^term>\<open>V\<close>, ends with a result (a value or an
  error) and a view for which \<^term>\<open>Q\<close> holds. The rules of the commands come from the laws of
  the server; the simplifier and \<^verbatim>\<open>intro\<close> then walk through a script.
\<close>

definition wp :: "('db \<Rightarrow> string \<Rightarrow> rvalue) \<Rightarrow> ('db, 'a) script \<Rightarrow> (string \<Rightarrow> rvalue) \<Rightarrow>
    (string + 'a \<Rightarrow> (string \<Rightarrow> rvalue) \<Rightarrow> bool) \<Rightarrow> bool" where
  "wp view m V Q \<longleftrightarrow> (\<forall>db. view db = V \<longrightarrow> Q (snd (m db)) (view (fst (m db))))"

text \<open>A view as a server has it: no empty aggregate and only finite ones.\<close>

definition wf_view :: "(string \<Rightarrow> rvalue) \<Rightarrow> bool" where
  "wf_view V \<longleftrightarrow> (\<forall>k. V k \<noteq> Hash Map.empty \<and> V k \<noteq> MemberSet {} \<and> V k \<noteq> Queue [])"

lemma wp_ret: "Q (Inr x) V \<Longrightarrow> wp view (ret x) V Q"
  by (simp add: wp_def ret_def)

lemma wp_raise: "Q (Inl e) V \<Longrightarrow> wp view (raise e) V Q"
  by (simp add: wp_def raise_def)

lemma wp_mono: "wp view m V Q \<Longrightarrow> (\<And>r W. Q r W \<Longrightarrow> R r W) \<Longrightarrow> wp view m V R"
  by (auto simp: wp_def)

text \<open>The continuation of a script: an error stops it.\<close>

definition andthen :: "('db \<Rightarrow> string \<Rightarrow> rvalue) \<Rightarrow> ('a \<Rightarrow> ('db, 'b) script) \<Rightarrow>
    (string + 'b \<Rightarrow> (string \<Rightarrow> rvalue) \<Rightarrow> bool) \<Rightarrow> string + 'a \<Rightarrow> (string \<Rightarrow> rvalue) \<Rightarrow> bool" where
  "andthen view f Q r V = (case r of Inl e \<Rightarrow> Q (Inl e) V | Inr x \<Rightarrow> wp view (f x) V Q)"

lemma andthen_simps [simp]:
  "andthen view f Q (Inl e) V = Q (Inl e) V" "andthen view f Q (Inr x) V = wp view (f x) V Q"
  by (simp_all add: andthen_def)

lemma wp_seq: "wp view m V (andthen view f Q) \<Longrightarrow> wp view (seq m f) V Q"
  by (fastforce simp: wp_def seq_def andthen_def split: prod.splits sum.splits)

lemma wp_if: "(b \<Longrightarrow> wp view m V Q) \<Longrightarrow> (\<not> b \<Longrightarrow> wp view m' V Q) \<Longrightarrow> wp view (if b then m else m') V Q"
  by simp

lemma wp_for_each:
  assumes "\<And>x Q. x \<in> set xs \<Longrightarrow> Q (Inr (g x)) V \<Longrightarrow> wp view (f x) V Q"
    and "Q (Inr (map g xs)) V"
  shows "wp view (for_each xs f) V Q"
  using assms
proof (induction xs arbitrary: Q)
  case Nil
  then show ?case by (simp add: wp_ret)
next
  case (Cons x xs)
  have "wp view (for_each xs f) V R" if "R (Inr (map g xs)) V" for R
    using Cons.prems(1) that by (intro Cons.IH) auto
  note rest = this
  have "wp view (seq (for_each xs f) (\<lambda>ys. ret (g x # ys))) V Q"
    using Cons.prems(2) by (auto intro!: wp_seq rest wp_ret)
  then show ?case using Cons.prems(1) [of x] by (auto intro!: wp_seq)
qed

text \<open>Running a script with \<^verbatim>\<open>EVAL\<close>.\<close>

lemma eval_cases:
  obtains (returns) r where "snd (m db) = Inr r" "eval m db = (fst (m db), r)"
  | (stops) e where "snd (m db) = Inl e" "eval m db = (fst (m db), RError e)"
  by (cases "m db"; cases "snd (m db)") (auto simp: eval_def)

definition reply_result :: "string + redisReply \<Rightarrow> redisReply" where
  "reply_result r = (case r of Inl e \<Rightarrow> RError e | Inr x \<Rightarrow> x)"

lemma eval_wp:
  assumes "wp view m (view db) Q"
  shows "\<exists>r. Q r (view (fst (eval m db))) \<and> snd (eval m db) = reply_result r"
  using assms by (cases rule: eval_cases [of m db])
    (auto simp: wp_def reply_result_def intro: exI [of _ "snd (m db)"])

lemma wp_call:
  assumes "\<And>db. view db = V \<Longrightarrow> \<exists>r W. view (fst (exec db c)) = W \<and> snd (exec db c) = r \<and> (\<forall>e. r \<noteq> RError e) \<and> Q (Inr r) W"
  shows "wp view (call exec c) V Q"
  unfolding wp_def
proof (intro allI impI)
  fix db
  assume "view db = V"
  from assms [OF this] have "\<forall>e. snd (exec db c) \<noteq> RError e" and q: "Q (Inr (snd (exec db c))) (view (fst (exec db c)))"
    by auto
  from call_ok [of exec db c, OF this(1)] q show "Q (snd (call exec c db)) (view (fst (call exec c db)))" by simp
qed

context redis_server
begin

lemma wf_view_view: "wf_view (view db)"
  using view_hash view_set view_list by (simp add: wf_view_def)

lemma wp_HSET: "is_hash (V k) \<Longrightarrow>
  Q (Inr (RInteger (if hash_of (V k) f = None then 1 else 0))) (V(k := Hash ((hash_of (V k))(f \<mapsto> v)))) \<Longrightarrow>
  wp view (call exec (HSET k f v)) V Q"
  by (rule wp_call) (auto simp: HSET_view HSET_reply)

lemma wp_HSETNX: "is_hash (V k) \<Longrightarrow>
  (hash_of (V k) f = None \<Longrightarrow> Q (Inr (RInteger 1)) (V(k := Hash ((hash_of (V k))(f \<mapsto> v))))) \<Longrightarrow>
  (hash_of (V k) f \<noteq> None \<Longrightarrow> Q (Inr (RInteger 0)) V) \<Longrightarrow>
  wp view (call exec (HSETNX k f v)) V Q"
  by (rule wp_call) (auto simp: HSETNX_view HSETNX_reply)

lemma wp_HGET: "is_hash (V k) \<Longrightarrow> Q (Inr (bulk (hash_of (V k) f))) V \<Longrightarrow> wp view (call exec (HGET k f)) V Q"
  by (rule wp_call) (auto simp: HGET_view HGET_reply)

lemma wp_HDEL: "is_hash (V k) \<Longrightarrow>
  Q (Inr (RInteger (if hash_of (V k) f = None then 0 else 1))) (V(k := mk_hash ((hash_of (V k))(f := None)))) \<Longrightarrow>
  wp view (call exec (HDEL k f)) V Q"
  by (rule wp_call) (auto simp: HDEL_view HDEL_reply)

lemma wp_HEXISTS: "is_hash (V k) \<Longrightarrow>
  Q (Inr (RInteger (if hash_of (V k) f = None then 0 else 1))) V \<Longrightarrow> wp view (call exec (HEXISTS k f)) V Q"
  by (rule wp_call) (auto simp: HEXISTS_view HEXISTS_reply)

lemma wp_HKEYS: "is_hash (V k) \<Longrightarrow>
  (\<And>ks. set ks = dom (hash_of (V k)) \<Longrightarrow> distinct ks \<Longrightarrow> Q (Inr (RArray (map RString ks))) V) \<Longrightarrow>
  wp view (call exec (HKEYS k)) V Q"
proof (rule wp_call)
  fix db
  assume "is_hash (V k)" and q: "\<And>ks. set ks = dom (hash_of (V k)) \<Longrightarrow> distinct ks \<Longrightarrow> Q (Inr (RArray (map RString ks))) V"
    and v: "view db = V"
  with HKEYS_reply [of db k] obtain ks where "snd (exec db (HKEYS k)) = RArray (map RString ks)"
    "set ks = dom (hash_of (V k))" "distinct ks" by auto
  with q v show "\<exists>r W. view (fst (exec db (HKEYS k))) = W \<and> snd (exec db (HKEYS k)) = r \<and> (\<forall>e. r \<noteq> RError e) \<and> Q (Inr r) W"
    by (auto simp: HKEYS_view)
qed

lemma wp_HGETALL: "is_hash (V k) \<Longrightarrow>
  (\<And>kvs. map_of kvs = hash_of (V k) \<Longrightarrow> distinct (map fst kvs) \<Longrightarrow> Q (Inr (RArray (alternate kvs))) V) \<Longrightarrow>
  wp view (call exec (HGETALL k)) V Q"
proof (rule wp_call)
  fix db
  assume "is_hash (V k)" and q: "\<And>kvs. map_of kvs = hash_of (V k) \<Longrightarrow> distinct (map fst kvs) \<Longrightarrow> Q (Inr (RArray (alternate kvs))) V"
    and v: "view db = V"
  with HGETALL_reply [of db k] obtain kvs where "snd (exec db (HGETALL k)) = RArray (alternate kvs)"
    "map_of kvs = hash_of (V k)" "distinct (map fst kvs)" by auto
  with q v show "\<exists>r W. view (fst (exec db (HGETALL k))) = W \<and> snd (exec db (HGETALL k)) = r \<and> (\<forall>e. r \<noteq> RError e) \<and> Q (Inr r) W"
    by (auto simp: HGETALL_view)
qed

lemma wp_SADD: "is_set (V k) \<Longrightarrow>
  Q (Inr (RInteger (if x \<in> set_of (V k) then 0 else 1))) (V(k := MemberSet (insert x (set_of (V k))))) \<Longrightarrow>
  wp view (call exec (SADD k x)) V Q"
  by (rule wp_call) (auto simp: SADD_view SADD_reply)

lemma wp_SREM: "is_set (V k) \<Longrightarrow>
  Q (Inr (RInteger (if x \<in> set_of (V k) then 1 else 0))) (V(k := mk_set (set_of (V k) - {x}))) \<Longrightarrow>
  wp view (call exec (SREM k x)) V Q"
  by (rule wp_call) (auto simp: SREM_view SREM_reply)

lemma wp_SMEMBERS: "is_set (V k) \<Longrightarrow>
  (\<And>ms. set ms = set_of (V k) \<Longrightarrow> distinct ms \<Longrightarrow> Q (Inr (RArray (map RString ms))) V) \<Longrightarrow>
  wp view (call exec (SMEMBERS k)) V Q"
proof (rule wp_call)
  fix db
  assume "is_set (V k)" and q: "\<And>ms. set ms = set_of (V k) \<Longrightarrow> distinct ms \<Longrightarrow> Q (Inr (RArray (map RString ms))) V"
    and v: "view db = V"
  with SMEMBERS_reply [of db k] obtain ms where "snd (exec db (SMEMBERS k)) = RArray (map RString ms)"
    "set ms = set_of (V k)" "distinct ms" by auto
  with q v show "\<exists>r W. view (fst (exec db (SMEMBERS k))) = W \<and> snd (exec db (SMEMBERS k)) = r \<and> (\<forall>e. r \<noteq> RError e) \<and> Q (Inr r) W"
    by (auto simp: SMEMBERS_view)
qed

lemma wp_SRANDMEMBER: "is_set (V k) \<Longrightarrow> set_of (V k) \<noteq> {} \<Longrightarrow>
  (\<And>x. x \<in> set_of (V k) \<Longrightarrow> Q (Inr (RString x)) V) \<Longrightarrow> wp view (call exec (SRANDMEMBER k)) V Q"
proof (rule wp_call)
  fix db
  assume "is_set (V k)" "set_of (V k) \<noteq> {}" and q: "\<And>x. x \<in> set_of (V k) \<Longrightarrow> Q (Inr (RString x)) V"
    and v: "view db = V"
  with SRANDMEMBER_reply [of db k] obtain x where "snd (exec db (SRANDMEMBER k)) = RString x"
    "x \<in> set_of (V k)" by auto
  with q v show "\<exists>r W. view (fst (exec db (SRANDMEMBER k))) = W \<and> snd (exec db (SRANDMEMBER k)) = r \<and> (\<forall>e. r \<noteq> RError e) \<and> Q (Inr r) W"
    by (auto simp: SRANDMEMBER_view)
qed

lemma wp_EXISTS: "Q (Inr (RInteger (if V k = Missing then 0 else 1))) V \<Longrightarrow> wp view (call exec (EXISTS k)) V Q"
  by (rule wp_call) (auto simp: EXISTS_view EXISTS_reply)

lemma wp_LREM: "is_list (V k) \<Longrightarrow>
  Q (Inr (RInteger (int (length (filter (\<lambda>x. x = v) (list_of (V k)))))))
    (V(k := mk_list (filter (\<lambda>x. x \<noteq> v) (list_of (V k))))) \<Longrightarrow> wp view (call exec (LREM k v)) V Q"
  by (rule wp_call) (auto simp: LREM_view LREM_reply)

lemma wp_RPUSH: "is_list (V k) \<Longrightarrow>
  Q (Inr (RInteger (int (length (list_of (V k)) + 1)))) (V(k := Queue (list_of (V k) @ [v]))) \<Longrightarrow>
  wp view (call exec (RPUSH k v)) V Q"
  by (rule wp_call) (auto simp: RPUSH_view RPUSH_reply)

lemma wp_LPOP: "is_list (V k) \<Longrightarrow>
  Q (Inr (case list_of (V k) of [] \<Rightarrow> RNil | x # _ \<Rightarrow> RString x)) (V(k := mk_list (tl (list_of (V k))))) \<Longrightarrow>
  wp view (call exec (LPOP k)) V Q"
  by (rule wp_call) (auto simp: LPOP_view LPOP_reply split: list.splits)

lemma wp_LRANGE: "is_list (V k) \<Longrightarrow> Q (Inr (RArray (map RString (list_of (V k))))) V \<Longrightarrow>
  wp view (call exec (LRANGE k)) V Q"
  by (rule wp_call) (auto simp: LRANGE_view LRANGE_reply)

lemma wp_GET: "is_str (V k) \<Longrightarrow> Q (Inr (bulk (str_of (V k)))) V \<Longrightarrow> wp view (call exec (GET k)) V Q"
  by (rule wp_call) (auto simp: GET_view GET_reply)

lemma wp_SETEX: "0 < n \<Longrightarrow> Q (Inr (RStatus ''OK'')) (V(k := Str v)) \<Longrightarrow> wp view (call exec (SETEX k v n)) V Q"
  by (rule wp_call) (auto simp: SETEX_view SETEX_reply)

lemmas wp_commands = wp_HSET wp_HSETNX wp_HGET wp_HDEL wp_HEXISTS wp_HKEYS wp_HGETALL wp_SADD wp_SREM
  wp_SMEMBERS wp_EXISTS wp_LREM wp_RPUSH wp_LPOP wp_LRANGE wp_GET wp_SETEX

lemmas wp_rules = wp_seq wp_ret wp_raise wp_if wp_commands

end

end
