(* ===== verification/Ownership_Library.thy ===== *)
theory Ownership_Library
  imports Ownership Script_Logic
begin

text \<open>
  What the commands of \<^verbatim>\<open>Ownership\<close> do to the library that the database holds: for each user the
  entries of the collections, the list of collections with their covers and the inodes, the two
  reverse indexes (the collections that refer to a blob, the owners of a blob) and the list of
  public blobs. \<^term>\<open>library V\<close> reads it from the keys; each command is shown to change it as the
  function of the same name below says, and the invariant \<^verbatim>\<open>consistent\<close> ties the indexes to the
  entries.
\<close>

section \<open>The library in the keys\<close>

record lib =
  lb_refs :: "string \<Rightarrow> ObjectID \<Rightarrow> string set"
  lb_owners :: "ObjectID \<Rightarrow> string set"
  lb_inodes :: "string \<Rightarrow> ObjectID \<rightharpoonup> string"
  lb_entries :: "string \<Rightarrow> string \<Rightarrow> ObjectID \<rightharpoonup> string"
  lb_albums :: "string \<Rightarrow> string \<rightharpoonup> string"
  lb_public :: "string list"

definition library :: "(string \<Rightarrow> rvalue) \<Rightarrow> lib" where
  "library V = \<lparr>
     lb_refs = (\<lambda>u b. if wf_oid b then set_of (V (key_blob_refs u b)) else {}),
     lb_owners = (\<lambda>b. set_of (V (key_blob_owners b))),
     lb_inodes = (\<lambda>u. hash_of (V (key_blob_inode u))),
     lb_entries = (\<lambda>u c. if plain_user u then hash_of (V (key_collection u c)) else Map.empty),
     lb_albums = (\<lambda>u. hash_of (V (key_collection_list u))),
     lb_public = list_of (V key_public_blobs)\<rparr>"

text \<open>Every key holds the type that the commands expect.\<close>

definition typed :: "(string \<Rightarrow> rvalue) \<Rightarrow> bool" where
  "typed V \<longleftrightarrow> (\<forall>u b. is_set (V (key_blob_refs u b))) \<and> (\<forall>b. is_set (V (key_blob_owners b))) \<and>
     (\<forall>u. is_hash (V (key_blob_inode u))) \<and> (\<forall>u c. is_hash (V (key_collection u c))) \<and>
     (\<forall>u. is_hash (V (key_collection_list u))) \<and> is_list (V key_public_blobs)"

definition upd2 :: "('a \<Rightarrow> 'b \<Rightarrow> 'c) \<Rightarrow> 'a \<Rightarrow> 'b \<Rightarrow> 'c \<Rightarrow> 'a \<Rightarrow> 'b \<Rightarrow> 'c" where
  "upd2 f x y v = f(x := (f x)(y := v))"

lemma upd2_apply [simp]: "upd2 f x y v x' y' = (if x' = x \<and> y' = y then v else f x' y')"
  by (simp add: upd2_def)

lemma typedD:
  assumes "typed V"
  shows "is_set (V (key_blob_refs u b))" "is_set (V (key_blob_owners b))" "is_hash (V (key_blob_inode u))"
    "is_hash (V (key_collection u c))" "is_hash (V (key_collection_list u))" "is_list (V key_public_blobs)"
  using assms by (simp_all add: typed_def)

lemma typed_upd [simp]:
  "typed V \<Longrightarrow> is_set x \<Longrightarrow> typed (V(key_blob_refs u b := x))"
  "typed V \<Longrightarrow> is_set x \<Longrightarrow> typed (V(key_blob_owners b := x))"
  "typed V \<Longrightarrow> is_hash x \<Longrightarrow> typed (V(key_blob_inode u := x))"
  "typed V \<Longrightarrow> is_hash x \<Longrightarrow> typed (V(key_collection u c := x))"
  "typed V \<Longrightarrow> is_hash x \<Longrightarrow> typed (V(key_collection_list u := x))"
  "typed V \<Longrightarrow> is_list x \<Longrightarrow> typed (V(key_public_blobs := x))"
  by (auto simp: typed_def keys_distinct)

lemma library_sel:
  "wf_oid b \<Longrightarrow> lb_refs (library V) u b = set_of (V (key_blob_refs u b))"
  "lb_owners (library V) b = set_of (V (key_blob_owners b))"
  "lb_inodes (library V) u = hash_of (V (key_blob_inode u))"
  "plain_user u \<Longrightarrow> lb_entries (library V) u c = hash_of (V (key_collection u c))"
  "lb_albums (library V) u = hash_of (V (key_collection_list u))"
  "lb_public (library V) = list_of (V key_public_blobs)"
  by (simp_all add: library_def)

lemma library_upd:
  "wf_oid b \<Longrightarrow> library (V(key_blob_refs u b := x)) =
     (library V)\<lparr>lb_refs := upd2 (lb_refs (library V)) u b (set_of x)\<rparr>"
  "library (V(key_blob_owners b := x)) = (library V)\<lparr>lb_owners := (lb_owners (library V))(b := set_of x)\<rparr>"
  "library (V(key_blob_inode u := x)) = (library V)\<lparr>lb_inodes := (lb_inodes (library V))(u := hash_of x)\<rparr>"
  "plain_user u \<Longrightarrow> library (V(key_collection u c := x)) =
     (library V)\<lparr>lb_entries := upd2 (lb_entries (library V)) u c (hash_of x)\<rparr>"
  "library (V(key_collection_list u := x)) = (library V)\<lparr>lb_albums := (lb_albums (library V))(u := hash_of x)\<rparr>"
  "library (V(key_public_blobs := x)) = (library V)\<lparr>lb_public := list_of x\<rparr>"
  by (auto simp: library_def key_simps fun_eq_iff upd2_def)

section \<open>The effect of each command\<close>

definition l_link :: "extlib \<Rightarrow> string \<Rightarrow> string \<Rightarrow> ObjectID \<Rightarrow> string \<Rightarrow> string \<Rightarrow> lib \<Rightarrow> lib" where
  "l_link L u c b raw name S = S\<lparr>
     lb_refs := upd2 (lb_refs S) u b (insert c (lb_refs S u b)),
     lb_owners := (lb_owners S)(b := insert u (lb_owners S b)),
     lb_inodes := (if lb_inodes S u b = None then upd2 (lb_inodes S) u b (Some raw) else lb_inodes S),
     lb_entries := upd2 (lb_entries S) u c ((lb_entries S u c)(b \<mapsto> name)),
     lb_albums := (if lb_albums S u c = None
       then upd2 (lb_albums S) u c (Some (cjson_encode L (cover_json (to_hex L b)))) else lb_albums S)\<rparr>"

definition l_move :: "extlib \<Rightarrow> string \<Rightarrow> string \<Rightarrow> string \<Rightarrow> ObjectID \<Rightarrow> string \<Rightarrow> lib \<Rightarrow> lib" where
  "l_move L u src dest b name S =
     (let E = upd2 (lb_entries S) u dest ((lb_entries S u dest)(b \<mapsto> name)) in S\<lparr>
     lb_refs := upd2 (lb_refs S) u b (insert dest (lb_refs S u b) - {src}),
     lb_entries := upd2 E u src ((E u src)(b := None)),
     lb_albums := (if lb_albums S u dest = None
       then upd2 (lb_albums S) u dest (Some (cjson_encode L (cover_json (to_hex L b)))) else lb_albums S)\<rparr>)"

text \<open>Dropping a blob that no collection of the user refers to any more.\<close>

definition l_forget :: "extlib \<Rightarrow> string \<Rightarrow> ObjectID \<Rightarrow> lib \<Rightarrow> lib" where
  "l_forget L u b S = S\<lparr>
     lb_owners := (lb_owners S)(b := lb_owners S b - {u}),
     lb_inodes := upd2 (lb_inodes S) u b None,
     lb_public := filter (\<lambda>x. x \<noteq> msgpack_pack L u b) (lb_public S)\<rparr>"

text \<open>The entry of a collection in the list after a blob is gone: none for an empty collection, a
  remaining blob when the blob was the cover.\<close>

definition album_after :: "extlib \<Rightarrow> ObjectID \<Rightarrow> (ObjectID \<rightharpoonup> string) \<Rightarrow> string option \<Rightarrow> string option \<Rightarrow> bool" where
  "album_after L b E old new \<longleftrightarrow>
     (if E = Map.empty then new = None
      else if old = Some (cjson_encode L (cover_json (to_hex L b)))
      then \<exists>k \<in> dom E. new = Some (cjson_encode L (cover_json (to_hex L k)))
      else new = old)"

definition l_unlink :: "extlib \<Rightarrow> string \<Rightarrow> string \<Rightarrow> ObjectID \<Rightarrow> string option \<Rightarrow> lib \<Rightarrow> lib" where
  "l_unlink L u c b album S =
     (let S1 = S\<lparr>lb_refs := upd2 (lb_refs S) u b (lb_refs S u b - {c})\<rparr>;
          S2 = (if lb_refs S u b - {c} = {} then l_forget L u b S1 else S1)
      in S2\<lparr>lb_entries := upd2 (lb_entries S) u c ((lb_entries S u c)(b := None)),
            lb_albums := upd2 (lb_albums S) u c album\<rparr>)"

definition last_100 :: "'a list \<Rightarrow> 'a list" where
  "last_100 xs = (if 100 < length xs then tl xs else xs)"

definition l_set_permission :: "extlib \<Rightarrow> string \<Rightarrow> ObjectID \<Rightarrow> char \<Rightarrow> string \<Rightarrow> lib \<Rightarrow> lib" where
  "l_set_permission L u b p raw S =
     (let pub = filter (\<lambda>x. x \<noteq> msgpack_pack L u b) (lb_public S) in S\<lparr>
     lb_inodes := upd2 (lb_inodes S) u b (Some (p # drop 1 raw)),
     lb_public := (if p = CHR ''*'' then last_100 (pub @ [msgpack_pack L u b]) else pub)\<rparr>)"

definition l_set_cover :: "extlib \<Rightarrow> string \<Rightarrow> string \<Rightarrow> ObjectID \<Rightarrow> lib \<Rightarrow> lib" where
  "l_set_cover L u c b S =
     S\<lparr>lb_albums := upd2 (lb_albums S) u c (Some (cjson_encode L (cover_json (to_hex L b))))\<rparr>"

definition l_rename :: "string \<Rightarrow> string \<Rightarrow> ObjectID \<Rightarrow> string \<Rightarrow> lib \<Rightarrow> lib" where
  "l_rename u c b name S = S\<lparr>lb_entries := upd2 (lb_entries S) u c ((lb_entries S u c)(b \<mapsto> name))\<rparr>"

section \<open>The commands have these effects\<close>

context redis_server
begin

lemma wp_link:
  assumes V: "typed V" and u: "plain_user u" and b: "wf_oid b" and raw: "raw \<noteq> []"
  shows "wp view (link_script exec L u c b raw name) V
    (\<lambda>r W. r = Inr RNil \<and> typed W \<and> library W = l_link L u c b raw name (library V))"
  unfolding link_script_def Let_def using assms
  by (auto intro!: wp_rules simp: typedD [OF V] key_simps library_upd library_sel l_link_def upd2_def)

lemma wp_move:
  assumes V: "typed V" and u: "plain_user u" and b: "wf_oid b"
    and name: "lb_entries (library V) u src b = Some name"
  shows "wp view (move_command exec L u src dest b) V
    (\<lambda>r W. r = Inr RNil \<and> typed W \<and> library W = l_move L u src dest b name (library V))"
  unfolding move_command_def Let_def using assms
  by (auto intro!: wp_rules simp: typedD [OF V] key_simps library_upd library_sel l_move_def Let_def
      bulk_def lua_string_def upd2_def insert_Diff_if)

text \<open>When the blob is not in the source collection the script stops, and the two changes of the
  reverse index stay.\<close>

lemma wp_move_missing:
  assumes V: "typed V" and u: "plain_user u" and b: "wf_oid b"
    and none: "lb_entries (library V) u src b = None"
  shows "wp view (move_command exec L u src dest b) V
    (\<lambda>r W. (\<exists>e. r = Inl e) \<and> typed W \<and> library W = (library V)\<lparr>
       lb_refs := upd2 (lb_refs (library V)) u b (insert dest (lb_refs (library V) u b) - {src})\<rparr>)"
  unfolding move_command_def Let_def using assms
  by (auto intro!: wp_rules simp: typedD [OF V] key_simps library_upd library_sel
      bulk_def lua_string_def upd2_def insert_Diff_if)

lemma wp_set_permission:
  assumes V: "typed V" and raw: "lb_inodes (library V) u b = Some raw"
  shows "wp view (set_permission_command exec L u b p) V
    (\<lambda>r W. r = Inr RNil \<and> typed W \<and> library W = l_set_permission L u b (perm p) raw (library V))"
  unfolding set_permission_command_def Let_def using assms
  by (auto intro!: wp_rules simp: typedD [OF V] key_simps library_upd library_sel l_set_permission_def
      Let_def bulk_def lua_string_def upd2_def last_100_def as_int_def)

lemma wp_set_permission_missing:
  assumes V: "typed V" and raw: "lb_inodes (library V) u b = None"
  shows "wp view (set_permission_command exec L u b p) V (\<lambda>r W. (\<exists>e. r = Inl e) \<and> W = V)"
  unfolding set_permission_command_def Let_def using assms
  by (auto intro!: wp_rules simp: typedD [OF V] library_sel bulk_def lua_string_def)

end

text \<open>A server together with the libraries that its scripts and the program use.\<close>

locale ownership_server =
  redis_server exec view ttl + hex_codec L + json_codec L + msgpack_codec L
  for exec :: "'db \<Rightarrow> rcmd \<Rightarrow> 'db \<times> redisReply" and view and ttl and L
begin

lemma lua_tohex_to_hex: "lua_tohex b = to_hex L b"
  by (simp add: lua_tohex_def to_hex_def hex_lower_bytes)

lemma cover_json_safe: "wf_json (cover_json h)" "lua_safe (cover_json h)"
  by (simp_all add: cover_json_def)

lemma decode_cover [simp]: "cjson_decode L (cjson_encode L (cover_json h)) = Some (cover_json h)"
  using cover_json_safe by (rule cjson_decode_encode)

lemma encode_cover_inject [simp]:
  "cjson_encode L (cover_json h) = cjson_encode L (cover_json h') \<longleftrightarrow> h = h'"
proof
  assume "cjson_encode L (cover_json h) = cjson_encode L (cover_json h')"
  then have "cover_json h = cover_json h'" by (metis decode_cover option.inject)
  then show "h = h'" by (simp add: cover_json_def)
qed simp

lemma lua_decode_cover [simp]: "lua_decode L (Some (cjson_encode L (cover_json h))) = ret (cover_json h)"
  by (simp add: lua_decode_def)

lemma cover_is_cover [simp]: "cover_is (cover_json h) h' \<longleftrightarrow> h = h'"
  by (simp add: cover_is_def cover_json_def)

lemma assign_cover_cover [simp]: "assign_cover (cover_json h) h' = ret (cover_json h')"
  by (simp add: assign_cover_def cover_json_def)

lemma wp_set_cover:
  assumes V: "typed V" and u: "plain_user u"
    and album: "lb_albums (library V) u c = Some (cjson_encode L (cover_json h))"
    and b: "lb_entries (library V) u c b \<noteq> None"
  shows "wp view (set_cover_command exec L u c b) V
    (\<lambda>r W. r = Inr (RInteger 1) \<and> typed W \<and> library W = l_set_cover L u c b (library V))"
  unfolding set_cover_command_def Let_def using assms
  by (auto intro!: wp_rules simp: typedD [OF V] key_simps library_upd library_sel l_set_cover_def
      bulk_def lua_string_def upd2_def)

lemma wp_set_cover_refused:
  assumes V: "typed V" and u: "plain_user u"
    and no: "lb_albums (library V) u c = None \<or> lb_entries (library V) u c b = None"
  shows "wp view (set_cover_command exec L u c b) V (\<lambda>r W. r = Inr (RInteger 0) \<and> W = V)"
  unfolding set_cover_command_def Let_def using assms
  by (auto intro!: wp_rules simp: typedD [OF V] library_sel bulk_def lua_string_def split: option.splits)

lemma wp_unlink_cover:
  assumes "is_hash (V (key_collection u c))" "is_hash (V (key_collection_list u))"
    and "hash_of (V (key_collection u c)) \<noteq> Map.empty"
    and "\<And>k. k \<in> dom (hash_of (V (key_collection u c))) \<Longrightarrow> Q (Inr RNil) (V(key_collection_list u :=
      Hash ((hash_of (V (key_collection_list u)))(c \<mapsto> cjson_encode L (cover_json (to_hex L k))))))"
  shows "wp view (unlink_cover exec L u c (cover_json h)) V Q"
proof -
  have "wp view (case ks of [] \<Rightarrow> raise m
     | k # _ \<Rightarrow> seq (assign_cover (cover_json h) (lua_tohex k)) (\<lambda>album'.
         seq (call exec (HSET (key_collection_list u) c (cjson_encode L album'))) (\<lambda>_. ret RNil))) V Q"
    if ks: "set ks = dom (hash_of (V (key_collection u c)))" for ks m
  proof (cases ks)
    case Nil
    with ks have "dom (hash_of (V (key_collection u c))) = {}" by simp
    with assms(3) show ?thesis by (simp only: dom_eq_empty_conv)
  next
    case (Cons k ks')
    then have "k \<in> dom (hash_of (V (key_collection u c)))" using ks by auto
    from assms(4) [OF this] assms(2) Cons show ?thesis
      by (auto intro!: wp_rules simp: lua_tohex_to_hex)
  qed
  then show ?thesis unfolding unlink_cover_def using assms(1) by (auto intro!: wp_rules)
qed

lemma wp_unlink_entry:
  assumes V: "typed V" and u: "plain_user u" and b: "wf_oid b"
    and album: "(lb_entries (library V) u c)(b := None) \<noteq> Map.empty \<Longrightarrow>
      \<exists>h. lb_albums (library V) u c = Some (cjson_encode L (cover_json h))"
  shows "wp view (unlink_entry exec L u c b) V
    (\<lambda>r W. r = Inr RNil \<and> typed W \<and> (\<exists>new. album_after L b ((lb_entries (library V) u c)(b := None))
        (lb_albums (library V) u c) new \<and> library W = (library V)\<lparr>
          lb_entries := upd2 (lb_entries (library V)) u c ((lb_entries (library V) u c)(b := None)),
          lb_albums := upd2 (lb_albums (library V)) u c new\<rparr>))"
proof (cases "(hash_of (V (key_collection u c)))(b := None) = Map.empty")
  case True
  show ?thesis
    unfolding unlink_entry_def Let_def using assms True
    by (auto intro!: wp_rules simp: typedD [OF V] key_simps library_upd library_sel mk_hash_def upd2_def
        album_after_def)
next
  case False
  let ?E = "(hash_of (V (key_collection u c)))(b := None)"
  let ?A = "hash_of (V (key_collection_list u))"
  let ?W = "V(key_collection u c := Hash ?E)"
  obtain h where h: "?A c = Some (cjson_encode L (cover_json h))"
    using album u False by (auto simp: library_sel)
  show ?thesis
  proof (cases "h = to_hex L b")
    case True
    have "wp view (unlink_entry exec L u c b) V (\<lambda>r W. r = Inr RNil \<and> (\<exists>k \<in> dom ?E.
        W = ?W(key_collection_list u := Hash (?A(c \<mapsto> cjson_encode L (cover_json (to_hex L k)))))))"
      unfolding unlink_entry_def Let_def using V u False h True
      by (auto intro!: wp_rules wp_unlink_cover simp: typedD [OF V] key_simps mk_hash_def bulk_def
          lua_string_def lua_tohex_to_hex simp del: dom_fun_upd) (rule bexI, rule refl, auto split: if_splits)
    then show ?thesis
      using V u b False h True
      by (elim wp_mono) (auto simp: library_upd library_sel upd2_def album_after_def split: if_splits
          intro!: exI [of _ "Some (cjson_encode L (cover_json (to_hex L k)))" for k])
  next
    case neq: False
    have "wp view (unlink_entry exec L u c b) V (\<lambda>r W. r = Inr RNil \<and> W = ?W)"
      unfolding unlink_entry_def Let_def using V u False h neq
      by (auto intro!: wp_rules simp: typedD [OF V] key_simps mk_hash_def bulk_def lua_string_def
          lua_tohex_to_hex)
    then show ?thesis
    proof (rule wp_mono, elim conjE, intro conjI)
      fix r W
      assume w: "W = ?W"
      show "typed W" using V by (simp add: w)
      have "(lb_albums (library V))(u := ?A(c := ?A c)) = lb_albums (library V)"
        by (simp only: fun_upd_triv library_sel(5) [symmetric])
      then show "\<exists>new. album_after L b ((lb_entries (library V) u c)(b := None)) (lb_albums (library V) u c) new
        \<and> library W = (library V)\<lparr>
          lb_entries := upd2 (lb_entries (library V)) u c ((lb_entries (library V) u c)(b := None)),
          lb_albums := upd2 (lb_albums (library V)) u c new\<rparr>"
        using u b False h neq
        by (intro exI [of _ "?A c"]) (simp add: w library_upd library_sel upd2_def album_after_def)
    qed
  qed
qed

lemma wp_unlink:
  assumes V: "typed V" and u: "plain_user u" and b: "wf_oid b"
    and album: "(lb_entries (library V) u c)(b := None) \<noteq> Map.empty \<Longrightarrow>
      \<exists>h. lb_albums (library V) u c = Some (cjson_encode L (cover_json h))"
  shows "wp view (unlink_command exec L u c b) V
    (\<lambda>r W. r = Inr RNil \<and> typed W \<and> (\<exists>new. album_after L b ((lb_entries (library V) u c)(b := None))
        (lb_albums (library V) u c) new \<and> library W = l_unlink L u c b new (library V)))"
proof -
  define R where "R = set_of (V (key_blob_refs u b)) - {c}"
  let ?V1 = "V(key_blob_refs u b := mk_set R)"
  let ?V2 = "if R = {} then ?V1(key_blob_owners b := mk_set (set_of (V (key_blob_owners b)) - {u}),
      key_blob_inode u := mk_hash ((hash_of (V (key_blob_inode u)))(b := None)),
      key_public_blobs := mk_list (filter (\<lambda>x. x \<noteq> msgpack_pack L u b) (list_of (V key_public_blobs))))
    else ?V1"
  have tail: "wp view (unlink_entry exec L u c b) ?V2
    (\<lambda>r W. r = Inr RNil \<and> typed W \<and> (\<exists>new. album_after L b ((lb_entries (library V) u c)(b := None))
        (lb_albums (library V) u c) new \<and> library W = l_unlink L u c b new (library V)))"
  proof -
    have same: "lb_entries (library ?V2) u c = lb_entries (library V) u c"
      "lb_albums (library ?V2) u c = lb_albums (library V) u c"
      using u b by (simp_all add: library_upd)
    have t: "typed ?V2" using V by simp
    have "wp view (unlink_entry exec L u c b) ?V2
      (\<lambda>r W. r = Inr RNil \<and> typed W \<and> (\<exists>new. album_after L b ((lb_entries (library ?V2) u c)(b := None))
        (lb_albums (library ?V2) u c) new \<and> library W = (library ?V2)\<lparr>
          lb_entries := upd2 (lb_entries (library ?V2)) u c ((lb_entries (library ?V2) u c)(b := None)),
          lb_albums := upd2 (lb_albums (library ?V2)) u c new\<rparr>))"
      by (rule wp_unlink_entry [OF t u b]) (unfold same, rule album)
    moreover have "(library ?V2)\<lparr>
          lb_entries := upd2 (lb_entries (library ?V2)) u c ((lb_entries (library ?V2) u c)(b := None)),
          lb_albums := upd2 (lb_albums (library ?V2)) u c new\<rparr> = l_unlink L u c b new (library V)" for new
      by (cases "R = {}")
        (simp_all add: library_upd l_unlink_def l_forget_def Let_def library_sel b upd2_def R_def [symmetric])
    ultimately show ?thesis unfolding same by (elim wp_mono) simp
  qed
  show ?thesis
    unfolding unlink_command_def Let_def using V tail
    by (cases "R = {}")
      (auto intro!: wp_rules simp: typedD [OF V] key_simps mk_set_Missing R_def [symmetric])
qed

end

end
