(* ===== verification/Reference_Redis.thy ===== *)
theory Reference_Redis
  imports Redis_Server "HOL-Library.AList"
begin

text \<open>
  A server in memory that has the documented effects: every law of \<^verbatim>\<open>redis_server\<close> holds of it,
  so they are consistent, and the witnesses of the properties run the program against it. Time
  does not pass in it; a session keeps the lifetime it was given.
\<close>

datatype rdata =
    DNone
  | DStr string "nat option"
  | DHash "(string \<times> string) list"
  | DSet "string list"
  | DList "string list"

type_synonym refdb = "string \<Rightarrow> rdata"

definition empty_db :: refdb where
  "empty_db = (\<lambda>_. DNone)"

definition data_view :: "rdata \<Rightarrow> rvalue" where
  "data_view d = (case d of
       DNone \<Rightarrow> Missing | DStr s _ \<Rightarrow> Str s | DHash al \<Rightarrow> mk_hash (map_of al)
     | DSet xs \<Rightarrow> mk_set (set xs) | DList xs \<Rightarrow> mk_list xs)"

definition ref_view :: "refdb \<Rightarrow> string \<Rightarrow> rvalue" where
  "ref_view db k = data_view (db k)"

text \<open>The contents of a key for a command of one type; \<^term>\<open>None\<close> when it holds another type.\<close>

definition d_hash :: "rdata \<Rightarrow> (string \<times> string) list option" where
  "d_hash d = (case d of DNone \<Rightarrow> Some [] | DHash al \<Rightarrow> Some al | DStr _ _ \<Rightarrow> None
     | DSet xs \<Rightarrow> if xs = [] then Some [] else None | DList xs \<Rightarrow> if xs = [] then Some [] else None)"

definition d_set :: "rdata \<Rightarrow> string list option" where
  "d_set d = (case d of DNone \<Rightarrow> Some [] | DSet xs \<Rightarrow> Some xs | DStr _ _ \<Rightarrow> None
     | DHash xs \<Rightarrow> if xs = [] then Some [] else None | DList xs \<Rightarrow> if xs = [] then Some [] else None)"

definition d_list :: "rdata \<Rightarrow> string list option" where
  "d_list d = (case d of DNone \<Rightarrow> Some [] | DList xs \<Rightarrow> Some xs | DStr _ _ \<Rightarrow> None
     | DHash xs \<Rightarrow> if xs = [] then Some [] else None | DSet xs \<Rightarrow> if xs = [] then Some [] else None)"

definition d_missing :: "rdata \<Rightarrow> bool" where
  "d_missing d = (case d of DNone \<Rightarrow> True | DStr _ _ \<Rightarrow> False | DHash xs \<Rightarrow> xs = [] | DSet xs \<Rightarrow> xs = []
     | DList xs \<Rightarrow> xs = [])"

definition ref_ttl :: "refdb \<Rightarrow> string \<Rightarrow> int" where
  "ref_ttl db k = (if d_missing (db k) then -2
     else case db k of DStr _ (Some n) \<Rightarrow> int n | _ \<Rightarrow> -1)"

definition clean :: "(string \<times> string) list \<Rightarrow> (string \<times> string) list" where
  "clean al = map (\<lambda>k. (k, the (map_of al k))) (remdups (map fst al))"

definition wrong_type :: redisReply where
  "wrong_type = RError ''WRONGTYPE Operation against a key holding the wrong kind of value''"

definition on_hash :: "refdb \<Rightarrow> string \<Rightarrow> ((string \<times> string) list \<Rightarrow> refdb \<times> redisReply) \<Rightarrow> refdb \<times> redisReply" where
  "on_hash db k f = (case d_hash (db k) of None \<Rightarrow> (db, wrong_type) | Some al \<Rightarrow> f al)"

definition on_set :: "refdb \<Rightarrow> string \<Rightarrow> (string list \<Rightarrow> refdb \<times> redisReply) \<Rightarrow> refdb \<times> redisReply" where
  "on_set db k f = (case d_set (db k) of None \<Rightarrow> (db, wrong_type) | Some xs \<Rightarrow> f xs)"

definition on_list :: "refdb \<Rightarrow> string \<Rightarrow> (string list \<Rightarrow> refdb \<times> redisReply) \<Rightarrow> refdb \<times> redisReply" where
  "on_list db k f = (case d_list (db k) of None \<Rightarrow> (db, wrong_type) | Some xs \<Rightarrow> f xs)"

fun ref_exec :: "refdb \<Rightarrow> rcmd \<Rightarrow> refdb \<times> redisReply" where
  "ref_exec db (HSET k f v) = on_hash db k (\<lambda>al.
     (db(k := DHash (AList.update f v al)), RInteger (if map_of al f = None then 1 else 0)))"
| "ref_exec db (HSETNX k f v) = on_hash db k (\<lambda>al.
     if map_of al f = None then (db(k := DHash (AList.update f v al)), RInteger 1) else (db, RInteger 0))"
| "ref_exec db (HGET k f) = on_hash db k (\<lambda>al. (db, bulk (map_of al f)))"
| "ref_exec db (HDEL k f) = on_hash db k (\<lambda>al.
     (db(k := DHash (AList.delete f al)), RInteger (if map_of al f = None then 0 else 1)))"
| "ref_exec db (HEXISTS k f) = on_hash db k (\<lambda>al. (db, RInteger (if map_of al f = None then 0 else 1)))"
| "ref_exec db (HKEYS k) = on_hash db k (\<lambda>al. (db, RArray (map RString (remdups (map fst al)))))"
| "ref_exec db (HGETALL k) = on_hash db k (\<lambda>al. (db, RArray (alternate (clean al))))"
| "ref_exec db (HSCAN k c) = on_hash db k (\<lambda>al. (db, RArray [RString ''0'', RArray (alternate (clean al))]))"
| "ref_exec db (HMSET k fvs) = on_hash db k (\<lambda>al.
     (db(k := DHash (fold (\<lambda>(f, v). AList.update f v) fvs al)), RStatus ''OK''))"
| "ref_exec db (HMGET k fs) = on_hash db k (\<lambda>al. (db, RArray (map (\<lambda>f. bulk (map_of al f)) fs)))"
| "ref_exec db (SADD k x) = on_set db k (\<lambda>xs.
     (db(k := DSet (List.insert x xs)), RInteger (if x \<in> set xs then 0 else 1)))"
| "ref_exec db (SREM k x) = on_set db k (\<lambda>xs.
     (db(k := DSet (removeAll x xs)), RInteger (if x \<in> set xs then 1 else 0)))"
| "ref_exec db (SMEMBERS k) = on_set db k (\<lambda>xs. (db, RArray (map RString (remdups xs))))"
| "ref_exec db (SRANDMEMBER k) = on_set db k (\<lambda>xs. (db, bulk (case xs of [] \<Rightarrow> None | x # _ \<Rightarrow> Some x)))"
| "ref_exec db (EXISTS k) = (db, RInteger (if d_missing (db k) then 0 else 1))"
| "ref_exec db (DEL k) = (db(k := DNone), RInteger (if d_missing (db k) then 0 else 1))"
| "ref_exec db (LREM k v) = on_list db k (\<lambda>xs.
     (db(k := DList (filter (\<lambda>x. x \<noteq> v) xs)), RInteger (int (length (filter (\<lambda>x. x = v) xs)))))"
| "ref_exec db (RPUSH k v) = on_list db k (\<lambda>xs. (db(k := DList (xs @ [v])), RInteger (int (length xs + 1))))"
| "ref_exec db (LPOP k) = on_list db k (\<lambda>xs.
     (db(k := DList (tl xs)), case xs of [] \<Rightarrow> RNil | x # _ \<Rightarrow> RString x))"
| "ref_exec db (LRANGE k) = on_list db k (\<lambda>xs. (db, RArray (map RString xs)))"
| "ref_exec db (GET k) = (case db k of DStr s _ \<Rightarrow> (db, RString s)
     | d \<Rightarrow> if d_missing d then (db, RNil) else (db, wrong_type))"
| "ref_exec db (SETEX k v n) = (if 0 < n then (db(k := DStr v (Some (nat n))), RStatus ''OK'')
     else (db, RError ''ERR invalid expire time''))"
| "ref_exec db (TTL k) = (db, RInteger (ref_ttl db k))"

section \<open>The laws hold\<close>

lemma map_of_tabulate: "map_of (map (\<lambda>k. (k, f k)) ks) k = (if k \<in> set ks then Some (f k) else None)"
  by (induction ks) auto

lemma map_of_clean [simp]: "map_of (clean al) = map_of al"
proof
  fix k
  have "k \<in> fst ` set al \<longleftrightarrow> map_of al k \<noteq> None" by (simp add: map_of_eq_None_iff)
  then show "map_of (clean al) k = map_of al k"
    by (cases "map_of al k") (auto simp: clean_def map_of_tabulate)
qed

lemma distinct_clean: "distinct (map fst (clean al))"
  by (simp add: clean_def comp_def)

lemma d_hash_None: "d_hash d = None \<longleftrightarrow> \<not> is_hash (data_view d)"
  by (auto simp: d_hash_def data_view_def is_hash_def mk_hash_def mk_set_def mk_list_def split: rdata.splits)

lemma d_set_None: "d_set d = None \<longleftrightarrow> \<not> is_set (data_view d)"
  by (auto simp: d_set_def data_view_def is_set_def mk_hash_def mk_set_def mk_list_def split: rdata.splits)

lemma d_list_None: "d_list d = None \<longleftrightarrow> \<not> is_list (data_view d)"
  by (auto simp: d_list_def data_view_def is_list_def mk_hash_def mk_set_def mk_list_def split: rdata.splits)

lemma hash_view:
  assumes "is_hash (ref_view db k)"
  obtains al where "d_hash (db k) = Some al" and "hash_of (ref_view db k) = map_of al"
proof -
  from assms obtain al where al: "d_hash (db k) = Some al"
    by (cases "d_hash (db k)") (auto simp: d_hash_None ref_view_def)
  moreover from this have "hash_of (ref_view db k) = map_of al"
    by (auto simp: d_hash_def ref_view_def data_view_def mk_set_def mk_list_def split: rdata.splits if_splits)
  ultimately show thesis by (rule that)
qed

lemma set_view:
  assumes "is_set (ref_view db k)"
  obtains xs where "d_set (db k) = Some xs" and "set_of (ref_view db k) = set xs"
proof -
  from assms obtain xs where xs: "d_set (db k) = Some xs"
    by (cases "d_set (db k)") (auto simp: d_set_None ref_view_def)
  moreover from this have "set_of (ref_view db k) = set xs"
    by (auto simp: d_set_def ref_view_def data_view_def mk_hash_def mk_list_def split: rdata.splits if_splits)
  ultimately show thesis by (rule that)
qed

lemma list_view:
  assumes "is_list (ref_view db k)"
  obtains xs where "d_list (db k) = Some xs" and "list_of (ref_view db k) = xs"
proof -
  from assms obtain xs where xs: "d_list (db k) = Some xs"
    by (cases "d_list (db k)") (auto simp: d_list_None ref_view_def)
  moreover from this have "list_of (ref_view db k) = xs"
    by (auto simp: d_list_def ref_view_def data_view_def mk_hash_def mk_set_def split: rdata.splits if_splits)
  ultimately show thesis by (rule that)
qed

lemma ref_view_upd: "ref_view (db(k := d)) = (ref_view db)(k := data_view d)"
  by (auto simp: ref_view_def)

lemma data_view_simps [simp]:
  "data_view (DHash al) = mk_hash (map_of al)" "data_view (DSet xs) = mk_set (set xs)"
  "data_view (DList xs) = mk_list xs" "data_view (DStr s n) = Str s" "data_view DNone = Missing"
  by (simp_all add: data_view_def)

lemma d_missing_view: "d_missing (db k) \<longleftrightarrow> ref_view db k = Missing"
  by (auto simp: d_missing_def ref_view_def data_view_def mk_hash_def mk_set_def mk_list_def split: rdata.splits)

lemma map_of_fold_update:
  "map_of (fold (\<lambda>(f, v). AList.update f v) fvs al) = fold (\<lambda>(f, v) m. m(f \<mapsto> v)) fvs (map_of al)"
  by (induction fvs arbitrary: al) (auto simp: update_conv')

lemma fold_update_ne:
  "fvs \<noteq> [] \<Longrightarrow> fold (\<lambda>(f, v) m. m(f \<mapsto> v)) fvs m \<noteq> Map.empty"
proof (induction fvs rule: rev_induct)
  case (snoc x xs)
  have "(fold (\<lambda>(f, v) m. m(f \<mapsto> v)) (xs @ [x]) m) (fst x) = Some (snd x)"
    by (cases x) simp
  then show ?case by (metis option.distinct(1))
qed simp

lemma no_change: "fst (on_hash db k (\<lambda>al. (db, f al))) = db" "fst (on_set db k (\<lambda>xs. (db, g xs))) = db"
  "fst (on_list db k (\<lambda>xs. (db, g xs))) = db"
  by (simp_all add: on_hash_def on_set_def on_list_def split: option.splits)

lemma pairs_of_alternate: "map (\<lambda>(f, v). (f, as_string v)) (pairs_of (alternate kvs)) = kvs"
  by (induction kvs) (auto simp: alternate_def as_string_def)

lemma stol_zero: "stol ''0'' = Some 0"
  by code_simp

lemma ref_scan_cycle:
  assumes "is_hash (ref_view db k)"
  shows "\<exists>n kvs. scan_cycle ref_exec n k 0 db = Some kvs \<and> set kvs = {(f, v). hash_of (ref_view db k) f = Some v}"
proof -
  obtain al where al: "d_hash (db k) = Some al" "hash_of (ref_view db k) = map_of al"
    using assms by (rule hash_view)
  have "scan_cycle ref_exec (Suc 0) k 0 db = Some (clean al)"
    by (simp add: on_hash_def al stol_zero pairs_of_alternate)
  moreover have "(f, v) \<in> set (clean al) \<longleftrightarrow> map_of al f = Some v" for f v
    using map_of_eq_Some_iff [OF distinct_clean [of al]] by simp
  ultimately show ?thesis by (intro exI [of _ "Suc 0"] exI [of _ "clean al"]) (auto simp: al)
qed

interpretation ref: redis_server ref_exec ref_view ref_ttl
proof
  fix db :: refdb and k f v x :: string
  show "ref_view db k \<noteq> Hash Map.empty" "ref_view db k \<noteq> MemberSet {}" "ref_view db k \<noteq> Queue []"
    by (auto simp: ref_view_def data_view_def mk_hash_def mk_set_def mk_list_def split: rdata.splits)
  show "ref_view db k = Hash m \<Longrightarrow> finite (dom m)" for m
    by (auto simp: ref_view_def data_view_def mk_hash_def mk_set_def mk_list_def finite_dom_map_of
        split: rdata.splits if_splits)
  show "ref_view db k = MemberSet s \<Longrightarrow> finite s" for s
    by (auto simp: ref_view_def data_view_def mk_hash_def mk_set_def mk_list_def split: rdata.splits if_splits)
  show "ref_view db k = Missing \<longleftrightarrow> ref_ttl db k = -2"
    by (auto simp: d_missing_view [symmetric] ref_ttl_def split: rdata.splits option.splits)
  show "is_hash (ref_view db k) \<Longrightarrow>
      \<exists>n kvs. scan_cycle ref_exec n k 0 db = Some kvs \<and> set kvs = {(f, v). hash_of (ref_view db k) f = Some v}"
    by (rule ref_scan_cycle)
next
  fix db :: refdb and k f v x :: string and fs :: "string list" and c :: int
    and fvs :: "(string \<times> string) list"
  show "ref_view (fst (ref_exec db (HGET k f))) = ref_view db"
    "ref_view (fst (ref_exec db (HEXISTS k f))) = ref_view db"
    "ref_view (fst (ref_exec db (HKEYS k))) = ref_view db"
    "ref_view (fst (ref_exec db (HGETALL k))) = ref_view db"
    "ref_view (fst (ref_exec db (SMEMBERS k))) = ref_view db"
    "ref_view (fst (ref_exec db (SRANDMEMBER k))) = ref_view db"
    "ref_view (fst (ref_exec db (EXISTS k))) = ref_view db"
    "ref_view (fst (ref_exec db (LRANGE k))) = ref_view db"
    "ref_view (fst (ref_exec db (HMGET k fs))) = ref_view db"
    "ref_view (fst (ref_exec db (TTL k))) = ref_view db"
    "ref_view (fst (ref_exec db (HSCAN k c))) = ref_view db"
    by (simp_all add: no_change)
  show "ref_view (fst (ref_exec db (GET k))) = ref_view db" "ref_ttl (fst (ref_exec db (GET k))) = ref_ttl db"
    by (simp_all split: rdata.splits)
  show "ref_ttl (fst (ref_exec db (TTL k))) = ref_ttl db" "snd (ref_exec db (TTL k)) = RInteger (ref_ttl db k)"
    by simp_all
  show "snd (ref_exec db (EXISTS k)) = RInteger (if ref_view db k = Missing then 0 else 1)"
    "snd (ref_exec db (DEL k)) = RInteger (if ref_view db k = Missing then 0 else 1)"
    "ref_view (fst (ref_exec db (DEL k))) = (ref_view db)(k := Missing)"
    "ref_ttl (fst (ref_exec db (DEL k))) = (ref_ttl db)(k := -2)"
    by (auto simp: d_missing_view ref_view_upd ref_ttl_def fun_eq_iff) (auto simp: d_missing_def)
  show "is_str (ref_view db k) \<Longrightarrow> snd (ref_exec db (GET k)) = bulk (str_of (ref_view db k))"
    by (auto simp: ref_view_def is_str_def data_view_def bulk_def d_missing_def mk_hash_def mk_set_def
        mk_list_def split: rdata.splits if_splits)
  show "0 < c \<Longrightarrow> ref_view (fst (ref_exec db (SETEX k v c))) = (ref_view db)(k := Str v)"
    "0 < c \<Longrightarrow> ref_ttl (fst (ref_exec db (SETEX k v c))) = (ref_ttl db)(k := c)"
    "0 < c \<Longrightarrow> snd (ref_exec db (SETEX k v c)) = RStatus ''OK''"
    by (auto simp: ref_view_upd ref_ttl_def d_missing_def)
  show "c \<le> 0 \<Longrightarrow> ref_view (fst (ref_exec db (SETEX k v c))) = ref_view db"
    "c \<le> 0 \<Longrightarrow> ref_ttl (fst (ref_exec db (SETEX k v c))) = ref_ttl db"
    "c \<le> 0 \<Longrightarrow> \<exists>e. snd (ref_exec db (SETEX k v c)) = RError e"
    by simp_all
next
  fix db :: refdb and k f v :: string and fs :: "string list" and fvs :: "(string \<times> string) list"
  assume h: "is_hash (ref_view db k)"
  then obtain al where al: "d_hash (db k) = Some al" "hash_of (ref_view db k) = map_of al" by (rule hash_view)
  show "ref_view (fst (ref_exec db (HSET k f v))) = (ref_view db)(k := Hash ((hash_of (ref_view db k))(f \<mapsto> v)))"
    "snd (ref_exec db (HSET k f v)) = RInteger (if hash_of (ref_view db k) f = None then 1 else 0)"
    "ref_view (fst (ref_exec db (HSETNX k f v))) =
      (if hash_of (ref_view db k) f = None then (ref_view db)(k := Hash ((hash_of (ref_view db k))(f \<mapsto> v))) else ref_view db)"
    "snd (ref_exec db (HSETNX k f v)) = RInteger (if hash_of (ref_view db k) f = None then 1 else 0)"
    "snd (ref_exec db (HGET k f)) = bulk (hash_of (ref_view db k) f)"
    "ref_view (fst (ref_exec db (HDEL k f))) = (ref_view db)(k := mk_hash ((hash_of (ref_view db k))(f := None)))"
    "snd (ref_exec db (HDEL k f)) = RInteger (if hash_of (ref_view db k) f = None then 0 else 1)"
    "snd (ref_exec db (HEXISTS k f)) = RInteger (if hash_of (ref_view db k) f = None then 0 else 1)"
    "snd (ref_exec db (HMGET k fs)) = RArray (map (\<lambda>f. bulk (hash_of (ref_view db k) f)) fs)"
    by (auto simp: on_hash_def al ref_view_upd update_conv' delete_conv' mk_hash_def)
  show "\<exists>ks. snd (ref_exec db (HKEYS k)) = RArray (map RString ks) \<and> set ks = dom (hash_of (ref_view db k)) \<and> distinct ks"
    by (intro exI [of _ "remdups (map fst al)"]) (auto simp: on_hash_def al dom_map_of_conv_image_fst)
  show "\<exists>kvs. snd (ref_exec db (HGETALL k)) = RArray (alternate kvs) \<and> map_of kvs = hash_of (ref_view db k)
        \<and> distinct (map fst kvs)"
    by (intro exI [of _ "clean al"]) (auto simp: on_hash_def al distinct_clean)
  assume "fvs \<noteq> []"
  then show "ref_view (fst (ref_exec db (HMSET k fvs))) =
      (ref_view db)(k := Hash (fold (\<lambda>(f, v) m. m(f \<mapsto> v)) fvs (hash_of (ref_view db k))))"
    "snd (ref_exec db (HMSET k fvs)) = RStatus ''OK''"
    by (auto simp: on_hash_def al ref_view_upd map_of_fold_update mk_hash_def fold_update_ne)
next
  fix db :: refdb and k x :: string
  assume h: "is_set (ref_view db k)"
  then obtain xs where xs: "d_set (db k) = Some xs" "set_of (ref_view db k) = set xs" by (rule set_view)
  show "ref_view (fst (ref_exec db (SADD k x))) = (ref_view db)(k := MemberSet (insert x (set_of (ref_view db k))))"
    "snd (ref_exec db (SADD k x)) = RInteger (if x \<in> set_of (ref_view db k) then 0 else 1)"
    "ref_view (fst (ref_exec db (SREM k x))) = (ref_view db)(k := mk_set (set_of (ref_view db k) - {x}))"
    "snd (ref_exec db (SREM k x)) = RInteger (if x \<in> set_of (ref_view db k) then 1 else 0)"
    by (auto simp: on_set_def xs ref_view_upd mk_set_def)
  show "\<exists>ms. snd (ref_exec db (SMEMBERS k)) = RArray (map RString ms) \<and> set ms = set_of (ref_view db k) \<and> distinct ms"
    by (intro exI [of _ "remdups xs"]) (auto simp: on_set_def xs)
  show "if set_of (ref_view db k) = {} then snd (ref_exec db (SRANDMEMBER k)) = RNil
     else \<exists>x \<in> set_of (ref_view db k). snd (ref_exec db (SRANDMEMBER k)) = RString x"
    by (cases xs) (auto simp: on_set_def xs bulk_def)
next
  fix db :: refdb and k v :: string
  assume h: "is_list (ref_view db k)"
  then obtain xs where xs: "d_list (db k) = Some xs" "list_of (ref_view db k) = xs" by (rule list_view)
  show "ref_view (fst (ref_exec db (LREM k v))) = (ref_view db)(k := mk_list (filter (\<lambda>x. x \<noteq> v) (list_of (ref_view db k))))"
    "snd (ref_exec db (LREM k v)) = RInteger (int (length (filter (\<lambda>x. x = v) (list_of (ref_view db k)))))"
    "ref_view (fst (ref_exec db (RPUSH k v))) = (ref_view db)(k := Queue (list_of (ref_view db k) @ [v]))"
    "snd (ref_exec db (RPUSH k v)) = RInteger (int (length (list_of (ref_view db k)) + 1))"
    "ref_view (fst (ref_exec db (LPOP k))) = (ref_view db)(k := mk_list (tl (list_of (ref_view db k))))"
    "snd (ref_exec db (LPOP k)) = (case list_of (ref_view db k) of [] \<Rightarrow> RNil | x # _ \<Rightarrow> RString x)"
    "snd (ref_exec db (LRANGE k)) = RArray (map RString (list_of (ref_view db k)))"
    by (auto simp: on_list_def xs ref_view_upd mk_list_def)
qed

end
