(* ===== verification/Ownership_Invariant.thy ===== *)
theory Ownership_Invariant
  imports Ownership_Library Reference_Redis
begin

text \<open>
  The invariant of the library and that every operation of \<^verbatim>\<open>Ownership\<close> keeps it: the reverse
  indexes agree with the entries of the collections, a blob has an inode exactly while a
  collection refers to it, a collection with entries is listed with a readable cover, and the
  public list has at most one hundred distinct blobs, all of them public.
\<close>

definition consistent :: "extlib \<Rightarrow> lib \<Rightarrow> bool" where
  "consistent L S \<longleftrightarrow>
     (\<forall>u b c. plain_user u \<and> wf_oid b \<longrightarrow> (c \<in> lb_refs S u b \<longleftrightarrow> lb_entries S u c b \<noteq> None)) \<and>
     (\<forall>u b. plain_user u \<and> wf_oid b \<longrightarrow> (u \<in> lb_owners S b \<longleftrightarrow> lb_refs S u b \<noteq> {})) \<and>
     (\<forall>u b. plain_user u \<and> wf_oid b \<longrightarrow> (lb_inodes S u b \<noteq> None \<longleftrightarrow> lb_refs S u b \<noteq> {})) \<and>
     (\<forall>u c b. plain_user u \<and> lb_entries S u c b \<noteq> None \<longrightarrow> wf_oid b \<and> lb_albums S u c \<noteq> None) \<and>
     (\<forall>u c s. plain_user u \<and> lb_albums S u c = Some s \<longrightarrow> (\<exists>h. s = cjson_encode L (cover_json h))) \<and>
     (\<forall>x \<in> set (lb_public S). \<exists>u b raw. plain_user u \<and> wf_oid b \<and> x = msgpack_pack L u b \<and>
        lb_inodes S u b = Some (CHR ''*'' # raw)) \<and>
     distinct (lb_public S) \<and> length (lb_public S) \<le> 100"

text \<open>The conjuncts by name.\<close>

lemma consistentD:
  assumes "consistent L S"
  shows consistent_refs: "plain_user u \<Longrightarrow> wf_oid b \<Longrightarrow> c \<in> lb_refs S u b \<longleftrightarrow> lb_entries S u c b \<noteq> None"
    and consistent_owners: "plain_user u \<Longrightarrow> wf_oid b \<Longrightarrow> u \<in> lb_owners S b \<longleftrightarrow> lb_refs S u b \<noteq> {}"
    and consistent_inodes: "plain_user u \<Longrightarrow> wf_oid b \<Longrightarrow> lb_inodes S u b \<noteq> None \<longleftrightarrow> lb_refs S u b \<noteq> {}"
    and consistent_entries: "plain_user u \<Longrightarrow> lb_entries S u c b \<noteq> None \<Longrightarrow> wf_oid b \<and> lb_albums S u c \<noteq> None"
    and consistent_albums: "plain_user u \<Longrightarrow> lb_albums S u c = Some s \<Longrightarrow> \<exists>h. s = cjson_encode L (cover_json h)"
    and consistent_public: "x \<in> set (lb_public S) \<Longrightarrow> \<exists>u b raw. plain_user u \<and> wf_oid b \<and>
      x = msgpack_pack L u b \<and> lb_inodes S u b = Some (CHR ''*'' # raw)"
    and consistent_distinct: "distinct (lb_public S)"
    and consistent_length: "length (lb_public S) \<le> 100"
  using assms unfolding consistent_def by blast+

lemma consistentI:
  assumes "\<And>u b c. plain_user u \<Longrightarrow> wf_oid b \<Longrightarrow> c \<in> lb_refs S u b \<longleftrightarrow> lb_entries S u c b \<noteq> None"
    and "\<And>u b. plain_user u \<Longrightarrow> wf_oid b \<Longrightarrow> u \<in> lb_owners S b \<longleftrightarrow> lb_refs S u b \<noteq> {}"
    and "\<And>u b. plain_user u \<Longrightarrow> wf_oid b \<Longrightarrow> lb_inodes S u b \<noteq> None \<longleftrightarrow> lb_refs S u b \<noteq> {}"
    and "\<And>u c b. plain_user u \<Longrightarrow> lb_entries S u c b \<noteq> None \<Longrightarrow> wf_oid b \<and> lb_albums S u c \<noteq> None"
    and "\<And>u c s. plain_user u \<Longrightarrow> lb_albums S u c = Some s \<Longrightarrow> \<exists>h. s = cjson_encode L (cover_json h)"
    and "\<And>x. x \<in> set (lb_public S) \<Longrightarrow> \<exists>u b raw. plain_user u \<and> wf_oid b \<and> x = msgpack_pack L u b \<and>
      lb_inodes S u b = Some (CHR ''*'' # raw)"
    and "distinct (lb_public S)" and "length (lb_public S) \<le> 100"
  shows "consistent L S"
proof -
  have "\<forall>u b c. plain_user u \<and> wf_oid b \<longrightarrow> (c \<in> lb_refs S u b \<longleftrightarrow> lb_entries S u c b \<noteq> None)"
    "\<forall>u b. plain_user u \<and> wf_oid b \<longrightarrow> (u \<in> lb_owners S b \<longleftrightarrow> lb_refs S u b \<noteq> {})"
    "\<forall>u b. plain_user u \<and> wf_oid b \<longrightarrow> (lb_inodes S u b \<noteq> None \<longleftrightarrow> lb_refs S u b \<noteq> {})"
    "\<forall>u c b. plain_user u \<and> lb_entries S u c b \<noteq> None \<longrightarrow> wf_oid b \<and> lb_albums S u c \<noteq> None"
    "\<forall>u c s. plain_user u \<and> lb_albums S u c = Some s \<longrightarrow> (\<exists>h. s = cjson_encode L (cover_json h))"
    "\<forall>x \<in> set (lb_public S). \<exists>u b raw. plain_user u \<and> wf_oid b \<and> x = msgpack_pack L u b \<and>
      lb_inodes S u b = Some (CHR ''*'' # raw)"
    using assms(1-3) assms(6) by simp_all (use assms(4,5) in blast)+
  then show ?thesis unfolding consistent_def using assms(7,8) by (intro conjI)
qed

lemma consistent_empty: "consistent L (library (\<lambda>_. Missing))"
  by (simp add: consistent_def library_def)

text \<open>A public blob stays public while its inode is kept.\<close>

lemma public_kept:
  assumes S: "consistent L S" and "x \<in> set (lb_public S)"
    and "\<And>u b raw. x = msgpack_pack L u b \<Longrightarrow> lb_inodes S u b = Some (CHR ''*'' # raw) \<Longrightarrow> I u b = lb_inodes S u b"
  shows "\<exists>u b raw. plain_user u \<and> wf_oid b \<and> x = msgpack_pack L u b \<and> I u b = Some (CHR ''*'' # raw)"
  using consistent_public [OF S assms(2)] assms(3) by metis

lemma consistent_link:
  assumes S: "consistent L S" and u: "plain_user u" and b: "wf_oid b"
  shows "consistent L (l_link L u c b raw name S)"
proof (rule consistentI)
  let ?T = "l_link L u c b raw name S"
  show "c' \<in> lb_refs ?T u' b' \<longleftrightarrow> lb_entries ?T u' c' b' \<noteq> None" if "plain_user u'" "wf_oid b'" for u' b' c'
    using consistent_refs [OF S that] by (auto simp: l_link_def)
  show "u' \<in> lb_owners ?T b' \<longleftrightarrow> lb_refs ?T u' b' \<noteq> {}" if "plain_user u'" "wf_oid b'" for u' b'
    using consistent_owners [OF S that] by (auto simp: l_link_def)
  show "lb_inodes ?T u' b' \<noteq> None \<longleftrightarrow> lb_refs ?T u' b' \<noteq> {}" if "plain_user u'" "wf_oid b'" for u' b'
    using consistent_inodes [OF S that] by (auto simp: l_link_def)
  show "wf_oid b' \<and> lb_albums ?T u' c' \<noteq> None" if "plain_user u'" "lb_entries ?T u' c' b' \<noteq> None" for u' c' b'
    using consistent_entries [OF S that(1), of c' b'] that(2) b by (auto simp: l_link_def split: if_splits)
  show "\<exists>h. s = cjson_encode L (cover_json h)" if "plain_user u'" "lb_albums ?T u' c' = Some s" for u' c' s
    using consistent_albums [OF S that(1), of c' s] that(2) by (auto simp: l_link_def split: if_splits)
  show "\<exists>u b raw. plain_user u \<and> wf_oid b \<and> x = msgpack_pack L u b \<and> lb_inodes ?T u b = Some (CHR ''*'' # raw)"
    if "x \<in> set (lb_public ?T)" for x
    using that by (intro public_kept [OF S]) (auto simp: l_link_def)
  show "distinct (lb_public ?T)" "length (lb_public ?T) \<le> 100"
    using consistent_distinct [OF S] consistent_length [OF S] by (simp_all add: l_link_def)
qed

lemma consistent_move:
  assumes S: "consistent L S" and u: "plain_user u" and b: "wf_oid b"
    and name: "lb_entries S u src b = Some name" and ne: "src \<noteq> dest"
  shows "consistent L (l_move L u src dest b name S)"
proof (rule consistentI)
  let ?T = "l_move L u src dest b name S"
  note defs = l_move_def Let_def
  show "c' \<in> lb_refs ?T u' b' \<longleftrightarrow> lb_entries ?T u' c' b' \<noteq> None" if "plain_user u'" "wf_oid b'" for u' b' c'
    using consistent_refs [OF S that] ne by (auto simp: defs)
  have "lb_refs S u b \<noteq> {}" using consistent_refs [OF S u b] name by fastforce
  moreover have "lb_refs ?T u b \<noteq> {}" using ne by (auto simp: defs)
  ultimately have refs: "lb_refs ?T u' b' \<noteq> {} \<longleftrightarrow> lb_refs S u' b' \<noteq> {}" for u' b' by (auto simp: defs)
  show "u' \<in> lb_owners ?T b' \<longleftrightarrow> lb_refs ?T u' b' \<noteq> {}" if "plain_user u'" "wf_oid b'" for u' b'
    using consistent_owners [OF S that] refs [of u' b'] by (simp add: defs)
  show "lb_inodes ?T u' b' \<noteq> None \<longleftrightarrow> lb_refs ?T u' b' \<noteq> {}" if "plain_user u'" "wf_oid b'" for u' b'
    using consistent_inodes [OF S that] refs [of u' b'] by (simp add: defs)
  show "wf_oid b' \<and> lb_albums ?T u' c' \<noteq> None" if "plain_user u'" "lb_entries ?T u' c' b' \<noteq> None" for u' c' b'
    using consistent_entries [OF S that(1), of c' b'] that(2) b by (auto simp: defs split: if_splits)
  show "\<exists>h. s = cjson_encode L (cover_json h)" if "plain_user u'" "lb_albums ?T u' c' = Some s" for u' c' s
    using consistent_albums [OF S that(1), of c' s] that(2) by (auto simp: defs split: if_splits)
  show "\<exists>u b raw. plain_user u \<and> wf_oid b \<and> x = msgpack_pack L u b \<and> lb_inodes ?T u b = Some (CHR ''*'' # raw)"
    if "x \<in> set (lb_public ?T)" for x
    using that by (intro public_kept [OF S]) (auto simp: defs)
  show "distinct (lb_public ?T)" "length (lb_public ?T) \<le> 100"
    using consistent_distinct [OF S] consistent_length [OF S] by (simp_all add: defs)
qed

lemma consistent_rename:
  assumes S: "consistent L S" and u: "plain_user u" and e: "lb_entries S u c b \<noteq> None"
  shows "consistent L (l_rename u c b name S)"
proof (rule consistentI)
  let ?T = "l_rename u c b name S"
  have same: "lb_entries ?T u' c' b' \<noteq> None \<longleftrightarrow> lb_entries S u' c' b' \<noteq> None" for u' c' b'
    using e by (auto simp: l_rename_def)
  show "c' \<in> lb_refs ?T u' b' \<longleftrightarrow> lb_entries ?T u' c' b' \<noteq> None" if "plain_user u'" "wf_oid b'" for u' b' c'
    unfolding same using consistent_refs [OF S that] by (simp add: l_rename_def)
  show "wf_oid b' \<and> lb_albums ?T u' c' \<noteq> None" if "plain_user u'" "lb_entries ?T u' c' b' \<noteq> None" for u' c' b'
    using consistent_entries [OF S that(1), of c' b'] that(2) unfolding same by (simp add: l_rename_def)
qed (use consistentD [OF S] in \<open>simp_all add: l_rename_def\<close>)

lemma consistent_set_cover:
  assumes S: "consistent L S" and u: "plain_user u"
  shows "consistent L (l_set_cover L u c b S)"
proof (rule consistentI)
  let ?T = "l_set_cover L u c b S"
  show "wf_oid b' \<and> lb_albums ?T u' c' \<noteq> None" if "plain_user u'" "lb_entries ?T u' c' b' \<noteq> None" for u' c' b'
    using consistent_entries [OF S that(1), of c' b'] that(2) by (simp add: l_set_cover_def)
  show "\<exists>h. s = cjson_encode L (cover_json h)" if "plain_user u'" "lb_albums ?T u' c' = Some s" for u' c' s
    using consistent_albums [OF S that(1), of c' s] that(2) by (auto simp: l_set_cover_def split: if_splits)
qed (use consistentD [OF S] in \<open>simp_all add: l_set_cover_def\<close>)

context msgpack_codec
begin

lemma consistent_set_permission:
  assumes S: "consistent L S" and u: "plain_user u" and b: "wf_oid b" and raw: "lb_inodes S u b = Some raw"
  shows "consistent L (l_set_permission L u b p raw S)"
proof (rule consistentI)
  let ?T = "l_set_permission L u b p raw S"
  let ?pub = "filter (\<lambda>x. x \<noteq> msgpack_pack L u b) (lb_public S)"
  note defs = l_set_permission_def Let_def
  have inode: "lb_inodes ?T u' b' \<noteq> None \<longleftrightarrow> lb_inodes S u' b' \<noteq> None" for u' b'
    using raw by (auto simp: defs)
  show "lb_inodes ?T u' b' \<noteq> None \<longleftrightarrow> lb_refs ?T u' b' \<noteq> {}" if "plain_user u'" "wf_oid b'" for u' b'
    unfolding inode using consistent_inodes [OF S that] by (simp add: defs)
  have other: "\<exists>u b raw. plain_user u \<and> wf_oid b \<and> x = msgpack_pack L u b \<and> lb_inodes ?T u b = Some (CHR ''*'' # raw)"
    if "x \<in> set ?pub" for x
    using that by (intro public_kept [OF S]) (auto simp: defs)
  have new: "p = CHR ''*'' \<Longrightarrow> \<exists>u' b' raw. plain_user u' \<and> wf_oid b' \<and> msgpack_pack L u b = msgpack_pack L u' b'
      \<and> lb_inodes ?T u' b' = Some (CHR ''*'' # raw)"
    by (rule exI [of _ u], rule exI [of _ b], rule exI [of _ "drop 1 raw"]) (simp add: defs u b)
  have "set (lb_public ?T) \<subseteq> set ?pub \<union> (if p = CHR ''*'' then {msgpack_pack L u b} else {})"
    by (auto simp: defs last_100_def dest: list.set_sel(2) [rotated] split: if_splits)
  then show "\<exists>u b raw. plain_user u \<and> wf_oid b \<and> x = msgpack_pack L u b \<and> lb_inodes ?T u b = Some (CHR ''*'' # raw)"
    if "x \<in> set (lb_public ?T)" for x
    using that other [of x] new by (auto split: if_splits)
  have "distinct ?pub" "length ?pub \<le> 100"
    using consistent_distinct [OF S] consistent_length [OF S]
    by (auto intro: le_trans [OF length_filter_le])
  then show "distinct (lb_public ?T)" "length (lb_public ?T) \<le> 100"
    by (auto simp: defs last_100_def distinct_tl)
qed (use consistentD [OF S] in \<open>simp_all add: l_set_permission_def Let_def\<close>)

lemma consistent_unlink:
  assumes S: "consistent L S" and u: "plain_user u" and b: "wf_oid b"
    and new: "album_after L b ((lb_entries S u c)(b := None)) (lb_albums S u c) new"
  shows "consistent L (l_unlink L u c b new S)"
proof (rule consistentI)
  let ?T = "l_unlink L u c b new S"
  let ?gone = "lb_refs S u b - {c} = {}"
  note defs = l_unlink_def l_forget_def Let_def
  have refs: "lb_refs ?T = upd2 (lb_refs S) u b (lb_refs S u b - {c})" by (simp add: defs)
  have entries: "lb_entries ?T = upd2 (lb_entries S) u c ((lb_entries S u c)(b := None))" by (simp add: defs)
  have albums: "lb_albums ?T = upd2 (lb_albums S) u c new" by (simp add: defs)
  have inodes: "lb_inodes ?T = (if ?gone then upd2 (lb_inodes S) u b None else lb_inodes S)" by (simp add: defs)
  have owners: "lb_owners ?T = (if ?gone then (lb_owners S)(b := lb_owners S b - {u}) else lb_owners S)"
    by (simp add: defs)
  have public: "lb_public ?T = (if ?gone then filter (\<lambda>x. x \<noteq> msgpack_pack L u b) (lb_public S) else lb_public S)"
    by (simp add: defs)
  show "c' \<in> lb_refs ?T u' b' \<longleftrightarrow> lb_entries ?T u' c' b' \<noteq> None" if "plain_user u'" "wf_oid b'" for u' b' c'
    using consistent_refs [OF S that] by (auto simp: refs entries)
  show "u' \<in> lb_owners ?T b' \<longleftrightarrow> lb_refs ?T u' b' \<noteq> {}" if "plain_user u'" "wf_oid b'" for u' b'
    using consistent_owners [OF S that] by (auto simp: refs owners)
  show "lb_inodes ?T u' b' \<noteq> None \<longleftrightarrow> lb_refs ?T u' b' \<noteq> {}" if "plain_user u'" "wf_oid b'" for u' b'
    using consistent_inodes [OF S that] by (auto simp: refs inodes)
  have album_new: "new \<noteq> None" if "(lb_entries S u c)(b := None) \<noteq> Map.empty"
  proof -
    have "\<exists>b'. ((lb_entries S u c)(b := None)) b' \<noteq> None"
      by (rule ccontr) (use that in \<open>simp add: fun_eq_iff\<close>)
    then obtain b' where "((lb_entries S u c)(b := None)) b' \<noteq> None" ..
    then have "lb_entries S u c b' \<noteq> None" by (auto split: if_splits)
    then have "lb_albums S u c \<noteq> None" using consistent_entries [OF S u] by blast
    with new that show ?thesis by (auto simp: album_after_def split: if_splits)
  qed
  show "wf_oid b' \<and> lb_albums ?T u' c' \<noteq> None" if "plain_user u'" "lb_entries ?T u' c' b' \<noteq> None" for u' c' b'
  proof (cases "u' = u \<and> c' = c")
    case True
    with that(2) have "((lb_entries S u c)(b := None)) b' \<noteq> None" by (simp add: entries)
    then have "new \<noteq> None" "lb_entries S u c b' \<noteq> None" using album_new by (metis, auto split: if_splits)
    then show ?thesis using True consistent_entries [OF S u] by (simp add: albums)
  next
    case False
    then show ?thesis using that consistent_entries [OF S that(1), of c' b'] by (auto simp: entries albums)
  qed
  show "\<exists>h. s = cjson_encode L (cover_json h)" if "plain_user u'" "lb_albums ?T u' c' = Some s" for u' c' s
    using consistent_albums [OF S that(1), of c' s] that(2) new
    by (auto simp: albums album_after_def split: if_splits)
  show "\<exists>u b raw. plain_user u \<and> wf_oid b \<and> x = msgpack_pack L u b \<and> lb_inodes ?T u b = Some (CHR ''*'' # raw)"
    if "x \<in> set (lb_public ?T)" for x
    using that by (intro public_kept [OF S]) (auto simp: public inodes split: if_splits)
  show "distinct (lb_public ?T)" "length (lb_public ?T) \<le> 100"
    using consistent_distinct [OF S] consistent_length [OF S]
    by (auto simp: public intro: le_trans [OF length_filter_le])
qed

end

section \<open>What every operation keeps\<close>

text \<open>The part of the invariant that also holds after a move whose source does not hold the blob, or
  whose source is its destination: everything that a collection holds is indexed, has an inode and an
  owner and is listed. A back reference, an owner or an inode may then be left over.\<close>

definition public_ok :: "extlib \<Rightarrow> lib \<Rightarrow> bool" where
  "public_ok L S \<longleftrightarrow> (\<forall>x \<in> set (lb_public S). \<exists>u b raw. plain_user u \<and> wf_oid b \<and> x = msgpack_pack L u b \<and>
       lb_inodes S u b = Some (CHR ''*'' # raw)) \<and> distinct (lb_public S) \<and> length (lb_public S) \<le> 100"

definition indexed :: "extlib \<Rightarrow> lib \<Rightarrow> bool" where
  "indexed L S \<longleftrightarrow>
     (\<forall>u c b. plain_user u \<and> lb_entries S u c b \<noteq> None \<longrightarrow> wf_oid b \<and> c \<in> lb_refs S u b \<and> u \<in> lb_owners S b \<and>
        lb_inodes S u b \<noteq> None \<and> lb_albums S u c \<noteq> None) \<and>
     (\<forall>u c s. plain_user u \<and> lb_albums S u c = Some s \<longrightarrow> (\<exists>h. s = cjson_encode L (cover_json h))) \<and>
     public_ok L S"

lemma indexedD:
  assumes "indexed L S"
  shows indexed_entry: "plain_user u \<Longrightarrow> lb_entries S u c b \<noteq> None \<Longrightarrow> wf_oid b \<and> c \<in> lb_refs S u b \<and> u \<in> lb_owners S b \<and>
      lb_inodes S u b \<noteq> None \<and> lb_albums S u c \<noteq> None"
    and indexed_albums: "plain_user u \<Longrightarrow> lb_albums S u c = Some s \<Longrightarrow> \<exists>h. s = cjson_encode L (cover_json h)"
    and indexed_public: "public_ok L S"
  using assms unfolding indexed_def by blast+

lemma indexedI:
  assumes "\<And>u c b. plain_user u \<Longrightarrow> lb_entries S u c b \<noteq> None \<Longrightarrow> wf_oid b \<and> c \<in> lb_refs S u b \<and> u \<in> lb_owners S b \<and>
      lb_inodes S u b \<noteq> None \<and> lb_albums S u c \<noteq> None"
    and "\<And>u c s. plain_user u \<Longrightarrow> lb_albums S u c = Some s \<Longrightarrow> \<exists>h. s = cjson_encode L (cover_json h)"
    and "public_ok L S"
  shows "indexed L S"
  using assms unfolding indexed_def by blast

lemma consistent_indexed: "consistent L S \<Longrightarrow> indexed L S"
  unfolding indexed_def public_ok_def consistent_def by blast

lemma public_ok_kept:
  assumes "public_ok L S" and "set pub \<subseteq> set (lb_public S)" "distinct pub" "length pub \<le> 100" and "lb_public T = pub"
    and "\<And>u b raw. msgpack_pack L u b \<in> set pub \<Longrightarrow> lb_inodes S u b = Some (CHR ''*'' # raw) \<Longrightarrow> lb_inodes T u b = lb_inodes S u b"
  shows "public_ok L T"
  unfolding public_ok_def assms(5)
proof (intro conjI ballI assms(3,4))
  fix x
  assume "x \<in> set pub"
  moreover obtain u b raw where "plain_user u" "wf_oid b" "x = msgpack_pack L u b" "lb_inodes S u b = Some (CHR ''*'' # raw)"
    using calculation assms(1,2) unfolding public_ok_def by blast
  ultimately show "\<exists>u b raw. plain_user u \<and> wf_oid b \<and> x = msgpack_pack L u b \<and> lb_inodes T u b = Some (CHR ''*'' # raw)"
    using assms(6) by metis
qed

lemma public_ok_same:
  assumes "public_ok L S" "lb_public T = lb_public S" "\<And>u b raw. lb_inodes S u b = Some raw \<Longrightarrow> lb_inodes T u b = Some raw"
  shows "public_ok L T"
  using assms(1) by (rule public_ok_kept [OF _ subset_refl]) (use assms in \<open>auto simp: public_ok_def\<close>)

lemma indexed_link:
  assumes "indexed L S" "wf_oid b"
  shows "indexed L (l_link L u c b raw name S)"
proof (rule indexedI)
  let ?T = "l_link L u c b raw name S"
  show "wf_oid b' \<and> c' \<in> lb_refs ?T u' b' \<and> u' \<in> lb_owners ?T b' \<and> lb_inodes ?T u' b' \<noteq> None \<and> lb_albums ?T u' c' \<noteq> None"
    if "plain_user u'" "lb_entries ?T u' c' b' \<noteq> None" for u' c' b'
    using indexed_entry [OF assms(1) that(1), of c' b'] that(2) assms(2) by (auto simp: l_link_def split: if_splits)
  show "\<exists>h. s = cjson_encode L (cover_json h)" if "plain_user u'" "lb_albums ?T u' c' = Some s" for u' c' s
    using indexed_albums [OF assms(1) that(1), of c' s] that(2) by (auto simp: l_link_def split: if_splits)
  show "public_ok L ?T" by (rule public_ok_same [OF indexed_public [OF assms(1)]]) (auto simp: l_link_def)
qed

lemma indexed_move:
  assumes "indexed L S" "plain_user u" and name: "lb_entries S u src b = Some name"
  shows "indexed L (l_move L u src dest b name S)"
proof (rule indexedI)
  let ?T = "l_move L u src dest b name S"
  have b: "wf_oid b \<and> u \<in> lb_owners S b \<and> lb_inodes S u b \<noteq> None" using indexed_entry [OF assms(1,2), of src b] name by simp
  show "wf_oid b' \<and> c' \<in> lb_refs ?T u' b' \<and> u' \<in> lb_owners ?T b' \<and> lb_inodes ?T u' b' \<noteq> None \<and> lb_albums ?T u' c' \<noteq> None"
    if "plain_user u'" "lb_entries ?T u' c' b' \<noteq> None" for u' c' b'
    using indexed_entry [OF assms(1) that(1), of c' b'] that(2) b by (auto simp: l_move_def Let_def split: if_splits)
  show "\<exists>h. s = cjson_encode L (cover_json h)" if "plain_user u'" "lb_albums ?T u' c' = Some s" for u' c' s
    using indexed_albums [OF assms(1) that(1), of c' s] that(2) by (auto simp: l_move_def Let_def split: if_splits)
  show "public_ok L ?T" by (rule public_ok_same [OF indexed_public [OF assms(1)]]) (auto simp: l_move_def Let_def)
qed

lemma indexed_stray_ref:
  assumes "indexed L S" "lb_entries S u src b = None"
  shows "indexed L (S\<lparr>lb_refs := upd2 (lb_refs S) u b (insert dest (lb_refs S u b) - {src})\<rparr>)"
proof (rule indexedI)
  let ?T = "S\<lparr>lb_refs := upd2 (lb_refs S) u b (insert dest (lb_refs S u b) - {src})\<rparr>"
  show "wf_oid b' \<and> c' \<in> lb_refs ?T u' b' \<and> u' \<in> lb_owners ?T b' \<and> lb_inodes ?T u' b' \<noteq> None \<and> lb_albums ?T u' c' \<noteq> None"
    if "plain_user u'" "lb_entries ?T u' c' b' \<noteq> None" for u' c' b'
    using indexed_entry [OF assms(1) that(1), of c' b'] that(2) assms(2) by auto
  show "public_ok L ?T" by (rule public_ok_same [OF indexed_public [OF assms(1)]]) auto
qed (use indexed_albums [OF assms(1)] in simp)

lemma indexed_rename:
  assumes "indexed L S" "lb_entries S u c b \<noteq> None"
  shows "indexed L (l_rename u c b name S)"
proof (rule indexedI)
  let ?T = "l_rename u c b name S"
  show "wf_oid b' \<and> c' \<in> lb_refs ?T u' b' \<and> u' \<in> lb_owners ?T b' \<and> lb_inodes ?T u' b' \<noteq> None \<and> lb_albums ?T u' c' \<noteq> None"
    if "plain_user u'" "lb_entries ?T u' c' b' \<noteq> None" for u' c' b'
    using indexed_entry [OF assms(1) that(1), of c' b'] that(2) assms(2) by (auto simp: l_rename_def split: if_splits)
  show "public_ok L ?T" by (rule public_ok_same [OF indexed_public [OF assms(1)]]) (auto simp: l_rename_def)
qed (use indexed_albums [OF assms(1)] in \<open>simp add: l_rename_def\<close>)

lemma indexed_set_cover:
  assumes "indexed L S"
  shows "indexed L (l_set_cover L u c b S)"
proof (rule indexedI)
  let ?T = "l_set_cover L u c b S"
  show "wf_oid b' \<and> c' \<in> lb_refs ?T u' b' \<and> u' \<in> lb_owners ?T b' \<and> lb_inodes ?T u' b' \<noteq> None \<and> lb_albums ?T u' c' \<noteq> None"
    if "plain_user u'" "lb_entries ?T u' c' b' \<noteq> None" for u' c' b'
    using indexed_entry [OF assms that(1), of c' b'] that(2) by (auto simp: l_set_cover_def)
  show "\<exists>h. s = cjson_encode L (cover_json h)" if "plain_user u'" "lb_albums ?T u' c' = Some s" for u' c' s
    using indexed_albums [OF assms that(1), of c' s] that(2) by (auto simp: l_set_cover_def split: if_splits)
  show "public_ok L ?T" by (rule public_ok_same [OF indexed_public [OF assms]]) (auto simp: l_set_cover_def)
qed

context msgpack_codec
begin

lemma public_ok_filtered:
  assumes "public_ok L S" and "lb_public T = filter (\<lambda>x. x \<noteq> msgpack_pack L u b) (lb_public S)"
    and "\<And>u' b'. (u', b') \<noteq> (u, b) \<Longrightarrow> lb_inodes T u' b' = lb_inodes S u' b'"
  shows "public_ok L T"
  using assms(1)
proof (rule public_ok_kept [OF _ _ _ _ assms(2)])
  show "distinct (filter (\<lambda>x. x \<noteq> msgpack_pack L u b) (lb_public S))" "length (filter (\<lambda>x. x \<noteq> msgpack_pack L u b) (lb_public S)) \<le> 100"
    using assms(1) by (auto simp: public_ok_def intro: le_trans [OF length_filter_le])
  show "lb_inodes T u' b' = lb_inodes S u' b'"
    if "msgpack_pack L u' b' \<in> set (filter (\<lambda>x. x \<noteq> msgpack_pack L u b) (lb_public S))" for u' b'
    using that assms(3) [of u' b'] by (auto simp: pack_inject)
qed auto

lemma indexed_set_permission:
  assumes "indexed L S" "plain_user u" "wf_oid b" and raw: "lb_inodes S u b = Some raw"
  shows "indexed L (l_set_permission L u b p raw S)"
proof (rule indexedI)
  let ?T = "l_set_permission L u b p raw S"
  let ?pub = "filter (\<lambda>x. x \<noteq> msgpack_pack L u b) (lb_public S)"
  show "wf_oid b' \<and> c' \<in> lb_refs ?T u' b' \<and> u' \<in> lb_owners ?T b' \<and> lb_inodes ?T u' b' \<noteq> None \<and> lb_albums ?T u' c' \<noteq> None"
    if "plain_user u'" "lb_entries ?T u' c' b' \<noteq> None" for u' c' b'
    using indexed_entry [OF assms(1) that(1), of c' b'] that(2) by (auto simp: l_set_permission_def Let_def)
  have ok: "public_ok L (?T\<lparr>lb_public := ?pub\<rparr>)"
    by (rule public_ok_filtered [OF indexed_public [OF assms(1)], where u = u and b = b]) (auto simp: l_set_permission_def Let_def)
  show "public_ok L ?T"
  proof (cases "p = CHR ''*''")
    case True
    let ?new = "last_100 (?pub @ [msgpack_pack L u b])"
    have T: "lb_inodes ?T u b = Some (CHR ''*'' # drop 1 raw)" "lb_public ?T = ?new"
      using True by (simp_all add: l_set_permission_def Let_def)
    have "\<exists>u b raw. plain_user u \<and> wf_oid b \<and> x = msgpack_pack L u b \<and> lb_inodes ?T u b = Some (CHR ''*'' # raw)"
      if "x \<in> set ?new" for x
    proof (cases "x = msgpack_pack L u b")
      case True
      then show ?thesis using T(1) assms(2,3) by blast
    next
      case False
      then have "x \<in> set ?pub" using that by (auto simp: last_100_def dest: list.set_sel(2) [rotated] split: if_splits)
      then show ?thesis using ok unfolding public_ok_def by simp
    qed
    moreover have "distinct ?new" "length ?new \<le> 100" using ok by (auto simp: public_ok_def last_100_def distinct_tl)
    ultimately show ?thesis unfolding public_ok_def T(2) by blast
  next
    case False
    then show ?thesis using ok by (simp add: l_set_permission_def Let_def)
  qed
qed (use indexed_albums [OF assms(1)] in \<open>simp add: l_set_permission_def Let_def\<close>)

lemma indexed_unlink:
  assumes "indexed L S" "plain_user u"
    and new: "album_after L b ((lb_entries S u c)(b := None)) (lb_albums S u c) new"
  shows "indexed L (l_unlink L u c b new S)"
proof (rule indexedI)
  let ?T = "l_unlink L u c b new S"
  note defs = l_unlink_def l_forget_def Let_def
  have listed: "new \<noteq> None" if "((lb_entries S u c)(b := None)) b' \<noteq> None" for b'
  proof -
    have "lb_albums S u c \<noteq> None" using indexed_entry [OF assms(1,2), of c b'] that by (auto split: if_splits)
    moreover have "(lb_entries S u c)(b := None) \<noteq> Map.empty" using that by (metis)
    ultimately show ?thesis using new by (auto simp: album_after_def split: if_splits)
  qed
  show "wf_oid b' \<and> c' \<in> lb_refs ?T u' b' \<and> u' \<in> lb_owners ?T b' \<and> lb_inodes ?T u' b' \<noteq> None \<and> lb_albums ?T u' c' \<noteq> None"
    if "plain_user u'" "lb_entries ?T u' c' b' \<noteq> None" for u' c' b'
  proof -
    have e: "lb_entries S u' c' b' \<noteq> None" "\<not> (u' = u \<and> c' = c \<and> b' = b)" using that(2) by (auto simp: defs split: if_splits)
    have "new \<noteq> None" if "u' = u" "c' = c" using that e listed [of b'] by auto
    then show ?thesis using indexed_entry [OF assms(1) that(1) e(1)] e(2) by (auto simp: defs)
  qed
  show "\<exists>h. s = cjson_encode L (cover_json h)" if "plain_user u'" "lb_albums ?T u' c' = Some s" for u' c' s
    using indexed_albums [OF assms(1) that(1), of c' s] that(2) new
    by (auto simp: defs album_after_def split: if_splits)
  show "public_ok L ?T"
  proof (cases "lb_refs S u b - {c} = {}")
    case True
    show ?thesis
      by (rule public_ok_filtered [OF indexed_public [OF assms(1)], where u = u and b = b]) (use True in \<open>auto simp: defs\<close>)
  next
    case False
    then show ?thesis by (intro public_ok_same [OF indexed_public [OF assms(1)]]) (auto simp: defs)
  qed
qed

end

end
