(* ===== verification/Ownership_Reads.thy ===== *)
theory Ownership_Reads
  imports Ownership_Invariant
begin

text \<open>
  What the reading operations of \<^verbatim>\<open>Ownership\<close> return: the entries of a collection that a requester
  may see, the collections of a blob, the public blobs and the list of collections. None of them
  changes a key.
\<close>

section \<open>A collection\<close>

text \<open>The rows that the scan script returns.\<close>

definition scan_rows :: "(ObjectID \<rightharpoonup> string) \<Rightarrow> (string \<times> string) list \<Rightarrow> redisReply list" where
  "scan_rows I kvs = concat (map (\<lambda>(b, f). [RString b, bulk (I b), RString f]) kvs)"

lemma scan_rows_flat:
  assumes "odd n"
  shows "concat (map (\<lambda>(i, v). if i mod 2 = 1 then [RString v, bulk (I v)] else [RString v])
      (enumerate n (concat (map (\<lambda>(k, v). [k, v]) kvs)))) = scan_rows I kvs"
  using assms
proof (induction kvs arbitrary: n)
  case (Cons kv kvs)
  obtain k v where kv: "kv = (k, v)" by force
  have "n mod 2 = 1" "Suc n mod 2 \<noteq> 1" using Cons.prems by presburger+
  moreover have "odd (Suc (Suc n))" using Cons.prems by simp
  ultimately show ?case using Cons.IH [of "Suc (Suc n)"] by (simp add: kv scan_rows_def)
qed (simp add: scan_rows_def)

text \<open>What a requester sees of an entry.\<close>

definition visible :: "extlib \<Rightarrow> string \<Rightarrow> UserID \<Rightarrow> string \<Rightarrow> string \<Rightarrow> BlobInode option" where
  "visible L user requester raw filename =
     (if raw \<noteq> [] \<and> allow (inodedb_permission raw) requester user
      then (case inodedb_fields L raw of
              Inr (Some e) \<Rightarrow> Some (if filename \<noteq> [] then e\<lparr>bi_filename := filename\<rparr> else e)
            | _ \<Rightarrow> None)
      else None)"

definition readable :: "extlib \<Rightarrow> string \<Rightarrow> bool" where
  "readable L raw \<longleftrightarrow> (\<exists>f. inodedb_fields L raw = ok f)"

lemma coll_find_add_new: "coll_find b c = None \<Longrightarrow> coll_find x (add_blob b e c) = (if x = b then Some e else coll_find x c)"
  by (simp add: coll_find_add)

lemma from_rows_scan:
  assumes "\<And>b f. (b, f) \<in> set kvs \<Longrightarrow> wf_oid b" and "distinct (map fst kvs)"
    and "\<And>b raw. I b = Some raw \<Longrightarrow> readable L raw"
    and "\<And>b. b \<in> fst ` set kvs \<Longrightarrow> coll_find b c = None"
  shows "\<exists>c'. from_rows L user requester (scan_rows I kvs) c = ok c' \<and> c_name c' = c_name c \<and>
    c_owner c' = c_owner c \<and> c_meta c' = c_meta c \<and> (\<forall>x. coll_find x c' = (case map_of kvs x of
       None \<Rightarrow> coll_find x c
     | Some f \<Rightarrow> (case I x of None \<Rightarrow> None | Some raw \<Rightarrow> visible L user requester raw f)))"
  using assms
proof (induction kvs arbitrary: c)
  case (Cons kv kvs)
  obtain b f where kv: "kv = (b, f)" by force
  have b: "from_raw b = Some b" using Cons.prems(1) [of b f] kv by (simp add: from_raw_iff)
  have fresh: "coll_find b c = None" "map_of kvs b = None"
    using Cons.prems(2,4) kv by (auto simp: map_of_eq_None_iff)
  define new where "new = (case I b of None \<Rightarrow> None | Some raw \<Rightarrow> visible L user requester raw f)"
  let ?c = "case new of None \<Rightarrow> c | Some e \<Rightarrow> add_blob b e c"
  have step: "from_rows L user requester (scan_rows I (kv # kvs)) c = from_rows L user requester (scan_rows I kvs) ?c"
  proof (cases "I b")
    case None
    then show ?thesis by (simp add: kv scan_rows_def bulk_def as_string_def new_def)
  next
    case (Some raw)
    then obtain x where "inodedb_fields L raw = ok x" using Cons.prems(3) by (auto simp: readable_def)
    with Some b show ?thesis
      by (auto simp: kv scan_rows_def bulk_def as_string_def new_def visible_def bind_r_def split: option.splits)
  qed
  have look: "coll_find x ?c = (if x = b then new else coll_find x c)" for x
    using fresh by (auto simp: coll_find_add_new split: option.splits)
  have "\<exists>c'. from_rows L user requester (scan_rows I kvs) ?c = ok c' \<and> c_name c' = c_name ?c \<and>
    c_owner c' = c_owner ?c \<and> c_meta c' = c_meta ?c \<and> (\<forall>x. coll_find x c' = (case map_of kvs x of
       None \<Rightarrow> coll_find x ?c
     | Some f \<Rightarrow> (case I x of None \<Rightarrow> None | Some raw \<Rightarrow> visible L user requester raw f)))"
    using Cons.prems kv by (intro Cons.IH) (auto simp: look)
  moreover have "c_name ?c = c_name c" "c_owner ?c = c_owner c" "c_meta ?c = c_meta c"
    by (simp_all add: add_blob_def split: option.splits)
  moreover have "(case map_of (kv # kvs) x of None \<Rightarrow> coll_find x c
      | Some f \<Rightarrow> (case I x of None \<Rightarrow> None | Some raw \<Rightarrow> visible L user requester raw f)) =
    (case map_of kvs x of None \<Rightarrow> coll_find x ?c
      | Some f \<Rightarrow> (case I x of None \<Rightarrow> None | Some raw \<Rightarrow> visible L user requester raw f))" for x
    unfolding look using fresh(2) by (simp add: kv new_def)
  ultimately show ?case unfolding step by simp
qed (simp add: scan_rows_def)

lemma from_rows_step:
  assumes "from_rows L user requester (b # p # f # rs) c = ok c'"
  obtains "from_rows L user requester rs c = ok c'"
  | i e where "wf_oid i" "from_rows L user requester rs (add_blob i e c) = ok c'"
  using assms by (fastforce simp: Let_def bind_r_def from_raw_iff split: if_splits option.splits sum.splits)

lemma from_rows_keeps:
  "from_rows L user requester rows c = ok c' \<Longrightarrow> wf_coll c \<Longrightarrow> wf_coll c' \<and> c_meta c' = c_meta c"
proof (induction rows arbitrary: c rule: length_induct)
  case (1 rows)
  show ?case
  proof (cases "\<exists>b p f rs. rows = b # p # f # rs")
    case True
    then obtain b p f rs where rows: "rows = b # p # f # rs" by blast
    have IH: "from_rows L user requester rs d = ok c' \<Longrightarrow> wf_coll d \<Longrightarrow> wf_coll c' \<and> c_meta c' = c_meta d" for d
      using "1.IH" [rule_format, of rs d] by (simp add: rows)
    show ?thesis
      using "1.prems"(1) [unfolded rows]
    proof (cases rule: from_rows_step)
      case 1
      then show ?thesis using IH "1.prems"(2) by blast
    next
      case (2 i e)
      then show ?thesis using IH [OF 2(2)] wf_coll_add [OF "1.prems"(2) 2(1), of e] by (simp add: add_blob_def)
    qed
  next
    case False
    then have "from_rows L user requester rows c = ok c"
      by (cases "(L, user, requester, rows, c)" rule: from_rows.cases) auto
    then show ?thesis using "1.prems" by simp
  qed
qed

context redis_server
begin

lemma wp_scan_collection:
  assumes V: "typed V"
  shows "wp view (scan_collection_command exec u c) V (\<lambda>r W. W = V \<and>
    (\<exists>kvs. map_of kvs = hash_of (V (key_collection u c)) \<and> distinct (map fst kvs) \<and>
      r = Inr (RArray [RArray (scan_rows (hash_of (V (key_blob_inode u))) kvs),
        bulk (hash_of (V (key_collection_list u)) c)])))"
proof -
  let ?I = "hash_of (V (key_blob_inode u))"
  let ?body = "\<lambda>(i :: nat, v). if i mod 2 = 1
    then seq (call exec (HGET (key_blob_inode u) v)) (\<lambda>r. ret [RString v, r]) else ret [RString v]"
  have "wp view (for_each (enumerate 1 (concat (map (\<lambda>(k, v). [k, v]) kvs))) ?body) V Q"
    if "Q (Inr (map (\<lambda>(i, v). if i mod 2 = 1 then [RString v, bulk (?I v)] else [RString v])
      (enumerate 1 (concat (map (\<lambda>(k, v). [k, v]) kvs))))) V" for kvs Q
    using that by (rule wp_for_each [rotated]) (auto intro!: wp_rules simp: typedD [OF V])
  note loop = this
  show ?thesis unfolding scan_collection_command_def Let_def
  proof (rule wp_seq, rule wp_HGETALL, simp_all only: andthen_simps lua_strings_alternate typedD [OF V])
    fix kvs
    assume kvs: "map_of kvs = hash_of (V (key_collection u c))" "distinct (map fst kvs)"
    note flat = scan_rows_flat [of 1 ?I kvs, simplified]
    show "wp view (seq (for_each (enumerate 1 (concat (map (\<lambda>(k, v). [k, v]) kvs))) ?body)
        (\<lambda>dirs. seq (call exec (HGET (key_collection_list u) c)) (\<lambda>c. ret (RArray [RArray (concat dirs), c])))) V
      (\<lambda>r W. W = V \<and> (\<exists>kvs. map_of kvs = hash_of (V (key_collection u c)) \<and> distinct (map fst kvs) \<and>
        r = Inr (RArray [RArray (scan_rows ?I kvs), bulk (hash_of (V (key_collection_list u)) c)])))"
      using kvs by (intro wp_seq loop) (auto intro!: wp_seq wp_HGET wp_ret simp: typedD [OF V] flat)
  qed
qed

end

context ownership_server
begin

lemma parse_album: "indexed L (library V) \<Longrightarrow> plain_user u \<Longrightarrow> hash_of (V (key_collection_list u)) c = Some s \<Longrightarrow>
  \<exists>h. json_parse L s = Some (cover_json h)"
  using indexed_albums [of L "library V" u c s] parse_cjson_encode [OF cover_json_safe]
  by (auto simp: library_sel)

lemma get_collection_full:
  assumes V: "typed (view db)" "indexed L (library (view db))" and u: "plain_user u"
    and raws: "\<And>b raw. lb_inodes (library (view db)) u b = Some raw \<Longrightarrow> readable L raw"
  obtains coll where "snd (get_collection exec L u requester c db) = ok (coll, No_error)"
    and "view (fst (get_collection exec L u requester c db)) = view db"
    and "c_name coll = c" and "c_owner coll = u"
    and "\<And>b. coll_find b coll = (case lb_entries (library (view db)) u c b of
       None \<Rightarrow> None
     | Some f \<Rightarrow> (case lb_inodes (library (view db)) u b of
         None \<Rightarrow> None | Some raw \<Rightarrow> visible L u requester raw f))"
    and "wf_coll coll" and "wf_json (c_meta coll)" and "float_free (c_meta coll)"
proof -
  let ?V = "view db" and ?I = "hash_of (view db (key_blob_inode u))"
  obtain r where r: "(\<exists>kvs. map_of kvs = hash_of (?V (key_collection u c)) \<and> distinct (map fst kvs) \<and>
      r = Inr (RArray [RArray (scan_rows ?I kvs), bulk (hash_of (?V (key_collection_list u)) c)]))"
    and same: "view (fst (eval (scan_collection_command exec u c) db)) = ?V"
    and reply: "snd (eval (scan_collection_command exec u c) db) = reply_result r"
    using eval_wp [OF wp_scan_collection [OF V(1)]] by blast
  then obtain kvs where kvs: "map_of kvs = hash_of (?V (key_collection u c))" "distinct (map fst kvs)"
    "snd (eval (scan_collection_command exec u c) db) =
       RArray [RArray (scan_rows ?I kvs), bulk (hash_of (?V (key_collection_list u)) c)]"
    by (auto simp: reply_result_def)
  define meta where "meta = (let m = (case json_parse L (as_string (Some (bulk (hash_of (?V (key_collection_list u)) c)))) of
      None \<Rightarrow> JObj [] | Some j \<Rightarrow> j) in if is_object m then m else JObj [])"
  have oid: "wf_oid b" if "(b, f) \<in> set kvs" for b f
  proof -
    have "lb_entries (library ?V) u c b \<noteq> None" using that kvs(1,2) u by (simp add: library_sel kvs(1) [symmetric])
    then show ?thesis using indexed_entry [OF V(2) u] by blast
  qed
  obtain coll where coll: "from_rows L u requester (scan_rows ?I kvs) (Collection_meta c u meta) = ok coll"
    "c_name coll = c" "c_owner coll = u" "\<forall>x. coll_find x coll = (case map_of kvs x of
       None \<Rightarrow> coll_find x (Collection_meta c u meta)
     | Some f \<Rightarrow> (case ?I x of None \<Rightarrow> None | Some raw \<Rightarrow> visible L u requester raw f))"
    using from_rows_scan [of kvs ?I L "Collection_meta c u meta" u requester] oid kvs(2) raws
    by (auto simp: library_sel Collection_meta_def coll_find_def)
  have "wf_coll (Collection_meta c u meta)" by (simp add: wf_coll_def Collection_meta_def)
  then have keep: "wf_coll coll" "c_meta coll = meta" using from_rows_keeps [OF coll(1)] by (simp_all add: Collection_meta_def)
  have meta: "wf_json meta \<and> float_free meta"
  proof (cases "hash_of (?V (key_collection_list u)) c")
    case None
    then show ?thesis by (simp add: meta_def bulk_def as_string_def parse_empty is_object_def)
  next
    case (Some s)
    then obtain h where "json_parse L s = Some (cover_json h)" using parse_album [OF V(2) u] by blast
    then show ?thesis by (simp add: meta_def Some bulk_def as_string_def is_object_def cover_json_def)
  qed
  show thesis
  proof (rule that)
    show "snd (get_collection exec L u requester c db) = ok (coll, No_error)"
      using kvs(3) coll(1)
      by (simp add: get_collection_def get_collection_callback_def case_prod_unfold array_size_def
          as_array_def from_reply_def elements_def bind_r_def meta_def Let_def)
    show "coll_find b coll = (case lb_entries (library ?V) u c b of None \<Rightarrow> None
     | Some f \<Rightarrow> (case lb_inodes (library ?V) u b of None \<Rightarrow> None | Some raw \<Rightarrow> visible L u requester raw f))" for b
      using coll(4) u kvs(1)
      unfolding library_sel(3)
      by (simp add: library_sel) (simp add: Collection_meta_def coll_find_def split: option.splits)
  qed (simp_all add: coll keep meta get_collection_def case_prod_unfold same)
qed

lemma get_collection_find:
  assumes V: "typed (view db)" "indexed L (library (view db))" and u: "plain_user u"
    and raws: "\<And>b raw. lb_inodes (library (view db)) u b = Some raw \<Longrightarrow> readable L raw"
  obtains coll where "snd (get_collection exec L u requester c db) = ok (coll, No_error)"
    and "view (fst (get_collection exec L u requester c db)) = view db"
    and "c_name coll = c" and "c_owner coll = u"
    and "\<And>b. coll_find b coll = (case lb_entries (library (view db)) u c b of
       None \<Rightarrow> None
     | Some f \<Rightarrow> (case lb_inodes (library (view db)) u b of
         None \<Rightarrow> None | Some raw \<Rightarrow> visible L u requester raw f))"
  by (rule get_collection_full [OF assms, where requester = requester and c = c]) (assumption+, rule that)

end

end
