(* ===== verification/Ownership_Properties.thy ===== *)
theory Ownership_Properties
  imports Ownership_Reads
begin

text \<open>
  The operations of \<^verbatim>\<open>Ownership\<close> on a server that has the documented effects: what each of them
  does to the library, that any sequence of them keeps the library consistent, and that the
  scripts, which decide with the reverse indexes, implement a library that has no index.
\<close>

section \<open>The operations\<close>

definition entry_name :: "BlobInode \<Rightarrow> string" where
  "entry_name e = (if bi_filename e = [] then ''hello'' else bi_filename e)"

lemma inodedb_create_ne: "inodedb_create_fields L e = ok raw \<Longrightarrow> raw \<noteq> []"
  by (auto simp: inodedb_create_fields_def inodedb_create_def Let_def split: option.splits)

context ownership_server
begin

lemma link_blob_library:
  assumes "typed (view db)" "plain_user u" "wf_oid b" "inodedb_create_fields L e = ok raw"
  obtains db' where "link_blob exec L u c b e db = ok (db', No_error)" "typed (view db')"
    "library (view db') = l_link L u c b raw (entry_name e) (library (view db))"
  using eval_wp [OF wp_link [OF assms(1-3) inodedb_create_ne [OF assms(4)], of L c "entry_name e"]] that
  by (auto simp: link_blob_def link_command_def assms(4) bind_r_def ec_callback_def entry_name_def
      Let_def case_prod_unfold)

lemma unlink_blob_library:
  assumes "typed (view db)" "indexed L (library (view db))" "plain_user u" "wf_oid b"
  obtains new where "typed (view (fst (unlink_blob exec L u c b db)))"
    "snd (unlink_blob exec L u c b db) = No_error"
    "album_after L b ((lb_entries (library (view db)) u c)(b := None)) (lb_albums (library (view db)) u c) new"
    "library (view (fst (unlink_blob exec L u c b db))) = l_unlink L u c b new (library (view db))"
proof -
  have "\<exists>h. lb_albums (library (view db)) u c = Some (cjson_encode L (cover_json h))"
    if ne: "(lb_entries (library (view db)) u c)(b := None) \<noteq> Map.empty"
  proof -
    have "\<exists>b'. ((lb_entries (library (view db)) u c)(b := None)) b' \<noteq> None"
      by (rule ccontr) (use ne in \<open>simp add: fun_eq_iff\<close>)
    then obtain b' where "lb_entries (library (view db)) u c b' \<noteq> None" by (auto split: if_splits)
    from indexed_entry [OF assms(2,3) this] obtain s where "lb_albums (library (view db)) u c = Some s"
      by blast
    with indexed_albums [OF assms(2,3) this] show ?thesis by blast
  qed
  from eval_wp [OF wp_unlink [OF assms(1,3,4) this]] show thesis
    using that by (auto simp: unlink_blob_def ec_callback_def case_prod_unfold)
qed

lemma move_blob_library:
  assumes "typed (view db)" "plain_user u" "wf_oid b" "lb_entries (library (view db)) u src b = Some name"
  shows "typed (view (fst (move_blob exec L u src dest b db)))"
    "snd (move_blob exec L u src dest b db) = No_error"
    "library (view (fst (move_blob exec L u src dest b db))) = l_move L u src dest b name (library (view db))"
  using eval_wp [OF wp_move [OF assms]] by (auto simp: move_blob_def ec_callback_def case_prod_unfold)

lemma move_blob_missing:
  assumes "typed (view db)" "plain_user u" "wf_oid b" "lb_entries (library (view db)) u src b = None"
  shows "snd (move_blob exec L u src dest b db) = No_error"
    "library (view (fst (move_blob exec L u src dest b db))) = (library (view db))\<lparr>
       lb_refs := upd2 (lb_refs (library (view db))) u b (insert dest (lb_refs (library (view db)) u b) - {src})\<rparr>"
    "typed (view (fst (move_blob exec L u src dest b db)))"
  using eval_wp [OF wp_move_missing [OF assms]] by (auto simp: move_blob_def ec_callback_def case_prod_unfold)

lemma set_permission_library:
  assumes "typed (view db)" "lb_inodes (library (view db)) u b = Some raw"
  shows "typed (view (fst (set_permission exec L u b p db)))"
    "snd (set_permission exec L u b p db) = No_error"
    "library (view (fst (set_permission exec L u b p db))) = l_set_permission L u b (perm p) raw (library (view db))"
  using eval_wp [OF wp_set_permission [OF assms]]
  by (auto simp: set_permission_def ec_callback_def case_prod_unfold)

lemma set_permission_missing:
  assumes "typed (view db)" "lb_inodes (library (view db)) u b = None"
  shows "view (fst (set_permission exec L u b p db)) = view db"
  using eval_wp [OF wp_set_permission_missing [OF assms]]
  by (auto simp: set_permission_def case_prod_unfold)

lemma set_cover_library:
  assumes "typed (view db)" "indexed L (library (view db))" "plain_user u"
  shows "lb_entries (library (view db)) u c b \<noteq> None \<Longrightarrow>
      typed (view (fst (set_cover exec L u c b db))) \<and> snd (set_cover exec L u c b db) = (True, No_error) \<and>
      library (view (fst (set_cover exec L u c b db))) = l_set_cover L u c b (library (view db))"
    and "lb_entries (library (view db)) u c b = None \<Longrightarrow>
      view (fst (set_cover exec L u c b db)) = view db \<and> snd (set_cover exec L u c b db) = (False, No_error)"
proof -
  assume b: "lb_entries (library (view db)) u c b \<noteq> None"
  then obtain s where s: "lb_albums (library (view db)) u c = Some s"
    using indexed_entry [OF assms(2,3) b] by blast
  obtain h where "lb_albums (library (view db)) u c = Some (cjson_encode L (cover_json h))"
    using indexed_albums [OF assms(2,3) s] s by blast
  from eval_wp [OF wp_set_cover [OF assms(1,3) this b]]
  show "typed (view (fst (set_cover exec L u c b db))) \<and> snd (set_cover exec L u c b db) = (True, No_error) \<and>
      library (view (fst (set_cover exec L u c b db))) = l_set_cover L u c b (library (view db))"
    by (auto simp: set_cover_def set_cover_callback_def case_prod_unfold as_int_def reply_result_def)
next
  assume "lb_entries (library (view db)) u c b = None"
  from eval_wp [OF wp_set_cover_refused [OF assms(1,3) disjI2 [OF this]]]
  show "view (fst (set_cover exec L u c b db)) = view db \<and> snd (set_cover exec L u c b db) = (False, No_error)"
    by (auto simp: set_cover_def set_cover_callback_def case_prod_unfold as_int_def reply_result_def)
qed

lemma rename_blob_library:
  assumes "typed (view db)" "plain_user u"
  shows "typed (view (fst (rename_blob exec u c b name db)))"
    "library (view (fst (rename_blob exec u c b name db))) = l_rename u c b name (library (view db))"
  using assms
  by (simp_all add: rename_blob_def case_prod_unfold HSET_view typedD library_upd library_sel l_rename_def)

end

section \<open>Sequences of operations\<close>

text \<open>The operations with their arguments, and what each does to the database; a link whose inode cannot
  be printed throws before anything is sent. \<^verbatim>\<open>update_blob\<close>, which overwrites an inode, is not among them.\<close>

datatype lib_op =
    Op_link string string ObjectID BlobInode
  | Op_unlink string string ObjectID
  | Op_move string string string ObjectID
  | Op_rename string string ObjectID string
  | Op_permission string ObjectID Permission
  | Op_cover string string ObjectID
  | Op_list string UserID string

fun run_op :: "('db \<Rightarrow> rcmd \<Rightarrow> 'db \<times> redisReply) \<Rightarrow> extlib \<Rightarrow> lib_op \<Rightarrow> 'db \<Rightarrow> 'db" where
  "run_op exec L (Op_link u c b e) db = (case link_blob exec L u c b e db of Inl _ \<Rightarrow> db | Inr (db', _) \<Rightarrow> db')"
| "run_op exec L (Op_unlink u c b) db = fst (unlink_blob exec L u c b db)"
| "run_op exec L (Op_move u src dest b) db = fst (move_blob exec L u src dest b db)"
| "run_op exec L (Op_rename u c b name) db = fst (rename_blob exec u c b name db)"
| "run_op exec L (Op_permission u b p) db = fst (set_permission exec L u b p db)"
| "run_op exec L (Op_cover u c b) db = fst (set_cover exec L u c b db)"
| "run_op exec L (Op_list u requester c) db = fst (get_collection exec L u requester c db)"

text \<open>Names without a colon and identifiers of the size of a digest.\<close>

fun op_ok :: "lib_op \<Rightarrow> bool" where
  "op_ok (Op_link u c b e) \<longleftrightarrow> plain_user u \<and> wf_oid b"
| "op_ok (Op_unlink u c b) \<longleftrightarrow> plain_user u \<and> wf_oid b"
| "op_ok (Op_move u src dest b) \<longleftrightarrow> plain_user u \<and> wf_oid b"
| "op_ok (Op_rename u c b name) \<longleftrightarrow> plain_user u \<and> wf_oid b"
| "op_ok (Op_permission u b p) \<longleftrightarrow> plain_user u \<and> wf_oid b"
| "op_ok (Op_cover u c b) \<longleftrightarrow> plain_user u \<and> wf_oid b"
| "op_ok (Op_list u requester c) \<longleftrightarrow> plain_user u"

text \<open>A rename creates an entry when there is none; \<^verbatim>\<open>rename_blob\<close> has no caller in the program.\<close>

fun rename_present :: "lib \<Rightarrow> lib_op \<Rightarrow> bool" where
  "rename_present S (Op_rename u c b name) \<longleftrightarrow> lb_entries S u c b \<noteq> None"
| "rename_present S _ \<longleftrightarrow> True"

text \<open>A move from a collection that holds the blob to another one. The script checks neither.\<close>

fun regular :: "lib \<Rightarrow> lib_op \<Rightarrow> bool" where
  "regular S (Op_move u src dest b) \<longleftrightarrow> src \<noteq> dest \<and> lb_entries S u src b \<noteq> None"
| "regular S op \<longleftrightarrow> rename_present S op"

text \<open>A condition on every operation of a sequence, in the library that it meets.\<close>

fun along ::
  "(lib \<Rightarrow> lib_op \<Rightarrow> bool) \<Rightarrow> ('db \<Rightarrow> rcmd \<Rightarrow> 'db \<times> redisReply) \<Rightarrow> ('db \<Rightarrow> string \<Rightarrow> rvalue) \<Rightarrow> extlib \<Rightarrow>
   lib_op list \<Rightarrow> 'db \<Rightarrow> bool" where
  "along P exec view L [] db \<longleftrightarrow> True"
| "along P exec view L (op # ops) db \<longleftrightarrow> P (library (view db)) op \<and> along P exec view L ops (run_op exec L op db)"

context ownership_server
begin

text \<open>What an operation does to the library.\<close>

lemma run_link:
  assumes V: "typed (view db)" and "plain_user u" "wf_oid b"
  obtains "\<exists>x. inodedb_create_fields L e = Inl x" "run_op exec L (Op_link u c b e) db = db"
  | raw where "inodedb_create_fields L e = ok raw" "typed (view (run_op exec L (Op_link u c b e) db))"
    "library (view (run_op exec L (Op_link u c b e) db)) = l_link L u c b raw (entry_name e) (library (view db))"
proof (cases "inodedb_create_fields L e")
  case (Inl x)
  then show ?thesis using that(1) by (simp add: link_blob_def link_command_def bind_r_def)
next
  case (Inr raw)
  show ?thesis by (rule link_blob_library [OF assms Inr, of c]) (rule that(2) [OF Inr], simp_all)
qed

lemma run_move:
  assumes V: "typed (view db)" and ok: "plain_user u" "wf_oid b"
  obtains name where "lb_entries (library (view db)) u src b = Some name" "typed (view (run_op exec L (Op_move u src dest b) db))"
    "library (view (run_op exec L (Op_move u src dest b) db)) = l_move L u src dest b name (library (view db))"
  | "lb_entries (library (view db)) u src b = None" "typed (view (run_op exec L (Op_move u src dest b) db))"
    "library (view (run_op exec L (Op_move u src dest b) db)) = (library (view db))\<lparr>
       lb_refs := upd2 (lb_refs (library (view db))) u b (insert dest (lb_refs (library (view db)) u b) - {src})\<rparr>"
proof (cases "lb_entries (library (view db)) u src b")
  case None
  then show ?thesis using move_blob_missing [OF assms None, of dest] that(2) by simp
next
  case (Some name)
  then show ?thesis using move_blob_library [OF assms Some, of dest] that(1) by simp
qed

lemma run_permission:
  assumes V: "typed (view db)"
  obtains raw where "lb_inodes (library (view db)) u b = Some raw" "typed (view (run_op exec L (Op_permission u b p) db))"
    "library (view (run_op exec L (Op_permission u b p) db)) = l_set_permission L u b (perm p) raw (library (view db))"
  | "lb_inodes (library (view db)) u b = None" "view (run_op exec L (Op_permission u b p) db) = view db"
proof (cases "lb_inodes (library (view db)) u b")
  case None
  then show ?thesis using set_permission_missing [OF V None] that(2) by simp
next
  case (Some raw)
  then show ?thesis using set_permission_library [OF V Some, of p] that(1) by simp
qed

lemma run_cover:
  assumes "typed (view db)" "indexed L (library (view db))" "plain_user u"
  obtains "lb_entries (library (view db)) u c b \<noteq> None" "typed (view (run_op exec L (Op_cover u c b) db))"
    "library (view (run_op exec L (Op_cover u c b) db)) = l_set_cover L u c b (library (view db))"
  | "lb_entries (library (view db)) u c b = None" "view (run_op exec L (Op_cover u c b) db) = view db"
  using set_cover_library [OF assms, of c b] that by auto

lemma run_list: "typed (view db) \<Longrightarrow> view (run_op exec L (Op_list u requester c) db) = view db"
  using eval_wp [OF wp_scan_collection, of db u c] by (auto simp: get_collection_def case_prod_unfold)

lemma run_op_indexed:
  assumes V: "typed (view db)" and S: "indexed L (library (view db))" and ok: "op_ok op"
    and present: "rename_present (library (view db)) op"
  shows "typed (view (run_op exec L op db)) \<and> indexed L (library (view (run_op exec L op db)))"
proof (cases op)
  case (Op_link u c b e)
  then have "plain_user u" "wf_oid b" using ok by simp_all
  then show ?thesis unfolding Op_link by (rule run_link [OF V, of u b e c]) (simp_all add: V S indexed_link \<open>wf_oid b\<close> del: run_op.simps)
next
  case (Op_unlink u c b)
  then show ?thesis using ok unlink_blob_library [OF V S, of u b c] indexed_unlink [OF S, of u b c] by (metis op_ok.simps(2) run_op.simps(2))
next
  case (Op_move u src dest b)
  then have u: "plain_user u" "wf_oid b" using ok by simp_all
  then show ?thesis unfolding Op_move
    by (rule run_move [OF V, of u b src dest]) (simp_all add: indexed_move indexed_stray_ref S u del: run_op.simps)
next
  case (Op_rename u c b name)
  then show ?thesis using ok present rename_blob_library [OF V, of u c b name] indexed_rename [OF S] by simp
next
  case (Op_permission u b p)
  then have u: "plain_user u" "wf_oid b" using ok by simp_all
  show ?thesis unfolding Op_permission
    by (rule run_permission [OF V, of u b p]) (simp_all add: indexed_set_permission V S u del: run_op.simps)
next
  case (Op_cover u c b)
  then have u: "plain_user u" using ok by simp
  show ?thesis unfolding Op_cover
    by (rule run_cover [OF V S u, of c b]) (simp_all add: indexed_set_cover V S del: run_op.simps)
next
  case (Op_list u requester c)
  then show ?thesis using V S by (simp del: run_op.simps add: run_list)
qed

lemma run_op_consistent:
  assumes V: "typed (view db)" and S: "consistent L (library (view db))" and ok: "op_ok op"
    and reg: "regular (library (view db)) op"
  shows "typed (view (run_op exec L op db)) \<and> consistent L (library (view (run_op exec L op db)))"
proof (cases op)
  case (Op_link u c b e)
  then have u: "plain_user u" "wf_oid b" using ok by simp_all
  then show ?thesis unfolding Op_link by (rule run_link [OF V, of u b e c]) (simp_all add: V S consistent_link u del: run_op.simps)
next
  case (Op_unlink u c b)
  then show ?thesis
    using ok unlink_blob_library [OF V consistent_indexed [OF S], of u b c] consistent_unlink [OF S, of u b c]
    by (metis op_ok.simps(2) run_op.simps(2))
next
  case (Op_move u src dest b)
  then have u: "plain_user u" "wf_oid b" and r: "src \<noteq> dest" "lb_entries (library (view db)) u src b \<noteq> None"
    using ok reg by simp_all
  show ?thesis unfolding Op_move
    by (rule run_move [OF V u, of src dest]) (simp_all add: consistent_move S u r del: run_op.simps)
next
  case (Op_rename u c b name)
  then show ?thesis using ok reg rename_blob_library [OF V, of u c b name] consistent_rename [OF S] by simp
next
  case (Op_permission u b p)
  then have u: "plain_user u" "wf_oid b" using ok by simp_all
  show ?thesis unfolding Op_permission
    by (rule run_permission [OF V, of u b p]) (simp_all add: consistent_set_permission V S u del: run_op.simps)
next
  case (Op_cover u c b)
  then have u: "plain_user u" using ok by simp
  show ?thesis unfolding Op_cover
    by (rule run_cover [OF V consistent_indexed [OF S] u, of c b]) (simp_all add: consistent_set_cover V S u del: run_op.simps)
next
  case (Op_list u requester c)
  then show ?thesis using V S by (simp del: run_op.simps add: run_list)
qed

lemma run_ops_invariant:
  assumes "typed (view db)" and "\<forall>op \<in> set ops. op_ok op"
  shows "indexed L (library (view db)) \<Longrightarrow> along rename_present exec view L ops db \<Longrightarrow>
      indexed L (library (view (fold (run_op exec L) ops db)))"
    and "consistent L (library (view db)) \<Longrightarrow> along regular exec view L ops db \<Longrightarrow>
      consistent L (library (view (fold (run_op exec L) ops db)))"
proof -
  show "indexed L (library (view (fold (run_op exec L) ops db)))"
    if "indexed L (library (view db))" "along rename_present exec view L ops db"
    using assms that by (induction ops arbitrary: db) (auto simp: run_op_indexed)
  show "consistent L (library (view (fold (run_op exec L) ops db)))"
    if "consistent L (library (view db))" "along regular exec view L ops db"
    using assms that by (induction ops arbitrary: db) (auto simp: run_op_consistent)
qed

end

interpretation own: ownership_server ref_exec ref_view ref_ttl ref_lib
  by unfold_locales

section \<open>A library without indexes\<close>

text \<open>The abstract library: what the collections hold, the inodes, the list of collections and the
  public list. Which collections refer to a blob is read off the entries.\<close>

record shelf =
  s_entries :: "string \<Rightarrow> string \<Rightarrow> ObjectID \<rightharpoonup> string"
  s_inodes :: "string \<Rightarrow> ObjectID \<rightharpoonup> string"
  s_albums :: "string \<Rightarrow> string \<rightharpoonup> string"
  s_public :: "string list"

definition shelf_of :: "lib \<Rightarrow> shelf" where
  "shelf_of S = \<lparr>s_entries = lb_entries S, s_inodes = lb_inodes S, s_albums = lb_albums S, s_public = lb_public S\<rparr>"

definition s_put :: "string \<Rightarrow> string \<Rightarrow> ObjectID \<Rightarrow> string option \<Rightarrow> shelf \<Rightarrow> shelf" where
  "s_put u c b name S = S\<lparr>s_entries := upd2 (s_entries S) u c ((s_entries S u c)(b := name))\<rparr>"

text \<open>A collection is listed, with a blob as its cover, when it gets its first entry.\<close>

definition s_list :: "extlib \<Rightarrow> string \<Rightarrow> string \<Rightarrow> ObjectID \<Rightarrow> shelf \<Rightarrow> shelf" where
  "s_list L u c b S = (if s_albums S u c = None
     then S\<lparr>s_albums := upd2 (s_albums S) u c (Some (cjson_encode L (cover_json (to_hex L b))))\<rparr> else S)"

definition s_link :: "extlib \<Rightarrow> string \<Rightarrow> string \<Rightarrow> ObjectID \<Rightarrow> string \<Rightarrow> string \<Rightarrow> shelf \<Rightarrow> shelf" where
  "s_link L u c b raw name S = s_list L u c b (s_put u c b (Some name)
     (if s_inodes S u b = None then S\<lparr>s_inodes := upd2 (s_inodes S) u b (Some raw)\<rparr> else S))"

definition s_move :: "extlib \<Rightarrow> string \<Rightarrow> string \<Rightarrow> string \<Rightarrow> ObjectID \<Rightarrow> shelf \<Rightarrow> shelf" where
  "s_move L u src dest b S =
     s_list L u dest b (s_put u src b None (s_put u dest b (s_entries S u src b) S))"

text \<open>The blob leaves the library of the user with its last collection.\<close>

definition s_unlink :: "extlib \<Rightarrow> string \<Rightarrow> string \<Rightarrow> ObjectID \<Rightarrow> string option \<Rightarrow> shelf \<Rightarrow> shelf" where
  "s_unlink L u c b new S =
     (let T = (s_put u c b None S)\<lparr>s_albums := upd2 (s_albums S) u c new\<rparr>
      in if \<forall>c'. s_entries T u c' b = None
         then T\<lparr>s_inodes := upd2 (s_inodes S) u b None,
                s_public := filter (\<lambda>x. x \<noteq> msgpack_pack L u b) (s_public S)\<rparr>
         else T)"

definition s_permission :: "extlib \<Rightarrow> string \<Rightarrow> ObjectID \<Rightarrow> char \<Rightarrow> string \<Rightarrow> shelf \<Rightarrow> shelf" where
  "s_permission L u b p raw S =
     (let pub = filter (\<lambda>x. x \<noteq> msgpack_pack L u b) (s_public S)
      in S\<lparr>s_inodes := upd2 (s_inodes S) u b (Some (p # drop 1 raw)),
           s_public := (if p = CHR ''*'' then last_100 (pub @ [msgpack_pack L u b]) else pub)\<rparr>)"

definition s_cover :: "extlib \<Rightarrow> string \<Rightarrow> string \<Rightarrow> ObjectID \<Rightarrow> shelf \<Rightarrow> shelf" where
  "s_cover L u c b S =
     S\<lparr>s_albums := upd2 (s_albums S) u c (Some (cjson_encode L (cover_json (to_hex L b))))\<rparr>"

text \<open>Each operation on the abstract library. Only the new cover after an unlink is left open.\<close>

fun shelf_op :: "extlib \<Rightarrow> lib_op \<Rightarrow> shelf \<Rightarrow> shelf \<Rightarrow> bool" where
  "shelf_op L (Op_link u c b e) S T \<longleftrightarrow>
     T = (case inodedb_create_fields L e of Inl _ \<Rightarrow> S | Inr raw \<Rightarrow> s_link L u c b raw (entry_name e) S)"
| "shelf_op L (Op_unlink u c b) S T \<longleftrightarrow>
     (\<exists>new. album_after L b ((s_entries S u c)(b := None)) (s_albums S u c) new \<and> T = s_unlink L u c b new S)"
| "shelf_op L (Op_move u src dest b) S T \<longleftrightarrow> T = s_move L u src dest b S"
| "shelf_op L (Op_rename u c b name) S T \<longleftrightarrow> T = s_put u c b (Some name) S"
| "shelf_op L (Op_permission u b p) S T \<longleftrightarrow>
     T = (case s_inodes S u b of None \<Rightarrow> S | Some raw \<Rightarrow> s_permission L u b (perm p) raw S)"
| "shelf_op L (Op_cover u c b) S T \<longleftrightarrow> T = (if s_entries S u c b = None then S else s_cover L u c b S)"
| "shelf_op L (Op_list u requester c) S T \<longleftrightarrow> T = S"

fun shelf_ops :: "extlib \<Rightarrow> lib_op list \<Rightarrow> shelf \<Rightarrow> shelf \<Rightarrow> bool" where
  "shelf_ops L [] S T \<longleftrightarrow> T = S"
| "shelf_ops L (op # ops) S T \<longleftrightarrow> (\<exists>R. shelf_op L op S R \<and> shelf_ops L ops R T)"

lemma shelf_of_sel [simp]:
  "s_entries (shelf_of S) = lb_entries S" "s_inodes (shelf_of S) = lb_inodes S"
  "s_albums (shelf_of S) = lb_albums S" "s_public (shelf_of S) = lb_public S"
  by (simp_all add: shelf_of_def)

lemma shelf_link: "shelf_of (l_link L u c b raw name S) = s_link L u c b raw name (shelf_of S)"
  by (simp add: shelf_of_def l_link_def s_link_def s_list_def s_put_def)

lemma shelf_move:
  "lb_entries S u src b = Some name \<Longrightarrow> shelf_of (l_move L u src dest b name S) = s_move L u src dest b (shelf_of S)"
  by (simp add: shelf_of_def l_move_def s_move_def s_list_def s_put_def Let_def)

lemma shelf_unlink:
  assumes S: "consistent L S" and u: "plain_user u" and b: "wf_oid b"
  shows "shelf_of (l_unlink L u c b new S) = s_unlink L u c b new (shelf_of S)"
proof -
  have "lb_refs S u b - {c} = {} \<longleftrightarrow> (\<forall>c'. c' \<noteq> c \<longrightarrow> lb_entries S u c' b = None)"
    using consistent_refs [OF S u b] by blast
  moreover have "(\<forall>c'. upd2 (lb_entries S) u c ((lb_entries S u c)(b := None)) u c' b = None) \<longleftrightarrow>
      (\<forall>c'. c' \<noteq> c \<longrightarrow> lb_entries S u c' b = None)"
    by auto
  ultimately show ?thesis
    by (cases "lb_refs S u b - {c} = {}")
      (simp_all add: shelf_of_def l_unlink_def l_forget_def s_unlink_def s_put_def Let_def
        del: Diff_eq_empty_iff, metis option.distinct(1))
qed

lemma shelf_permission: "shelf_of (l_set_permission L u b p raw S) = s_permission L u b p raw (shelf_of S)"
  by (simp add: shelf_of_def l_set_permission_def s_permission_def Let_def)

lemma shelf_cover: "shelf_of (l_set_cover L u c b S) = s_cover L u c b (shelf_of S)"
  by (simp add: shelf_of_def l_set_cover_def s_cover_def)

lemma shelf_rename: "shelf_of (l_rename u c b name S) = s_put u c b (Some name) (shelf_of S)"
  by (simp add: shelf_of_def l_rename_def s_put_def)

context ownership_server
begin

lemma run_op_refines:
  assumes V: "typed (view db)" and S: "consistent L (library (view db))" and ok: "op_ok op"
    and reg: "regular (library (view db)) op"
  shows "shelf_op L op (shelf_of (library (view db))) (shelf_of (library (view (run_op exec L op db))))"
proof (cases op)
  case (Op_link u c b e)
  then have "plain_user u" "wf_oid b" using ok by simp_all
  then show ?thesis unfolding Op_link
    by (rule run_link [OF V, of u b e c]) (auto simp: shelf_link simp del: run_op.simps)
next
  case (Op_unlink u c b)
  then obtain new where "album_after L b ((lb_entries (library (view db)) u c)(b := None)) (lb_albums (library (view db)) u c) new"
    "library (view (fst (unlink_blob exec L u c b db))) = l_unlink L u c b new (library (view db))"
    using unlink_blob_library [OF V consistent_indexed [OF S], of u b c] ok by auto
  then show ?thesis using Op_unlink ok by (auto simp: shelf_unlink [OF S])
next
  case (Op_move u src dest b)
  then have u: "plain_user u" "wf_oid b" and r: "lb_entries (library (view db)) u src b \<noteq> None" using ok reg by simp_all
  show ?thesis unfolding Op_move
    by (rule run_move [OF V u, of src dest]) (simp_all add: shelf_move r del: run_op.simps)
next
  case (Op_rename u c b name)
  then show ?thesis using ok rename_blob_library [OF V, of u c b name] by (simp add: shelf_rename)
next
  case (Op_permission u b p)
  show ?thesis unfolding Op_permission
    by (rule run_permission [OF V, of u b p]) (simp_all add: shelf_permission del: run_op.simps)
next
  case (Op_cover u c b)
  then have u: "plain_user u" using ok by simp
  show ?thesis unfolding Op_cover
    by (rule run_cover [OF V consistent_indexed [OF S] u, of c b]) (auto simp: shelf_cover simp del: run_op.simps)
next
  case (Op_list u requester c)
  then show ?thesis using V by (simp del: run_op.simps add: run_list)
qed

lemma run_ops_refine:
  assumes "typed (view db)" "consistent L (library (view db))" "\<forall>op \<in> set ops. op_ok op" "along regular exec view L ops db"
  shows "shelf_ops L ops (shelf_of (library (view db))) (shelf_of (library (view (fold (run_op exec L) ops db))))"
  using assms
proof (induction ops arbitrary: db)
  case (Cons op ops)
  then show ?case using run_op_refines [of db op] run_op_consistent [of db op] by auto
qed simp

end

section \<open>A small library\<close>

text \<open>One private picture in one collection on the reference server, for the witnesses.\<close>

definition demo_oid :: ObjectID where
  "demo_oid = replicate 20 CHR ''a''"

definition demo_entry :: BlobInode where
  "demo_entry = \<lparr>bi_perm = private_perm, bi_filename = ''cat.jpg'', bi_mime = ''image/jpeg'', bi_timestamp = 1000\<rparr>"

definition demo_raw :: string where
  "demo_raw = CHR '' '' # ref_print (JObj [(''filename'', JStr ''cat.jpg''), (''mime'', JStr ''image/jpeg''),
     (''timestamp'', JInt 1000)])"

definition demo_db :: refdb where
  "demo_db = (case link_blob ref_exec ref_lib ''sumsum'' ''pets'' demo_oid demo_entry empty_db of
     Inr (db, _) \<Rightarrow> db | Inl _ \<Rightarrow> empty_db)"

lemma demo_wf [simp]: "wf_oid demo_oid" "plain_user ''sumsum''"
  by (simp_all add: wf_oid_def demo_oid_def Blake2_size_def plain_user_def)

lemma demo_create: "inodedb_create_fields ref_lib demo_entry = ok demo_raw"
  by (simp add: inodedb_create_fields_def inodedb_create_def demo_entry_def demo_raw_def ref_lib_def
      ts_to_json_def private_perm_def less_char_def)

lemma empty_view: "ref_view empty_db = (\<lambda>_. Missing)"
  by (simp add: ref_view_def empty_db_def fun_eq_iff)

lemma typed_missing: "typed (\<lambda>_. Missing)"
  by (simp add: typed_def)

lemma demo_link: "link_blob ref_exec ref_lib ''sumsum'' ''pets'' demo_oid demo_entry empty_db = ok (demo_db, No_error)"
  and demo_typed: "typed (ref_view demo_db)"
  and demo_library: "library (ref_view demo_db) =
    l_link ref_lib ''sumsum'' ''pets'' demo_oid demo_raw ''cat.jpg'' (library (\<lambda>_. Missing))"
proof -
  have "typed (ref_view empty_db)" by (simp add: empty_view typed_missing)
  then obtain db' where db': "link_blob ref_exec ref_lib ''sumsum'' ''pets'' demo_oid demo_entry empty_db = ok (db', No_error)"
    "typed (ref_view db')"
    "library (ref_view db') = l_link ref_lib ''sumsum'' ''pets'' demo_oid demo_raw (entry_name demo_entry) (library (ref_view empty_db))"
    by (rule own.link_blob_library [OF _ _ _ demo_create, where c = "''pets''"]) auto
  moreover have "db' = demo_db" using db'(1) by (simp add: demo_db_def)
  ultimately show "link_blob ref_exec ref_lib ''sumsum'' ''pets'' demo_oid demo_entry empty_db = ok (demo_db, No_error)"
    "typed (ref_view demo_db)" "library (ref_view demo_db) =
      l_link ref_lib ''sumsum'' ''pets'' demo_oid demo_raw ''cat.jpg'' (library (\<lambda>_. Missing))"
    by (simp_all add: empty_view entry_name_def demo_entry_def)
qed

lemma demo_consistent: "consistent ref_lib (library (ref_view demo_db))"
  unfolding demo_library by (intro consistent_link consistent_empty) auto

lemmas demo_indexed = consistent_indexed [OF demo_consistent]

lemma demo_contents:
  "lb_entries (library (ref_view demo_db)) u c b =
     (if u = ''sumsum'' \<and> c = ''pets'' \<and> b = demo_oid then Some ''cat.jpg'' else None)"
  "lb_inodes (library (ref_view demo_db)) u b =
     (if u = ''sumsum'' \<and> b = demo_oid then Some demo_raw else None)"
  "lb_refs (library (ref_view demo_db)) u b =
     (if u = ''sumsum'' \<and> b = demo_oid then {''pets''} else {})"
  unfolding demo_library by (auto simp: l_link_def library_def)

section \<open>Properties\<close>

text \<open>C1: Starting from an empty database, whatever sequence of link, unlink, move, permission, cover and
  listing operations the users (with names without a colon) run, and renames of blobs that are there,
  everything that a collection holds has a back reference, an inode and an owner, and the collection is
  listed with a readable cover; and the public list has at most 100 distinct blobs, each of them public.
  When moreover every move of the sequence goes to another collection and takes a blob that its source
  holds at that time, the indexes are exact: the collections named by a blob's back references are exactly
  those that hold it, and a blob has an inode and an owner exactly while some collection holds it.\<close>

theorem library_stays_consistent:
  assumes "ownership_server exec view ttl L" and "view db0 = (\<lambda>_. Missing)"
    and "\<forall>op \<in> set ops. op_ok op" and "along rename_present exec view L ops db0"
  shows "indexed L (library (view (fold (run_op exec L) ops db0))) \<and>
    (along regular exec view L ops db0 \<longrightarrow> consistent L (library (view (fold (run_op exec L) ops db0))))"
  using ownership_server.run_ops_invariant [OF assms(1) _ assms(3), of db0] assms(2,4) typed_missing consistent_empty
  by (auto simp: consistent_indexed)

text \<open>A blob that is linked, made public and set as the cover.\<close>

definition demo_ops :: "lib_op list" where
  "demo_ops = [Op_link ''sumsum'' ''pets'' demo_oid demo_entry, Op_permission ''sumsum'' demo_oid public_perm,
     Op_cover ''sumsum'' ''pets'' demo_oid]"

lemma demo_ops_along: "along regular ref_exec ref_view ref_lib demo_ops db" "along rename_present ref_exec ref_view ref_lib demo_ops db"
  by (simp_all add: demo_ops_def)

theorem library_stays_consistent_witness:
  "indexed ref_lib (library (ref_view (fold (run_op ref_exec ref_lib)
       [Op_link ''sumsum'' ''pets'' demo_oid demo_entry, Op_move ''sumsum'' ''zoo'' ''park'' demo_oid] empty_db))) \<and>
   consistent ref_lib (library (ref_view (fold (run_op ref_exec ref_lib) demo_ops empty_db)))"
  using library_stays_consistent [of ref_exec ref_view ref_ttl ref_lib empty_db
      "[Op_link ''sumsum'' ''pets'' demo_oid demo_entry, Op_move ''sumsum'' ''zoo'' ''park'' demo_oid]"]
    library_stays_consistent [of ref_exec ref_view ref_ttl ref_lib empty_db demo_ops]
    own.ownership_server_axioms empty_view demo_ops_along
  by (simp add: demo_ops_def del: run_op.simps)

text \<open>C2: The scripts implement a library that has no back references. On a consistent database, and for a
  sequence of operations whose moves and renames are of blobs that are there (and moves go to another
  collection), the entries, inodes, covers and the public list after the sequence are those after the same
  operations, with the same arguments, on the abstract library: a link stores the name, keeps an inode that
  is there and lists a new collection; a move keeps the name; an unlink takes the inode and the place in the
  public list with the last collection that holds the blob; a permission replaces the first byte of an inode
  and appends to or removes from the public list; a cover is set only for a blob of the collection.\<close>

theorem ownership_refines_shelf:
  assumes "ownership_server exec view ttl L" and "typed (view db)" and "consistent L (library (view db))"
    and "\<forall>op \<in> set ops. op_ok op" and "along regular exec view L ops db"
  shows "shelf_ops L ops (shelf_of (library (view db))) (shelf_of (library (view (fold (run_op exec L) ops db))))"
  using ownership_server.run_ops_refine [OF assms] .

theorem ownership_refines_shelf_witness:
  "shelf_ops ref_lib demo_ops (shelf_of (library (ref_view empty_db)))
     (shelf_of (library (ref_view (fold (run_op ref_exec ref_lib) demo_ops empty_db))))"
  using ownership_refines_shelf [of ref_exec ref_view ref_ttl ref_lib empty_db demo_ops]
    own.ownership_server_axioms demo_ops_along
  by (simp add: empty_view typed_missing consistent_empty demo_ops_def del: run_op.simps shelf_ops.simps fold.simps)

text \<open>C25: Linking a blob succeeds and puts it into the collection under its file name (or "hello" when
  it has none), adds the collection to the back references of the blob and the user to its owners, keeps
  an inode (and with it the permission) that the user already has for this blob in whatever collection and
  stores the given one otherwise, and makes the blob the cover of the collection only when the collection
  is new. Everything else of the library, of this and of the other users, stays as it was.\<close>

theorem link_blob_effect:
  assumes "ownership_server exec view ttl L" and "typed (view db)" and "plain_user u" and "wf_oid b"
    and "inodedb_create_fields L e = ok raw"
  shows "\<exists>db'. link_blob exec L u c b e db = ok (db', No_error) \<and>
    (let S = library (view db); T = library (view db') in
     lb_entries T = (\<lambda>u' c' b'. if u' = u \<and> c' = c \<and> b' = b
       then Some (if bi_filename e = [] then ''hello'' else bi_filename e) else lb_entries S u' c' b') \<and>
     lb_refs T = (\<lambda>u' b'. if u' = u \<and> b' = b then insert c (lb_refs S u b) else lb_refs S u' b') \<and>
     lb_owners T = (\<lambda>b'. if b' = b then insert u (lb_owners S b) else lb_owners S b') \<and>
     lb_inodes T = (\<lambda>u' b'. if u' = u \<and> b' = b \<and> lb_inodes S u b = None then Some raw else lb_inodes S u' b') \<and>
     lb_albums T = (\<lambda>u' c'. if u' = u \<and> c' = c \<and> lb_albums S u c = None
       then Some (cjson_encode L (cover_json (to_hex L b))) else lb_albums S u' c') \<and>
     lb_public T = lb_public S)"
proof -
  obtain db' where db': "link_blob exec L u c b e db = ok (db', No_error)"
    "library (view db') = l_link L u c b raw (entry_name e) (library (view db))"
    by (rule ownership_server.link_blob_library [OF assms, of c]) simp
  then show ?thesis
    by (intro exI [of _ db']) (auto simp: l_link_def entry_name_def fun_eq_iff Let_def)
qed

theorem link_blob_effect_witness:
  "\<exists>db'. link_blob ref_exec ref_lib ''sumsum'' ''zoo'' demo_oid demo_entry demo_db = ok (db', No_error) \<and>
    lb_entries (library (ref_view db')) ''sumsum'' ''zoo'' demo_oid = Some ''cat.jpg'' \<and>
    lb_entries (library (ref_view db')) ''sumsum'' ''pets'' demo_oid = Some ''cat.jpg''"
  using link_blob_effect [of ref_exec ref_view ref_ttl ref_lib demo_db "''sumsum''" demo_oid demo_entry demo_raw "''zoo''"]
    own.ownership_server_axioms demo_typed demo_create by (auto simp: demo_contents demo_entry_def Let_def)

text \<open>C24: Unlinking a blob succeeds, removes it from this collection and from no other, and removes the
  collection from its back references. When no back reference is left, the inode, the owner and the place
  in the public list go too, otherwise they stay; when the indexes are exact, that is when no other
  collection of the user holds the blob. The collection is listed as long as it has an entry, with a
  remaining blob as its cover if the removed blob was the cover. Nothing else of the library changes. The
  library is one that the operations can leave behind, also after moves of blobs that were not there.\<close>

theorem unlink_blob_effect:
  assumes "ownership_server exec view ttl L" and "typed (view db)" and "indexed L (library (view db))"
    and "plain_user u" and "wf_oid b"
  shows "snd (unlink_blob exec L u c b db) = No_error \<and>
    (let S = library (view db); T = library (view (fst (unlink_blob exec L u c b db)));
         last = (lb_refs S u b \<subseteq> {c}) in
     lb_entries T = (\<lambda>u' c' b'. if u' = u \<and> c' = c \<and> b' = b then None else lb_entries S u' c' b') \<and>
     lb_refs T = (\<lambda>u' b'. if u' = u \<and> b' = b then lb_refs S u b - {c} else lb_refs S u' b') \<and>
     lb_owners T = (\<lambda>b'. if b' = b \<and> last then lb_owners S b - {u} else lb_owners S b') \<and>
     lb_inodes T = (\<lambda>u' b'. if u' = u \<and> b' = b \<and> last then None else lb_inodes S u' b') \<and>
     lb_public T = (if last then filter (\<lambda>x. x \<noteq> msgpack_pack L u b) (lb_public S) else lb_public S) \<and>
     album_after L b (lb_entries T u c) (lb_albums S u c) (lb_albums T u c) \<and>
     (\<forall>u' c'. (u', c') \<noteq> (u, c) \<longrightarrow> lb_albums T u' c' = lb_albums S u' c') \<and>
     (consistent L S \<longrightarrow> last = (\<forall>c'. c' \<noteq> c \<longrightarrow> lb_entries S u c' b = None)))"
proof -
  let ?S = "library (view db)"
  obtain new where new: "snd (unlink_blob exec L u c b db) = No_error"
    "album_after L b ((lb_entries ?S u c)(b := None)) (lb_albums ?S u c) new"
    "library (view (fst (unlink_blob exec L u c b db))) = l_unlink L u c b new ?S"
    by (rule ownership_server.unlink_blob_library [OF assms, of c]) simp
  have fields: "lb_entries (l_unlink L u c b new S) = (\<lambda>u' c' b'. if u' = u \<and> c' = c \<and> b' = b then None else lb_entries S u' c' b')"
    "lb_refs (l_unlink L u c b new S) = (\<lambda>u' b'. if u' = u \<and> b' = b then lb_refs S u b - {c} else lb_refs S u' b')"
    "lb_owners (l_unlink L u c b new S) = (\<lambda>b'. if b' = b \<and> lb_refs S u b \<subseteq> {c} then lb_owners S b - {u} else lb_owners S b')"
    "lb_inodes (l_unlink L u c b new S) = (\<lambda>u' b'. if u' = u \<and> b' = b \<and> lb_refs S u b \<subseteq> {c} then None else lb_inodes S u' b')"
    "lb_public (l_unlink L u c b new S) =
      (if lb_refs S u b \<subseteq> {c} then filter (\<lambda>x. x \<noteq> msgpack_pack L u b) (lb_public S) else lb_public S)"
    "lb_albums (l_unlink L u c b new S) = upd2 (lb_albums S) u c new" for S
    by (simp_all add: l_unlink_def l_forget_def Let_def fun_eq_iff)
  have "lb_refs ?S u b \<subseteq> {c} \<longleftrightarrow> (\<forall>c'. c' \<noteq> c \<longrightarrow> lb_entries ?S u c' b = None)" if "consistent L ?S"
    using consistent_refs [OF that assms(4,5)] by blast
  moreover have "(\<lambda>b'. if b' = b then None else lb_entries ?S u c b') = (lb_entries ?S u c)(b := None)" by auto
  ultimately show ?thesis unfolding new(3) Let_def fields using new(1,2) by simp
qed

theorem unlink_blob_effect_witness:
  "snd (unlink_blob ref_exec ref_lib ''sumsum'' ''pets'' demo_oid demo_db) = No_error \<and>
   lb_entries (library (ref_view (fst (unlink_blob ref_exec ref_lib ''sumsum'' ''pets'' demo_oid demo_db))))
     ''sumsum'' ''pets'' demo_oid = None \<and>
   lb_inodes (library (ref_view (fst (unlink_blob ref_exec ref_lib ''sumsum'' ''pets'' demo_oid demo_db))))
     ''sumsum'' demo_oid = None"
  using unlink_blob_effect [of ref_exec ref_view ref_ttl ref_lib demo_db "''sumsum''" demo_oid "''pets''"]
    own.ownership_server_axioms demo_typed demo_indexed by (auto simp: demo_contents Let_def)

text \<open>Moving a blob between two different collections succeeds and keeps its file name and its
  inode; the blob is in the destination, no longer in the source, and everywhere else as before.\<close>

theorem move_blob_effect:
  assumes "ownership_server exec view ttl L" and "typed (view db)" and "plain_user u" and "wf_oid b"
    and "lb_entries (library (view db)) u src b = Some name" and "src \<noteq> dest"
  shows "snd (move_blob exec L u src dest b db) = No_error \<and>
    (let S = library (view db); T = library (view (fst (move_blob exec L u src dest b db))) in
     lb_entries T = (\<lambda>u' c' b'. if u' = u \<and> b' = b \<and> c' = dest then Some name
       else if u' = u \<and> b' = b \<and> c' = src then None else lb_entries S u' c' b') \<and>
     lb_refs T u b = insert dest (lb_refs S u b - {src}) \<and>
     lb_inodes T = lb_inodes S \<and> lb_public T = lb_public S)"
  using ownership_server.move_blob_library [OF assms(1-5), of dest] assms(6)
  by (auto simp: Let_def l_move_def fun_eq_iff)

theorem move_blob_effect_witness:
  "snd (move_blob ref_exec ref_lib ''sumsum'' ''pets'' ''zoo'' demo_oid demo_db) = No_error \<and>
   lb_entries (library (ref_view (fst (move_blob ref_exec ref_lib ''sumsum'' ''pets'' ''zoo'' demo_oid demo_db))))
     ''sumsum'' ''zoo'' demo_oid = Some ''cat.jpg'' \<and>
   lb_refs (library (ref_view (fst (move_blob ref_exec ref_lib ''sumsum'' ''pets'' ''zoo'' demo_oid demo_db))))
     ''sumsum'' demo_oid = {''zoo''}"
  using move_blob_effect [of ref_exec ref_view ref_ttl ref_lib demo_db "''sumsum''" demo_oid "''pets''" "''cat.jpg''" "''zoo''"]
    own.ownership_server_axioms demo_typed by (auto simp: demo_contents Let_def)

text \<open>Moving a blob to the collection it is in loses it: the script adds and then removes the same
  back reference and entry, so the blob disappears from the collection while the completion reports
  success.\<close>

theorem move_blob_same_collection:
  assumes "ownership_server exec view ttl L" and "typed (view db)" and "plain_user u" and "wf_oid b"
    and "lb_entries (library (view db)) u c b = Some name"
  shows "snd (move_blob exec L u c c b db) = No_error \<and>
    lb_entries (library (view (fst (move_blob exec L u c c b db)))) u c b = None \<and>
    c \<notin> lb_refs (library (view (fst (move_blob exec L u c c b db)))) u b \<and>
    lb_inodes (library (view (fst (move_blob exec L u c c b db)))) = lb_inodes (library (view db))"
  using ownership_server.move_blob_library [OF assms, of c] by (auto simp: Let_def l_move_def)

theorem move_blob_same_collection_witness:
  "lb_entries (library (ref_view demo_db)) ''sumsum'' ''pets'' demo_oid = Some ''cat.jpg'' \<and>
   lb_entries (library (ref_view (fst (move_blob ref_exec ref_lib ''sumsum'' ''pets'' ''pets'' demo_oid demo_db))))
     ''sumsum'' ''pets'' demo_oid = None"
  using move_blob_same_collection [of ref_exec ref_view ref_ttl ref_lib demo_db "''sumsum''" demo_oid "''pets''" "''cat.jpg''"]
    own.ownership_server_axioms demo_typed by (auto simp: demo_contents)

text \<open>Moving a blob that is not in the source collection breaks the library: the script stops after
  it has changed the back references, the completion still reports success, and afterwards the
  destination is a back reference of the blob although it does not hold it.\<close>

theorem move_blob_missing_source:
  assumes "ownership_server exec view ttl L" and "typed (view db)" and "consistent L (library (view db))"
    and "plain_user u" and "wf_oid b" and "lb_entries (library (view db)) u src b = None"
    and "lb_entries (library (view db)) u dest b = None" and "src \<noteq> dest"
  shows "snd (move_blob exec L u src dest b db) = No_error \<and>
    dest \<in> lb_refs (library (view (fst (move_blob exec L u src dest b db)))) u b \<and>
    lb_entries (library (view (fst (move_blob exec L u src dest b db)))) u dest b = None \<and>
    \<not> consistent L (library (view (fst (move_blob exec L u src dest b db))))"
proof -
  note m = ownership_server.move_blob_missing [OF assms(1,2,4,5,6), of dest]
  have d: "dest \<in> lb_refs (library (view (fst (move_blob exec L u src dest b db)))) u b"
    "lb_entries (library (view (fst (move_blob exec L u src dest b db)))) u dest b = None"
    unfolding m(2) using assms(7,8) by auto
  then show ?thesis using m(1) consistent_refs [OF _ assms(4,5)] by blast
qed

theorem move_blob_missing_source_witness:
  "snd (move_blob ref_exec ref_lib ''sumsum'' ''zoo'' ''park'' demo_oid demo_db) = No_error \<and>
   \<not> consistent ref_lib (library (ref_view (fst (move_blob ref_exec ref_lib ''sumsum'' ''zoo'' ''park'' demo_oid demo_db))))"
  using move_blob_missing_source [of ref_exec ref_view ref_ttl ref_lib demo_db "''sumsum''" demo_oid "''zoo''" "''park''"]
    own.ownership_server_axioms demo_typed demo_consistent by (auto simp: demo_contents)

text \<open>Setting a permission changes only the first byte of the inode, and the public list then holds
  the blob exactly when the permission is public, as its newest element; the list never grows beyond
  100 blobs.\<close>

theorem set_permission_effect:
  assumes "ownership_server exec view ttl L" and "typed (view db)" and "consistent L (library (view db))"
    and "plain_user u" and "wf_oid b" and "lb_inodes (library (view db)) u b = Some raw"
  shows "snd (set_permission exec L u b p db) = No_error \<and>
    (let S = library (view db); T = library (view (fst (set_permission exec L u b p db))) in
     lb_inodes T = (\<lambda>u' b'. if u' = u \<and> b' = b then Some (perm p # drop 1 raw) else lb_inodes S u' b') \<and>
     lb_entries T = lb_entries S \<and>
     (if p = public_perm then last (lb_public T) = msgpack_pack L u b \<and> lb_public T \<noteq> []
      else msgpack_pack L u b \<notin> set (lb_public T)) \<and>
     distinct (lb_public T) \<and> length (lb_public T) \<le> 100)"
proof -
  let ?T = "library (view (fst (set_permission exec L u b p db)))"
  note eff = ownership_server.set_permission_library [OF assms(1,2,6), of p]
  have m: "msgpack_codec L" using assms(1) by (simp add: ownership_server_def)
  have "consistent L ?T"
    unfolding eff(3) by (rule msgpack_codec.consistent_set_permission [OF m assms(3-6)])
  then have d: "distinct (lb_public ?T)" "length (lb_public ?T) \<le> 100"
    by (auto dest: consistent_distinct consistent_length)
  have pub: "p = public_perm \<longleftrightarrow> perm p = CHR ''*''" by (cases p) (simp add: public_perm_def)
  have "lb_inodes ?T = (\<lambda>u' b'. if u' = u \<and> b' = b then Some (perm p # drop 1 raw) else lb_inodes (library (view db)) u' b')"
    "lb_entries ?T = lb_entries (library (view db))"
    unfolding eff(3) by (auto simp: l_set_permission_def Let_def fun_eq_iff)
  moreover have "if p = public_perm then last (lb_public ?T) = msgpack_pack L u b \<and> lb_public ?T \<noteq> []
      else msgpack_pack L u b \<notin> set (lb_public ?T)"
    unfolding eff(3) pub by (auto simp: l_set_permission_def Let_def last_100_def last_tl tl_append split: list.splits)
  ultimately show ?thesis using eff(2) d by (simp add: Let_def)
qed

theorem set_permission_effect_witness:
  "lb_public (library (ref_view (fst (set_permission ref_exec ref_lib ''sumsum'' demo_oid public_perm demo_db)))) \<noteq> [] \<and>
   last (lb_public (library (ref_view (fst (set_permission ref_exec ref_lib ''sumsum'' demo_oid public_perm demo_db))))) =
     ref_pack ''sumsum'' demo_oid"
  using set_permission_effect [of ref_exec ref_view ref_ttl ref_lib demo_db "''sumsum''" demo_oid demo_raw public_perm]
    own.ownership_server_axioms demo_typed demo_consistent by (auto simp: demo_contents Let_def ref_lib_def)

text \<open>C7: Listing a collection returns, for every blob, exactly what the requester may see: an entry is
  there if and only if the collection holds the blob, its inode can be read and the permission in the
  inode lets the requester in, and it carries the file name it has in this collection. The database
  is not changed.\<close>

theorem get_collection_visible:
  assumes "ownership_server exec view ttl L" and "typed (view db)" and "indexed L (library (view db))"
    and "plain_user u" and "\<And>b raw. lb_inodes (library (view db)) u b = Some raw \<Longrightarrow> readable L raw"
  shows "\<exists>coll. snd (get_collection exec L u requester c db) = ok (coll, No_error) \<and>
    view (fst (get_collection exec L u requester c db)) = view db \<and> c_name coll = c \<and> c_owner coll = u \<and>
    (\<forall>b. coll_find b coll = (case lb_entries (library (view db)) u c b of
       None \<Rightarrow> None
     | Some f \<Rightarrow> (case lb_inodes (library (view db)) u b of
         None \<Rightarrow> None | Some raw \<Rightarrow> visible L u requester raw f)))"
proof -
  obtain coll where "snd (get_collection exec L u requester c db) = ok (coll, No_error)"
    "view (fst (get_collection exec L u requester c db)) = view db" "c_name coll = c" "c_owner coll = u"
    "\<And>b. coll_find b coll = (case lb_entries (library (view db)) u c b of None \<Rightarrow> None
     | Some f \<Rightarrow> (case lb_inodes (library (view db)) u b of None \<Rightarrow> None | Some raw \<Rightarrow> visible L u requester raw f))"
    by (rule ownership_server.get_collection_find [OF assms(1-4), where requester = requester and c = c])
      (auto intro: assms(5))
  then show ?thesis by blast
qed

theorem get_collection_visible_witness:
  "\<exists>coll. snd (get_collection ref_exec ref_lib ''sumsum'' (UserID_of (replicate 16 CHR ''x'') ''sumsum'' False) ''pets'' demo_db)
       = ok (coll, No_error) \<and> coll_find demo_oid coll = Some demo_entry"
proof -
  have fields: "inodedb_fields ref_lib demo_raw = ok (Some demo_entry)"
    by (rule ref_json.inodedb_fields_create [OF demo_create])
  have "readable ref_lib raw" if "lb_inodes (library (ref_view demo_db)) ''sumsum'' b = Some raw" for b raw
    using that fields by (simp add: demo_contents readable_def split: if_splits)
  moreover have "visible ref_lib ''sumsum'' (UserID_of s ''sumsum'' False) demo_raw ''cat.jpg'' = Some demo_entry" for s
    using fields by (simp add: visible_def demo_raw_def inodedb_permission_def allow_def UserID_of_def demo_entry_def)
  ultimately show ?thesis
    using get_collection_visible [of ref_exec ref_view ref_ttl ref_lib demo_db "''sumsum''"
        "UserID_of (replicate 16 CHR ''x'') ''sumsum'' False" "''pets''"]
      own.ownership_server_axioms demo_typed demo_indexed by (auto simp: demo_contents)
qed

end
