(* ===== verification/Authentication_Properties.thy ===== *)
theory Authentication_Properties
  imports Authentication Reference_Redis
begin

text \<open>
  The properties of users, sessions and guests, each with a run against the reference server. The
  laws of the server are the hypothesis \<^term>\<open>redis_server exec view ttl\<close>.
\<close>

section \<open>Shared facts\<close>

context redis_server
begin

lemma verify_user_match:
  assumes typed: "is_hash (view db (key_user (to_lower name)))" and name: "name \<noteq> []"
    and match: "password_matches kdf password (hash_of (view db (key_user (to_lower name))))"
  shows "\<exists>db'. verify_user exec kdf random name password n db = Some (db', No_error, UserID_of random (to_lower name) False) \<and>
    view db' = (if 0 < narrow_int n then (view db)(key_session random := Str (''_'' @ to_lower name)) else view db) \<and>
    (0 < narrow_int n \<longrightarrow> ttl db' (key_session random) = narrow_int n)"
proof -
  let ?f = "hash_of (view db (key_user (to_lower name)))"
  have "snd (exec db (HMGET (key_user (to_lower name)) [''salt'', ''key'', ''iteration'', ''hash_algorithm''])) =
      RArray [bulk (?f ''salt''), bulk (?f ''key''), bulk (?f ''iteration''), bulk (?f ''hash_algorithm'')]"
    by (simp add: HMGET_reply typed)
  then have "verify_user exec kdf random name password n db \<noteq> None"
    using match verify_password_fields [of kdf password ?f] by (simp add: verify_user_def Let_def split_beta)
  then obtain db' ec uid where "verify_user exec kdf random name password n db = Some (db', ec, uid)"
    by (cases "verify_user exec kdf random name password n db") auto
  then show ?thesis using verify_user_cases [OF typed name] match by auto
qed

text \<open>A session that the server keeps is accepted as its user, and not renewed in the first half of its life.\<close>

lemma stored_session_verifies:
  assumes "view db (key_session cookie) = Str (c # user)" and "user \<noteq> []" and "0 \<le> ttl db (key_session cookie)"
  shows "\<exists>db' session. verify_session exec random cookie n db = (db', No_error, UserID_of session user False) \<and>
    session \<in> {cookie, random} \<and> (n sdiv 2 \<le> ttl db (key_session cookie) \<longrightarrow> session = cookie \<and> view db' = view db)"
proof -
  have u: "m_user (UserID_of cookie user False) = user" using assms(2) by (simp add: UserID_of_def)
  have "is_str (view db (key_session cookie))" using assms(1) by simp
  then obtain db1 where db1: "view db1 = view db" "verify_session exec random cookie n db =
      (if ttl db (key_session cookie) < n sdiv 2 then renew_session exec random (UserID_of cookie user False) n db1
       else (db1, No_error, UserID_of cookie user False))"
    using verify_session_eq [of db cookie random n] assms by (auto simp: Suc_le_eq)
  show ?thesis
  proof (cases "ttl db (key_session cookie) < n sdiv 2")
    case True
    then show ?thesis using db1 renew_session_user [of random "UserID_of cookie user False" n db1] u by auto
  next
    case False
    then show ?thesis using db1 by auto
  qed
qed

lemma renewing_session:
  assumes s: "view db (key_session cookie) = Str (''_'' @ user)" and user: "user \<noteq> []"
    and t: "0 \<le> ttl db (key_session cookie)" "ttl db (key_session cookie) < n sdiv 2" and n: "0 < narrow_int n"
  shows "\<exists>db'. verify_session exec random cookie n db = (db', No_error, UserID_of random user False) \<and>
    view db' = (view db)(key_session cookie := Str (''#'' @ user), key_session random := Str (''_'' @ user)) \<and>
    ttl db' = (ttl db)(key_session cookie := 30, key_session random := narrow_int n)"
proof -
  obtain db1 where db1: "view db1 = view db" "ttl db1 = ttl db"
    "verify_session exec random cookie n db = renew_session exec random (UserID_of cookie user False) n db1"
    using verify_session_eq [of db cookie random n] s t user by (auto simp: Suc_le_eq)
  have uid: "m_session (UserID_of cookie user False) = cookie" "m_user (UserID_of cookie user False) = user"
    using user by (simp_all add: UserID_of_def)
  show ?thesis using renew_session_effect [of db1 "UserID_of cookie user False" "''_'' @ user" n random] n
    by (simp add: db1 s uid)
qed

lemma renewed_session:
  assumes s: "view db (key_session cookie) = Str (''#'' @ user)" and user: "user \<noteq> []"
    and t: "0 \<le> ttl db (key_session cookie)" and n: "0 < narrow_int n"
  shows "\<exists>db'. verify_session exec random cookie n db = (db', No_error, UserID_of cookie user False) \<and>
    view db' = view db \<and> ttl db' = ttl db"
proof -
  obtain db1 where db1: "view db1 = view db" "ttl db1 = ttl db"
    "verify_session exec random cookie n db =
      (if ttl db (key_session cookie) < n sdiv 2 then renew_session exec random (UserID_of cookie user False) n db1
       else (db1, No_error, UserID_of cookie user False))"
    using verify_session_eq [of db cookie random n] s t user by (auto simp: Suc_le_eq)
  have uid: "m_session (UserID_of cookie user False) = cookie" "m_user (UserID_of cookie user False) = user"
    using user by (simp_all add: UserID_of_def)
  show ?thesis using renew_session_effect [of db1 "UserID_of cookie user False" "''#'' @ user" n random] n
    by (simp add: db1 s uid)
qed

lemma verify_session_authentic:
  assumes "is_str (view db (key_session cookie))"
    and "verify_session exec random cookie n db = (db', ec, uid)"
  shows "ec = No_error \<and> (uid = no_user \<or>
      (\<exists>s. view db (key_session cookie) = Str s \<and> 0 \<le> ttl db (key_session cookie) \<and> m_user uid = drop 1 s \<and>
        m_user uid \<noteq> [] \<and> \<not> m_guest uid \<and> m_session uid \<in> {cookie, random})) \<and>
    (view db (key_session cookie) = Missing \<longrightarrow> uid = no_user \<and> view db' = view db)"
proof -
  obtain db1 where db1: "view db1 = view db" "ttl db1 = ttl db" and eq: "verify_session exec random cookie n db =
      (case str_of (view db (key_session cookie)) of
         None \<Rightarrow> (db1, No_error, no_user)
       | Some s \<Rightarrow>
           if length s \<le> 1 \<or> ttl db (key_session cookie) < 0 then (db1, No_error, no_user)
           else if ttl db (key_session cookie) < n sdiv 2
             then renew_session exec random (UserID_of cookie (drop 1 s) False) n db1
             else (db1, No_error, UserID_of cookie (drop 1 s) False))"
    using verify_session_eq [OF assms(1), of random n] by blast
  show ?thesis
  proof (cases "view db (key_session cookie)")
    case (Str s)
    let ?uid = "UserID_of cookie (drop 1 s) False"
    have "\<exists>d new. renew_session exec random ?uid n db1 = (d, No_error, new) \<and>
        (new = ?uid \<or> new = UserID_of random (drop 1 s) False)" if "drop 1 s \<noteq> []"
      using renew_session_user [of random ?uid n db1] that by (simp add: UserID_of_def)
    then show ?thesis using eq Str assms(2)
      by (auto simp: UserID_of_def Suc_le_eq split: if_splits)
  qed (use eq assms(1,2) db1 in \<open>auto simp: is_str_def\<close>)
qed

text \<open>Guests.\<close>

lemma guest_facts:
  assumes h: "is_hash (view db (key_shared_auth (m_user uid) resource))"
  shows "\<lbrakk>hash_of (view db (key_shared_auth (m_user uid) resource)) (m_session uid) = Some (to_string i);
      - (2 ^ 63) \<le> i; i < 2 ^ 63\<rbrakk> \<Longrightarrow>
      \<exists>db2. is_shared_resource exec time uid resource db = Some (db2, time < i, No_error)"
    and "\<lbrakk>hash_of (view db (key_shared_auth (m_user uid) resource)) (m_session uid) = None; 0 \<le> time\<rbrakk> \<Longrightarrow>
      \<exists>db2. is_shared_resource exec time uid resource db = Some (db2, False, No_error)"
  using h by (simp_all add: is_shared_resource_def split_beta HGET_reply bulk_def to_int_to_string to_int_def [of "Some RNil"] as_any_string_def)

lemma list_guests_contains:
  assumes "is_hash (view db (key_shared_auth owner resource))"
    and "hash_of (view db (key_shared_auth owner resource)) cookie = Some v" and "length cookie = SessionID_size"
  shows "UserID_of cookie owner True \<in> set (fst (snd (list_guests exec owner resource db)))"
proof -
  obtain kvs where kvs: "snd (exec db (HGETALL (key_shared_auth owner resource))) = RArray (alternate kvs)"
    "map_of kvs = hash_of (view db (key_shared_auth owner resource))"
    using HGETALL_reply [OF assms(1)] by blast
  have "pairs_of (alternate kvs) = map (\<lambda>(k, v). (k, Some (RString v))) kvs"
    by (induction kvs) (auto simp: alternate_def as_string_def)
  moreover have "(cookie, v) \<in> set kvs" using assms(2) by (intro map_of_SomeD) (simp add: kvs(2))
  ultimately show ?thesis
    by (force simp: list_guests_def split_beta kvs kv_pairs_def elements_def assms(3))
qed

end

section \<open>Properties\<close>

text \<open>A database with the user alice, whose password is \<^verbatim>\<open>rabbit\<close>, and a session of hers. The key
  derivation of the witnesses appends the salt.\<close>

definition demo_kdf :: kdf where
  "demo_kdf password salt iterations algorithm = Some (password @ salt)"

definition cookie1 :: SessionID where "cookie1 = replicate 16 (CHR ''1'')"
definition cookie2 :: SessionID where "cookie2 = replicate 16 (CHR ''2'')"

definition auth_db :: refdb where
  "auth_db = empty_db(key_session cookie1 := DStr ''_alice'' (Some 100),
     key_user ''alice'' := DHash [(''salt'', ''s''), (''key'', ''rabbits''), (''iteration'', ''1''), (''hash_algorithm'', ''sha512'')])"

lemma auth_db_view:
  "ref_view auth_db (key_session cookie1) = Str ''_alice''" "ref_ttl auth_db (key_session cookie1) = 100"
  "is_hash (ref_view auth_db (key_user u))" "ref_view auth_db (key_session cookie2) = Missing"
  by (simp_all add: auth_db_def empty_db_def ref_view_def ref_ttl_def d_missing_def key_simps cookie1_def cookie2_def)

text \<open>C34: A user who was added can log in with the same password and the name in any case, whatever the
  configured session length is. The length is sent as a 32-bit integer: when that integer is positive,
  the session that the login creates is accepted as this user, and it is not renewed by the first request
  when the configured length itself is positive and below \<open>2 ^ 31\<close>; when it is not positive, the server
  refuses to store the session, nobody looks at its reply, and the session of the successful login is
  anonymous.\<close>

theorem login_roundtrip:
  assumes "redis_server exec view ttl" and "is_hash (view db (key_user (to_lower name)))"
    and "name \<noteq> []" and "to_lower name' = to_lower name"
    and "add_user exec kdf salt name password db = Some (db1, ec)" and "is_str (view db (key_session random))"
  shows "ec = No_error \<and> (\<exists>db2 db3 uid.
    verify_user exec kdf random name' password n db1 = Some (db2, No_error, UserID_of random (to_lower name) False) \<and>
    verify_session exec random' random n db2 = (db3, No_error, uid) \<and>
    (if 0 < narrow_int n
     then (\<exists>session \<in> {random, random'}. uid = UserID_of session (to_lower name) False) \<and>
       (0 < n \<and> n < 2 ^ 31 \<longrightarrow> uid = UserID_of random (to_lower name) False)
     else view db (key_session random) = Missing \<longrightarrow> uid = no_user))"
proof -
  note add = redis_server.add_user_effect [OF assms(1,2,5)]
  have name': "name' \<noteq> []" "to_lower name \<noteq> []" using assms(3,4) by (auto simp: to_lower_def)
  have typed: "is_hash (view db1 (key_user (to_lower name')))"
    using add(2) assms(4) by (cases "view db1 (key_user (to_lower name))") (auto simp: password_matches_def is_hash_def)
  obtain db2 where db2: "verify_user exec kdf random name' password n db1 = Some (db2, No_error, UserID_of random (to_lower name) False)"
    "view db2 = (if 0 < narrow_int n then (view db1)(key_session random := Str (''_'' @ to_lower name)) else view db1)"
    "0 < narrow_int n \<longrightarrow> ttl db2 (key_session random) = narrow_int n"
    using redis_server.verify_user_match [OF assms(1) typed name'(1), of kdf password random n] add(2) assms(4) by auto
  have "\<exists>db3 uid. verify_session exec random' random n db2 = (db3, No_error, uid) \<and> (if 0 < narrow_int n
      then (\<exists>session \<in> {random, random'}. uid = UserID_of session (to_lower name) False) \<and>
        (0 < n \<and> n < 2 ^ 31 \<longrightarrow> uid = UserID_of random (to_lower name) False)
      else view db (key_session random) = Missing \<longrightarrow> uid = no_user)"
  proof (cases "0 < narrow_int n")
    case True
    have "n sdiv 2 \<le> narrow_int n" if "0 < n" "n < 2 ^ 31"
      using that narrow_int_id [of n] by (simp add: signed_divide_int_def)
    then show ?thesis
      using redis_server.stored_session_verifies [OF assms(1), of db2 random "CHR ''_''" "to_lower name" random' n] db2 name'(2) True
      by auto
  next
    case False
    then have "view db2 (key_session random) = view db (key_session random)"
      using db2(2) add(3) by (simp add: key_simps)
    then show ?thesis
      using False redis_server.verify_session_authentic [OF assms(1), of db2 random random' n] assms(6)
      by (cases "verify_session exec random' random n db2") auto
  qed
  then show ?thesis using add(1) db2(1) by blast
qed

theorem login_roundtrip_witness:
  "\<exists>db1 db2. add_user ref_exec demo_kdf ''salt'' ''Bob'' ''pw'' auth_db = Some (db1, No_error) \<and>
     verify_user ref_exec demo_kdf cookie2 ''BOB'' ''pw'' 3600 db1 = Some (db2, No_error, UserID_of cookie2 ''bob'' False)"
proof -
  have names: "to_lower ''Bob'' = ''bob''" "to_lower ''BOB'' = ''bob''" by code_simp+
  obtain db1 ec where run: "add_user ref_exec demo_kdf ''salt'' ''Bob'' ''pw'' auth_db = Some (db1, ec)"
    by (auto simp: add_user_def demo_kdf_def Let_def split_beta)
  then show ?thesis
    using login_roundtrip [of ref_exec ref_view ref_ttl auth_db "''Bob''" "''BOB''" demo_kdf "''salt''" "''pw''" db1 ec cookie2 3600 cookie1]
      ref.redis_server_axioms auth_db_view(3,4) names by (auto simp: narrow_int_def)
qed

text \<open>C36: Nobody logs in without the password: a login without an error means that the key derived
  from the given password, with the stored salt, number of iterations and algorithm, is the stored
  key, and any other login leaves every key of the database as it was and yields no user.\<close>

theorem login_requires_password:
  assumes "redis_server exec view ttl" and "is_hash (view db (key_user (to_lower name)))" and "name \<noteq> []"
    and "verify_user exec kdf random name password n db = Some (db', ec, uid)"
  shows "if ec = No_error
    then password_matches kdf password (hash_of (view db (key_user (to_lower name)))) \<and>
      view db' = (if 0 < narrow_int n then (view db)(key_session random := Str (''_'' @ to_lower name)) else view db)
    else uid = no_user \<and> view db' = view db"
  using redis_server.verify_user_cases [OF assms] by (auto split: if_splits)

theorem login_requires_password_witness:
  "\<exists>db' ec uid. verify_user ref_exec demo_kdf cookie2 ''alice'' ''guess'' 3600 auth_db = Some (db', ec, uid) \<and>
     ec \<noteq> No_error \<and> uid = no_user \<and> ref_view db' = ref_view auth_db"
proof -
  have alice: "to_lower ''alice'' = ''alice''" by code_simp
  have f: "hash_of (ref_view auth_db (key_user ''alice'')) =
      map_of [(''salt'', ''s''), (''key'', ''rabbits''), (''iteration'', ''1''), (''hash_algorithm'', ''sha512'')]"
    by (simp add: auth_db_def ref_view_def)
  have "\<not> password_matches demo_kdf ''guess'' (hash_of (ref_view auth_db (key_user ''alice'')))"
    by (simp add: f password_matches_def demo_kdf_def)
  moreover obtain db' ec uid where run: "verify_user ref_exec demo_kdf cookie2 ''alice'' ''guess'' 3600 auth_db = Some (db', ec, uid)"
    by (simp add: verify_user_def alice Let_def on_hash_def auth_db_def d_hash_def verify_password_def bulk_def
        to_int_def as_any_string_def stol_def isspace_def isdigit_def digits_value_def demo_kdf_def narrow_int_def
        reply_ok_def as_string_def)
  moreover note login_requires_password [of ref_exec ref_view ref_ttl auth_db "''alice''" demo_kdf cookie2 "''guess''" 3600 db' ec uid,
      OF ref.redis_server_axioms auth_db_view(3) _ run]
  ultimately show ?thesis by (cases "ec = No_error") (simp_all add: alice)
qed

text \<open>C39: A session in the second half of its life is replaced exactly once: the first request gets a
  new session, which lives for the full length as a 32-bit integer, while the old one is marked and kept for 30 seconds;
  as long as the database keeps the marked session, whatever else has changed there, every further request with it is accepted
  as the same user under the old session, and changes nothing.\<close>

theorem session_renewed_once:
  assumes "redis_server exec view ttl" and "view db (key_session cookie) = Str (''_'' @ user)" and "user \<noteq> []"
    and "0 \<le> ttl db (key_session cookie)" "ttl db (key_session cookie) < n sdiv 2" and "0 < narrow_int n" and "random \<noteq> cookie"
  shows "\<exists>db1. verify_session exec random cookie n db = (db1, No_error, UserID_of random user False) \<and>
    view db1 = (view db)(key_session cookie := Str (''#'' @ user), key_session random := Str (''_'' @ user)) \<and>
    ttl db1 = (ttl db)(key_session cookie := 30, key_session random := narrow_int n) \<and>
    (\<forall>db2 random'. view db2 (key_session cookie) = view db1 (key_session cookie) \<and> 0 \<le> ttl db2 (key_session cookie) \<longrightarrow>
       (\<exists>db3. verify_session exec random' cookie n db2 = (db3, No_error, UserID_of cookie user False) \<and>
         view db3 = view db2 \<and> ttl db3 = ttl db2))"
proof -
  obtain db1 where db1: "verify_session exec random cookie n db = (db1, No_error, UserID_of random user False)"
    "view db1 = (view db)(key_session cookie := Str (''#'' @ user), key_session random := Str (''_'' @ user))"
    "ttl db1 = (ttl db)(key_session cookie := 30, key_session random := narrow_int n)"
    using redis_server.renewing_session [OF assms(1-6)] by blast
  have "view db1 (key_session cookie) = Str (''#'' @ user)" using assms(7) by (auto simp: db1 key_simps)
  then show ?thesis using redis_server.renewed_session [OF assms(1) _ assms(3) _ assms(6)] db1 by metis
qed

theorem session_renewed_once_witness:
  "\<exists>db1. verify_session ref_exec cookie2 cookie1 3600 auth_db = (db1, No_error, UserID_of cookie2 ''alice'' False) \<and>
     ref_view db1 (key_session cookie1) = Str ''#alice'' \<and> ref_ttl db1 (key_session cookie1) = 30"
proof -
  have "(100::int) < 3600 sdiv 2" "cookie2 \<noteq> cookie1" by (simp_all add: signed_divide_int_def cookie1_def cookie2_def)
  then show ?thesis
    using session_renewed_once [of ref_exec ref_view ref_ttl auth_db cookie1 "''alice''" 3600 cookie2]
    by (auto simp: ref.redis_server_axioms auth_db_view key_simps narrow_int_id)
qed

text \<open>C37: A session is accepted only when the database has it: a valid user comes from the value
  stored for that cookie, whose time to live is not over. A cookie that the database does not know
  gives the anonymous user, and no error.\<close>

theorem session_authentic:
  assumes "redis_server exec view ttl" and "is_str (view db (key_session cookie))"
    and "verify_session exec random cookie n db = (db', ec, uid)"
  shows "ec = No_error \<and> (uid = no_user \<or>
      (\<exists>s. view db (key_session cookie) = Str s \<and> 0 \<le> ttl db (key_session cookie) \<and> m_user uid = drop 1 s \<and>
        m_user uid \<noteq> [] \<and> \<not> m_guest uid \<and> m_session uid \<in> {cookie, random})) \<and>
    (view db (key_session cookie) = Missing \<longrightarrow> uid = no_user \<and> view db' = view db)"
  by (rule redis_server.verify_session_authentic [OF assms])

theorem session_authentic_witness:
  "\<exists>db'. verify_session ref_exec cookie1 cookie2 3600 auth_db = (db', No_error, no_user)"
proof -
  obtain db' ec uid where run: "verify_session ref_exec cookie1 cookie2 3600 auth_db = (db', ec, uid)" by (metis prod_cases3)
  then show ?thesis
    using session_authentic [of ref_exec ref_view ref_ttl auth_db cookie2 cookie1 3600 db' ec uid]
      ref.redis_server_axioms auth_db_view(4) by simp
qed

text \<open>After a logout the session is gone: its cookie gives the anonymous user.\<close>

theorem logout_ends_session:
  assumes "redis_server exec view ttl" and "destroy_session exec uid db = (db1, ec)"
  shows "ec = No_error \<and> (\<exists>db2. verify_session exec random (m_session uid) n db1 = (db2, No_error, no_user)) \<and>
    view db1 = (view db)(key_session (m_session uid) := Missing)"
proof -
  have v: "view db1 = (view db)(key_session (m_session uid) := Missing)"
    using assms redis_server.DEL_view [OF assms(1)] by (auto simp: destroy_session_def)
  then show ?thesis
    using assms(2) redis_server.verify_session_eq [OF assms(1), of db1 "m_session uid" random n]
    by (auto simp: destroy_session_def)
qed

theorem logout_ends_session_witness:
  "\<exists>db1 db2. destroy_session ref_exec (UserID_of cookie1 ''alice'' False) auth_db = (db1, No_error) \<and>
     verify_session ref_exec cookie2 cookie1 3600 db1 = (db2, No_error, no_user)"
proof -
  obtain db1 ec where run: "destroy_session ref_exec (UserID_of cookie1 ''alice'' False) auth_db = (db1, ec)" by fastforce
  show ?thesis
    using logout_ends_session [of ref_exec ref_view ref_ttl "UserID_of cookie1 ''alice'' False" auth_db db1 ec cookie2 3600]
      ref.redis_server_axioms run by (auto simp: UserID_of_def)
qed

text \<open>A shared resource is open to the guest it was shared with until the time of expiry, the owner
  finds the guest in the list of guests, and a session that is not in that list is not let in (after
  the epoch).\<close>

theorem shared_until_expiry:
  assumes "redis_server exec view ttl" and "is_hash (view db (key_shared_auth owner resource))"
    and "owner \<noteq> []" and "length random = SessionID_size"
    and "0 \<le> now + period" "now + period < 2 ^ 63"
    and "share_resource exec random now owner resource period db = (db1, guest, ec)"
  shows "ec = No_error \<and> m_guest guest \<and>
    (\<exists>db2. is_shared_resource exec time guest resource db1 = Some (db2, time < (now + period) sdiv 10 ^ 9, No_error)) \<and>
    guest \<in> set (fst (snd (list_guests exec owner resource db1))) \<and>
    (0 \<le> time \<longrightarrow> m_user uid = owner \<longrightarrow> m_session uid \<notin> dom (hash_of (view db1 (key_shared_auth owner resource))) \<longrightarrow>
       (\<exists>db2. is_shared_resource exec time uid resource db1 = Some (db2, False, No_error)))"
proof -
  note guest = redis_server.guest_facts(1) [OF assms(1)] and other = redis_server.guest_facts(2) [OF assms(1)]
    and listed = redis_server.list_guests_contains [OF assms(1)]
  have run: "guest = UserID_of random owner True" "ec = No_error"
    "view db1 = (view db)(key_shared_auth owner resource := Hash ((hash_of (view db (key_shared_auth owner resource)))(random \<mapsto> to_string ((now + period) sdiv 10 ^ 9))))"
    using assms(7) redis_server.HSET_view [OF assms(1,2)] by (auto simp: share_resource_def Let_def split_beta)
  have h: "is_hash (view db1 (key_shared_auth owner resource))" by (simp add: run)
  have stored: "hash_of (view db1 (key_shared_auth owner resource)) random = Some (to_string ((now + period) sdiv 10 ^ 9))"
    by (simp add: run)
  have bounds: "- (2 ^ 63) \<le> (now + period) sdiv 10 ^ 9" "(now + period) sdiv 10 ^ 9 < 2 ^ 63"
    using assms(5,6) by (auto simp: signed_divide_int_def sgn_if)
  have uid: "m_user guest = owner" "m_session guest = random" "m_guest guest"
    using assms(3) by (simp_all add: run UserID_of_def)
  show ?thesis
    using guest [of db1 guest resource "(now + period) sdiv 10 ^ 9" time, unfolded uid, OF h stored bounds]
      other [of db1 uid resource time] listed [OF h stored assms(4)] h run(1,2) uid(3) by (auto simp: domIff)
qed

theorem shared_until_expiry_witness:
  "\<exists>db1 guest. share_resource ref_exec cookie2 1000000000000 ''alice'' ''c'' 5000000000 auth_db = (db1, guest, No_error) \<and>
     (\<exists>db2. is_shared_resource ref_exec 1004 guest ''c'' db1 = Some (db2, True, No_error)) \<and>
     (\<exists>db2. is_shared_resource ref_exec 1005 guest ''c'' db1 = Some (db2, False, No_error))"
proof -
  obtain db1 guest ec where run: "share_resource ref_exec cookie2 1000000000000 ''alice'' ''c'' 5000000000 auth_db = (db1, guest, ec)"
    by (metis prod_cases3)
  have h: "is_hash (ref_view auth_db (key_shared_auth ''alice'' ''c''))"
    by (simp add: auth_db_def empty_db_def ref_view_def key_simps)
  have "(1000000000000 + 5000000000 :: int) sdiv 10 ^ 9 = 1005" by (simp add: signed_divide_int_def)
  then show ?thesis
    using shared_until_expiry [of ref_exec ref_view ref_ttl auth_db "''alice''" "''c''" cookie2 1000000000000 5000000000 db1 guest ec 1004]
      shared_until_expiry [of ref_exec ref_view ref_ttl auth_db "''alice''" "''c''" cookie2 1000000000000 5000000000 db1 guest ec 1005]
      ref.redis_server_axioms h run
    by (simp add: cookie2_def SessionID_size_def)
qed

end
