(* ===== verification/Handler_Isolation.thy ===== *)
theory Handler_Isolation
  imports Session_Handler Ownership_Properties Authentication_Properties
begin

text \<open>
  What a request does to the library that the database holds. Reading scripts leave every key as
  it is, whatever the keys hold; the other operations change only the entries, collections, inodes
  and references of one user. From this follows that a request changes nothing of any user but the
  one that the handler has authenticated.
\<close>

section \<open>Scripts that only read\<close>

definition reads :: "('db \<Rightarrow> string \<Rightarrow> rvalue) \<Rightarrow> ('db, 'a) script \<Rightarrow> bool" where
  "reads view m \<longleftrightarrow> (\<forall>db. view (fst (m db)) = view db)"

lemma reads_ret: "reads view (ret x)"
  by (simp add: reads_def ret_def)

lemma reads_raise: "reads view (raise e)"
  by (simp add: reads_def raise_def)

lemma reads_seq: "reads view m \<Longrightarrow> (\<And>x. reads view (f x)) \<Longrightarrow> reads view (seq m f)"
  by (auto simp: reads_def seq_def split: prod.splits sum.splits) (metis fst_conv)+

lemma reads_for_each: "(\<And>x. reads view (f x)) \<Longrightarrow> reads view (for_each xs f)"
  by (induction xs) (auto intro!: reads_ret reads_seq)

lemma reads_if: "reads view m \<Longrightarrow> reads view n \<Longrightarrow> reads view (if b then m else n)"
  by simp

lemma reads_eval: "reads view m \<Longrightarrow> view (fst (eval m db)) = view db"
  by (auto simp: reads_def eval_def split: prod.splits sum.splits) (metis fst_conv)+

lemma call_view: "view (fst (call exec c db)) = view (fst (exec db c))"
  by (simp add: call_def split: prod.splits redisReply.splits)

context redis_server
begin

lemma reads_call:
  "reads view (call exec (HGET k f))" "reads view (call exec (HEXISTS k f))" "reads view (call exec (HGETALL k))"
  "reads view (call exec (SMEMBERS k))" "reads view (call exec (SRANDMEMBER k))" "reads view (call exec (LRANGE k))"
  by (simp_all add: reads_def call_view HGET_view HEXISTS_view HGETALL_view SMEMBERS_view SRANDMEMBER_view LRANGE_view)

lemmas reads_rules = reads_ret reads_raise reads_seq reads_for_each reads_if reads_call

lemma reading_scripts:
  "reads view (scan_collection_command exec u c)" "reads view (get_blob_command exec u c b)"
  "reads view (list_public_blob_command exec L)" "reads view (query_blob_command exec u b)"
  by (auto simp: scan_collection_command_def get_blob_command_def list_public_blob_command_def query_blob_command_def
      Let_def split: prod.splits option.splits intro!: reads_rules)

lemma get_collection_reads: "get_collection exec L u requester c db = (db', r) \<Longrightarrow> view db' = view db"
  using reads_eval [OF reading_scripts(1)] by (auto simp: get_collection_def split_beta)

lemma get_blob_reads: "get_blob exec u c b db = (db', r) \<Longrightarrow> view db' = view db"
  using reads_eval [OF reading_scripts(2)] by (auto simp: get_blob_def split_beta)

lemma list_public_reads: "list_public_blobs exec L db = (db', r) \<Longrightarrow> view db' = view db"
  using reads_eval [OF reading_scripts(3)] by (auto simp: list_public_blobs_def split_beta)

lemma get_inode_reads: "get_inode exec u requester b db = (db', r) \<Longrightarrow> view db' = view db"
  by (auto simp: get_inode_def split_beta HGET_view)

lemma scan_collections_reads:
  "scan_collections exec L fuel u cursor coll_list db = Some (db', r) \<Longrightarrow> view db' = view db"
proof (induction fuel arbitrary: cursor coll_list db)
  case (Suc fuel)
  have "view (fst (exec db (HSCAN (key_collection_list u) (narrow_int cursor)))) = view db" by (rule HSCAN_view)
  then show ?case using Suc
    by (auto split: prod.splits list.splits if_splits option.splits sum.splits)
qed simp

lemma list_guests_reads: "list_guests exec u c db = (db', r) \<Longrightarrow> view db' = view db"
  by (auto simp: list_guests_def split_beta HGETALL_view)

end

section \<open>Other users\<close>

text \<open>Nothing that belongs to a user other than \<^term>\<open>u\<close> differs.\<close>

definition others_same :: "string \<Rightarrow> (string \<Rightarrow> rvalue) \<Rightarrow> (string \<Rightarrow> rvalue) \<Rightarrow> bool" where
  "others_same u V W \<longleftrightarrow> (\<forall>v. v \<noteq> u \<longrightarrow>
     lb_entries (library W) v = lb_entries (library V) v \<and> lb_albums (library W) v = lb_albums (library V) v \<and>
     lb_inodes (library W) v = lb_inodes (library V) v \<and> lb_refs (library W) v = lb_refs (library V) v)"

lemma others_same_refl [simp]: "others_same u V V"
  by (simp add: others_same_def)

lemma others_same_trans: "others_same u V W \<Longrightarrow> others_same u W X \<Longrightarrow> others_same u V X"
  by (simp add: others_same_def)

lemma others_same_library: "library W = library V \<Longrightarrow> others_same u V W"
  by (simp add: others_same_def)

text \<open>The keys of sessions, users, shares and hashes are no part of the library.\<close>

definition outside_key :: "string \<Rightarrow> bool" where
  "outside_key k \<longleftrightarrow> (\<forall>u b c. k \<noteq> key_blob_refs u b \<and> k \<noteq> key_blob_owners b \<and> k \<noteq> key_blob_inode u \<and>
     k \<noteq> key_collection u c \<and> k \<noteq> key_collection_list u \<and> k \<noteq> key_public_blobs)"

lemma outside_keys: "outside_key (key_session s)" "outside_key (key_shared_auth u c)" "outside_key phash_key"
  by (auto simp: outside_key_def key_defs phash_key_def)

lemma library_outside:
  assumes "outside_key k"
  shows "library (V(k := x)) = library V" and "typed (V(k := x)) \<longleftrightarrow> typed V"
proof -
  have ne: "key_blob_refs u b \<noteq> k" "key_blob_owners b \<noteq> k" "key_blob_inode u \<noteq> k" "key_collection u c \<noteq> k"
    "key_collection_list u \<noteq> k" "key_public_blobs \<noteq> k" for u b c
    using assms unfolding outside_key_def by metis+
  show "library (V(k := x)) = library V" "typed (V(k := x)) \<longleftrightarrow> typed V" by (simp_all add: library_def typed_def ne cong: if_cong)
qed

lemma others_same_effects:
  "library W = l_link L u c b raw name (library V) \<Longrightarrow> others_same u V W"
  "library W = l_unlink L u c b new (library V) \<Longrightarrow> others_same u V W"
  "library W = l_move L u src d b name (library V) \<Longrightarrow> others_same u V W"
  "library W = l_set_permission L u b p raw (library V) \<Longrightarrow> others_same u V W"
  "library W = l_set_cover L u c b (library V) \<Longrightarrow> others_same u V W"
  "library W = (library V)\<lparr>lb_refs := upd2 (lb_refs (library V)) u b cs\<rparr> \<Longrightarrow> others_same u V W"
  "library W = (library V)\<lparr>lb_inodes := (lb_inodes (library V))(u := m)\<rparr> \<Longrightarrow> others_same u V W"
  by (auto simp: others_same_def l_link_def l_unlink_def l_forget_def l_move_def l_set_permission_def l_set_cover_def
      Let_def upd2_def)

context ownership_server
begin

lemma unlink_others:
  assumes "typed (view db)" "indexed L (library (view db))" "plain_user u" "wf_oid b"
    and "unlink_blob exec L u c b db = (db', ec)"
  shows "others_same u (view db) (view db')"
  using unlink_blob_library [OF assms(1) assms(2) assms(3,4), of c] assms(5) others_same_effects(2) by (metis fst_conv)

lemma move_others:
  assumes "typed (view db)" "plain_user u" "wf_oid b" and "move_blob exec L u src d b db = (db', ec)"
  shows "others_same u (view db) (view db')"
proof (cases "lb_entries (library (view db)) u src b")
  case None
  then show ?thesis using move_blob_missing(2) [OF assms(1-3) None, of d] assms(4) others_same_effects(6) by (metis fst_conv)
next
  case (Some name)
  then show ?thesis using move_blob_library(3) [OF assms(1-3) Some, of d] assms(4) others_same_effects(3) by (metis fst_conv)
qed

lemma permission_others:
  assumes "typed (view db)" and "set_permission exec L u b p db = (db', ec)"
  shows "others_same u (view db) (view db')"
proof (cases "lb_inodes (library (view db)) u b")
  case None
  then show ?thesis using set_permission_missing [OF assms(1) None, of p] assms(2) by simp
next
  case (Some raw)
  then show ?thesis using set_permission_library(3) [OF assms(1) Some, of p] assms(2) others_same_effects(4) by (metis fst_conv)
qed

lemma cover_others:
  assumes "typed (view db)" "indexed L (library (view db))" "plain_user u" and "set_cover exec L u c b db = (db', r)"
  shows "others_same u (view db) (view db')"
proof (cases "lb_entries (library (view db)) u c b = None")
  case True
  then show ?thesis using set_cover_library(2) [OF assms(1) assms(2) assms(3) True] assms(4) by simp
next
  case False
  then show ?thesis using set_cover_library(1) [OF assms(1) assms(2) assms(3) False] assms(4) others_same_effects(5) by (metis fst_conv)
qed

lemma link_others:
  assumes "typed (view db)" "plain_user u" "wf_oid b" and "link_blob exec L u c b e db = ok (db', ec)"
  shows "others_same u (view db) (view db')"
proof -
  obtain raw where "inodedb_create_fields L e = ok raw"
    using assms(4) by (auto simp: link_blob_def link_command_def bind_r_def split: sum.splits)
  then show ?thesis using link_blob_library [OF assms(1-3), of e raw c] assms(4) others_same_effects(1) by (metis Inr_inject fst_conv)
qed

lemma update_others:
  assumes "typed (view db)" and "update_blob exec L u b e db = ok db'"
  shows "others_same u (view db) (view db')" and "typed (view db')"
proof -
  obtain raw where db': "db' = update exec u b raw db"
    using assms(2) by (auto simp: update_blob_def bind_r_def split: sum.splits)
  have "view db' = (view db)(key_blob_inode u := Hash ((hash_of (view db (key_blob_inode u)))(b \<mapsto> raw)))"
    by (simp add: db' update_def HSET_view typedD [OF assms(1)])
  then show "others_same u (view db) (view db')" "typed (view db')"
    using assms(1) by (auto intro!: others_same_effects(7) simp: library_upd)
qed

end

section \<open>Handlers\<close>

text \<open>The keys beside the library that a handler writes hold hashes.\<close>

definition typed_outside :: "(string \<Rightarrow> rvalue) \<Rightarrow> bool" where
  "typed_outside V \<longleftrightarrow> (\<forall>u c. is_hash (V (key_shared_auth u c))) \<and> is_hash (V phash_key)"

text \<open>An environment whose database and libraries have the documented behaviour.\<close>

locale handler_env = ownership_server exec view ttl L
  for exec :: "'db \<Rightarrow> rcmd \<Rightarrow> 'db \<times> redisReply" and view and ttl and L +
  fixes E :: "'db henv"
  assumes env_exec: "h_exec E = exec" and env_lib: "h_lib E = L"
    and env_digest: "wf_oid (be_blake2 (h_blobs E) c)"
begin

lemma validate_others:
  "\<lbrakk>validate_entries E es coll s = Some (s', coll'); typed (view (s_db s))\<rbrakk> \<Longrightarrow>
   others_same (m_user (s_auth s)) (view (s_db s)) (view (s_db s')) \<and> s_auth s' = s_auth s"
proof (induction es arbitrary: coll s)
  case (Cons x es)
  obtain i e where x: "x = (i, e)" by force
  show ?case
  proof (cases "bi_timestamp e = 0")
    case False
    then show ?thesis using Cons x by simp
  next
    case True
    obtain fs b where um: "update_meta L (h_blobs E) (find_blob L (h_blobs E) i) (s_files s) = (fs, b)" by fastforce
    obtain db where up: "update_blob exec L (m_user (s_auth s)) i (e\<lparr>bi_timestamp := original_datetime b\<rparr>) (s_db s) = ok db"
      and rest: "validate_entries E es (update_timestamp i (original_datetime b) coll) (s\<lparr>s_files := fs, s_db := db\<rparr>) = Some (s', coll')"
      using Cons.prems(1) True x um by (auto simp: env_exec env_lib Let_def split: sum.splits)
    have "others_same (m_user (s_auth s)) (view db) (view (s_db s')) \<and> s_auth s' = s_auth s"
      using Cons.IH [OF rest] update_others [OF Cons.prems(2) up] by simp
    then show ?thesis using update_others(1) [OF Cons.prems(2) up] others_same_trans by blast
  qed
qed simp

lemma login_others:
  assumes "verify_user exec kdf random name password n db = Some (db', ec, uid)"
  shows "library (view db') = library (view db)"
proof -
  have "library (view (fst (exec d (SETEX (key_session c) v k)))) = library (view d)" for d c v k
    by (cases "0 < k") (simp_all add: SETEX_view SETEX_invalid library_outside outside_keys)
  then show ?thesis using assms
    by (auto simp: verify_user_def create_session_def Let_def split_beta HMGET_view split: option.splits if_splits)
qed

lemma post_view_others:
  assumes "post_view E req s = Some (s', r)" and "typed (view (s_db s))" "indexed L (library (view (s_db s)))"
    and "plain_user (m_user (s_auth s))" and "is_hash (view (s_db s) (key_shared_auth (br_owner req) (br_collection req)))"
  shows "others_same (m_user (s_auth s)) (view (s_db s)) (view (s_db s'))"
proof (cases "request_by_owner req (s_auth s)")
  case False
  then show ?thesis using assms(1) by (simp add: post_view_def)
next
  case True
  then have owner: "br_owner req = m_user (s_auth s)" by (simp add: request_by_owner_def br_owner_def)
  have share: "others_same u (view (s_db s)) (view db')"
    if "share_resource exec rnd now (m_user (s_auth s)) (br_collection req) p (s_db s) = (db', x)" for db' x rnd now p u
    using that assms(5) [unfolded owner]
    by (auto simp: share_resource_def Let_def split_beta HSET_view library_outside outside_keys intro!: others_same_library)
  show ?thesis using assms(1) True
    by (auto simp: post_view_def env_exec env_lib owner split: list.splits option.splits prod.splits if_splits
        dest!: list_guests_reads cover_others [OF assms(2-4)] share)
qed

lemma post_blob_others:
  assumes "post_blob E req s = Some (s', r)" and "typed (view (s_db s))" and "plain_user (m_user (s_auth s))"
  shows "others_same (m_user (s_auth s)) (view (s_db s)) (view (s_db s'))"
proof (cases "request_by_owner req (s_auth s)")
  case False
  then show ?thesis using assms(1) by (simp add: post_blob_def)
next
  case True
  then have owner: "br_owner req = m_user (s_auth s)" by (simp add: request_by_owner_def br_owner_def)
  obtain b where b: "br_blob L req = Some b" using assms(1) True by (auto simp: post_blob_def env_lib split: option.splits)
  then have "wf_oid b" by (simp add: br_blob_def oid_from_hex_wf)
  then show ?thesis using assms(1) True b
    by (auto simp: post_blob_def env_exec env_lib owner split: list.splits prod.splits if_splits
        dest!: permission_others [OF assms(2)] move_others [OF assms(2,3)])
qed

lemma unlink_handler_others:
  assumes "unlink E req s = Some (s', r)" and "typed (view (s_db s))" "indexed L (library (view (s_db s)))"
    and "plain_user (m_user (s_auth s))"
  shows "others_same (m_user (s_auth s)) (view (s_db s)) (view (s_db s'))"
proof (cases "request_by_owner req (s_auth s)")
  case False
  then show ?thesis using assms(1) by (auto simp: unlink_def split: option.splits)
next
  case True
  then have owner: "br_owner req = m_user (s_auth s)" by (simp add: request_by_owner_def br_owner_def)
  obtain b where b: "br_blob L req = Some b" using assms(1) True by (auto simp: unlink_def env_lib split: option.splits)
  then have "wf_oid b" by (simp add: br_blob_def oid_from_hex_wf)
  then show ?thesis using assms(1) True b
    by (auto simp: unlink_def env_exec env_lib owner split: prod.splits dest!: unlink_others [OF assms(2-4)])
qed

lemma upload_others:
  assumes "on_upload E req u s = Some (s', u', r)" and "typed (view (s_db s))" "typed_outside (view (s_db s))"
    and "plain_user (m_user (s_auth s))"
  shows "others_same (m_user (s_auth s)) (view (s_db s)) (view (s_db s'))"
proof -
  let ?fs = "s_files s" and ?U = "m_user (s_auth s)" and ?url = "URLIntent_of (rq_target req)"
  obtain fs body blob saved where sv: "save L (h_blobs E) u ?fs = (fs, body, blob, saved)" by (metis prod_cases4)
  have "bf_id blob = upload_ID (h_blobs E) u"
    using sv by (auto simp: save_def BlobFile_upload_def Let_def dest!: deduce_meta_frame split: option.splits prod.splits if_splits)
  then have oid: "wf_oid (bf_id blob)" by (simp add: upload_ID_def env_digest)
  define db1 where "db1 = (case im_phash (meta_of blob) of Some h \<Rightarrow> phash_add exec (bf_id blob) h (s_db s) | None \<Rightarrow> s_db s)"
  have lib1: "library (view db1) = library (view (s_db s))" "typed (view db1)"
    using assms(2,3) unfolding db1_def typed_outside_def
    by (auto simp: phash_add_effect library_outside outside_keys split: option.splits)
  have "library (view (s_db s')) = library (view (s_db s)) \<or>
      (\<exists>c e ec. link_blob exec L ?U c (bf_id blob) e db1 = ok (s_db s', ec))"
    using assms(1) sv
    by (auto simp: on_upload_def env_exec env_lib db1_def Let_def split: if_splits option.splits sum.splits prod.splits)
  then show ?thesis
  proof
    assume "library (view (s_db s')) = library (view (s_db s))"
    then show ?thesis by (rule others_same_library)
  next
    assume "\<exists>c e ec. link_blob exec L ?U c (bf_id blob) e db1 = ok (s_db s', ec)"
    then have "others_same ?U (view db1) (view (s_db s'))" using link_others [OF lib1(2) assms(4) oid] by blast
    then show ?thesis using lib1(1) by (simp add: others_same_def)
  qed
qed

lemma api_others:
  assumes "on_request_api E req intent s = Some (s', r)" and "typed (view (s_db s))" "indexed L (library (view (s_db s)))"
    and "typed_outside (view (s_db s))" and "plain_user (m_user (s_auth s))"
  shows "others_same (m_user (s_auth s)) (view (s_db s)) (view (s_db s'))"
proof (cases "rq_method req")
  case V_get
  show ?thesis
  proof (cases "br_blob L (BlobRequest_of req intent)")
    case None
    then obtain db coll ec s1 coll1 where
      "get_collection exec L (br_owner (BlobRequest_of req intent)) (s_auth s) (br_collection (BlobRequest_of req intent)) (s_db s) = (db, Inr (coll, ec))"
      "validate_entries E (c_blobs coll) coll (s\<lparr>s_db := db\<rparr>) = Some (s1, coll1)" "s' = s1"
      using assms(1) V_get
      by (auto simp: on_request_api_def Let_def env_exec env_lib validate_collection_def split: prod.splits sum.splits)
    then show ?thesis using get_collection_reads validate_others [of "c_blobs coll" coll "s\<lparr>s_db := db\<rparr>"] assms(2) by simp
  next
    case (Some b)
    then have "handle_get_blob E (BlobRequest_of req intent) b s = Some (s', r)"
      using assms(1) V_get by (simp add: on_request_api_def env_lib)
    then have "view (s_db s') = view (s_db s)"
      by (auto simp: handle_get_blob_def get_blob_reply_def Let_def env_exec dest!: get_blob_reads split: if_splits prod.splits option.splits)
    then show ?thesis by simp
  qed
next
  case V_post
  then show ?thesis using assms(1) post_view_others post_blob_others assms(2-5)
    by (auto simp: on_request_api_def Let_def typed_outside_def split: if_splits)
next
  case V_delete
  then show ?thesis using assms(1) unlink_handler_others [OF _ assms(2,3,5)] by (simp add: on_request_api_def)
qed (use assms(1) in \<open>auto simp: on_request_api_def\<close>)

lemma query_reads:
  assumes "on_query E req s = Some (s', r)"
  shows "view (s_db s') = view (s_db s)"
  using assms
  by (auto simp: on_query_def scan_collection_def send_collection_list_def scan_all_collections_def handle_query_blob_def query_blob_reply_def
      query_blob_set_def handle_list_public_def Let_def env_exec env_lib
      dest!: scan_collections_reads get_inode_reads list_public_reads get_collection_reads
      split: QueryTarget.splits list.splits option.splits if_splits prod.splits sum.splits)

lemma empty_others:
  assumes "on_empty_request E req intent s = Some (s', r)"
  shows "library (view (s_db s')) = library (view (s_db s))"
proof -
  have home: "view (s_db t) = view (s_db s)" if "send_collection_list E u p s = Some (t, x) \<or> handle_list_public E j u s = Some (t, x)" for t x u p j
    using that by (auto simp: send_collection_list_def scan_all_collections_def handle_list_public_def Let_def env_exec env_lib
      dest!: scan_collections_reads list_public_reads split: option.splits prod.splits sum.splits)
  show ?thesis
  proof (cases "i_action intent")
    case Logout
    then show ?thesis using assms
      by (auto simp: on_empty_request_def on_logout_def destroy_session_def env_exec DEL_view library_outside outside_keys split: if_splits)
  next
    case Query
    then show ?thesis using assms query_reads by (auto simp: on_empty_request_def split: if_splits)
  next
    case Home
    then have "(\<exists>u p x. send_collection_list E u p s = Some (s', x)) \<or> (\<exists>j u x. handle_list_public E j u s = Some (s', x)) \<or> s' = s"
      using assms by (auto simp: on_empty_request_def split: if_splits)
    then show ?thesis using home by metis
  qed (use assms in \<open>auto simp: on_empty_request_def split: if_splits\<close>)
qed

lemma view_reads:
  assumes "on_request_view E req intent s = Some (s', r)"
  shows "view (s_db s') = view (s_db s)"
  using assms
  by (auto simp: on_request_view_def Let_def env_exec env_lib dest!: get_collection_reads split: if_splits prod.splits sum.splits)

text \<open>A request changes nothing that belongs to another user.\<close>

lemma request_others:
  assumes run: "on_request_body E req s = Some (s', r)" and "typed (view (s_db s))" "indexed L (library (view (s_db s)))"
    and "typed_outside (view (s_db s))" and "plain_user (m_user (s_auth s))"
  shows "others_same (m_user (s_auth s)) (view (s_db s)) (view (s_db s'))"
proof -
  let ?i = "URLIntent_of (rq_target req)"
  have discard: "s_db (fst (case rq_body req of Req_upload u \<Rightarrow> (a\<lparr>s_files := upload_destroy u (s_files a)\<rparr>, b) | _ \<Rightarrow> (a, b))) = s_db a"
    for a :: "'db srv" and b :: response by (simp split: request_body.splits)
  consider (login) "i_action ?i = Login" | (view) "i_action ?i = View" | (api) "i_action ?i = Api"
    | (rest) "i_action ?i \<noteq> Login" "i_action ?i \<noteq> View" "i_action ?i \<noteq> Api" by blast
  then show ?thesis
  proof cases
    case login
    then have "s_db s' = s_db s \<or> (\<exists>n pw ec uid. verify_user exec (h_kdf E) (h_random E) n pw (h_session_length E) (s_db s) = Some (s_db s', ec, uid))"
      using run by (auto simp: on_request_body_def on_login_def Let_def env_exec
          split: request_body.splits if_splits list.splits option.splits)
    then show ?thesis using login_others by (auto intro: others_same_library)
  next
    case view
    then obtain t x where "on_request_view E req ?i s = Some (t, x)" "s_db s' = s_db t"
      using run discard by (auto simp: on_request_body_def Let_def) (metis fst_conv)
    then show ?thesis using view_reads by simp
  next
    case api
    then obtain t x where "on_request_api E req ?i s = Some (t, x)" "s_db s' = s_db t"
      using run discard by (auto simp: on_request_body_def Let_def) (metis fst_conv)
    then show ?thesis using api_others [OF _ assms(2-5)] by simp
  next
    case rest
    then have "s_db s' = s_db s \<or> (\<exists>x. on_empty_request E req ?i s = Some (s', x)) \<or>
        (\<exists>u t u' x. on_upload E req u s = Some (t, u', x) \<and> s_db s' = s_db t)"
      using run by (auto simp: on_request_body_def Let_def split: request_body.splits if_splits) blast+
    then show ?thesis
      using empty_others upload_others [OF _ assms(2,4,5)] by (auto intro: others_same_library)
  qed
qed

end

end
