(* ===== verification/Handler_Properties.thy ===== *)
theory Handler_Properties
  imports Handler_Isolation
begin

text \<open>
  Who may do what: the properties of a request as a whole, from the header that authenticates it to
  the change of the library or the response, each with a request to the reference server.
\<close>

section \<open>Shared facts\<close>

context redis_server
begin

lemma wp_get_blob:
  assumes V: "typed V"
  shows "wp view (get_blob_command exec u c b) V (\<lambda>r W. W = V \<and>
    r = Inr (case hash_of (V (key_collection u c)) b of
      None \<Rightarrow> RNil | Some f \<Rightarrow> RArray [bulk (hash_of (V (key_blob_inode u)) b), RString f]))"
  unfolding get_blob_command_def Let_def
  by (auto intro!: wp_rules simp: typedD [OF V] bulk_def split: option.splits)

lemma get_blob_result:
  assumes "typed (view db)"
  shows "\<exists>db'. get_blob exec u c b db = (db', (case hash_of (view db (key_collection u c)) b of
      None \<Rightarrow> (empty_inode_db, [], Hrb_error H_object_not_exist)
    | Some f \<Rightarrow> ((case hash_of (view db (key_blob_inode u)) b of None \<Rightarrow> [] | Some raw \<Rightarrow> raw), f, No_error)))"
proof -
  obtain r where "snd (eval (get_blob_command exec u c b) db) = reply_result r"
    "r = Inr (case hash_of (view db (key_collection u c)) b of
      None \<Rightarrow> RNil | Some f \<Rightarrow> RArray [bulk (hash_of (view db (key_blob_inode u)) b), RString f])"
    using eval_wp [OF wp_get_blob [OF assms, of u c b]] by blast
  then show ?thesis
    by (cases "hash_of (view db (key_collection u c)) b"; cases "hash_of (view db (key_blob_inode u)) b")
      (simp_all add: get_blob_def split_beta get_blob_callback_def reply_result_def array_size_def as_array_def as_string_def
        bulk_def)
qed

end

context ownership_server
begin

lemma link_outside:
  assumes V: "typed (view db)" and "wf_oid b" and run: "link_blob exec L u c b e db = ok (db', ec)" and k: "outside_key k"
  shows "view db' k = view db k"
proof -
  have ne: "key_blob_refs u b \<noteq> k" "key_blob_owners b \<noteq> k" "key_blob_inode u \<noteq> k" "key_collection u c \<noteq> k"
    "key_collection_list u \<noteq> k"
    using k unfolding outside_key_def by metis+
  have frame: "wp view (link_script exec L u c b raw name) (view db) (\<lambda>r W. W k = view db k)" for raw name
    unfolding link_script_def Let_def using ne
    by (auto intro!: wp_rules simp: typedD [OF V] key_simps)
  then show ?thesis using run eval_wp [OF frame]
    by (auto simp: link_blob_def link_command_def bind_r_def Let_def split: sum.splits prod.splits) (metis fst_conv)
qed

end

context handler_env
begin

text \<open>What is known of an upload that was answered with 201.\<close>

lemma upload_parts:
  assumes run: "on_upload E req u s = Some (s', u', r)" and "res_status r = St_created"
  obtains fs blob db1 e where "save L (h_blobs E) u (s_files s) = (fs, u', blob, True)" "s_files s' = fs"
    and "m_user (s_auth s) = i_user (URLIntent_of (rq_target req))"
    and "db1 = (case im_phash (meta_of blob) of Some h \<Rightarrow> phash_add exec (bf_id blob) h (s_db s) | None \<Rightarrow> s_db s)"
    and "bi_perm e = private_perm" "bi_filename e = i_filename (URLIntent_of (rq_target req))"
    and "link_blob exec L (m_user (s_auth s)) (i_coll (URLIntent_of (rq_target req))) (bf_id blob) e db1 = ok (s_db s', No_error)"
proof -
  obtain fs body blob saved where sv: "save L (h_blobs E) u (s_files s) = (fs, body, blob, saved)" by (metis prod_cases4)
  let ?e = "\<lparr>bi_perm = private_perm, bi_filename = i_filename (URLIntent_of (rq_target req)),
    bi_mime = im_mime (meta_of blob), bi_timestamp = original_datetime blob\<rparr>"
  show thesis
    by (rule that [of fs blob "case im_phash (meta_of blob) of Some h \<Rightarrow> phash_add exec (bf_id blob) h (s_db s) | None \<Rightarrow> s_db s" ?e])
      (use assms [unfolded on_upload_def env_exec env_lib] sv in \<open>auto simp: Let_def split: if_splits sum.splits\<close>)
qed

lemma upload_stored:
  assumes "on_upload E req u s = Some (s', u', r)" "res_status r = St_created"
    and "s_files s (up_tmp_path u) = Some c" "up_tmp_path u \<noteq> []" "up_hashed u = c"
    and "b = be_blake2 (h_blobs E) c" "\<And>n. up_tmp_path u \<noteq> join (dest L (h_blobs E) b) n"
  shows "s_files s' (join (dest L (h_blobs E) b) ''master'') = Some c" "s_files s' (up_tmp_path u) = None"
    "upload_destroy u' (s_files s') = s_files s'"
proof -
  obtain fs blob where sv: "save L (h_blobs E) u (s_files s) = (fs, u', blob, True)" "s_files s' = fs"
    by (rule upload_parts [OF assms(1,2)])
  have "upload_ID (h_blobs E) u = b" by (simp add: upload_ID_def assms(5,6))
  then show "s_files s' (join (dest L (h_blobs E) b) ''master'') = Some c" "s_files s' (up_tmp_path u) = None"
    "upload_destroy u' (s_files s') = s_files s'"
    using save_effect [OF sv(1) assms(3,4)] assms(7) sv(2) by (simp_all add: master_rendition_def upload_destroy_def)
qed

lemma upload_linked:
  assumes "on_upload E req u s = Some (s', u', r)" "res_status r = St_created" "typed (view (s_db s))" "typed_outside (view (s_db s))"
    and "b = be_blake2 (h_blobs E) c" "s_files s (up_tmp_path u) = Some c" "up_tmp_path u \<noteq> []" "up_hashed u = c"
    and "plain_user (m_user (s_auth s))" and "i = URLIntent_of (rq_target req)" "U = m_user (s_auth s)"
  shows "U = i_user i" and "\<exists>raw. inodedb_permission raw = private_perm \<and>
    lb_entries (library (view (s_db s'))) U (i_coll i) b = Some (if i_filename i = [] then ''hello'' else i_filename i) \<and>
    lb_inodes (library (view (s_db s'))) U b = Some (case lb_inodes (library (view (s_db s))) U b of None \<Rightarrow> raw | Some old \<Rightarrow> old)"
proof -
  obtain fs blob db1 e where p: "save L (h_blobs E) u (s_files s) = (fs, u', blob, True)"
    "m_user (s_auth s) = i_user (URLIntent_of (rq_target req))"
    "db1 = (case im_phash (meta_of blob) of Some h \<Rightarrow> phash_add exec (bf_id blob) h (s_db s) | None \<Rightarrow> s_db s)"
    "bi_perm e = private_perm" "bi_filename e = i_filename (URLIntent_of (rq_target req))"
    "link_blob exec L (m_user (s_auth s)) (i_coll (URLIntent_of (rq_target req))) (bf_id blob) e db1 = ok (s_db s', No_error)"
    by (rule upload_parts [OF assms(1,2)])
  show "U = i_user i" using p(2) assms(10,11) by simp
  have id: "bf_id blob = b" using save_effect(1) [OF p(1) assms(6,7)] by (simp add: upload_ID_def assms(5,8))
  have oid: "wf_oid b" by (simp add: assms(5) env_digest)
  have lib1: "library (view db1) = library (view (s_db s))" "typed (view db1)"
    using assms(3,4) unfolding p(3) typed_outside_def
    by (auto simp: phash_add_effect library_outside outside_keys split: option.splits)
  obtain raw where raw: "inodedb_create_fields L e = ok raw"
    using p(6) by (auto simp: link_blob_def link_command_def bind_r_def split: sum.splits)
  obtain db' where "link_blob exec L U (i_coll i) b e db1 = ok (db', No_error)"
    "library (view db') = l_link L U (i_coll i) b raw (entry_name e) (library (view db1))"
    using link_blob_library [OF lib1(2) _ oid raw, of U "i_coll i"] assms(9,11) by auto
  then have "library (view (s_db s')) = l_link L U (i_coll i) b raw (entry_name e) (library (view (s_db s)))"
    using p(6) lib1(1) id assms(10,11) by auto
  moreover have "inodedb_permission raw = private_perm"
    using raw p(4) by (auto simp: inodedb_create_fields_def inodedb_create_def Let_def inodedb_permission_def split: option.splits)
  ultimately show "\<exists>raw. inodedb_permission raw = private_perm \<and>
    lb_entries (library (view (s_db s'))) U (i_coll i) b = Some (if i_filename i = [] then ''hello'' else i_filename i) \<and>
    lb_inodes (library (view (s_db s'))) U b = Some (case lb_inodes (library (view (s_db s))) U b of None \<Rightarrow> raw | Some old \<Rightarrow> old)"
    by (intro exI [of _ raw]) (auto simp: l_link_def entry_name_def p(5) assms(10) split: option.splits)
qed

end

section \<open>An environment for the witnesses\<close>

definition demo_henv :: "refdb henv" where
  "demo_henv = \<lparr>h_exec = ref_exec, h_lib = ref_lib, h_kdf = demo_kdf, h_web = \<lparr>w_static = [], w_dynamic = []\<rparr>,
     h_blobs = demo_blob_env, h_root = ''https://localhost'', h_session_length = 3600, h_random = cookie2,
     h_now = 1000 * 10 ^ 9, h_elapse = None, h_scan_fuel = 100\<rparr>"

interpretation demo: handler_env ref_exec ref_view ref_ttl ref_lib demo_henv
  by unfold_locales (simp_all add: demo_henv_def demo_blob_env_def wf_oid_def Blake2_size_def zero_oid_def)

text \<open>Requests for the picture of the small library.\<close>

definition demo_target :: string where
  "demo_target = ''/api/sumsum/pets/'' @ to_hex ref_lib demo_oid"

definition demo_request :: "verb \<Rightarrow> UploadFile request" where
  "demo_request v = \<lparr>rq_method = v, rq_target = demo_target, rq_fields = (\<lambda>_. []), rq_body = Req_empty\<rparr>"

definition demo_srv :: "UserID \<Rightarrow> refdb srv" where
  "demo_srv uid = \<lparr>s_db = demo_db, s_files = Map.empty, s_auth = uid, s_request_session = None\<rparr>"

lemma demo_intent:
  "i_action (URLIntent_of demo_target) = Api" "i_user (URLIntent_of demo_target) = ''sumsum''"
  "i_coll (URLIntent_of demo_target) = ''pets''" "oid_from_hex ref_lib (i_filename (URLIntent_of demo_target)) = Some demo_oid"
  by code_simp+

lemma demo_outside: "typed_outside (ref_view demo_db)"
proof -
  have "ref_view demo_db k = Missing" if "outside_key k" for k
    using own.link_outside [OF _ _ demo_link that] by (simp add: empty_view typed_missing)
  then show ?thesis by (simp add: typed_outside_def outside_keys)
qed

section \<open>Properties\<close>

text \<open>C3: A request changes nothing that belongs to another user: whatever the request is, the
  collections, the entries, the inodes and the back references of every user but the one that the
  header authenticated are what they were.\<close>

theorem request_isolated:
  assumes "handler_env exec view ttl L E" and "on_request_body E req s = Some (s', r)"
    and "typed (view (s_db s))" "indexed L (library (view (s_db s)))" "typed_outside (view (s_db s))"
    and "plain_user (m_user (s_auth s))" and "v \<noteq> m_user (s_auth s)"
  shows "lb_entries (library (view (s_db s'))) v = lb_entries (library (view (s_db s))) v \<and>
    lb_albums (library (view (s_db s'))) v = lb_albums (library (view (s_db s))) v \<and>
    lb_inodes (library (view (s_db s'))) v = lb_inodes (library (view (s_db s))) v \<and>
    lb_refs (library (view (s_db s'))) v = lb_refs (library (view (s_db s))) v"
  using handler_env.request_others [OF assms(1-6)] assms(7) unfolding others_same_def by blast

theorem request_isolated_witness:
  "\<exists>s' r. on_request_body demo_henv (demo_request V_delete) (demo_srv (UserID_of cookie1 ''bob'' False)) = Some (s', r) \<and>
     lb_entries (library (ref_view (s_db s'))) ''sumsum'' = lb_entries (library (ref_view demo_db)) ''sumsum''"
proof -
  let ?s = "demo_srv (UserID_of cookie1 ''bob'' False)"
  have s: "s_db ?s = demo_db" "m_user (s_auth ?s) = ''bob''" by (simp_all add: demo_srv_def UserID_of_def)
  have "\<exists>s' r. on_request_body demo_henv (demo_request V_delete) ?s = Some (s', r)"
    by (simp add: on_request_body_def demo_request_def demo_intent on_request_api_def unlink_def BlobRequest_of_def
        request_by_owner_def br_blob_def demo_henv_def s)
  then obtain s' r where "on_request_body demo_henv (demo_request V_delete) ?s = Some (s', r)" by blast
  then show ?thesis
    using request_isolated [of ref_exec ref_view ref_ttl ref_lib demo_henv "demo_request V_delete" ?s s' r "''sumsum''"]
      demo.handler_env_axioms demo_typed demo_indexed demo_outside by (auto simp: s plain_user_def)
qed

text \<open>C5: Only the owner changes a collection. A \<^verbatim>\<open>POST\<close> or \<^verbatim>\<open>DELETE\<close> that is not by the owner of the
  URL, a guest with a shared link included, and an upload into the collection of somebody else are
  answered with 403, and neither the database nor any file changes, but that the temporary file of
  an upload is removed. The one exception is a \<^verbatim>\<open>DELETE\<close> whose URL names no blob: it fails an assertion
  before the test of the owner, and gets no answer.\<close>

theorem changes_need_owner:
  assumes "let i = URLIntent_of (rq_target req) in
    (i_action i = Api \<and> rq_method req \<in> {V_post, V_delete} \<and> (m_guest (s_auth s) \<or> m_user (s_auth s) \<noteq> i_user i)) \<or>
    (i_action i = Upload \<and> (\<exists>u. rq_body req = Req_upload u) \<and> m_user (s_auth s) \<noteq> i_user i)"
  shows "if i_action (URLIntent_of (rq_target req)) = Api \<and> rq_method req = V_delete \<and>
      br_blob (h_lib E) (BlobRequest_of req (URLIntent_of (rq_target req))) = None
    then on_request_body E req s = None
    else \<exists>s'. on_request_body E req s = Some (s', empty_response St_forbidden) \<and> s_db s' = s_db s \<and>
      s_auth s' = s_auth s \<and> (case rq_body req of
         Req_upload u \<Rightarrow> s_files s' = upload_destroy u (s_files s) | _ \<Rightarrow> s_files s' = s_files s)"
proof (cases "i_action (URLIntent_of (rq_target req)) = Api")
  case True
  let ?q = "BlobRequest_of req (URLIntent_of (rq_target req))"
  have "\<not> request_by_owner ?q (s_auth s)" "rq_method req \<in> {V_post, V_delete}"
    using True assms by (auto simp: request_by_owner_def BlobRequest_of_def Let_def)
  then have "on_request_api E req (URLIntent_of (rq_target req)) s =
      (if rq_method req = V_delete \<and> br_blob (h_lib E) ?q = None then None else Some (s, empty_response St_forbidden))"
    by (auto simp: on_request_api_def unlink_def post_blob_def post_view_def Let_def split: option.splits)
  then show ?thesis using True by (auto simp: on_request_body_def split: request_body.splits)
next
  case False
  then obtain u where "i_action (URLIntent_of (rq_target req)) = Upload" "rq_body req = Req_upload u"
    "m_user (s_auth s) \<noteq> i_user (URLIntent_of (rq_target req))"
    using assms by (auto simp: Let_def)
  then show ?thesis by (simp add: on_request_body_def on_upload_def)
qed

theorem changes_need_owner_witness:
  "\<exists>s'. on_request_body demo_henv (demo_request V_delete) (demo_srv (UserID_of cookie1 ''sumsum'' True)) =
     Some (s', empty_response St_forbidden) \<and> s_db s' = demo_db"
proof -
  let ?s = "demo_srv (UserID_of cookie1 ''sumsum'' True)" and ?req = "demo_request V_delete"
  have req: "rq_method ?req = V_delete" "rq_target ?req = demo_target" "rq_body ?req = Req_empty"
    "br_blob (h_lib demo_henv) (BlobRequest_of ?req (URLIntent_of demo_target)) = Some demo_oid"
    by (simp_all add: demo_request_def br_blob_def BlobRequest_of_def demo_henv_def demo_intent)
  have s: "m_guest (s_auth ?s)" "s_db ?s = demo_db" by (simp_all add: demo_srv_def UserID_of_def)
  show ?thesis using changes_need_owner [of ?req ?s demo_henv] by (auto simp: Let_def req s demo_intent)
qed

text \<open>C4: A blob is only served to those whom its permission allows. A \<^verbatim>\<open>GET\<close> of a blob, unless the
  client already names its tag, is answered with 404 to the owner and 403 to others when the
  collection does not hold the blob, and with 403 when the permission in the stored inode does not
  allow the requester; it changes no key.\<close>

theorem blob_served_if_allowed:
  assumes "redis_server (h_exec E) view ttl" and "typed (view (s_db s))" "indexed L (library (view (s_db s)))"
    and "i_action (URLIntent_of (rq_target req)) = Api" and "rq_method req = V_get"
    and "oid_from_hex (h_lib E) (i_filename (URLIntent_of (rq_target req))) = Some b" "wf_oid b"
    and "rq_fields req ''If-None-Match'' \<noteq> to_quoted_hex (h_lib E) b"
    and "owner = i_user (URLIntent_of (rq_target req))" "plain_user owner" "coll = i_coll (URLIntent_of (rq_target req))"
    and "on_request_body E req s = Some (s', r)"
  shows "view (s_db s') = view (s_db s) \<and>
    (case lb_entries (library (view (s_db s))) owner coll b of
       None \<Rightarrow> r = empty_response (if \<not> m_guest (s_auth s) \<and> m_user (s_auth s) = owner then St_not_found else St_forbidden)
     | Some filename \<Rightarrow> (\<exists>raw. lb_inodes (library (view (s_db s))) owner b = Some raw \<and>
         (\<not> allow (inodedb_permission raw) (s_auth s) owner \<longrightarrow> r = empty_response St_forbidden)))"
proof -
  let ?q = "BlobRequest_of req (URLIntent_of (rq_target req))" and ?V = "view (s_db s)"
  have q: "br_blob (h_lib E) ?q = Some b" "br_owner ?q = owner" "br_collection ?q = coll" "br_etag ?q \<noteq> to_quoted_hex (h_lib E) b"
    using assms(6,8,9,11) by (simp_all add: br_blob_def br_owner_def br_collection_def BlobRequest_of_def)
  have inode: "lb_entries (library ?V) owner coll b \<noteq> None \<Longrightarrow> lb_inodes (library ?V) owner b \<noteq> None"
    using indexed_entry [OF assms(3,10)] by blast
  obtain s1 where run: "handle_get_blob E ?q b s = Some (s1, r)" "s_db s' = s_db s1"
    using assms(4,5,12) q(1) by (cases "rq_body req") (auto simp: on_request_body_def on_request_api_def)
  obtain db' where get: "get_blob (h_exec E) owner coll b (s_db s) = (db', (case lb_entries (library ?V) owner coll b of
      None \<Rightarrow> (empty_inode_db, [], Hrb_error H_object_not_exist)
    | Some f \<Rightarrow> ((case lb_inodes (library ?V) owner b of None \<Rightarrow> [] | Some raw \<Rightarrow> raw), f, No_error)))"
    unfolding library_sel(3) library_sel(4) [OF assms(10)] using redis_server.get_blob_result [OF assms(1,2)] by blast
  have same: "view db' = ?V" using redis_server.get_blob_reads [OF assms(1) get] .
  have "s_db s1 = db'"
    using run(1) q get
    by (auto simp: handle_get_blob_def get_blob_reply_def Let_def split: if_splits option.splits prod.splits)
  then show ?thesis using run q get inode same
    by (auto simp: handle_get_blob_def get_blob_reply_def Let_def request_by_owner_def br_owner_def BlobRequest_of_def assms(9) split: option.splits if_splits)
qed

theorem blob_served_if_allowed_witness:
  "\<exists>s'. on_request_body demo_henv (demo_request V_get) (demo_srv no_user) = Some (s', empty_response St_forbidden) \<and>
     ref_view (s_db s') = ref_view demo_db"
proof -
  let ?s = "demo_srv no_user"
  have s: "s_db ?s = demo_db" "s_auth ?s = no_user" by (simp_all add: demo_srv_def)
  have perm: "\<not> allow (inodedb_permission demo_raw) no_user ''sumsum''"
    by code_simp
  have tag: "rq_fields (demo_request V_get) ''If-None-Match'' \<noteq> to_quoted_hex ref_lib demo_oid"
    by (simp add: demo_request_def to_quoted_hex_def)
  have get: "\<exists>db'. get_blob ref_exec ''sumsum'' ''pets'' demo_oid demo_db = (db', demo_raw, ''cat.jpg'', No_error)"
    using ref.get_blob_result [OF demo_typed, of "''sumsum''" "''pets''" demo_oid] demo_contents [of "''sumsum''"]
    by (simp add: library_sel)
  then obtain s' r where run: "on_request_body demo_henv (demo_request V_get) ?s = Some (s', r)"
    using perm tag
    by (auto simp: on_request_body_def on_request_api_def handle_get_blob_def get_blob_reply_def demo_request_def demo_intent br_blob_def
        br_owner_def br_collection_def BlobRequest_of_def demo_henv_def s Let_def)
  with perm tag show ?thesis
    using blob_served_if_allowed [of demo_henv ref_view ref_ttl ?s ref_lib "demo_request V_get" demo_oid "''sumsum''" "''pets''" s' r]
      ref.redis_server_axioms demo_typed demo_indexed
    by (simp add: s demo_request_def demo_intent demo_henv_def demo_contents)
qed

text \<open>C6: Nobody is authenticated by accident. After the header of a request the handler of a new
  transaction either has the anonymous user, or the user whose session the cookie names and the
  database knows, or, for a \<^verbatim>\<open>GET\<close> without a session, a guest whose key is stored among the guests of
  exactly the collection that the URL names and has not expired.\<close>

theorem request_authentic:
  assumes "redis_server (h_exec E) view ttl" and "0 \<le> h_now E"
    and "\<And>cookie. is_str (view db (key_session cookie))" and "\<And>u c. is_hash (view db (key_shared_auth u c))"
    and "on_request_header E header (new_handler db fs) = Some (s, body, ec)"
  shows "s_auth s = no_user \<or>
    (\<exists>cookie raw. parse_cookie (h_lib E) (Cookie (rq_fields header ''Cookie'')) = Some cookie \<and>
       view db (key_session cookie) = Str raw \<and> 0 \<le> ttl db (key_session cookie) \<and>
       m_user (s_auth s) = drop 1 raw \<and> m_user (s_auth s) \<noteq> [] \<and> \<not> m_guest (s_auth s)) \<or>
    (rq_method header = V_get \<and> parse_cookie (h_lib E) (Cookie (rq_fields header ''Cookie'')) = None \<and>
     m_guest (s_auth s) \<and> body = RB_empty \<and>
     (\<exists>expiry t. hash_of (view db (key_shared_auth (i_user (URLIntent_of (rq_target header))) (i_coll (URLIntent_of (rq_target header)))))
        (m_session (s_auth s)) = Some expiry \<and> to_int (Some (RString expiry)) = Some t \<and> h_now E sdiv 10 ^ 9 < t))"
proof (cases "parse_cookie (h_lib E) (Cookie (rq_fields header ''Cookie''))")
  case (Some cookie)
  obtain db' ec' uid where v: "verify_session (h_exec E) (h_random E) cookie (h_session_length E) db = (db', ec', uid)"
    by (metis prod_cases3)
  have "s_auth s = no_user \<or> s_auth s = uid"
    using assms(5) Some v by (auto simp: on_request_header_def new_handler_def Let_def split: if_splits)
  then show ?thesis using redis_server.verify_session_authentic [OF assms(1,3) v] Some by blast
next
  case None
  let ?i = "URLIntent_of (rq_target header)"
  show ?thesis
  proof (cases "s_auth s = no_user")
    case False
    then obtain key db' where
      key: "is_shared_resource (h_exec E) (h_now E sdiv 10 ^ 9) (UserID_of key (i_user ?i) True) (i_coll ?i) db = Some (db', True, No_error)"
      "s_auth s = UserID_of key (i_user ?i) True" "rq_method header = V_get" "body = RB_empty"
      using assms(5) None
      by (auto simp: on_request_header_def new_handler_def Let_def split: if_splits option.splits)
    have uid: "m_user (s_auth s) = i_user ?i" "m_guest (s_auth s)" using key(2) by (simp_all add: UserID_of_def)
    have clock: "0 \<le> h_now E sdiv 10 ^ 9" using assms(2) by (simp add: signed_divide_int_def sgn_if pos_imp_zdiv_nonneg_iff)
    have "\<exists>expiry t. hash_of (view db (key_shared_auth (i_user ?i) (i_coll ?i))) (m_session (s_auth s)) = Some expiry \<and>
        to_int (Some (RString expiry)) = Some t \<and> h_now E sdiv 10 ^ 9 < t"
      using key(1) clock uid(1) unfolding key(2) [symmetric]
      by (auto simp: is_shared_resource_def split_beta redis_server.HGET_reply [OF assms(1)] assms(4) bulk_def to_int_def
          as_any_string_def Let_def split: option.splits if_splits)
    then show ?thesis using key(3,4) uid None by blast
  qed simp
qed

definition demo_header :: "UploadFile request" where
  "demo_header = \<lparr>rq_method = V_put, rq_target = ''/upload/alice/c/f'',
     rq_fields = (\<lambda>f. if f = ''Cookie'' then ''id='' @ to_hex ref_lib cookie1 else []), rq_body = Req_empty\<rparr>"

theorem request_authentic_witness:
  "\<exists>s body ec. on_request_header demo_henv demo_header (new_handler auth_db Map.empty) = Some (s, body, ec) \<and>
     (s_auth s = no_user \<or> m_user (s_auth s) = ''alice'')"
proof -
  have cookie: "parse_cookie ref_lib (Cookie (rq_fields demo_header ''Cookie'')) = Some cookie1" by code_simp
  have typed: "is_str (ref_view auth_db (key_session c))" "is_hash (ref_view auth_db (key_shared_auth u k))" for c u k
    by (simp_all add: auth_db_def empty_db_def ref_view_def key_simps)
  have env: "h_exec demo_henv = ref_exec" "h_lib demo_henv = ref_lib" "0 < h_session_length demo_henv" "0 \<le> h_now demo_henv"
    by (simp_all add: demo_henv_def)
  obtain s body ec where run: "on_request_header demo_henv demo_header (new_handler auth_db Map.empty) = Some (s, body, ec)"
    using cookie by (fastforce simp: on_request_header_def new_handler_def Let_def env split_beta)
  have "s_auth s = no_user \<or> m_user (s_auth s) = ''alice''"
    using request_authentic [of demo_henv ref_view ref_ttl auth_db demo_header Map.empty s body ec] ref.redis_server_axioms
      typed cookie run
    by (auto simp: env auth_db_view(1))
  with run show ?thesis by blast
qed

text \<open>The assertion of \<^verbatim>\<open>UserID::valid\<close> holds for every user of a handler: after the header, when the
  database has no session and no guest with the empty identifier, and after the body.\<close>

lemma header_user_checked:
  assumes "redis_server (h_exec E) view ttl" and "0 \<le> h_now E" and "h_random E \<noteq> null_session"
    and "\<And>cookie. is_str (view db (key_session cookie))" and "\<And>u c. is_hash (view db (key_shared_auth u c))"
    and "view db (key_session null_session) = Missing" and "\<And>u c. hash_of (view db (key_shared_auth u c)) null_session = None"
    and "on_request_header E header (new_handler db fs) = Some (s, body, ec)"
  shows "valid_checked (s_auth s) = Some (valid (s_auth s))"
proof -
  have "valid_checked (s_auth s) \<noteq> None"
  proof (cases "parse_cookie (h_lib E) (Cookie (rq_fields header ''Cookie''))")
    case (Some cookie)
    obtain db' ec' uid where v: "verify_session (h_exec E) (h_random E) cookie (h_session_length E) db = (db', ec', uid)"
      by (metis prod_cases3)
    have "s_auth s = no_user \<or> s_auth s = uid"
      using assms(8) Some v by (auto simp: on_request_header_def new_handler_def Let_def split: if_splits)
    moreover have "valid_checked uid \<noteq> None"
      using redis_server.verify_session_authentic [OF assms(1,4) v] assms(3,6) by (auto simp: valid_checked_def no_user_def)
    ultimately show ?thesis by auto
  next
    case None
    let ?i = "URLIntent_of (rq_target header)"
    show ?thesis
    proof (cases "s_auth s = no_user")
      case False
      then obtain key db' where
        key: "is_shared_resource (h_exec E) (h_now E sdiv 10 ^ 9) (UserID_of key (i_user ?i) True) (i_coll ?i) db = Some (db', True, No_error)"
        "s_auth s = UserID_of key (i_user ?i) True"
        using assms(8) None by (auto simp: on_request_header_def new_handler_def Let_def split: if_splits option.splits)
      have "0 \<le> h_now E sdiv 10 ^ 9" using assms(2) by (simp add: signed_divide_int_def sgn_if pos_imp_zdiv_nonneg_iff)
      then have "m_session (UserID_of key (i_user ?i) True) \<noteq> null_session"
        using redis_server.guest_facts(2) [OF assms(1,5), of "UserID_of key (i_user ?i) True" "i_coll ?i" "h_now E sdiv 10 ^ 9"]
          assms(7) key(1) by fastforce
      then show ?thesis unfolding key(2) by (intro checked_UserID_of) (auto simp: UserID_of_def)
    qed simp
  qed
  then show ?thesis by (rule valid_checked_returns)
qed

lemma validate_user: "validate_entries E es coll s = Some (s', coll') \<Longrightarrow> s_auth s' = s_auth s"
  by (induction es arbitrary: coll s) (auto simp: Let_def split: if_splits prod.splits sum.splits)

lemma handler_user:
  "unlink E q s = Some (s', r) \<Longrightarrow> s_auth s' = s_auth s" "post_blob E q s = Some (s', r) \<Longrightarrow> s_auth s' = s_auth s"
  "post_view E q s = Some (s', r) \<Longrightarrow> s_auth s' = s_auth s" "on_upload E ru u s = Some (s', u', r) \<Longrightarrow> s_auth s' = s_auth s"
  "handle_get_blob E q blob s = Some (s', r) \<Longrightarrow> s_auth s' = s_auth s" "handle_query_blob E q s = Some (s', r) \<Longrightarrow> s_auth s' = s_auth s"
  "handle_list_public E j user s = Some (s', r) \<Longrightarrow> s_auth s' = s_auth s" "send_collection_list E user page s = Some (s', r) \<Longrightarrow> s_auth s' = s_auth s"
  by (auto simp: unlink_def post_blob_def post_view_def on_upload_def handle_get_blob_def get_blob_reply_def handle_query_blob_def
      query_blob_reply_def handle_list_public_def send_collection_list_def Let_def split: if_splits option.splits list.splits prod.splits sum.splits)

lemma dispatch_user:
  "on_request_api E req intent s = Some (s', r) \<Longrightarrow> s_auth s' = s_auth s" "on_request_view E req intent s = Some (s', r) \<Longrightarrow> s_auth s' = s_auth s"
  "on_query E q s = Some (s', r) \<Longrightarrow> s_auth s' = s_auth s"
  by (auto simp: on_request_api_def on_request_view_def on_query_def scan_collection_def query_blob_set_def validate_collection_def Let_def
      dest!: handler_user validate_user split: verb.splits if_splits option.splits prod.splits sum.splits QueryTarget.splits list.splits)

lemma body_user_checked:
  assumes "h_random E \<noteq> null_session" and "valid_checked (s_auth s) \<noteq> None" and "on_request_body E req s = Some (s', r)"
  shows "valid_checked (s_auth s') = Some (valid (s_auth s'))"
proof -
  have login: "s_auth s1 = s_auth s \<or> (\<exists>name. s_auth s1 = UserID_of (h_random E) name False)" if "on_login E req b s = Some (s1, r1)" for b s1 r1
    using that by (auto simp: on_login_def verify_user_def create_session_def Let_def split: if_splits list.splits option.splits prod.splits)
  have "s_auth s' = s_auth s \<or> s_auth s' = no_user \<or> (\<exists>name. s_auth s' = UserID_of (h_random E) name False)"
    using assms(3)
    by (cases "rq_body req")
      (auto simp: on_request_body_def on_empty_request_def on_logout_def Let_def dest!: login handler_user dispatch_user
        split: if_splits Action.splits prod.splits option.splits)
  then have "valid_checked (s_auth s') \<noteq> None" using assms(1,2) checked_UserID_of by auto
  then show ?thesis by (rule valid_checked_returns)
qed

text \<open>C15: An upload that is answered with 201 put the file into the collection of the URL, which is the
  user's own, under the digest of its bytes and the file name of the URL ("hello" when the URL has none).
  The blob is private unless the user already had a blob with these bytes, in whatever collection: then
  its one inode is kept, and with it the permission, in the new collection too. The bytes are stored as
  the master rendition, and no temporary file is left.\<close>

theorem upload_adds_private_blob:
  assumes "handler_env exec view ttl L E" and "typed (view (s_db s))" "typed_outside (view (s_db s))"
    and "i = URLIntent_of (rq_target req)" "i_action i = Upload" and "U = m_user (s_auth s)" "plain_user U"
    and "rq_body req = Req_upload u" "up_tmp_path u \<noteq> []" "s_files s (up_tmp_path u) = Some c" "up_hashed u = c"
    and "b = be_blake2 (h_blobs E) c" "\<And>n. up_tmp_path u \<noteq> join (dest L (h_blobs E) b) n"
    and "on_request_body E req s = Some (s', r)" "res_status r = St_created"
  shows "U = i_user i \<and>
    lb_entries (library (view (s_db s'))) U (i_coll i) b = Some (if i_filename i = [] then ''hello'' else i_filename i) \<and>
    (case lb_inodes (library (view (s_db s))) U b of
       None \<Rightarrow> \<exists>raw. lb_inodes (library (view (s_db s'))) U b = Some raw \<and> inodedb_permission raw = private_perm
     | Some raw \<Rightarrow> lb_inodes (library (view (s_db s'))) U b = Some raw) \<and>
    s_files s' (join (dest L (h_blobs E) b) ''master'') = Some c \<and> s_files s' (up_tmp_path u) = None"
proof -
  obtain s1 u1 where up: "on_upload E req u s = Some (s1, u1, r)" "s' = s1\<lparr>s_files := upload_destroy u1 (s_files s1)\<rparr>"
    using assms(4,5,8,14) by (auto simp: on_request_body_def)
  have stored: "upload_destroy u1 (s_files s1) = s_files s1" "s_files s1 (join (dest L (h_blobs E) b) ''master'') = Some c"
    "s_files s1 (up_tmp_path u) = None"
    using handler_env.upload_stored [OF assms(1) up(1) assms(15,10,9), of b] assms(11-13) by auto
  obtain raw where "inodedb_permission raw = private_perm" "U = i_user i"
    "lb_entries (library (view (s_db s1))) U (i_coll i) b = Some (if i_filename i = [] then ''hello'' else i_filename i)"
    "lb_inodes (library (view (s_db s1))) U b = Some (case lb_inodes (library (view (s_db s))) U b of None \<Rightarrow> raw | Some old \<Rightarrow> old)"
    using handler_env.upload_linked [OF assms(1) up(1) assms(15,2,3,12,10,9,11) assms(7) [unfolded assms(6)] assms(4,6)] by blast
  then show ?thesis using stored by (auto simp: up(2) split: option.splits)
qed

definition demo_file :: UploadFile where
  "demo_file = \<lparr>up_open = True, up_tmp_path = ''/blobs/blob-1'', up_hashed = ''abcd''\<rparr>"

definition demo_upload :: "UploadFile request" where
  "demo_upload = \<lparr>rq_method = V_put, rq_target = ''/upload/sumsum/zoo/dog.jpg'', rq_fields = (\<lambda>_. []), rq_body = Req_upload demo_file\<rparr>"

definition demo_upload_srv :: "refdb srv" where
  "demo_upload_srv = \<lparr>s_db = demo_db, s_files = [''/blobs/blob-1'' \<mapsto> ''abcd''],
     s_auth = UserID_of cookie1 ''sumsum'' False, s_request_session = None\<rparr>"

lemma demo_upload_intent:
  "i_action (URLIntent_of ''/upload/sumsum/zoo/dog.jpg'') = Upload" "i_user (URLIntent_of ''/upload/sumsum/zoo/dog.jpg'') = ''sumsum''"
  "i_coll (URLIntent_of ''/upload/sumsum/zoo/dog.jpg'') = ''zoo''"
  "i_filename (URLIntent_of ''/upload/sumsum/zoo/dog.jpg'') = ''dog.jpg''"
  by code_simp+

lemma demo_upload_runs:
  "\<exists>s' r. on_request_body demo_henv demo_upload demo_upload_srv = Some (s', r) \<and> res_status r = St_created"
proof -
  obtain fs u b where sv: "save ref_lib demo_blob_env demo_file [''/blobs/blob-1'' \<mapsto> ''abcd''] = (fs, u, b, True)" "im_phash (meta_of b) = None"
    by (simp add: save_def BlobFile_upload_def mmap_open_def upload_move_def demo_blob_env_def demo_file_def deduce_meta_def blob_master_def
        ImageMeta_of_def meta_of_def Let_def)
  let ?e = "\<lparr>bi_perm = private_perm, bi_filename = ''dog.jpg'', bi_mime = im_mime (meta_of b), bi_timestamp = original_datetime b\<rparr>"
  obtain raw where raw: "inodedb_create_fields ref_lib ?e = ok raw"
    by (simp add: inodedb_create_fields_def inodedb_create_def ref_lib_def Let_def)
  have "wf_oid (bf_id b)"
    using save_effect(1) [OF sv(1), of "''abcd''"] demo.env_digest
    by (simp add: demo_file_def upload_ID_def demo_henv_def)
  then obtain db where "link_blob ref_exec ref_lib ''sumsum'' ''zoo'' (bf_id b) ?e demo_db = ok (db, No_error)"
    using own.link_blob_library [OF demo_typed demo_wf(2) _ raw] by metis
  then show ?thesis using sv
    by (simp add: on_request_body_def on_upload_def demo_upload_def demo_upload_srv_def demo_upload_intent UserID_of_def
        demo_henv_def Let_def) (simp add: demo_file_def)
qed

theorem upload_adds_private_blob_witness:
  "\<exists>s' r. on_request_body demo_henv demo_upload demo_upload_srv = Some (s', r) \<and>
     lb_entries (library (ref_view (s_db s'))) ''sumsum'' ''zoo'' (take 20 (''abcd'' @ zero_oid)) = Some ''dog.jpg'' \<and>
     s_files s' ''/blobs/blob-1'' = None"
proof -
  obtain s' r where run: "on_request_body demo_henv demo_upload demo_upload_srv = Some (s', r)" "res_status r = St_created"
    using demo_upload_runs by blast
  let ?b = "take 20 (''abcd'' @ zero_oid)"
  have path: "''/blobs/blob-1'' \<noteq> join (dest ref_lib demo_blob_env ?b) n" for n
    using plain_name_ne [of "''blob-1''"] by (simp add: dest_def Let_def demo_blob_env_def join_def)
  have srv: "s_db demo_upload_srv = demo_db" "m_user (s_auth demo_upload_srv) = ''sumsum''"
    "s_files demo_upload_srv ''/blobs/blob-1'' = Some ''abcd''" "h_blobs demo_henv = demo_blob_env"
    "be_blake2 demo_blob_env ''abcd'' = ?b" "up_tmp_path demo_file = ''/blobs/blob-1''" "up_hashed demo_file = ''abcd''"
    "rq_target demo_upload = ''/upload/sumsum/zoo/dog.jpg''" "rq_body demo_upload = Req_upload demo_file"
    by (simp_all add: demo_upload_srv_def UserID_of_def demo_file_def demo_henv_def demo_blob_env_def demo_upload_def)
  note upload_adds_private_blob [of ref_exec ref_view ref_ttl ref_lib demo_henv demo_upload_srv "URLIntent_of (rq_target demo_upload)"
      demo_upload "''sumsum''" demo_file "''abcd''" ?b s' r, unfolded srv demo_upload_intent, OF demo.handler_env_axioms
      demo_typed demo_outside refl refl refl demo_wf(2) refl _ refl refl refl path run]
  with run show ?thesis by auto
qed

end
