(* ===== verification/HTTP_Session.thy ===== *)
theory HTTP_Session
  imports Handler_Properties
begin

text \<open>
  \<^verbatim>\<open>src/server/net/Session.cc\<close>: one TLS connection, on which requests are read and answered one after
  the other. At every moment the session waits for the completion of one asynchronous operation;
  an event is such a completion. Between two events other connections may change the database and
  the files. Parsing and printing of HTTP messages belong to Boost.Beast: an event carries the parsed
  header or the buffers of the body, and \<^verbatim>\<open>need_eof\<close> is a parameter.
\<close>

section \<open>State\<close>

text \<open>The result of a read: the message, the end of the stream, or an error with its message.\<close>

datatype 'a read_result = Read_ok 'a | Read_eof | Read_error string

text \<open>The alternatives of \<^verbatim>\<open>m_body\<close>.\<close>

datatype body_parser = Empty_parser | String_parser | Upload_parser UploadFile

datatype pending = P_handshake | P_header | P_body | P_write bool | P_shutdown | P_none

record 'db sess =
  ss_pending :: pending
  ss_keep_alive :: bool
  ss_has_handler :: bool
  ss_srv :: "'db srv"
  ss_header :: "UploadFile request"
  ss_body :: body_parser
  ss_transactions :: nat
  ss_sent :: "(response \<times> bool) list"

text \<open>What the connection does not change: the name of the server, \<^verbatim>\<open>need_eof\<close> of a response with
  its keep-alive flag, and the lifetime of the session cookie.\<close>

record net_env =
  n_version :: string
  n_need_eof :: "response \<Rightarrow> bool \<Rightarrow> bool"
  n_login_session :: int

definition no_request :: "UploadFile request" where
  "no_request = \<lparr>rq_method = V_get, rq_target = [], rq_fields = (\<lambda>_. []), rq_body = Req_empty\<rparr>"

definition new_session :: "'db \<Rightarrow> files \<Rightarrow> 'db sess" where
  "new_session db fs =
     \<lparr>ss_pending = P_handshake, ss_keep_alive = False, ss_has_handler = False, ss_srv = new_handler db fs,
      ss_header = no_request, ss_body = Empty_parser, ss_transactions = 0, ss_sent = []\<rparr>"

text \<open>Replacing or destroying \<^verbatim>\<open>m_body\<close> removes the temporary file of an upload.\<close>

definition drop_body :: "'db sess \<Rightarrow> 'db sess" where
  "drop_body ss = (case ss_body ss of
       Upload_parser u \<Rightarrow> ss\<lparr>ss_body := Empty_parser, ss_srv := (ss_srv ss)\<lparr>s_files := upload_destroy u (s_files (ss_srv ss))\<rparr>\<rparr>
     | _ \<Rightarrow> ss\<lparr>ss_body := Empty_parser\<rparr>)"

text \<open>No operation is under way any more, and the session object is destroyed.\<close>

definition end_session :: "'db sess \<Rightarrow> 'db sess" where
  "end_session ss = (drop_body ss)\<lparr>ss_pending := P_none\<rparr>"

section \<open>Operations\<close>

definition do_read_header :: "'db sess \<Rightarrow> 'db sess" where
  "do_read_header ss = ss\<lparr>ss_srv := new_handler (s_db (ss_srv ss)) (s_files (ss_srv ss)), ss_has_handler := True, ss_pending := P_header\<rparr>"

definition on_handshake :: "bool \<Rightarrow> 'db sess \<Rightarrow> 'db sess" where
  "on_handshake failed ss = do_read_header ss"

definition do_close :: "'db sess \<Rightarrow> 'db sess" where
  "do_close ss = ss\<lparr>ss_pending := P_shutdown\<rparr>"

definition send_response :: "net_env \<Rightarrow> response \<Rightarrow> 'db sess \<Rightarrow> 'db sess" where
  "send_response N res ss =
     (let sp = set_field ''Server'' (n_version N) res
      in ss\<lparr>ss_sent := ss_sent ss @ [(sp, ss_keep_alive ss)], ss_pending := P_write (n_need_eof N sp (ss_keep_alive ss))\<rparr>)"

definition handle_read_error :: "net_env \<Rightarrow> string option \<Rightarrow> 'db sess \<Rightarrow> 'db sess" where
  "handle_read_error N err ss = (case err of
       None \<Rightarrow> do_close ss
     | Some message \<Rightarrow> send_response N (bad_request message) ss)"

text \<open>\<^verbatim>\<open>validate_request\<close>: the response to an invalid request.\<close>

definition validate_request :: "'u request \<Rightarrow> response option" where
  "validate_request req =
     (if rq_method req \<notin> {V_get, V_post, V_put, V_delete, V_head} then Some (bad_request ''Unknown HTTP-method'')
      else if rq_target req = [] \<or> hd (rq_target req) \<noteq> CHR ''/'' \<or> find_sub (rq_target req) ''..'' \<noteq> None
        then Some (bad_request ''Illegal request-target'')
      else None)"

text \<open>\<^verbatim>\<open>init_request_body\<close>; \<^term>\<open>tmp\<close> is the name that \<^verbatim>\<open>mkstemp\<close> picks. The result tells whether there
  is no error.\<close>

definition init_request_body :: "'db henv \<Rightarrow> string \<Rightarrow> RequestBodyType \<Rightarrow> error_code \<Rightarrow> 'db sess \<Rightarrow> 'db sess \<times> bool" where
  "init_request_body E tmp body_type ec ss0 =
     (let ss = drop_body ss0 in
      case body_type of
        RB_empty \<Rightarrow> (ss, ec = No_error)
      | RB_string \<Rightarrow> (ss\<lparr>ss_body := String_parser\<rparr>, ec = No_error)
      | RB_upload \<Rightarrow>
          (case prepare_upload (h_blobs E) tmp (s_files (ss_srv ss)) of
             (fs, u, opened) \<Rightarrow>
               (ss\<lparr>ss_body := Upload_parser u, ss_srv := (ss_srv ss)\<lparr>s_files := fs\<rparr>\<rparr>, ec = No_error \<and> opened)))"

text \<open>The callback of \<^verbatim>\<open>on_request_header\<close>.\<close>

definition on_header_complete :: "net_env \<Rightarrow> 'db henv \<Rightarrow> string \<Rightarrow> RequestBodyType \<Rightarrow> error_code \<Rightarrow> 'db sess \<Rightarrow> 'db sess" where
  "on_header_complete N E tmp body_type ec ss =
     (case init_request_body E tmp body_type ec ss of
        (ss2, fine) \<Rightarrow>
          if fine then ss2\<lparr>ss_pending := P_body\<rparr>
          else send_response N (server_error ''internal server error'') ss2)"

definition on_read_header ::
  "net_env \<Rightarrow> 'db henv \<Rightarrow> string \<Rightarrow> (UploadFile request \<times> bool) read_result \<Rightarrow> 'db sess \<Rightarrow> 'db sess option" where
  "on_read_header N E tmp result ss = (case result of
       Read_eof \<Rightarrow> Some (handle_read_error N None ss)
     | Read_error message \<Rightarrow> Some (handle_read_error N (Some message) ss)
     | Read_ok (header, keep) \<Rightarrow>
         (let ss1 = ss\<lparr>ss_keep_alive := keep\<rparr> in
          case validate_request header of
            Some res \<Rightarrow> Some (send_response N res ss1)
          | None \<Rightarrow>
              map_option (\<lambda>(srv, body_type, ec). on_header_complete N E tmp body_type ec (ss1\<lparr>ss_srv := srv, ss_header := header\<rparr>))
                (on_request_header E header (ss_srv ss1))))"

text \<open>The parser has taken the buffers of the body; \<^verbatim>\<open>release\<close> moves the request out of it.\<close>

definition parser_put :: "string list \<Rightarrow> 'db sess \<Rightarrow> 'db sess" where
  "parser_put bufs ss = (case ss_body ss of
       Upload_parser u \<Rightarrow>
         (case upload_put bufs (u, s_files (ss_srv ss)) of
            (u1, fs) \<Rightarrow> ss\<lparr>ss_body := Upload_parser u1, ss_srv := (ss_srv ss)\<lparr>s_files := fs\<rparr>\<rparr>)
     | _ \<Rightarrow> ss)"

definition release :: "string list \<Rightarrow> 'db sess \<Rightarrow> UploadFile request" where
  "release bufs ss = (ss_header ss)\<lparr>rq_body := (case ss_body ss of
       Empty_parser \<Rightarrow> Req_empty
     | String_parser \<Rightarrow> Req_string (concat bufs)
     | Upload_parser u \<Rightarrow> Req_upload u)\<rparr>"

text \<open>The cookie is set before a response is sent when the session is not the one of the request.\<close>

definition add_session_cookie :: "net_env \<Rightarrow> extlib \<Rightarrow> 'db srv \<Rightarrow> response \<Rightarrow> response" where
  "add_session_cookie N L s res =
     (if renewed_auth s then set_field ''Set-Cookie'' (m_cookie (set_cookie L (n_login_session N) (s_auth s))) res else res)"

definition on_read_body :: "net_env \<Rightarrow> 'db henv \<Rightarrow> string list \<Rightarrow> unit read_result \<Rightarrow> 'db sess \<Rightarrow> 'db sess option" where
  "on_read_body N E bufs result ss0 =
     (let ss = parser_put bufs ss0 in
      case result of
        Read_eof \<Rightarrow> Some (handle_read_error N None ss)
      | Read_error message \<Rightarrow> Some (handle_read_error N (Some message) ss)
      | Read_ok _ \<Rightarrow>
          map_option (\<lambda>(srv, res).
            (send_response N (add_session_cookie N (h_lib E) srv res) (ss\<lparr>ss_srv := srv, ss_body := Empty_parser\<rparr>))
              \<lparr>ss_transactions := ss_transactions ss + 1\<rparr>)
            (on_request_body E (release bufs ss) (ss_srv ss)))"

definition on_write :: "bool \<Rightarrow> bool \<Rightarrow> 'db sess \<Rightarrow> 'db sess" where
  "on_write failed close ss =
     (if close then do_close ss else if \<not> failed then do_read_header ss else end_session ss)"

section \<open>The connection\<close>

datatype 'db event =
    Ev_handshake bool
  | Ev_header "'db henv" string "(UploadFile request \<times> bool) read_result"
  | Ev_body "'db henv" "string list" "unit read_result"
  | Ev_written bool
  | Ev_shutdown
  | Ev_others 'db files

text \<open>The completion of the operation that is under way; no other event happens.\<close>

fun handle_event :: "net_env \<Rightarrow> 'db event \<Rightarrow> 'db sess \<Rightarrow> 'db sess option" where
  "handle_event N (Ev_others db fs) ss = Some (ss\<lparr>ss_srv := (ss_srv ss)\<lparr>s_db := db, s_files := fs\<rparr>\<rparr>)"
| "handle_event N ev ss = (case (ss_pending ss, ev) of
       (P_handshake, Ev_handshake failed) \<Rightarrow> Some (on_handshake failed ss)
     | (P_header, Ev_header E tmp result) \<Rightarrow> on_read_header N E tmp result ss
     | (P_body, Ev_body E bufs result) \<Rightarrow> on_read_body N E bufs result ss
     | (P_write close, Ev_written failed) \<Rightarrow> Some (on_write failed close ss)
     | (P_shutdown, Ev_shutdown) \<Rightarrow> Some (end_session ss)
     | _ \<Rightarrow> None)"

inductive serves :: "net_env \<Rightarrow> 'db event list \<Rightarrow> 'db sess \<Rightarrow> bool" for N where
  start: "serves N [] (new_session db fs)"
| event: "serves N evs ss \<Longrightarrow> handle_event N ev ss = Some ss' \<Longrightarrow> serves N (evs @ [ev]) ss'"

section \<open>Invariants\<close>

lemma drop_body_simps [simp]:
  "ss_pending (drop_body ss) = ss_pending ss" "ss_sent (drop_body ss) = ss_sent ss" "ss_has_handler (drop_body ss) = ss_has_handler ss"
  "ss_transactions (drop_body ss) = ss_transactions ss" "ss_header (drop_body ss) = ss_header ss"
  "ss_keep_alive (drop_body ss) = ss_keep_alive ss" "s_auth (ss_srv (drop_body ss)) = s_auth (ss_srv ss)"
  "s_request_session (ss_srv (drop_body ss)) = s_request_session (ss_srv ss)"
  by (simp_all add: drop_body_def split: body_parser.splits)

lemma init_request_body_simps:
  assumes "init_request_body E tmp bt ec ss = (ss', fine)"
  shows "ss_pending ss' = ss_pending ss" "ss_sent ss' = ss_sent ss" "ss_has_handler ss' = ss_has_handler ss"
    "ss_transactions ss' = ss_transactions ss" "ss_header ss' = ss_header ss" "ss_keep_alive ss' = ss_keep_alive ss"
    "s_auth (ss_srv ss') = s_auth (ss_srv ss)" "fine \<Longrightarrow> ec = No_error"
  using assms by (auto simp: init_request_body_def Let_def split: RequestBodyType.splits prod.splits)

lemma parser_put_simps [simp]:
  "ss_pending (parser_put bufs ss) = ss_pending ss" "ss_sent (parser_put bufs ss) = ss_sent ss"
  "ss_has_handler (parser_put bufs ss) = ss_has_handler ss" "ss_transactions (parser_put bufs ss) = ss_transactions ss"
  "ss_header (parser_put bufs ss) = ss_header ss" "ss_keep_alive (parser_put bufs ss) = ss_keep_alive ss"
  "s_auth (ss_srv (parser_put bufs ss)) = s_auth (ss_srv ss)"
  by (simp_all add: parser_put_def split: body_parser.splits prod.splits)

lemma do_read_header_pending [simp]: "ss_pending (do_read_header ss) = P_header"
  by (simp add: do_read_header_def)

lemma send_response_simps [simp]:
  "ss_pending (send_response N r ss) = P_write (n_need_eof N (set_field ''Server'' (n_version N) r) (ss_keep_alive ss))"
  "ss_sent (send_response N r ss) = ss_sent ss @ [(set_field ''Server'' (n_version N) r, ss_keep_alive ss)]"
  "ss_has_handler (send_response N r ss) = ss_has_handler ss" "ss_transactions (send_response N r ss) = ss_transactions ss"
  "ss_srv (send_response N r ss) = ss_srv ss"
  by (simp_all add: send_response_def Let_def)

text \<open>What every operation does to the log of responses and to the operation that is under way.\<close>

datatype outcome = Idle | Answered | Awaiting

definition progress :: "net_env \<Rightarrow> outcome \<Rightarrow> 'db sess \<Rightarrow> 'db sess \<Rightarrow> bool" where
  "progress N o' ss ss' \<longleftrightarrow> ss_has_handler ss' = ss_has_handler ss \<and> (case o' of
       Idle \<Rightarrow> ss_sent ss' = ss_sent ss \<and> ss_transactions ss' = ss_transactions ss \<and> ss_pending ss' \<in> {P_shutdown, P_none}
     | Awaiting \<Rightarrow> ss_sent ss' = ss_sent ss \<and> ss_transactions ss' = ss_transactions ss \<and> ss_pending ss' = P_body
     | Answered \<Rightarrow> \<exists>r keep. ss_sent ss' = ss_sent ss @ [(r, keep)] \<and> ss_pending ss' = P_write (n_need_eof N r keep) \<and>
         ss_transactions ss' \<le> Suc (ss_transactions ss))"

lemma complete_progress:
  "progress N (if ss_pending (on_header_complete N E tmp bt ec ss) = P_body then Awaiting else Answered) ss (on_header_complete N E tmp bt ec ss)"
proof -
  obtain ss2 fine where "init_request_body E tmp bt ec ss = (ss2, fine)" by fastforce
  then show ?thesis by (auto simp: on_header_complete_def progress_def init_request_body_simps)
qed

lemma header_progress:
  assumes "on_read_header N E tmp result ss = Some ss'"
  shows "progress N (if result = Read_eof then Idle else if ss_pending ss' = P_body then Awaiting else Answered) ss ss'"
proof (cases "\<exists>header keep. result = Read_ok (header, keep) \<and> validate_request header = None")
  case True
  then obtain srv header keep bt ec where
    "result = Read_ok (header, keep)" "ss' = on_header_complete N E tmp bt ec (ss\<lparr>ss_keep_alive := keep, ss_srv := srv, ss_header := header\<rparr>)"
    using assms by (auto simp: on_read_header_def Let_def)
  then show ?thesis
    using complete_progress [of N E tmp bt ec "ss\<lparr>ss_keep_alive := keep, ss_srv := srv, ss_header := header\<rparr>"]
    by (simp add: progress_def split: if_splits)
next
  case False
  then show ?thesis using assms
    by (auto simp: on_read_header_def handle_read_error_def do_close_def progress_def Let_def split: read_result.splits option.splits)
qed

lemma body_progress:
  assumes "on_read_body N E bufs result ss = Some ss'"
  shows "progress N (if result = Read_eof then Idle else Answered) ss ss'"
  using assms
  by (auto simp: on_read_body_def handle_read_error_def do_close_def progress_def Let_def split: read_result.splits option.splits)

fun requests_in :: "'db event list \<Rightarrow> nat" where
  "requests_in [] = 0"
| "requests_in (Ev_header E tmp result # evs) = (if result = Read_eof then 0 else 1) + requests_in evs"
| "requests_in (_ # evs) = requests_in evs"

fun cut_bodies :: "'db event list \<Rightarrow> nat" where
  "cut_bodies [] = 0"
| "cut_bodies (Ev_body E bufs result # evs) = (if result = Read_eof then 1 else 0) + cut_bodies evs"
| "cut_bodies (_ # evs) = cut_bodies evs"

lemma requests_in_append [simp]: "requests_in (evs @ evs') = requests_in evs + requests_in evs'"
  by (induction evs rule: requests_in.induct) auto

lemma cut_bodies_append [simp]: "cut_bodies (evs @ evs') = cut_bodies evs + cut_bodies evs'"
  by (induction evs rule: cut_bodies.induct) auto

definition keeps_open :: "net_env \<Rightarrow> (response \<times> bool) list \<Rightarrow> bool" where
  "keeps_open N log \<longleftrightarrow> (\<forall>(r, keep) \<in> set log. \<not> n_need_eof N r keep)"

definition session_ok :: "net_env \<Rightarrow> 'db event list \<Rightarrow> 'db sess \<Rightarrow> bool" where
  "session_ok N evs ss \<longleftrightarrow>
     length (ss_sent ss) + cut_bodies evs + (if ss_pending ss = P_body then 1 else 0) = requests_in evs \<and>
     ss_transactions ss \<le> length (ss_sent ss) \<and> (ss_has_handler ss \<or> ss_pending ss = P_handshake) \<and>
     (case ss_pending ss of
        P_write close \<Rightarrow> (\<exists>log r keep. ss_sent ss = log @ [(r, keep)] \<and> keeps_open N log \<and> close = n_need_eof N r keep)
      | P_shutdown \<Rightarrow> keeps_open N (butlast (ss_sent ss)) | P_none \<Rightarrow> keeps_open N (butlast (ss_sent ss))
      | _ \<Rightarrow> keeps_open N (ss_sent ss))"

lemma keeps_open_butlast: "keeps_open N log \<Longrightarrow> keeps_open N (butlast log)"
  by (auto simp: keeps_open_def dest: in_set_butlastD)

lemma session_ok_step:
  assumes "session_ok N evs ss" and "handle_event N ev ss = Some ss'"
  shows "session_ok N (evs @ [ev]) ss'"
proof (cases ev)
  case (Ev_header E tmp result)
  then have "ss_pending ss = P_header" and run: "on_read_header N E tmp result ss = Some ss'"
    using assms(2) by (auto split: pending.splits)
  then show ?thesis using assms(1) header_progress [OF run] Ev_header keeps_open_butlast
    by (auto simp: session_ok_def progress_def split: if_splits)
next
  case (Ev_body E bufs result)
  then have "ss_pending ss = P_body" and run: "on_read_body N E bufs result ss = Some ss'"
    using assms(2) by (auto split: pending.splits)
  then show ?thesis using assms(1) body_progress [OF run] Ev_body keeps_open_butlast
    by (auto simp: session_ok_def progress_def split: if_splits)
next
  case (Ev_written failed)
  then show ?thesis using assms
    by (auto simp: session_ok_def on_write_def do_close_def do_read_header_def end_session_def keeps_open_def split: pending.splits if_splits)
next
  case (Ev_handshake failed)
  then show ?thesis using assms
    by (auto simp: session_ok_def on_handshake_def do_read_header_def split: pending.splits)
next
  case Ev_shutdown
  then show ?thesis using assms by (auto simp: session_ok_def end_session_def split: pending.splits)
next
  case (Ev_others db fs)
  then show ?thesis using assms by (auto simp: session_ok_def split: pending.splits)
qed

lemma serves_ok: "serves N evs ss \<Longrightarrow> session_ok N evs ss"
proof (induction rule: serves.induct)
  case (start db fs)
  then show ?case by (simp add: session_ok_def new_session_def keeps_open_def)
qed (rule session_ok_step)

text \<open>A request that waits for its body passed the checks, and the identity of its handler comes from
  its own header.\<close>

definition identified :: "'db event list \<Rightarrow> 'db sess \<Rightarrow> bool" where
  "identified evs ss \<longleftrightarrow> (case ss_pending ss of
       P_header \<Rightarrow> s_auth (ss_srv ss) = no_user \<and> s_request_session (ss_srv ss) = None
     | P_body \<Rightarrow> validate_request (ss_header ss) = None \<and> (\<exists>E tmp keep db fs s bt.
         Ev_header E tmp (Read_ok (ss_header ss, keep)) \<in> set evs \<and>
         on_request_header E (ss_header ss) (new_handler db fs) = Some (s, bt, No_error) \<and> s_auth (ss_srv ss) = s_auth s)
     | _ \<Rightarrow> True)"

lemma complete_identity:
  assumes "ss_pending (on_header_complete N E tmp bt ec ss) = P_body"
  shows "ec = No_error" "ss_header (on_header_complete N E tmp bt ec ss) = ss_header ss"
    "s_auth (ss_srv (on_header_complete N E tmp bt ec ss)) = s_auth (ss_srv ss)"
proof -
  obtain ss2 fine where "init_request_body E tmp bt ec ss = (ss2, fine)" by fastforce
  then show "ec = No_error" "ss_header (on_header_complete N E tmp bt ec ss) = ss_header ss"
    "s_auth (ss_srv (on_header_complete N E tmp bt ec ss)) = s_auth (ss_srv ss)"
    using assms by (auto simp: on_header_complete_def init_request_body_simps split: if_splits)
qed

lemma identified_header:
  assumes "s_auth (ss_srv ss) = no_user" "s_request_session (ss_srv ss) = None"
    and run: "on_read_header N E tmp result ss = Some ss'" and "ss_pending ss' = P_body"
  shows "identified [Ev_header E tmp result] ss'"
proof -
  obtain header keep where h: "result = Read_ok (header, keep)" "validate_request header = None"
    using run assms(4)
    by (auto simp: on_read_header_def handle_read_error_def do_close_def Let_def split: read_result.splits option.splits)
  then obtain srv bt ec where srv: "on_request_header E header (ss_srv ss) = Some (srv, bt, ec)"
    and ss': "ss' = on_header_complete N E tmp bt ec (ss\<lparr>ss_keep_alive := keep, ss_srv := srv, ss_header := header\<rparr>)"
    using run by (auto simp: on_read_header_def Let_def)
  have "ss_srv ss = new_handler (s_db (ss_srv ss)) (s_files (ss_srv ss))"
    using assms(1,2) by (simp add: new_handler_def)
  moreover have "ec = No_error" "ss_header ss' = header" "s_auth (ss_srv ss') = s_auth srv"
    using complete_identity [OF assms(4) [unfolded ss']] by (simp_all add: ss')
  ultimately show ?thesis using h srv assms(4) by (simp add: identified_def) metis
qed

lemma identified_step:
  assumes "identified evs ss" and run: "handle_event N ev ss = Some ss'"
  shows "identified (evs @ [ev]) ss'"
proof (cases ev)
  case (Ev_header E tmp result)
  then have pend: "ss_pending ss = P_header" and head: "on_read_header N E tmp result ss = Some ss'"
    using run by (auto split: pending.splits)
  show ?thesis
  proof (cases "ss_pending ss' = P_body")
    case True
    then show ?thesis
      using identified_header [OF _ _ head] assms(1) pend Ev_header by (fastforce simp: identified_def)
  next
    case False
    then show ?thesis using header_progress [OF head]
      by (auto simp: identified_def progress_def split: if_splits)
  qed
next
  case (Ev_body E bufs result)
  then have "on_read_body N E bufs result ss = Some ss'" using run by (auto split: pending.splits)
  then show ?thesis using body_progress [of N E bufs result ss ss'] by (auto simp: identified_def progress_def split: if_splits)
next
  case (Ev_others db fs)
  then have "ss' = ss\<lparr>ss_srv := (ss_srv ss)\<lparr>s_db := db, s_files := fs\<rparr>\<rparr>" using run by simp
  then show ?thesis using assms(1) by (fastforce simp: identified_def split: pending.splits)
qed (use run in \<open>auto simp: identified_def on_handshake_def on_write_def do_close_def do_read_header_def end_session_def new_handler_def
      split: pending.splits if_splits\<close>)

lemma serves_identified: "serves N evs ss \<Longrightarrow> identified evs ss"
proof (induction rule: serves.induct)
  case (start db fs)
  then show ?case by (simp add: identified_def new_session_def)
qed (rule identified_step)

text \<open>Where the session has no next state.\<close>

lemma header_stuck:
  "on_read_header N E tmp result ss = None \<longleftrightarrow> (\<exists>header keep. result = Read_ok (header, keep) \<and>
     validate_request header = None \<and> on_request_header E header (ss_srv ss) = None)"
  by (auto simp: on_read_header_def Let_def split: read_result.splits option.splits)

lemma body_stuck:
  "on_read_body N E bufs result ss = None \<longleftrightarrow>
     result = Read_ok () \<and> on_request_body E (release bufs (parser_put bufs ss)) (ss_srv (parser_put bufs ss)) = None"
  by (auto simp: on_read_body_def Let_def split: read_result.splits)

section \<open>Properties\<close>

text \<open>C13: On a connection every request whose handler returns gets exactly one response, whatever the
  peer sends and whatever other connections do: the responses are as many as the headers that arrived,
  less the one whose body is still being read or was cut off by the end of the stream. After a response
  that needs the connection to close nothing more is sent. The session itself never fails on what it
  reads: an event of the operation under way is without a successor state exactly when the request
  passed the checks and \<^verbatim>\<open>on_request_header\<close> or \<^verbatim>\<open>on_request_body\<close> does not return, because an exception
  or an assertion ends the process.\<close>

theorem one_response_per_request:
  assumes "serves N evs ss"
  shows "length (ss_sent ss) + cut_bodies evs + (if ss_pending ss = P_body then 1 else 0) = requests_in evs \<and>
    (\<forall>(res, keep) \<in> set (butlast (ss_sent ss)). \<not> n_need_eof N res keep) \<and>
    (ss_pending ss \<in> {P_header, P_body} \<longrightarrow> (\<forall>(res, keep) \<in> set (ss_sent ss). \<not> n_need_eof N res keep)) \<and>
    (ss_pending ss = P_header \<longrightarrow> (\<forall>E tmp result. handle_event N (Ev_header E tmp result) ss = None \<longleftrightarrow>
       (\<exists>header keep. result = Read_ok (header, keep) \<and> validate_request header = None \<and>
          on_request_header E header (ss_srv ss) = None))) \<and>
    (ss_pending ss = P_body \<longrightarrow> (\<forall>E bufs result. handle_event N (Ev_body E bufs result) ss = None \<longleftrightarrow>
       result = Read_ok () \<and> on_request_body E (release bufs (parser_put bufs ss)) (ss_srv (parser_put bufs ss)) = None))"
proof -
  have ok: "session_ok N evs ss" using assms by (rule serves_ok)
  then have "keeps_open N (butlast (ss_sent ss))"
    by (auto simp: session_ok_def keeps_open_butlast split: pending.splits)
  then show ?thesis using ok by (auto simp: session_ok_def keeps_open_def header_stuck body_stuck split: pending.splits)
qed

text \<open>A request with a relative target on the reference server, and one that is served.\<close>

definition demo_net :: net_env where
  "demo_net = \<lparr>n_version = ''HeartyRabbit'', n_need_eof = (\<lambda>_ keep. \<not> keep), n_login_session = 3600\<rparr>"

definition demo_bad :: "UploadFile request" where
  "demo_bad = no_request\<lparr>rq_target := ''/../etc''\<rparr>"

definition demo_events :: "refdb event list" where
  "demo_events = [Ev_handshake False, Ev_header demo_henv [] (Read_ok (demo_bad, True)), Ev_written False,
     Ev_header demo_henv [] (Read_ok (demo_header, True))]"

lemma serves_run: "serves N evs ss \<Longrightarrow> handle_event N ev ss = Some ss' \<Longrightarrow> evs' = evs @ [ev] \<Longrightarrow> serves N evs' ss'"
  by (auto intro: serves.event)

theorem one_response_per_request_witness:
  "\<exists>ss. serves demo_net (take 3 demo_events) ss \<and> ss_pending ss = P_header \<and> length (ss_sent ss) = 1"
proof -
  have bad: "validate_request demo_bad = Some (bad_request ''Illegal request-target'')"
  proof -
    have "find_sub (rq_target demo_bad) ''..'' \<noteq> None" by code_simp
    then show ?thesis by (simp add: validate_request_def) (simp add: demo_bad_def no_request_def)
  qed
  let ?s1 = "do_read_header (new_session auth_db Map.empty)"
  let ?s2 = "send_response demo_net (bad_request ''Illegal request-target'') (?s1\<lparr>ss_keep_alive := True\<rparr>)"
  have "serves demo_net [Ev_handshake False] ?s1"
    by (rule serves_run [OF serves.start [of _ auth_db Map.empty]]) (simp_all add: new_session_def on_handshake_def)
  then have "serves demo_net (take 2 demo_events) ?s2"
    by (rule serves_run) (simp_all add: do_read_header_def on_read_header_def bad demo_events_def)
  then have run: "serves demo_net (take 3 demo_events) (do_read_header ?s2)"
    by (rule serves_run) (simp_all add: on_write_def demo_net_def demo_events_def numeral_3_eq_3)
  have "ss_pending (do_read_header ?s2) = P_header" by (simp add: do_read_header_def)
  moreover have "requests_in (take 3 demo_events) = 1" "cut_bodies (take 3 demo_events) = 0"
    by (simp_all add: demo_events_def numeral_3_eq_3)
  ultimately show ?thesis using one_response_per_request [OF run] run by fastforce
qed

text \<open>C14: A connection keeps no identity from one request to the next, and only requests with a known
  method and an absolute target without \<^verbatim>\<open>..\<close> reach the handler: when the body of a request is being
  read, the user is the one that the header of this very request gave to a new handler.\<close>

theorem connection_keeps_no_identity:
  assumes "serves N evs ss" and "ss_pending ss = P_body"
  shows "(let t = rq_target (ss_header ss) in
      rq_method (ss_header ss) \<in> {V_get, V_post, V_put, V_delete, V_head} \<and> t \<noteq> [] \<and> hd t = CHR ''/'' \<and> find_sub t ''..'' = None) \<and>
    (\<exists>E tmp keep db fs s bt. Ev_header E tmp (Read_ok (ss_header ss, keep)) \<in> set evs \<and>
       on_request_header E (ss_header ss) (new_handler db fs) = Some (s, bt, No_error) \<and> s_auth (ss_srv ss) = s_auth s)"
proof -
  have "identified evs ss" using assms(1) by (rule serves_identified)
  then show ?thesis using assms(2)
    by (auto simp: identified_def validate_request_def Let_def split: if_splits)
qed

theorem connection_keeps_no_identity_witness:
  "\<exists>ss. serves demo_net [Ev_handshake False, Ev_header demo_henv [] (Read_ok (demo_request V_get, True))] ss \<and>
     ss_header ss = demo_request V_get \<and> find_sub (rq_target (ss_header ss)) ''..'' = None"
proof -
  let ?s1 = "do_read_header (new_session auth_db Map.empty)"
  have cookie: "parse_cookie ref_lib (Cookie []) = None" by code_simp
  have auth: "hex_to_array ref_lib SessionID_size (hd (find_fields urlform (i_option (URLIntent_of demo_target)) [''auth''])) = None"
    by code_simp
  have fine: "validate_request (demo_request V_get) = None"
  proof -
    have "find_sub demo_target ''..'' = None" by code_simp
    then show ?thesis by (simp add: validate_request_def demo_request_def) (simp add: demo_target_def)
  qed
  let ?ss = "?s1\<lparr>ss_keep_alive := True, ss_srv := new_handler auth_db Map.empty, ss_header := demo_request V_get,
    ss_body := Empty_parser, ss_pending := P_body\<rparr>"
  have "on_request_header demo_henv (demo_request V_get) (new_handler auth_db Map.empty) = Some (new_handler auth_db Map.empty, RB_empty, No_error)"
    using cookie auth by (simp add: on_request_header_def demo_request_def demo_henv_def new_handler_def Let_def demo_intent)
  then have head: "on_read_header demo_net demo_henv [] (Read_ok (demo_request V_get, True)) ?s1 = Some ?ss"
    by (simp add: on_read_header_def fine do_read_header_def new_session_def new_handler_def on_header_complete_def init_request_body_def
        drop_body_def)
  have "serves demo_net [Ev_handshake False] ?s1"
    by (rule serves_run [OF serves.start [of _ auth_db Map.empty]]) (simp_all add: new_session_def on_handshake_def)
  then have "serves demo_net [Ev_handshake False, Ev_header demo_henv [] (Read_ok (demo_request V_get, True))] ?ss"
    by (rule serves_run) (simp_all only: handle_event.simps do_read_header_pending prod.case pending.case event.case head append.simps)
  then show ?thesis using connection_keeps_no_identity [of demo_net _ ?ss] by (auto simp: Let_def)
qed

text \<open>A login request with the right password, and what its session is good for.\<close>

lemma login_effect:
  assumes "redis_server (h_exec E) view ttl"
    and "i_action (URLIntent_of (rq_target req)) = Login" "rq_method req = V_post"
    and "rq_fields req ''Content-Type'' = ''application/x-www-form-urlencoded''"
    and "rq_body req = Req_string body" "find_fields urlform body [''username'', ''password''] = [name, password]"
    and "name \<noteq> []" "is_hash (view (s_db s) (key_user (to_lower name)))"
    and "password_matches (h_kdf E) password (hash_of (view (s_db s) (key_user (to_lower name))))"
  shows "\<exists>db'. on_request_body E req s = Some (s\<lparr>s_db := db', s_auth := UserID_of (h_random E) (to_lower name) False\<rparr>,
      set_field ''Cache-Control'' no_store (empty_response St_no_content)) \<and>
    (0 < narrow_int (h_session_length E) \<longrightarrow> ttl db' (key_session (h_random E)) = narrow_int (h_session_length E) \<and>
      view db' = (view (s_db s))(key_session (h_random E) := Str (''_'' @ to_lower name)))"
proof -
  let ?uid = "UserID_of (h_random E) (to_lower name) False"
  obtain db' where db': "verify_user (h_exec E) (h_kdf E) (h_random E) name password (h_session_length E) (s_db s) = Some (db', No_error, ?uid)"
    and kept: "0 < narrow_int (h_session_length E) \<longrightarrow> ttl db' (key_session (h_random E)) = narrow_int (h_session_length E) \<and>
      view db' = (view (s_db s))(key_session (h_random E) := Str (''_'' @ to_lower name))"
    using redis_server.verify_user_match [OF assms(1,8,7,9), of "h_random E" "h_session_length E"] by auto
  have "on_request_body E req s = Some (s\<lparr>s_db := db', s_auth := ?uid\<rparr>, set_field ''Cache-Control'' no_store (empty_response St_no_content))"
    using assms(2-6) db' by (simp add: on_request_body_def on_login_def form_type_def Let_def)
  then show ?thesis using kept by blast
qed

text \<open>A request with the cookie of a session, on any database.\<close>

lemma session_header:
  assumes "redis_server (h_exec E) view ttl" and "i_action (URLIntent_of (rq_target header)) \<noteq> Login"
    and "parse_cookie (h_lib E) (Cookie (rq_fields header ''Cookie'')) = Some sid" and "user \<noteq> []"
    and "is_str (view db (key_session sid))"
  shows "\<exists>s bt. on_request_header E header (new_handler db fs) = Some (s, bt, No_error) \<and>
    ((\<exists>t. view db (key_session sid) = Str (t # user)) \<and> 0 \<le> ttl db (key_session sid) \<longrightarrow>
      (\<exists>session \<in> {sid, h_random E}. s_auth s = UserID_of session user False \<and>
        (h_session_length E sdiv 2 \<le> ttl db (key_session sid) \<longrightarrow> session = sid))) \<and>
    (view db (key_session sid) = Missing \<longrightarrow> s_auth s = no_user)"
proof -
  obtain db' ec uid where run: "verify_session (h_exec E) (h_random E) sid (h_session_length E) db = (db', ec, uid)"
    by (metis prod_cases3)
  have auth: "ec = No_error" "view db (key_session sid) = Missing \<longrightarrow> uid = no_user"
    using redis_server.verify_session_authentic [OF assms(1,5) run] by simp_all
  have "\<exists>session \<in> {sid, h_random E}. uid = UserID_of session user False \<and>
      (h_session_length E sdiv 2 \<le> ttl db (key_session sid) \<longrightarrow> session = sid)"
    if "view db (key_session sid) = Str (t # user)" "0 \<le> ttl db (key_session sid)" for t
    using redis_server.stored_session_verifies [OF assms(1) that(1) assms(4) that(2), of "h_random E" "h_session_length E"] run by auto
  then show ?thesis using assms(2,3) run auth
    by (auto simp: on_request_header_def new_handler_def Let_def)
qed

text \<open>The response to a login carries the session.\<close>

lemma login_sent:
  assumes "hex_codec L" "name \<noteq> []" "length random = SessionID_size" "random \<noteq> null_session" "s_request_session s = None"
    and srv_def: "srv = s\<lparr>s_db := db', s_auth := UserID_of random (to_lower name) False\<rparr>"
  obtains cookie where "add_session_cookie N L srv r = set_field ''Set-Cookie'' cookie r" "parse_cookie L (Cookie cookie) = Some random"
proof -
  let ?uid = "UserID_of random (to_lower name) False"
  let ?cookie = "m_cookie (set_cookie L (n_login_session N) ?uid)"
  have uid: "valid ?uid" "m_session ?uid = random" "\<not> m_guest ?uid"
    using assms(2,4) by (simp_all add: valid_def UserID_of_def to_lower_def)
  then have "renewed_auth srv" using assms(5) by (simp add: renewed_auth_def srv_def)
  then have "add_session_cookie N L srv r = set_field ''Set-Cookie'' ?cookie r" by (simp add: add_session_cookie_def srv_def)
  moreover have "parse_cookie L (Cookie ?cookie) = Some random"
    using hex_codec.parse_set_cookie [OF assms(1), of ?uid "n_login_session N"] assms(3) uid
    by (simp add: Cookie_def parse_cookie_def cookie_field_def)
  ultimately show thesis by (rule that)
qed

lemma demo_password: "password_matches demo_kdf ''rabbit'' (hash_of (ref_view auth_db (key_user ''alice'')))"
proof -
  have "hash_of (ref_view auth_db (key_user ''alice'')) =
      map_of [(''salt'', ''s''), (''key'', ''rabbits''), (''iteration'', ''1''), (''hash_algorithm'', ''sha512'')]"
    by (simp add: auth_db_def ref_view_def)
  moreover have "to_int (Some (RString ''1'')) = Some 1" by code_simp
  ultimately show ?thesis by (simp add: password_matches_def demo_kdf_def)
qed

lemma demo_login_env:
  "h_exec demo_henv = ref_exec" "h_lib demo_henv = ref_lib" "h_kdf demo_henv = demo_kdf" "0 < narrow_int (h_session_length demo_henv)"
  "h_random demo_henv = cookie2" "length cookie2 = SessionID_size" "cookie2 \<noteq> null_session"
  by (simp_all add: demo_henv_def cookie2_def SessionID_size_def null_session_def narrow_int_def)

end
