(* ===== verification/Request_Scheduler.thy ===== *)
theory Request_Scheduler
  imports HRB_Prelude
begin

text \<open>
  \<^verbatim>\<open>src/client/http/RequestScheduler.cc\<close>, which bounds the number of requests of the client that are
  under way, with the life of a request in \<^verbatim>\<open>GenericHTTPRequest.hh\<close> and the counter of callbacks in
  \<^verbatim>\<open>src/common/util/AggregatedCallBack.hh\<close>. An operation of the scheduler also yields the requests
  whose \<^verbatim>\<open>run\<close> it called.
\<close>

section \<open>The scheduler\<close>

record 'r scheduler =
  m_limit :: nat
  m_outstanding :: "'r set"
  m_pending :: "'r list"

definition new_scheduler :: "nat \<Rightarrow> 'r scheduler" where
  "new_scheduler limit = \<lparr>m_limit = limit, m_outstanding = {}, m_pending = []\<rparr>"

function try_start :: "'r scheduler \<Rightarrow> 'r scheduler \<times> 'r list" where
  "try_start s =
     (if card (m_outstanding s) < m_limit s \<and> m_pending s \<noteq> [] then
        (let r = hd (m_pending s) in
         case try_start (s\<lparr>m_pending := tl (m_pending s), m_outstanding := insert r (m_outstanding s)\<rparr>) of
           (s', rs) \<Rightarrow> (s', r # rs))
      else (s, []))"
  by auto
termination by (relation "measure (\<lambda>s. length (m_pending s))") auto

declare try_start.simps [simp del]

definition sched_add :: "'r \<Rightarrow> 'r scheduler \<Rightarrow> 'r scheduler \<times> 'r list" where
  "sched_add r s = try_start (s\<lparr>m_pending := m_pending s @ [r]\<rparr>)"

definition sched_finish :: "'r \<Rightarrow> 'r scheduler \<Rightarrow> 'r scheduler \<times> 'r list" where
  "sched_finish r s = try_start (s\<lparr>m_outstanding := m_outstanding s - {r}\<rparr>)"

section \<open>The life of a request\<close>

text \<open>Each state but the last three waits for one asynchronous operation. After an error \<^verbatim>\<open>fail\<close>
  prints a message, and nothing else is called; after a response \<^verbatim>\<open>m_comp\<close> is called.\<close>

datatype stage = Created | Resolving | Connecting | Handshaking | Writing | Reading | Loaded | Failed

definition request_run :: "stage \<Rightarrow> stage" where
  "request_run st = Resolving"

definition on_resolve :: "bool \<Rightarrow> stage" where
  "on_resolve err = (if err then Failed else Connecting)"

definition on_connect :: "bool \<Rightarrow> stage" where
  "on_connect err = (if err then Failed else Handshaking)"

definition client_on_handshake :: "bool \<Rightarrow> stage" where
  "client_on_handshake err = (if err then Failed else Writing)"

definition client_on_write :: "bool \<Rightarrow> stage" where
  "client_on_write err = (if err then Failed else Reading)"

definition client_on_read :: "bool \<Rightarrow> stage" where
  "client_on_read err = (if err then Failed else Loaded)"

fun io_done :: "bool \<Rightarrow> stage \<Rightarrow> stage option" where
  "io_done err Resolving = Some (on_resolve err)"
| "io_done err Connecting = Some (on_connect err)"
| "io_done err Handshaking = Some (client_on_handshake err)"
| "io_done err Writing = Some (client_on_write err)"
| "io_done err Reading = Some (client_on_read err)"
| "io_done err _ = None"

section \<open>Runs\<close>

text \<open>The requests of a client: the scheduler, the state of each request, and the requests in the order
  in which they were added, started and loaded. The first thing every callback does is to call
  \<^verbatim>\<open>finish\<close>.\<close>

record 'r workload =
  w_sched :: "'r scheduler"
  w_stage :: "'r \<Rightarrow> stage"
  w_added :: "'r list"
  w_started :: "'r list"
  w_loaded :: "'r list"

definition start_all :: "'r scheduler \<times> 'r list \<Rightarrow> 'r workload \<Rightarrow> 'r workload" where
  "start_all = (\<lambda>(s, rs) w. w\<lparr>w_sched := s, w_started := w_started w @ rs,
     w_stage := (\<lambda>r. if r \<in> set rs then request_run (w_stage w r) else w_stage w r)\<rparr>)"

definition submit :: "'r \<Rightarrow> 'r workload \<Rightarrow> 'r workload" where
  "submit r w = start_all (sched_add r (w_sched w)) (w\<lparr>w_added := w_added w @ [r]\<rparr>)"

definition complete :: "'r \<Rightarrow> stage \<Rightarrow> 'r workload \<Rightarrow> 'r workload" where
  "complete r st w =
     (let w1 = w\<lparr>w_stage := (w_stage w)(r := st)\<rparr> in
      if st = Loaded then start_all (sched_finish r (w_sched w)) (w1\<lparr>w_loaded := w_loaded w @ [r]\<rparr>) else w1)"

inductive workload_step :: "'r workload \<Rightarrow> 'r workload \<Rightarrow> bool" where
  add: "r \<notin> set (w_added w) \<Longrightarrow> workload_step w (submit r w)"
| io: "io_done err (w_stage w r) = Some st \<Longrightarrow> workload_step w (complete r st w)"

definition new_workload :: "nat \<Rightarrow> 'r workload" where
  "new_workload limit = \<lparr>w_sched = new_scheduler limit, w_stage = (\<lambda>_. Created), w_added = [], w_started = [], w_loaded = []\<rparr>"

section \<open>Invariant\<close>

lemma try_start_empty: "m_pending s = [] \<Longrightarrow> try_start s = (s, [])"
  by (simp add: try_start.simps [of s])

lemma try_start_full: "\<not> card (m_outstanding s) < m_limit s \<Longrightarrow> try_start s = (s, [])"
  by (simp add: try_start.simps [of s])

lemma try_start_step:
  "card (m_outstanding s) < m_limit s \<Longrightarrow> m_pending s = r # ps \<Longrightarrow>
   try_start s = map_prod id ((#) r) (try_start (s\<lparr>m_pending := ps, m_outstanding := insert r (m_outstanding s)\<rparr>))"
  by (simp add: try_start.simps [of s] split: prod.splits)

lemma try_start_effect:
  assumes "m_pending s = ps" "try_start s = (s', rs)" "finite (m_outstanding s)" "card (m_outstanding s) \<le> m_limit s"
    "distinct ps" "set ps \<inter> m_outstanding s = {}"
  shows "m_limit s' = m_limit s \<and> ps = rs @ m_pending s' \<and> m_outstanding s' = m_outstanding s \<union> set rs \<and>
    card (m_outstanding s') \<le> m_limit s \<and> (m_pending s' \<noteq> [] \<longrightarrow> card (m_outstanding s') = m_limit s)"
  using assms
proof (induction ps arbitrary: s rs)
  case Nil
  then show ?case using try_start_empty [of s] by simp
next
  case (Cons r ps)
  show ?case
  proof (cases "card (m_outstanding s) < m_limit s")
    case True
    let ?t = "s\<lparr>m_pending := ps, m_outstanding := insert r (m_outstanding s)\<rparr>"
    obtain rs' where rs': "try_start ?t = (s', rs')" "rs = r # rs'"
      using Cons.prems(2) try_start_step [OF True Cons.prems(1)] by (cases "try_start ?t") auto
    have new: "r \<notin> m_outstanding s" "set ps \<inter> insert r (m_outstanding s) = {}" using Cons.prems(5,6) by auto
    have "card (insert r (m_outstanding s)) \<le> m_limit s" using True new(1) Cons.prems(3) by simp
    then have "m_limit s' = m_limit s \<and> ps = rs' @ m_pending s' \<and> m_outstanding s' = insert r (m_outstanding s) \<union> set rs' \<and>
      card (m_outstanding s') \<le> m_limit s \<and> (m_pending s' \<noteq> [] \<longrightarrow> card (m_outstanding s') = m_limit s)"
      using Cons.IH [of ?t rs'] rs'(1) new(2) Cons.prems(3,5) by auto
    then show ?thesis by (auto simp: rs'(2))
  next
    case False
    then show ?thesis using Cons.prems try_start_full [OF False] by auto
  qed
qed

definition workload_ok :: "nat \<Rightarrow> 'r workload \<Rightarrow> bool" where
  "workload_ok limit w \<longleftrightarrow> m_limit (w_sched w) = limit \<and> w_added w = w_started w @ m_pending (w_sched w) \<and>
     distinct (w_added w) \<and> distinct (w_loaded w) \<and> set (w_loaded w) \<subseteq> set (w_started w) \<and>
     m_outstanding (w_sched w) = set (w_started w) - set (w_loaded w) \<and>
     card (m_outstanding (w_sched w)) \<le> limit \<and>
     (m_pending (w_sched w) \<noteq> [] \<longrightarrow> card (m_outstanding (w_sched w)) = limit) \<and>
     (\<forall>r. w_stage w r = Created \<longleftrightarrow> r \<notin> set (w_started w)) \<and> (\<forall>r. w_stage w r = Loaded \<longleftrightarrow> r \<in> set (w_loaded w))"

lemma start_ok:
  assumes s: "m_limit s = limit" "m_outstanding s = set (w_started w) - set (w_loaded w)" "card (m_outstanding s) \<le> limit"
    and w: "w_added w = w_started w @ m_pending s" "distinct (w_added w)" "distinct (w_loaded w)" "set (w_loaded w) \<subseteq> set (w_started w)"
    and stage: "\<And>r. w_stage w r = Created \<longleftrightarrow> r \<notin> set (w_started w)" "\<And>r. w_stage w r = Loaded \<longleftrightarrow> r \<in> set (w_loaded w)"
  shows "workload_ok limit (start_all (try_start s) w)"
proof -
  obtain s' rs where t: "try_start s = (s', rs)" by fastforce
  have fin: "finite (m_outstanding s)" and d: "distinct (m_pending s)" and disj: "set (m_pending s) \<inter> m_outstanding s = {}"
    using s(2) w(1,2) by auto
  have e: "m_limit s' = limit" "m_pending s = rs @ m_pending s'" "m_outstanding s' = m_outstanding s \<union> set rs"
    "card (m_outstanding s') \<le> limit" "m_pending s' \<noteq> [] \<longrightarrow> card (m_outstanding s') = limit"
    using try_start_effect [OF refl t fin s(3) [folded s(1)] d disj] unfolding s(1) by blast+
  have new: "set rs \<inter> set (w_started w) = {}" using w(1,2) e(2) by auto
  then have "m_outstanding s' = set (w_started w @ rs) - set (w_loaded w)" using e(3) s(2) w(4) by auto
  moreover have "set (w_loaded w) \<inter> set rs = {}" using new w(4) by auto
  ultimately show ?thesis using e(1,2,4,5) w stage
    by (auto simp: workload_ok_def t start_all_def request_run_def)
qed

lemma io_done_stage: "io_done err st0 = Some st \<Longrightarrow> st0 \<noteq> Created \<and> st0 \<noteq> Loaded \<and> st \<noteq> Created"
  by (cases st0) (auto simp: on_resolve_def on_connect_def client_on_handshake_def client_on_write_def client_on_read_def split: if_splits)

lemma workload_step_ok:
  assumes "workload_step w w'" and ok: "workload_ok limit w"
  shows "workload_ok limit w'"
  using assms(1)
proof cases
  case (add r)
  show ?thesis unfolding add(1) submit_def sched_add_def
    by (rule start_ok) (use ok add(2) in \<open>auto simp: workload_ok_def\<close>)
next
  case (io err r st)
  have r: "r \<in> set (w_started w)" "r \<notin> set (w_loaded w)" "st \<noteq> Created"
    using io_done_stage [OF io(2)] ok unfolding workload_ok_def by blast+
  show ?thesis
  proof (cases "st = Loaded")
    case True
    have "card (m_outstanding (w_sched w)) \<le> limit" using ok unfolding workload_ok_def by blast
    then have "card (m_outstanding (w_sched w) - {r}) \<le> limit" by (rule order_trans [OF card_Diff1_le])
    then have "workload_ok limit (start_all (try_start ((w_sched w)\<lparr>m_outstanding := m_outstanding (w_sched w) - {r}\<rparr>))
        (w\<lparr>w_stage := (w_stage w)(r := st), w_loaded := w_loaded w @ [r]\<rparr>))"
      by (intro start_ok) (use ok r True in \<open>auto simp: workload_ok_def\<close>)
    then show ?thesis by (simp add: io(1) complete_def sched_finish_def True)
  next
    case False
    then show ?thesis using ok r by (auto simp: io(1) complete_def workload_ok_def)
  qed
qed

lemma workload_reachable_ok: "workload_step\<^sup>*\<^sup>* (new_workload limit) w \<Longrightarrow> workload_ok limit w"
proof (induction rule: rtranclp_induct)
  case base
  then show ?case by (simp add: workload_ok_def new_workload_def new_scheduler_def)
qed (rule workload_step_ok)

section \<open>Counted callbacks\<close>

record aggregated =
  ag_expected :: nat
  ag_count :: nat

definition aggregated_new :: "nat \<Rightarrow> aggregated" where
  "aggregated_new n = \<lparr>ag_expected = n, ag_count = 0\<rparr>"

text \<open>The call operator; the result tells whether the callback was invoked.\<close>

definition aggregated_call :: "aggregated \<Rightarrow> aggregated \<times> bool" where
  "aggregated_call a = (let n = ag_count a + 1 in (a\<lparr>ag_count := n\<rparr>, n = ag_expected a))"

primrec aggregated_calls :: "nat \<Rightarrow> aggregated \<Rightarrow> aggregated \<times> bool list" where
  "aggregated_calls 0 a = (a, [])"
| "aggregated_calls (Suc n) a =
     (case aggregated_call a of (a1, b) \<Rightarrow> case aggregated_calls n a1 of (a2, bs) \<Rightarrow> (a2, b # bs))"

lemma aggregated_calls_nth:
  "length (snd (aggregated_calls n a)) = n \<and> (\<forall>i < n. snd (aggregated_calls n a) ! i \<longleftrightarrow> ag_count a + i + 1 = ag_expected a)"
proof (induction n arbitrary: a)
  case (Suc n)
  let ?a = "a\<lparr>ag_count := ag_count a + 1\<rparr>"
  have "snd (aggregated_calls (Suc n) a) = (ag_count a + 1 = ag_expected a) # snd (aggregated_calls n ?a)"
    by (simp add: aggregated_call_def Let_def split: prod.splits)
  then show ?case using Suc.IH [of ?a] by (auto simp: nth_Cons split: nat.splits)
qed simp

text \<open>The callback is invoked by exactly one call when the expected number of calls arrives, and never
  when that number is zero.\<close>

lemma aggregated_invoked_once:
  "filter id (snd (aggregated_calls n (aggregated_new k))) = (if 0 < k \<and> k \<le> n then [True] else [])"
proof -
  let ?bs = "snd (aggregated_calls n (aggregated_new k))"
  have nth: "length ?bs = n" "\<And>i. i < n \<Longrightarrow> ?bs ! i \<longleftrightarrow> i + 1 = k"
    using aggregated_calls_nth [of n "aggregated_new k"] by (auto simp: aggregated_new_def)
  then have "?bs = map (\<lambda>i. i + 1 = k) [0..<n]" by (intro nth_equalityI) auto
  moreover have "filter id (map (\<lambda>i. i + 1 = k) [0..<n]) = (if 0 < k \<and> k \<le> n then [True] else [])"
    by (induction n) auto
  ultimately show ?thesis by simp
qed

section \<open>Properties\<close>

text \<open>C18: The client never has more than the configured number of requests under way, starts them in the
  order in which they were added, each exactly once, and leaves none waiting while there is room: at
  every moment the requests that were added are those that were started, in this order, followed by
  those that wait.\<close>

theorem requests_bounded_in_order:
  assumes "workload_step\<^sup>*\<^sup>* (new_workload limit) w"
  shows "card (m_outstanding (w_sched w)) \<le> limit \<and> w_added w = w_started w @ m_pending (w_sched w) \<and> distinct (w_added w) \<and>
    m_outstanding (w_sched w) = set (w_started w) - set (w_loaded w) \<and>
    (m_pending (w_sched w) \<noteq> [] \<longrightarrow> card (m_outstanding (w_sched w)) = limit)"
  using workload_reachable_ok [OF assms] unfolding workload_ok_def by blast

theorem requests_bounded_in_order_witness:
  "\<exists>w. workload_step\<^sup>*\<^sup>* (new_workload 1) w \<and> m_pending (w_sched w) = [2 :: nat] \<and> w_started w = [1]"
proof -
  let ?w = "submit 2 (submit 1 (new_workload 1)) :: nat workload"
  have "workload_step (new_workload 1) (submit 1 (new_workload 1) :: nat workload)"
    by (rule workload_step.add) (simp add: new_workload_def)
  moreover have "workload_step (submit 1 (new_workload 1)) ?w"
    by (rule workload_step.add)
      (simp add: new_workload_def submit_def start_all_def sched_add_def split_beta)
  ultimately have run: "workload_step\<^sup>*\<^sup>* (new_workload 1) ?w" by (rule converse_rtranclp_into_rtranclp [OF _ r_into_rtranclp])
  have added: "w_added ?w = [1, 2]" by (simp add: new_workload_def submit_def start_all_def split_beta)
  have "w_started ?w = [1]"
    by (simp add: submit_def start_all_def sched_add_def new_workload_def new_scheduler_def try_start_step try_start_full try_start_empty)
  with requests_bounded_in_order [OF run] run added show ?thesis by auto
qed

text \<open>A request that failed keeps its place: when as many requests as the limit have failed, no request
  starts any more.\<close>

lemma failed_requests_stall:
  assumes ok: "workload_ok limit w" and full: "card (m_outstanding (w_sched w)) = limit"
    and failed: "\<And>r. r \<in> m_outstanding (w_sched w) \<Longrightarrow> w_stage w r = Failed" and step: "workload_step w w'"
  shows "w_started w' = w_started w \<and> m_outstanding (w_sched w') = m_outstanding (w_sched w) \<and>
    (\<forall>r \<in> m_outstanding (w_sched w'). w_stage w' r = Failed)"
  using step
proof cases
  case (add r)
  have "try_start ((w_sched w)\<lparr>m_pending := m_pending (w_sched w) @ [r]\<rparr>) = ((w_sched w)\<lparr>m_pending := m_pending (w_sched w) @ [r]\<rparr>, [])"
    using full ok by (intro try_start_full) (simp add: workload_ok_def)
  then show ?thesis using failed by (simp add: add(1) submit_def sched_add_def start_all_def)
next
  case (io err r st)
  have "r \<in> m_outstanding (w_sched w)" using io_done_stage [OF io(2)] ok unfolding workload_ok_def by blast
  then show ?thesis using failed io(2) by simp
qed

end
