(* ===== verification/Common_Properties.thy ===== *)
theory Common_Properties
  imports Collections URL_Intent
begin

text \<open>
  The properties of the common library: URLs, form fields, cookies, permissions, and the three
  formats of blobs and collections.
\<close>

text \<open>Percent-decoding undoes percent-encoding for every byte string, and the encoded text has no
  byte that would need escaping except the percent sign.\<close>

theorem url_encode_roundtrip:
  "url_decode (url_encode s) = s \<and> set (url_encode s) \<subseteq> insert CHR ''%'' {c. \<not> need_escape c}"
  using url_decode_encode set_url_encode by blast

text \<open>C26: The URL of an intent parses back to the intent, for the intents that its URL determines: the action,
  the user, the collection with its slashes, the file name or blob, the option and the validity. For a user of one segment
  and a collection without slashes at its ends these are the intents that the server and the clients build
  for a blob, for a collection and for an upload. The others that they build come back as follows: a query and
  the login of the desktop client differ in the validity only, which the constructors do not set as the parser
  does; and the page metadata, which give the title as the file name of a view, come back as the view of a
  collection whose last part is the title.\<close>

theorem intent_url_roundtrip:
  assumes "hex_codec L" "wf_oid blob" and "owner \<noteq> []" "segment owner" "no_end_slash coll" and "segment name"
  shows "(\<forall>i. canonical i \<longrightarrow> URLIntent_of (intent_str i) = i) \<and>
    (\<forall>a \<in> {View, Api}. URLIntent_of (intent_str (URLIntent_blob L a owner coll blob opt)) = URLIntent_blob L a owner coll blob opt \<and>
      URLIntent_of (intent_str (URLIntent_name a owner coll [] opt)) = URLIntent_name a owner coll [] opt) \<and>
    URLIntent_of (intent_str (URLIntent_name Upload owner coll name opt)) = URLIntent_name Upload owner coll name opt \<and>
    URLIntent_of (intent_str (URLIntent_query q opt)) = (URLIntent_query q opt)\<lparr>i_valid := opt \<noteq> []\<rparr> \<and>
    URLIntent_of (intent_str (URLIntent_name Login [] [] [] [])) = (URLIntent_name Login [] [] [] [])\<lparr>i_valid := True\<rparr> \<and>
    URLIntent_of (intent_str (URLIntent_name View owner coll ''Hearty Rabbit'' opt)) =
      URLIntent_name View owner (if coll = [] then ''Hearty Rabbit'' else coll @ ''/Hearty Rabbit'') [] opt"
proof -
  note built = built_intents [OF assms(3-5)]
  have title: "\<not> is_hex ''Hearty Rabbit''" by code_simp
  have parsed: "URLIntent_of (intent_str i) = i\<lparr>i_valid := b\<rparr>" if "canonical (i\<lparr>i_valid := b\<rparr>)" for i b
    using URLIntent_of_str [OF that] by simp
  show ?thesis
    using built(1) [OF assms(1,2), of View opt] built(1) [OF assms(1,2), of Api opt] built(2) [of View opt] built(2) [of Api opt]
      built(3) [OF assms(6), of opt] parsed [OF built(4), of q opt] parsed [OF built(5), of "[]"]
      name_becomes_collection [of View owner coll "''Hearty Rabbit''" opt] assms(3-5) title
    by (simp add: URLIntent_of_str segment_def del: canonical.simps)
qed

definition demo_intent :: URLIntent where
  "demo_intent = \<lparr>i_action = View, i_user = ''sum sum'', i_coll = ''pets/old cats'',
     i_filename = replicate 40 CHR ''a'', i_option = ''rendition=2048'', i_query_target = QNone, i_valid = True\<rparr>"

theorem intent_url_roundtrip_witness:
  "intent_str demo_intent = ''/view/sum%20sum/pets/old%20cats/'' @ replicate 40 CHR ''a'' @ ''?rendition=2048'' \<and>
   URLIntent_of (''/view/sum%20sum/pets/old%20cats/'' @ replicate 40 CHR ''a'' @ ''?rendition=2048'') = demo_intent \<and>
   URLIntent_of (intent_str (URLIntent_name View ''sum sum'' ''pets'' ''Hearty Rabbit'' [])) = URLIntent_name View ''sum sum'' ''pets/Hearty Rabbit'' [] []"
proof -
  have str: "intent_str demo_intent = ''/view/sum%20sum/pets/old%20cats/'' @ replicate 40 CHR ''a'' @ ''?rendition=2048''"
    by code_simp
  have demo: "canonical demo_intent" by code_simp
  have "wf_oid (replicate 20 CHR ''a'')" by (simp add: wf_oid_def Blake2_size_def)
  moreover have "''sum sum'' \<noteq> []" "segment ''sum sum''" "no_end_slash ''pets''" "segment []" by (simp_all add: segment_def no_end_slash_def)
  ultimately have "(\<forall>i. canonical i \<longrightarrow> URLIntent_of (intent_str i) = i) \<and>
      URLIntent_of (intent_str (URLIntent_name View ''sum sum'' ''pets'' ''Hearty Rabbit'' [])) = URLIntent_name View ''sum sum'' ''pets/Hearty Rabbit'' [] []"
    using intent_url_roundtrip [OF ref_hex.hex_codec_axioms, of "replicate 20 CHR ''a''" "''sum sum''" "''pets''" "[]" "[]"] by simp
  then show ?thesis using demo by (simp only: str [symmetric] simp_thms)
qed

text \<open>Whatever a client sends as the target of a view or api request, the parsed file name is empty
  or exactly a 40-digit blob identifier, so it never holds a path separator.\<close>

theorem parsed_blob_is_hex:
  assumes "i_action (URLIntent_of target) = View \<or> i_action (URLIntent_of target) = Api"
  shows "i_filename (URLIntent_of target) = [] \<or> is_hex (i_filename (URLIntent_of target))"
  using assms by (rule URLIntent_of_filename)

theorem parsed_blob_is_hex_witness:
  "is_hex (i_filename (URLIntent_of (''/view/u/'' @ replicate 40 CHR ''B'')))"
proof -
  have "i_action (URLIntent_of (''/view/u/'' @ replicate 40 CHR ''B'')) = View"
    "i_filename (URLIntent_of (''/view/u/'' @ replicate 40 CHR ''B'')) \<noteq> []" by code_simp+
  with parsed_blob_is_hex [of "''/view/u/'' @ replicate 40 CHR ''B''"] show ?thesis by simp
qed

text \<open>C28: The field parsers of query strings and forms, and of cookies, do what the grammar says. The text
  is cut at \<^verbatim>\<open>;\<close> and \<^verbatim>\<open>&\<close>, for cookies only at \<^verbatim>\<open>;\<close>; an item is a name, for cookies without the blanks around
  it, up to its first \<^verbatim>\<open>=\<close>, and a value after it. Of the requested fields, no two of which may have the same name,
  each gets the value of the last item of its name, and the default where there is none.\<close>

theorem find_last_value:
  fixes s :: string
  assumes "distinct fs" and "i < length fs"
  defines "form \<equiv> map_of (rev (map (\<lambda>item. (item_name item, item_value item)) (text_items '';&'' s)))"
    and "crumbs \<equiv> map_of (rev (map (\<lambda>item. (trim_both isspace (item_name item), item_value item)) (text_items '';'' s)))"
  shows "find_fields urlform s fs ! i = (case form (fs ! i) of None \<Rightarrow> [] | Some v \<Rightarrow> v) \<and>
    find_optional urlform s fs ! i = form (fs ! i) \<and>
    find_fields cookie_fields s fs ! i = (case crumbs (fs ! i) of None \<Rightarrow> [] | Some v \<Rightarrow> v) \<and>
    find_optional cookie_fields s fs ! i = crumbs (fs ! i) \<and>
    length (find_fields urlform s fs) = length fs \<and> length (find_fields cookie_fields s fs) = length fs"
  unfolding form_def crumbs_def last_value_items [symmetric]
  using assms(1,2) by (simp add: find_fields_nth find_optional_nth) (simp add: find_fields_def)

theorem find_last_value_witness:
  "find_fields urlform ''user=a&pass=b&user=c'' [''user'', ''pass''] ! 0 = ''c'' \<and>
   find_fields cookie_fields ''id=1; user=2'' [''user''] ! 0 = ''2''"
proof -
  have forms: "map_of (rev (map (\<lambda>item. (item_name item, item_value item)) (text_items '';&'' ''user=a&pass=b&user=c''))) ''user'' = Some ''c''"
    "map_of (rev (map (\<lambda>item. (trim_both isspace (item_name item), item_value item)) (text_items '';'' ''id=1; user=2''))) ''user'' = Some ''2''"
    by code_simp+
  have names: "distinct [''user'', ''pass'']" "0 < length [''user'', ''pass'']" "distinct [''user'']" "0 < length [''user'']" by simp_all
  note form = find_last_value [OF names(1,2), of "''user=a&pass=b&user=c''", unfolded nth_Cons_0 forms option.case]
    and crumbs = find_last_value [OF names(3,4), of "''id=1; user=2''", unfolded nth_Cons_0 forms option.case]
  show ?thesis by (intro conjI form [THEN conjunct1] crumbs [THEN conjunct2, THEN conjunct2, THEN conjunct1])
qed

text \<open>The session that a login puts into the Set-Cookie header is the session that the server reads
  from the cookie of the next request; a user that is not logged in leaves no session.\<close>

theorem session_cookie_roundtrip:
  assumes "hex_codec L" and "length (m_session u) = SessionID_size"
  shows "parse_cookie L (set_cookie L seconds u) = (if valid u then Some (m_session u) else None)"
  using assms by (rule hex_codec.parse_set_cookie)

theorem session_cookie_roundtrip_witness:
  "parse_cookie ref_lib (set_cookie ref_lib 3600 (UserID_of (replicate 16 CHR ''x'') ''sumsum'' False)) =
     Some (replicate 16 CHR ''x'')"
  using session_cookie_roundtrip [of ref_lib "UserID_of (replicate 16 CHR ''x'') ''sumsum'' False" 3600]
    ref_hex.hex_codec_axioms by (simp add: UserID_of_def SessionID_size_def valid_def null_session_def)

text \<open>Who a permission lets in: a public blob everybody, a shared blob users and guests, a private
  blob only its owner and never a guest; any other permission byte nobody. The textual names of the
  permissions are read back.\<close>

theorem permission_table:
  "allow public_perm requester owner \<and>
   (allow shared_perm requester owner \<longleftrightarrow> valid requester \<or> m_guest requester) \<and>
   (allow private_perm requester owner \<longleftrightarrow> \<not> m_guest requester \<and> m_user requester = owner) \<and>
   (description p = ''acl'' \<longleftrightarrow> p \<notin> {public_perm, shared_perm, private_perm}) \<and>
   from_description (description p) = (if description p = ''acl'' then private_perm else p)"
  by (cases p) (auto simp: allow_def description_def from_description_def permission_defs)

text \<open>An inode that is written to the database is read back with its permission, file name, MIME
  type and timestamp.\<close>

theorem inode_database_roundtrip:
  assumes "json_codec L" and "inodedb_create_fields L e = ok raw"
  shows "inodedb_fields L raw = ok (Some e) \<and> inodedb_permission raw = bi_perm e"
  using json_codec.inodedb_fields_create [OF assms] assms(2)
  by (auto simp: inodedb_create_fields_def inodedb_create_def Let_def inodedb_permission_def split: option.splits)

definition demo_inode :: BlobInode where
  "demo_inode = \<lparr>bi_perm = shared_perm, bi_filename = ''dog.png'', bi_mime = ''image/png'', bi_timestamp = 1234567890123\<rparr>"

theorem inode_database_roundtrip_witness:
  "\<exists>raw. inodedb_create_fields ref_lib demo_inode = ok raw \<and> inodedb_fields ref_lib raw = ok (Some demo_inode)"
proof -
  have "\<exists>raw. inodedb_create_fields ref_lib demo_inode = ok raw"
    by (simp add: inodedb_create_fields_def inodedb_create_def ref_lib_def Let_def)
  then obtain raw where "inodedb_create_fields ref_lib demo_inode = ok raw" ..
  with inode_database_roundtrip [OF ref_json.json_codec_axioms this] show ?thesis by blast
qed

text \<open>A collection that is sent as JSON arrives with the same name, owner, metadata and blobs; only a
  permission that has no name arrives as private.\<close>

theorem collection_json_roundtrip:
  assumes "hex_codec L" and "wf_coll c"
  shows "\<exists>c'. coll_from_json L (coll_to_json L c) = ok c' \<and> c_name c' = c_name c \<and> c_owner c' = c_owner c
    \<and> c_meta c' = c_meta c \<and> (\<forall>i. coll_find i c' = map_option norm_perm (coll_find i c))"
  using assms by (rule hex_codec.coll_json_roundtrip)

definition demo_coll :: Collection where
  "demo_coll = add_blob (replicate 20 CHR ''a'') demo_inode (Collection_cover ref_lib ''pets'' ''sumsum'' (replicate 20 CHR ''a''))"

lemma wf_demo_coll: "wf_coll demo_coll"
  unfolding demo_coll_def
  by (rule wf_coll_add) (simp_all add: wf_coll_def Collection_cover_def wf_oid_def Blake2_size_def)

lemma demo_coll_find: "coll_find i demo_coll = (if i = replicate 20 CHR ''a'' then Some demo_inode else None)"
  by (simp add: demo_coll_def Collection_cover_def coll_find_def add_blob_def)

lemma norm_perm_demo_inode: "norm_perm demo_inode = demo_inode"
  by (simp add: norm_perm_def demo_inode_def description_def from_description_def shared_perm_def)

theorem collection_json_roundtrip_witness:
  "\<exists>c'. coll_from_json ref_lib (coll_to_json ref_lib demo_coll) = ok c' \<and>
     coll_find (replicate 20 CHR ''a'') c' = Some demo_inode"
  using collection_json_roundtrip [OF ref_hex.hex_codec_axioms wf_demo_coll] by (auto simp: demo_coll_find norm_perm_demo_inode)

text \<open>Synchronising two collections uploads exactly the blobs that only the local one has and
  downloads exactly those that only the remote one has, with their metadata.\<close>

theorem comparison_differences:
  "coll_find i (cmp_upload (CollectionComparison_of L local remote)) =
     (if coll_find i remote = None then coll_find i local else None) \<and>
   coll_find i (cmp_download (CollectionComparison_of L local remote)) =
     (if coll_find i local = None then coll_find i remote else None) \<and>
   c_name (cmp_upload (CollectionComparison_of L local remote)) = c_name remote"
  by (simp add: comparison_find) (simp add: CollectionComparison_of_def Let_def Collection_cover_def pick_blobs_names)

text \<open>A list of collections that is sent as JSON arrives with the same collections in the same
  order, each with its owner, name and metadata.\<close>

theorem collection_list_json_roundtrip:
  assumes "\<forall>en \<in> set l. wf_entry en"
  shows "\<exists>j l'. list_to_json l = ok j \<and> list_from_json j = ok l' \<and> list_eq l l'"
  using list_json_roundtrip [OF assms] by blast

theorem collection_list_json_roundtrip_witness:
  "\<exists>j l'. list_to_json [Collection_meta ''pets'' ''sumsum'' (JObj [(''cover'', JStr ''00'')])] = ok j \<and>
     list_from_json j = ok l' \<and> list_eq [Collection_meta ''pets'' ''sumsum'' (JObj [(''cover'', JStr ''00'')])] l'"
  by (rule collection_list_json_roundtrip) (simp add: wf_entry_def Collection_meta_def)

end
