(* ===== verification/Client.thy ===== *)
theory Client
  imports HTTP_Session Request_Scheduler Common_Properties
begin

text \<open>
  \<^verbatim>\<open>src/client/http/HRBClient.ipp\<close>: the requests that the client of \<^verbatim>\<open>hrbsync\<close> sends and what it makes
  of the responses. A request is what \<^verbatim>\<open>GenericHTTPRequest\<close> writes; the body of a file upload is the
  contents of the file. A callback of \<^verbatim>\<open>on_load\<close> gets the response; the result is an error when an
  exception leaves it.
\<close>

section \<open>Requests\<close>

record client =
  c_host :: string
  c_port :: string
  c_agent :: string
  c_m_user :: UserID

definition HRBClient :: "string \<Rightarrow> string \<Rightarrow> string \<Rightarrow> client" where
  "HRBClient host port agent = \<lparr>c_host = host, c_port = port, c_agent = agent, c_m_user = no_user\<rparr>"

definition set_req_field :: "string \<Rightarrow> string \<Rightarrow> 'u request \<Rightarrow> 'u request" where
  "set_req_field k v r = r\<lparr>rq_fields := (rq_fields r)(k := v)\<rparr>"

definition init_request :: "client \<Rightarrow> string \<Rightarrow> verb \<Rightarrow> unit request" where
  "init_request c target method =
     set_req_field ''User-Agent'' (c_agent c) (set_req_field ''Host'' (c_host c)
       \<lparr>rq_method = method, rq_target = target, rq_fields = (\<lambda>_. []), rq_body = Req_empty\<rparr>)"

definition client_request :: "extlib \<Rightarrow> client \<Rightarrow> URLIntent \<Rightarrow> verb \<Rightarrow> unit request" where
  "client_request L c intent method =
     set_req_field ''Cookie'' (m_cookie (user_cookie L (c_m_user c))) (init_request c (intent_str intent) method)"

definition with_body :: "string \<Rightarrow> unit request \<Rightarrow> unit request" where
  "with_body b r = r\<lparr>rq_body := Req_string b\<rparr>"

definition login_request :: "client \<Rightarrow> string \<Rightarrow> string \<Rightarrow> unit request" where
  "login_request c user password =
     with_body (''username='' @ user @ ''&password='' @ password)
       (set_req_field ''Content-Type'' ''application/x-www-form-urlencoded'' (init_request c ''/login'' V_post))"

definition get_collection_request :: "extlib \<Rightarrow> client \<Rightarrow> string \<Rightarrow> unit request" where
  "get_collection_request L c coll = client_request L c (URLIntent_name Api (m_user (c_m_user c)) coll [] []) V_get"

definition scan_collections_request :: "extlib \<Rightarrow> client \<Rightarrow> unit request" where
  "scan_collections_request L c = client_request L c (URLIntent_query QCollection (''json&user='' @ m_user (c_m_user c))) V_get"

text \<open>The upload of a file, which must be readable, and of a range of bytes.\<close>

definition upload_bytes_request :: "extlib \<Rightarrow> client \<Rightarrow> string \<Rightarrow> string \<Rightarrow> string \<Rightarrow> unit request" where
  "upload_bytes_request L c coll filename bytes =
     with_body bytes (client_request L c (URLIntent_name Upload (m_user (c_m_user c)) coll filename []) V_put)"

definition path_filename :: "string \<Rightarrow> string" where
  "path_filename p = rev (takeWhile (\<lambda>x. x \<noteq> CHR ''/'') (rev p))"

definition upload_file_request :: "extlib \<Rightarrow> client \<Rightarrow> string \<Rightarrow> string \<Rightarrow> (string \<rightharpoonup> string) \<Rightarrow> unit request option" where
  "upload_file_request L c coll file fs = map_option (upload_bytes_request L c coll (path_filename file)) (fs file)"

definition get_blob_request :: "extlib \<Rightarrow> client \<Rightarrow> string \<Rightarrow> string \<Rightarrow> ObjectID \<Rightarrow> string \<Rightarrow> unit request" where
  "get_blob_request L c owner coll blob rendition =
     client_request L c (URLIntent_blob L Api owner coll blob (''rendition='' @ rendition)) V_get"

definition get_blob_meta_request :: "extlib \<Rightarrow> client \<Rightarrow> string \<Rightarrow> string \<Rightarrow> ObjectID \<Rightarrow> unit request" where
  "get_blob_meta_request L c owner coll blob = client_request L c (URLIntent_blob L Api owner coll blob ''&json'') V_get"

text \<open>\<^verbatim>\<open>operator/\<close> of paths: an absolute right operand replaces the left one.\<close>

definition path_append :: "string \<Rightarrow> string \<Rightarrow> string" where
  "path_append d f = (if f \<noteq> [] \<and> hd f = CHR ''/'' then f
     else if d = [] \<or> last d = CHR ''/'' then d @ f else d @ ''/'' @ f)"

text \<open>\<^verbatim>\<open>download_blob\<close>: no request is made when the file cannot be opened for writing; the callback then
  gets the error at once.\<close>

definition download_blob ::
  "extlib \<Rightarrow> client \<Rightarrow> string \<Rightarrow> string \<Rightarrow> ObjectID \<Rightarrow> string \<Rightarrow> (string \<Rightarrow> bool) \<Rightarrow> string \<Rightarrow> (unit request \<times> string) option" where
  "download_blob L c owner coll blob rendition can_write file =
     (if can_write file then Some (get_blob_request L c owner coll blob rendition, file) else None)"

text \<open>\<^verbatim>\<open>download_collection\<close>: the requests in the order of the blobs, each with the file it goes to, and
  the counter that calls the completion, after the callbacks without a request.\<close>

definition download_collection ::
  "extlib \<Rightarrow> client \<Rightarrow> Collection \<Rightarrow> string \<Rightarrow> (string \<Rightarrow> bool) \<Rightarrow> string \<Rightarrow> (unit request \<times> string) list \<times> aggregated" where
  "download_collection L c coll rendition can_write dest_dir =
     (let downloads = map (\<lambda>(i, entry). download_blob L c (c_owner coll) (c_name coll) i rendition can_write
            (path_append dest_dir (bi_filename entry))) (c_blobs coll)
      in (List.map_filter id downloads,
          fst (aggregated_calls (length (filter (\<lambda>d. d = None) downloads)) (aggregated_new (length (c_blobs coll))))))"

section \<open>Responses\<close>

text \<open>The text of a body.\<close>

definition response_text :: "response \<Rightarrow> string" where
  "response_text res = (case res_body res of
       Empty_body \<Rightarrow> [] | String_body s \<Rightarrow> s | Split_body segments extra \<Rightarrow> body_str (res_body res) | File_body s \<Rightarrow> s)"

text \<open>\<^verbatim>\<open>at\<close> throws when the field is missing.\<close>

definition login_response :: "extlib \<Rightarrow> string \<Rightarrow> response \<Rightarrow> error_code \<Rightarrow> client \<Rightarrow> (client \<times> error_code) option" where
  "login_response L username res ec c =
     (if res_status res = St_no_content then
        map_option (\<lambda>cookie. (c\<lparr>c_m_user := UserID_of_cookie L (Cookie cookie) username\<rparr>, ec)) (res_fields res ''Set-Cookie'')
      else Some (c, Hrb_error H_login_incorrect))"

definition get_collection_response :: "extlib \<Rightarrow> response \<Rightarrow> error_code \<Rightarrow> (Collection \<times> error_code) result" where
  "get_collection_response L res ec =
     (case (ec = No_error \<and> res_status res = St_ok, json_parse L (response_text res)) of
        (True, Some json) \<Rightarrow> bind_r (coll_from_json L json) (\<lambda>c. ok (c, ec))
      | _ \<Rightarrow> ok (empty_coll, if ec \<noteq> No_error then ec else Hrb_error H_unknown_error))"

definition scan_collections_response :: "extlib \<Rightarrow> response \<Rightarrow> error_code \<Rightarrow> (CollectionList \<times> error_code) result" where
  "scan_collections_response L res ec =
     (case json_parse L (response_text res) of
        None \<Rightarrow> Inl ParseError
      | Some json \<Rightarrow> bind_r (list_from_json json) (\<lambda>cs. ok (cs, ec)))"

definition get_blob_response :: "response \<Rightarrow> error_code \<Rightarrow> string \<times> error_code" where
  "get_blob_response res ec = (response_text res, ec)"

definition get_blob_meta_response :: "extlib \<Rightarrow> response \<Rightarrow> error_code \<Rightarrow> (json \<times> error_code) result" where
  "get_blob_meta_response L res ec =
     (case json_parse L (response_text res) of None \<Rightarrow> Inl ParseError | Some json \<Rightarrow> ok (json, ec))"

definition handle_upload_response :: "response \<Rightarrow> error_code \<Rightarrow> URLIntent \<times> error_code" where
  "handle_upload_response res ec =
     ((case res_fields res ''Location'' of Some l \<Rightarrow> URLIntent_of l | None \<Rightarrow> empty_intent),
      if res_status res \<noteq> St_created then Hrb_error H_unknown_error else ec)"

text \<open>\<^verbatim>\<open>parse_response\<close>, which nothing calls: \<^verbatim>\<open>at\<close> throws for a missing field, and \<^verbatim>\<open>regex_match\<close> asks that the
  whole of the disposition is \<^verbatim>\<open>filename=(.+)\<close>, where the dot is any character that ends no line.\<close>

definition match_filename :: "string \<Rightarrow> string option" where
  "match_filename disposition =
     (let name = drop 9 disposition
      in if take 9 disposition = ''filename='' \<and> name \<noteq> [] \<and> CHR 0x0A \<notin> set name \<and> CHR 0x0D \<notin> set name
         then Some name else None)"

definition parse_response :: "(string \<rightharpoonup> string) \<Rightarrow> BlobInode option" where
  "parse_response response =
     (case (response ''Location'', response ''Content-Disposition'') of
        (Some location, Some disposition) \<Rightarrow>
          Some \<lparr>bi_perm = private_perm,
                bi_filename = (case match_filename disposition of Some name \<Rightarrow> name | None \<Rightarrow> []),
                bi_mime = [], bi_timestamp = 0\<rparr>
      | _ \<Rightarrow> None)"

section \<open>hrbsync\<close>

text \<open>\<^verbatim>\<open>main\<close>: after the login, whether it succeeded or not, the collection is fetched; what it has and
  the local directory does not is downloaded.\<close>

definition download_difference ::
  "extlib \<Rightarrow> client \<Rightarrow> CollectionComparison \<Rightarrow> (string \<Rightarrow> bool) \<Rightarrow> string \<Rightarrow> (unit request \<times> string) list \<times> aggregated" where
  "download_difference L c cmp can_write current_path = download_collection L c (cmp_download cmp) ''master'' can_write current_path"

definition sync_on_login :: "extlib \<Rightarrow> string \<Rightarrow> client \<times> error_code \<Rightarrow> unit request" where
  "sync_on_login L coll = (\<lambda>(c, ec). get_collection_request L c coll)"

definition sync_on_collection ::
  "extlib \<Rightarrow> client \<Rightarrow> Collection \<Rightarrow> (string \<Rightarrow> bool) \<Rightarrow> string \<Rightarrow> Collection \<times> error_code \<Rightarrow> (unit request \<times> string) list" where
  "sync_on_collection L c local can_write current_path = (\<lambda>(coll, ec).
     if ec = No_error then fst (download_difference L c (CollectionComparison_of L local coll) can_write current_path) else [])"

section \<open>The server's side of a request\<close>

text \<open>What the parser of the server shows of a request before its body, and one request on a new
  connection.\<close>

definition received_header :: "unit request \<Rightarrow> UploadFile request" where
  "received_header r = \<lparr>rq_method = rq_method r, rq_target = rq_target r, rq_fields = rq_fields r, rq_body = Req_empty\<rparr>"

definition received_body :: "unit request \<Rightarrow> string list" where
  "received_body r = (case rq_body r of Req_string b \<Rightarrow> [b] | _ \<Rightarrow> [])"

definition serve_once :: "net_env \<Rightarrow> 'db henv \<Rightarrow> string \<Rightarrow> unit request \<Rightarrow> 'db \<Rightarrow> files \<Rightarrow> 'db sess option" where
  "serve_once N E tmp r db fs =
     (case on_read_header N E tmp (Read_ok (received_header r, True)) (on_handshake False (new_session db fs)) of
        None \<Rightarrow> None
      | Some ss \<Rightarrow> if ss_pending ss = P_body then on_read_body N E (received_body r) (Read_ok ()) ss else Some ss)"

section \<open>Facts\<close>

lemma login_form:
  assumes "set user \<inter> set '';&'' = {}" "set password \<inter> set '';&'' = {}"
  shows "find_fields urlform (''username='' @ user @ ''&password='' @ password) [''username'', ''password''] = [user, password]"
proof -
  let ?s = "''username='' @ user @ ''&password='' @ password"
  have split: "?s = (''username='' @ user) @ CHR ''&'' # (''password='' @ password)" by simp
  have single: "fields_of urlform (n @ CHR ''='' # v) = [(n, v)]"
    if "set n \<inter> set ''=;&'' = {}" "set v \<inter> set '';&'' = {}" for n v
    using uf.fields_of_single [of n v] that by (simp add: urlform_def)
  have "last_value urlform (''username='' @ user) f = (if f = ''username'' then Some user else None)"
    "last_value urlform (''password='' @ password) f = (if f = ''password'' then Some password else None)" for f
    using single [of "''username''" user] single [of "''password''" password] assms by (auto simp: last_value_def)
  then have "last_value urlform ?s ''username'' = Some user" "last_value urlform ?s ''password'' = Some password"
    unfolding split by (subst uf.last_value_append; simp add: urlform_def)+
  then have "find_fields urlform ?s [''username'', ''password''] ! i = [user, password] ! i" if "i < 2" for i
    using that by (cases i) (auto simp: find_fields_nth less_Suc_eq numeral_2_eq_2)
  moreover have "length (find_fields urlform ?s [''username'', ''password'']) = 2" by (simp add: find_fields_def)
  ultimately show ?thesis by (intro nth_equalityI) auto
qed

text \<open>The disposition that the server sends does not match: it starts with \<^verbatim>\<open>inline; \<close>.\<close>

lemma server_disposition_unmatched: "match_filename (''inline; filename='' @ url_encode filename) = None"
  by (simp add: match_filename_def Let_def)

lemma match_filename_plain:
  "name \<noteq> [] \<Longrightarrow> CHR 0x0A \<notin> set name \<Longrightarrow> CHR 0x0D \<notin> set name \<Longrightarrow> match_filename (''filename='' @ name) = Some name"
  by (simp add: match_filename_def)

lemma client_request_simps:
  "rq_target (client_request L c i m) = intent_str i" "rq_method (client_request L c i m) = m"
  "rq_fields (client_request L c i m) ''Cookie'' = m_cookie (user_cookie L (c_m_user c))" "rq_body (client_request L c i m) = Req_empty"
  by (simp_all add: client_request_def init_request_def set_req_field_def)

lemma login_request_simps:
  "rq_target (login_request c u p) = ''/login''" "rq_method (login_request c u p) = V_post"
  "rq_fields (login_request c u p) ''Content-Type'' = ''application/x-www-form-urlencoded''"
  "rq_body (login_request c u p) = Req_string (''username='' @ u @ ''&password='' @ p)"
  by (simp_all add: login_request_def init_request_def set_req_field_def with_body_def)

text \<open>The header of a login is accepted, and its body is read as a string.\<close>

lemma login_header_read:
  "on_read_header N E tmp (Read_ok (received_header (login_request c u p), True)) (on_handshake False (new_session db fs)) =
     Some \<lparr>ss_pending = P_body, ss_keep_alive = True, ss_has_handler = True, ss_srv = new_handler db fs,
       ss_header = received_header (login_request c u p), ss_body = String_parser, ss_transactions = 0, ss_sent = []\<rparr>"
proof -
  have login: "i_action (URLIntent_of ''/login'') = Login" by code_simp
  have "find_sub ''/login'' ''..'' = None" by code_simp
  then have "validate_request (received_header (login_request c u p)) = None"
    by (simp add: validate_request_def received_header_def login_request_simps)
  then show ?thesis using login
    by (simp add: on_read_header_def on_handshake_def do_read_header_def new_session_def new_handler_def on_request_header_def
        on_header_complete_def init_request_body_def drop_body_def received_header_def login_request_simps)
qed

lemma image_pairs: "f ` {h i e | i e. P i e} = {f (h i e) | i e. P i e}"
  by blast

section \<open>Properties\<close>

text \<open>C8: The client and the server agree on a login. When the name and the password have no \<^verbatim>\<open>;\<close> or
  \<^verbatim>\<open>&\<close>, the password is the stored one and the session length is positive as a 32-bit integer, the login
  of the client succeeds and the server stores the session for this length. Whatever happens to the
  database and the clock later, every request that the client then makes from an intent other than a
  login, on any connection, is authenticated as this user as long as the server still holds the session,
  be it marked as renewed or not, and the session is not exchanged before half of its length is over; once
  the server has dropped it (after a logout, after its length, or 30 seconds after its renewal, because the
  client keeps its first cookie), every such request is anonymous.\<close>

theorem client_login_authenticates:
  assumes "redis_server (h_exec E) view ttl" and "hex_codec (h_lib E)" and "0 < narrow_int (h_session_length E)"
    and "user \<noteq> []" "set user \<inter> set '';&'' = {}" "set password \<inter> set '';&'' = {}"
    and "is_hash (view db (key_user (to_lower user)))"
    and "password_matches (h_kdf E) password (hash_of (view db (key_user (to_lower user))))"
    and "length (h_random E) = SessionID_size" "h_random E \<noteq> null_session"
  shows "\<exists>ss res keep c'. serve_once N E tmp (login_request c user password) db fs = Some ss \<and> ss_sent ss = [(res, keep)] \<and>
    login_response (h_lib E) user res No_error c = Some (c', No_error) \<and>
    view (s_db (ss_srv ss)) = (view db)(key_session (h_random E) := Str (''_'' @ to_lower user)) \<and>
    ttl (s_db (ss_srv ss)) (key_session (h_random E)) = narrow_int (h_session_length E) \<and>
    (\<forall>E' i m db' fs'. h_exec E' = h_exec E \<longrightarrow> h_lib E' = h_lib E \<longrightarrow> i_action i \<noteq> Login \<longrightarrow>
       is_str (view db' (key_session (h_random E))) \<longrightarrow>
       (\<exists>s bt. on_request_header E' (received_header (client_request (h_lib E) c' i m)) (new_handler db' fs') = Some (s, bt, No_error) \<and>
          ((\<exists>t. view db' (key_session (h_random E)) = Str (t # to_lower user)) \<and> 0 \<le> ttl db' (key_session (h_random E)) \<longrightarrow>
            (\<exists>session \<in> {h_random E, h_random E'}. s_auth s = UserID_of session (to_lower user) False \<and>
              (h_session_length E' sdiv 2 \<le> ttl db' (key_session (h_random E)) \<longrightarrow> session = h_random E))) \<and>
          (view db' (key_session (h_random E)) = Missing \<longrightarrow> s_auth s = no_user)))"
proof -
  let ?L = "h_lib E" and ?uid = "UserID_of (h_random E) (to_lower user) False" and ?key = "key_session (h_random E)"
  let ?body = "''username='' @ user @ ''&password='' @ password"
  let ?req = "(received_header (login_request c user password))\<lparr>rq_body := Req_string ?body\<rparr>"
  let ?r = "set_field ''Cache-Control'' no_store (empty_response St_no_content)" and ?h = "new_handler db fs :: 'a srv"
  have login: "i_action (URLIntent_of ''/login'') = Login" by code_simp
  have name: "to_lower user \<noteq> []" using assms(4) by (simp add: to_lower_def)
  obtain db1 where run: "on_request_body E ?req ?h = Some (?h\<lparr>s_db := db1, s_auth := ?uid\<rparr>, ?r)"
    and stored: "view db1 = (view db)(?key := Str (''_'' @ to_lower user))" "ttl db1 ?key = narrow_int (h_session_length E)"
    using login_effect [OF assms(1), of ?req ?body user password ?h] assms(3,4,7,8) login login_form [OF assms(5,6)]
    by (auto simp: received_header_def login_request_simps new_handler_def)
  obtain cookie where cookie: "add_session_cookie N ?L (?h\<lparr>s_db := db1, s_auth := ?uid\<rparr>) ?r = set_field ''Set-Cookie'' cookie ?r"
    "parse_cookie ?L (Cookie cookie) = Some (h_random E)"
    using login_sent [OF assms(2,4,9,10) _ refl, of ?h] by (metis new_handler_def srv.select_convs(4))
  define c' where "c' = c\<lparr>c_m_user := UserID_of_cookie ?L (Cookie cookie) user\<rparr>"
  have user: "m_session (c_m_user c') = h_random E" "valid (c_m_user c')"
    using cookie(2) assms(4,10) by (simp_all add: c'_def UserID_of_cookie_def valid_def)
  have sent: "parse_cookie ?L (Cookie (m_cookie (user_cookie ?L (c_m_user c')))) = Some (h_random E)"
    using hex_codec.parse_user_cookie [OF assms(2), of "c_m_user c'"] user assms(9) by (simp add: Cookie_def parse_cookie_def cookie_field_def)
  obtain ss where ss: "serve_once N E tmp (login_request c user password) db fs = Some ss" "s_db (ss_srv ss) = db1"
    "ss_sent ss = [(set_field ''Server'' (n_version N) (set_field ''Set-Cookie'' cookie ?r), True)]"
    using run cookie(1)
    by (simp add: serve_once_def login_header_read on_read_body_def parser_put_def release_def received_body_def login_request_simps)
  have response: "login_response ?L user (set_field ''Server'' (n_version N) (set_field ''Set-Cookie'' cookie ?r)) No_error c = Some (c', No_error)"
    by (simp add: login_response_def c'_def)
  have parsed: "rq_target (received_header (client_request ?L c' i m)) = intent_str i"
    "parse_cookie ?L (Cookie (rq_fields (received_header (client_request ?L c' i m)) ''Cookie'')) = Some (h_random E)" for i m
    using sent by (simp_all add: received_header_def client_request_simps)
  note later = session_header [of _ view ttl "received_header (client_request ?L c' _ _)" "h_random E" "to_lower user", unfolded parsed(1)]
  have authentic: "\<forall>E' i m db' fs'. h_exec E' = h_exec E \<longrightarrow> h_lib E' = ?L \<longrightarrow> i_action i \<noteq> Login \<longrightarrow> is_str (view db' ?key) \<longrightarrow>
       (\<exists>s bt. on_request_header E' (received_header (client_request ?L c' i m)) (new_handler db' fs') = Some (s, bt, No_error) \<and>
          ((\<exists>t. view db' ?key = Str (t # to_lower user)) \<and> 0 \<le> ttl db' ?key \<longrightarrow>
            (\<exists>session \<in> {h_random E, h_random E'}. s_auth s = UserID_of session (to_lower user) False \<and>
              (h_session_length E' sdiv 2 \<le> ttl db' ?key \<longrightarrow> session = h_random E))) \<and>
          (view db' ?key = Missing \<longrightarrow> s_auth s = no_user))"
    by (intro allI impI, rule later) (use assms(1) name parsed(2) printed_not_login in simp_all)
  show ?thesis
    by (intro exI [of _ ss] exI [of _ c'] exI conjI, rule ss(1), rule ss(3), rule response)
      (use authentic in \<open>simp_all only: ss(2) stored\<close>)
qed

theorem client_login_authenticates_witness:
  "\<exists>ss res keep c' s bt. serve_once demo_net demo_henv [] (login_request (HRBClient ''h'' ''443'' ''beast'') ''Alice'' ''rabbit'') auth_db Map.empty = Some ss \<and>
     ss_sent ss = [(res, keep)] \<and> login_response ref_lib ''Alice'' res No_error (HRBClient ''h'' ''443'' ''beast'') = Some (c', No_error) \<and>
     on_request_header demo_henv (received_header (client_request ref_lib c' (URLIntent_act Home) V_get))
       (new_handler (s_db (ss_srv ss)) Map.empty) = Some (s, bt, No_error) \<and> m_user (s_auth s) = ''alice''"
proof -
  have lower: "to_lower ''Alice'' = ''alice''" by code_simp
  have home: "i_action (URLIntent_act Home) \<noteq> Login" by (simp add: URLIntent_act_def)
  have chars: "set ''Alice'' \<inter> set '';&'' = {}" "set ''rabbit'' \<inter> set '';&'' = {}" by simp_all
  note all = client_login_authenticates [of demo_henv ref_view ref_ttl "''Alice''" "''rabbit''" auth_db demo_net "[]" "HRBClient ''h'' ''443'' ''beast''" Map.empty,
      unfolded demo_login_env(1-3,5) lower, OF ref.redis_server_axioms ref_hex.hex_codec_axioms demo_login_env(4) _ chars auth_db_view(3)
      demo_password demo_login_env(6,7)]
  then obtain ss res keep c' where run: "serve_once demo_net demo_henv [] (login_request (HRBClient ''h'' ''443'' ''beast'') ''Alice'' ''rabbit'') auth_db Map.empty = Some ss"
    "ss_sent ss = [(res, keep)]" "login_response ref_lib ''Alice'' res No_error (HRBClient ''h'' ''443'' ''beast'') = Some (c', No_error)"
    and stored: "ref_view (s_db (ss_srv ss)) (key_session cookie2) = Str (''_'' @ ''alice'')"
      "0 \<le> ref_ttl (s_db (ss_srv ss)) (key_session cookie2)"
    and later: "\<forall>E' i m db' fs'. h_exec E' = ref_exec \<longrightarrow> h_lib E' = ref_lib \<longrightarrow> i_action i \<noteq> Login \<longrightarrow>
       is_str (ref_view db' (key_session cookie2)) \<longrightarrow>
       (\<exists>s bt. on_request_header E' (received_header (client_request ref_lib c' i m)) (new_handler db' fs') = Some (s, bt, No_error) \<and>
          ((\<exists>t. ref_view db' (key_session cookie2) = Str (t # ''alice'')) \<and> 0 \<le> ref_ttl db' (key_session cookie2) \<longrightarrow>
            (\<exists>session \<in> {cookie2, h_random E'}. s_auth s = UserID_of session ''alice'' False \<and>
              (h_session_length E' sdiv 2 \<le> ref_ttl db' (key_session cookie2) \<longrightarrow> session = cookie2))) \<and>
          (ref_view db' (key_session cookie2) = Missing \<longrightarrow> s_auth s = no_user))"
    using demo_login_env(4) by auto
  have "\<exists>s bt. on_request_header demo_henv (received_header (client_request ref_lib c' (URLIntent_act Home) V_get))
      (new_handler (s_db (ss_srv ss)) Map.empty) = Some (s, bt, No_error) \<and> m_user (s_auth s) = ''alice''"
    using later [rule_format, OF demo_login_env(1,2) home, of "s_db (ss_srv ss)" V_get Map.empty] stored by (auto simp: UserID_of_def)
  with run show ?thesis by blast
qed

text \<open>The downloads of the synchronisation, with their files.\<close>

lemma sync_downloads:
  "set (sync_on_collection L c here can_write dir (remote, No_error)) =
    {(get_blob_request L c (c_owner remote) (c_name remote) i ''master'', path_append dir (bi_filename e)) | i e.
      coll_find i remote = Some e \<and> coll_find i here = None \<and> can_write (path_append dir (bi_filename e))}"
proof -
  let ?d = "cmp_download (CollectionComparison_of L here remote)"
  have d: "c_owner ?d = c_owner remote" "c_name ?d = c_name remote"
    by (simp_all add: CollectionComparison_of_def Let_def pick_blobs_names Collection_cover_def)
  have found: "(i, e) \<in> set (c_blobs ?d) \<longleftrightarrow> coll_find i remote = Some e \<and> coll_find i here = None" for i e
    using comparison_find(2) [of i L here remote] comparison_distinct [of L here remote]
    by (auto simp: coll_find_def [of i ?d] split: if_splits)
  have "set (sync_on_collection L c here can_write dir (remote, No_error)) =
      {(get_blob_request L c (c_owner remote) (c_name remote) i ''master'', path_append dir (bi_filename e)) | i e.
        (i, e) \<in> set (c_blobs ?d) \<and> can_write (path_append dir (bi_filename e))}"
    by (force simp: sync_on_collection_def download_difference_def download_collection_def download_blob_def d Let_def
        List.map_filter_def split: if_splits)
  then show ?thesis unfolding found by simp
qed

text \<open>The synchronisation asks the server for exactly what is missing: the requests that it makes after
  it has fetched a collection are \<^verbatim>\<open>GET\<close> requests which the server reads as the master rendition of a
  blob of this collection, for the blobs that the collection has, the local directory has not, and
  whose file can be written there, and for no others.\<close>

theorem sync_requests_missing:
  assumes "hex_codec L" "wf_coll remote" and "c_owner remote \<noteq> []" "segment (c_owner remote)" "no_end_slash (c_name remote)"
  shows "(\<lambda>(r, file). let i = URLIntent_of (rq_target r) in
      (rq_method r, i_action i, i_user i, i_coll i, intent_blob L i, i_option i, file)) `
      set (sync_on_collection L c here can_write dir (remote, No_error)) =
    {(V_get, Api, c_owner remote, c_name remote, Some i, ''rendition=master'', path_append dir (bi_filename e)) | i e.
      coll_find i remote = Some e \<and> coll_find i here = None \<and> can_write (path_append dir (bi_filename e))}"
proof -
  have oid: "wf_oid i" if "coll_find i remote = Some e" for i e
    using that assms(2) by (auto simp: wf_coll_def coll_find_def dest: map_of_SomeD)
  have parsed: "(let u = URLIntent_of (rq_target (get_blob_request L c (c_owner remote) (c_name remote) i ''master'')) in
      (rq_method (get_blob_request L c (c_owner remote) (c_name remote) i ''master''), i_action u, i_user u, i_coll u, intent_blob L u, i_option u, f)) =
      (V_get, Api, c_owner remote, c_name remote, Some i, ''rendition=master'', f)" if "coll_find i remote = Some e" for i e f
    using blob_intent_parsed [OF assms(1) oid [OF that] assms(3-5)] hex_codec.oid_from_hex_to_hex [OF assms(1) oid [OF that]]
    by (simp add: get_blob_request_def client_request_simps intent_blob_def Let_def)
  show ?thesis unfolding sync_downloads unfolding image_pairs
    using parsed by (intro Collect_cong ex_cong1) (auto simp: Let_def)
qed

theorem sync_requests_missing_witness:
  "\<exists>r. (r, ''/home/dog.png'') \<in> set (sync_on_collection ref_lib (HRBClient ''h'' ''443'' ''beast'') empty_coll (\<lambda>_. True) ''/home'' (demo_coll, No_error)) \<and>
     intent_blob ref_lib (URLIntent_of (rq_target r)) = Some (replicate 20 CHR ''a'')"
proof -
  let ?reqs = "set (sync_on_collection ref_lib (HRBClient ''h'' ''443'' ''beast'') empty_coll (\<lambda>_. True) ''/home'' (demo_coll, No_error))"
  have found: "coll_find (replicate 20 CHR ''a'') demo_coll = Some demo_inode" "coll_find (replicate 20 CHR ''a'') empty_coll = None"
    by (simp_all add: demo_coll_find) (simp add: coll_find_def empty_coll_def)
  have path: "path_append ''/home'' (bi_filename demo_inode) = ''/home/dog.png''" by (simp add: path_append_def demo_inode_def)
  have names: "c_owner demo_coll \<noteq> []" "segment (c_owner demo_coll)" "no_end_slash (c_name demo_coll)"
    by (simp_all add: demo_coll_def add_blob_def Collection_cover_def segment_def no_end_slash_def)
  have "(V_get, Api, c_owner demo_coll, c_name demo_coll, Some (replicate 20 CHR ''a''), ''rendition=master'', ''/home/dog.png'') \<in>
      (\<lambda>(r, file). let i = URLIntent_of (rq_target r) in (rq_method r, i_action i, i_user i, i_coll i, intent_blob ref_lib i, i_option i, file)) ` ?reqs"
    unfolding sync_requests_missing [OF ref_hex.hex_codec_axioms wf_demo_coll names] 
    by (intro CollectI exI [of _ "replicate 20 CHR ''a''"] exI [of _ demo_inode] conjI found)
      (simp_all only: path simp_thms)
  then show ?thesis by (auto simp: Let_def)
qed

end
