(* ===== verification/Database_Failure.thy ===== *)
theory Database_Failure
  imports Client Redis_Connection
begin

text \<open>
  The operations of \<^verbatim>\<open>src/server/crypto/Authentication.cc\<close>, \<^verbatim>\<open>src/server/hrb/Ownership.ipp\<close> and the
  handlers of \<^verbatim>\<open>src/server/hrb/SessionHandler.cc\<close> on a connection that may fail. The connection
  calls a callback with a reply and no error, or with an empty reply and an error
  (\<^verbatim>\<open>Redis.cc\<close>: \<^verbatim>\<open>on_read\<close>, \<^verbatim>\<open>disconnect\<close>); in the second case the server may have run the command or
  not. What happens to the commands of a handler is a function from their number to a \<^verbatim>\<open>fault\<close>. When
  all commands are answered the definitions are those of Session_Handler.
\<close>

section \<open>Commands on a connection that may fail\<close>

text \<open>A command is answered, or does not reach the server, or is run and its reply is lost.\<close>

datatype fault = Delivered | Unsent error_code | Cut error_code

type_synonym faults = "nat \<Rightarrow> fault"

fun transmit :: "fault \<Rightarrow> ('db \<Rightarrow> 'db \<times> redisReply) \<Rightarrow> 'db \<Rightarrow> 'db \<times> Reply \<times> error_code" where
  "transmit Delivered cmd db = (case cmd db of (db', r) \<Rightarrow> (db', Some r, No_error))"
| "transmit (Unsent ec) cmd db = (db, None, ec)"
| "transmit (Cut ec) cmd db = (fst (cmd db), None, ec)"

definition later :: "faults \<Rightarrow> faults" where
  "later K = (\<lambda>i. K (Suc i))"

text \<open>The errors of the connection are those of the sockets and of hiredis.\<close>

definition connection_error :: "error_code \<Rightarrow> bool" where
  "connection_error ec = (case ec of System_error _ \<Rightarrow> True | Redis_error _ \<Rightarrow> True | _ \<Rightarrow> False)"

fun fault_error :: "fault \<Rightarrow> error_code" where
  "fault_error Delivered = No_error"
| "fault_error (Unsent ec) = ec"
| "fault_error (Cut ec) = ec"

definition failing :: "fault \<Rightarrow> bool" where
  "failing f = connection_error (fault_error f)"

section \<open>Users, sessions and guests\<close>

definition create_session_io ::
  "fault \<Rightarrow> ('db \<Rightarrow> rcmd \<Rightarrow> 'db \<times> redisReply) \<Rightarrow> SessionID \<Rightarrow> string \<Rightarrow> int \<Rightarrow> 'db \<Rightarrow> 'db \<times> error_code \<times> UserID" where
  "create_session_io f exec random username session_length db =
     (let auth = UserID_of random username False
      in case transmit f (\<lambda>d. exec d (SETEX (key_session (m_session auth)) (''_'' @ username) (narrow_int session_length))) db of
           (db', reply, ec) \<Rightarrow> (db', ec, auth))"

definition add_user_io ::
  "fault \<Rightarrow> ('db \<Rightarrow> rcmd \<Rightarrow> 'db \<times> redisReply) \<Rightarrow> kdf \<Rightarrow> string \<Rightarrow> string \<Rightarrow> string \<Rightarrow> 'db \<Rightarrow> ('db \<times> error_code) option" where
  "add_user_io f exec kdf salt username_mixed_case password db =
     (case kdf password salt min_iteration default_hash_algorithm of
        None \<Rightarrow> None
      | Some key \<Rightarrow>
          (let username = to_lower username_mixed_case
           in case transmit f (\<lambda>d. exec d (HMSET (key_user username) [(''salt'', salt), (''key'', key),
                (''iteration'', to_string min_iteration), (''hash_algorithm'', default_hash_algorithm)])) db of
                (db', reply, ec) \<Rightarrow> Some (db', if \<not> reply_ok reply then Hrb_error H_redis_command_error else ec)))"

definition verify_user_io ::
  "faults \<Rightarrow> ('db \<Rightarrow> rcmd \<Rightarrow> 'db \<times> redisReply) \<Rightarrow> kdf \<Rightarrow> SessionID \<Rightarrow> string \<Rightarrow> string \<Rightarrow> int \<Rightarrow> 'db \<Rightarrow>
   ('db \<times> error_code \<times> UserID) option" where
  "verify_user_io K exec kdf random username_mixed_case password session_length db =
     (let username = to_lower username_mixed_case
      in case transmit (K 0) (\<lambda>d. exec d (HMGET (key_user username) [''salt'', ''key'', ''iteration'', ''hash_algorithm''])) db of
           (db', reply, ec0) \<Rightarrow>
             (case (if ec0 = No_error then verify_password kdf password reply ec0 else Some ec0) of
                None \<Rightarrow> None
              | Some ec \<Rightarrow>
                  if ec = No_error then Some (create_session_io (K 1) exec random username session_length db')
                  else Some (db', ec, no_user)))"

definition renew_session_io ::
  "fault \<Rightarrow> ('db \<Rightarrow> rcmd \<Rightarrow> 'db \<times> redisReply) \<Rightarrow> SessionID \<Rightarrow> UserID \<Rightarrow> int \<Rightarrow> 'db \<Rightarrow> 'db \<times> error_code \<times> UserID" where
  "renew_session_io f exec new_cookie m_uid session_length db =
     (case transmit f (eval (renew_command exec (m_session m_uid) new_cookie (m_user m_uid) session_length)) db of
        (db', reply, ec) \<Rightarrow>
          if ec \<noteq> No_error \<or> as_int reply \<noteq> 1 then (db', ec, m_uid)
          else (db', ec, UserID_of new_cookie (m_user m_uid) False))"

definition verify_session_io ::
  "faults \<Rightarrow> ('db \<Rightarrow> rcmd \<Rightarrow> 'db \<times> redisReply) \<Rightarrow> SessionID \<Rightarrow> SessionID \<Rightarrow> int \<Rightarrow> 'db \<Rightarrow> 'db \<times> error_code \<times> UserID" where
  "verify_session_io K exec random cookie session_length db =
     (case transmit (K 0) (eval (verify_session_command exec cookie)) db of
        (db', reply, ec0) \<Rightarrow>
          if ec0 \<noteq> No_error then (db', ec0, no_user)
          else (case as_tuple 2 reply ec0 of
             ([user, t], ec) \<Rightarrow>
               if ec \<noteq> No_error \<or> user = Some RNil \<or> length (as_string user) \<le> 1 \<or> as_int t < 0
               then (db', ec, no_user)
               else
                 (let auth = UserID_of cookie (drop 1 (as_string user)) False
                  in if as_int t < session_length sdiv 2
                     then renew_session_io (K 1) exec random auth session_length db'
                     else (db', ec, auth))
           | (_, ec) \<Rightarrow> (db', ec, no_user)))"

definition destroy_session_io ::
  "fault \<Rightarrow> ('db \<Rightarrow> rcmd \<Rightarrow> 'db \<times> redisReply) \<Rightarrow> UserID \<Rightarrow> 'db \<Rightarrow> 'db \<times> error_code" where
  "destroy_session_io f exec m_uid db =
     (case transmit f (\<lambda>d. exec d (DEL (key_session (m_session m_uid)))) db of (db', reply, ec) \<Rightarrow> (db', ec))"

definition share_resource_io ::
  "fault \<Rightarrow> ('db \<Rightarrow> rcmd \<Rightarrow> 'db \<times> redisReply) \<Rightarrow> SessionID \<Rightarrow> int \<Rightarrow> string \<Rightarrow> string \<Rightarrow> int \<Rightarrow> 'db \<Rightarrow>
   'db \<times> UserID \<times> error_code" where
  "share_resource_io f exec random now owner resource valid_period db =
     (let expired = now + valid_period
      in case transmit f (\<lambda>d. exec d (HSET (key_shared_auth owner resource) random (to_string (expired sdiv 10 ^ 9)))) db of
           (db', reply, ec) \<Rightarrow> (db', UserID_of random owner True, ec))"

definition is_shared_resource_io ::
  "fault \<Rightarrow> ('db \<Rightarrow> rcmd \<Rightarrow> 'db \<times> redisReply) \<Rightarrow> int \<Rightarrow> UserID \<Rightarrow> string \<Rightarrow> 'db \<Rightarrow> ('db \<times> bool \<times> error_code) option" where
  "is_shared_resource_io f exec time m_uid resource db =
     (case transmit f (\<lambda>d. exec d (HGET (key_shared_auth (m_user m_uid) resource) (m_session m_uid))) db of
        (db', reply, ec) \<Rightarrow> map_option (\<lambda>n. (db', time < n, ec)) (to_int reply))"

definition list_guests_io ::
  "fault \<Rightarrow> ('db \<Rightarrow> rcmd \<Rightarrow> 'db \<times> redisReply) \<Rightarrow> string \<Rightarrow> string \<Rightarrow> 'db \<Rightarrow> 'db \<times> UserID list \<times> error_code" where
  "list_guests_io f exec owner resource db =
     (case transmit f (\<lambda>d. exec d (HGETALL (key_shared_auth owner resource))) db of
        (db', reply, ec) \<Rightarrow>
          (db', map (\<lambda>(k, _). UserID_of k owner True)
             (filter (\<lambda>(k, _). length k = SessionID_size) (kv_pairs reply)), ec))"

section \<open>Ownership\<close>

text \<open>The callbacks are those of Ownership.\<close>

definition link_blob_io ::
  "fault \<Rightarrow> ('db \<Rightarrow> rcmd \<Rightarrow> 'db \<times> redisReply) \<Rightarrow> extlib \<Rightarrow> string \<Rightarrow> string \<Rightarrow> ObjectID \<Rightarrow> BlobInode \<Rightarrow> 'db \<Rightarrow> ('db \<times> error_code) result" where
  "link_blob_io f exec L user coll blob entry db =
     bind_r (link_command exec L user coll blob entry) (\<lambda>script.
       case transmit f (eval script) db of (db', reply, ec) \<Rightarrow> ok (db', ec_callback reply ec))"

definition unlink_blob_io ::
  "fault \<Rightarrow> ('db \<Rightarrow> rcmd \<Rightarrow> 'db \<times> redisReply) \<Rightarrow> extlib \<Rightarrow> string \<Rightarrow> string \<Rightarrow> ObjectID \<Rightarrow> 'db \<Rightarrow> 'db \<times> error_code" where
  "unlink_blob_io f exec L user coll blob db =
     (case transmit f (eval (unlink_command exec L user coll blob)) db of (db', reply, ec) \<Rightarrow> (db', ec_callback reply ec))"

definition move_blob_io ::
  "fault \<Rightarrow> ('db \<Rightarrow> rcmd \<Rightarrow> 'db \<times> redisReply) \<Rightarrow> extlib \<Rightarrow> string \<Rightarrow> string \<Rightarrow> string \<Rightarrow> ObjectID \<Rightarrow> 'db \<Rightarrow> 'db \<times> error_code" where
  "move_blob_io f exec L user src dst blob db =
     (case transmit f (eval (move_command exec L user src dst blob)) db of (db', reply, ec) \<Rightarrow> (db', ec_callback reply ec))"

definition rename_blob_io ::
  "fault \<Rightarrow> ('db \<Rightarrow> rcmd \<Rightarrow> 'db \<times> redisReply) \<Rightarrow> string \<Rightarrow> string \<Rightarrow> ObjectID \<Rightarrow> string \<Rightarrow> 'db \<Rightarrow> 'db \<times> error_code" where
  "rename_blob_io f exec user coll blob filename db =
     (case transmit f (\<lambda>d. exec d (HSET (key_collection user coll) blob filename)) db of
        (db', reply, ec) \<Rightarrow> (db', ec_callback reply ec))"

definition set_permission_io ::
  "fault \<Rightarrow> ('db \<Rightarrow> rcmd \<Rightarrow> 'db \<times> redisReply) \<Rightarrow> extlib \<Rightarrow> string \<Rightarrow> ObjectID \<Rightarrow> Permission \<Rightarrow> 'db \<Rightarrow> 'db \<times> error_code" where
  "set_permission_io f exec L user blob p db =
     (case transmit f (eval (set_permission_command exec L user blob p)) db of (db', reply, ec) \<Rightarrow> (db', ec_callback reply ec))"

definition set_cover_io ::
  "fault \<Rightarrow> ('db \<Rightarrow> rcmd \<Rightarrow> 'db \<times> redisReply) \<Rightarrow> extlib \<Rightarrow> string \<Rightarrow> string \<Rightarrow> ObjectID \<Rightarrow> 'db \<Rightarrow> 'db \<times> bool \<times> error_code" where
  "set_cover_io f exec L user coll blob db =
     (case transmit f (eval (set_cover_command exec L user coll blob)) db of (db', reply, ec) \<Rightarrow> (db', set_cover_callback reply ec))"

definition update_blob_io ::
  "fault \<Rightarrow> ('db \<Rightarrow> rcmd \<Rightarrow> 'db \<times> redisReply) \<Rightarrow> extlib \<Rightarrow> string \<Rightarrow> ObjectID \<Rightarrow> BlobInode \<Rightarrow> 'db \<Rightarrow> 'db result" where
  "update_blob_io f exec L user blob entry db =
     bind_r (inodedb_create_fields L entry) (\<lambda>s.
       ok (fst (transmit f (\<lambda>d. exec d (HSET (key_blob_inode user) blob s)) db)))"

definition get_collection_io ::
  "fault \<Rightarrow> ('db \<Rightarrow> rcmd \<Rightarrow> 'db \<times> redisReply) \<Rightarrow> extlib \<Rightarrow> string \<Rightarrow> UserID \<Rightarrow> string \<Rightarrow> 'db \<Rightarrow> 'db \<times> (Collection \<times> error_code) result" where
  "get_collection_io f exec L user requester coll db =
     (case transmit f (eval (scan_collection_command exec user coll)) db of
        (db', reply, ec) \<Rightarrow> (db', get_collection_callback L user requester coll reply ec))"

definition get_blob_io ::
  "fault \<Rightarrow> ('db \<Rightarrow> rcmd \<Rightarrow> 'db \<times> redisReply) \<Rightarrow> string \<Rightarrow> string \<Rightarrow> ObjectID \<Rightarrow> 'db \<Rightarrow> 'db \<times> BlobInodeDB \<times> string \<times> error_code" where
  "get_blob_io f exec user coll blob db =
     (case transmit f (eval (get_blob_command exec user coll blob)) db of (db', reply, ec) \<Rightarrow> (db', get_blob_callback reply ec))"

definition get_inode_io ::
  "fault \<Rightarrow> ('db \<Rightarrow> rcmd \<Rightarrow> 'db \<times> redisReply) \<Rightarrow> string \<Rightarrow> UserID \<Rightarrow> ObjectID \<Rightarrow> 'db \<Rightarrow> 'db \<times> BlobInodeDB \<times> error_code" where
  "get_inode_io f exec user requester blob db =
     (case transmit f (\<lambda>d. exec d (HGET (key_blob_inode user) blob)) db of
        (db', reply, ec) \<Rightarrow> (db', get_inode_callback user requester reply ec))"

definition list_public_blobs_io ::
  "fault \<Rightarrow> ('db \<Rightarrow> rcmd \<Rightarrow> 'db \<times> redisReply) \<Rightarrow> extlib \<Rightarrow> 'db \<Rightarrow> 'db \<times> (Blob list \<times> error_code) result" where
  "list_public_blobs_io f exec L db =
     (case transmit f (eval (list_public_blob_command exec L)) db of (db', reply, ec) \<Rightarrow> (db', list_public_callback L reply ec))"

definition query_blob_io ::
  "fault \<Rightarrow> ('db \<Rightarrow> rcmd \<Rightarrow> 'db \<times> redisReply) \<Rightarrow> extlib \<Rightarrow> string \<Rightarrow> ObjectID \<Rightarrow> 'db \<Rightarrow> 'db \<times> (Blob list \<times> error_code) result" where
  "query_blob_io f exec L user blob db =
     (case transmit f (eval (query_blob_command exec user blob)) db of
        (db', reply, ec) \<Rightarrow> (db', query_blob_callback L user blob reply ec))"

text \<open>Each command of the scan has its own fault; an error ends it with what was read so far.\<close>

fun scan_collections_io ::
  "faults \<Rightarrow> ('db \<Rightarrow> rcmd \<Rightarrow> 'db \<times> redisReply) \<Rightarrow> extlib \<Rightarrow> nat \<Rightarrow> string \<Rightarrow> int \<Rightarrow> CollectionList \<Rightarrow> 'db \<Rightarrow>
   ('db \<times> (CollectionList \<times> error_code) result) option" where
  "scan_collections_io K exec L 0 user cursor coll_list db = None"
| "scan_collections_io K exec L (Suc fuel) user cursor coll_list db =
     (case transmit (K 0) (\<lambda>d. exec d (HSCAN (key_collection_list user) (narrow_int cursor))) db of (db', reply, ec0) \<Rightarrow>
        if ec0 \<noteq> No_error then Some (db', ok (coll_list, ec0))
        else case as_tuple 2 reply ec0 of
          ([cursor_reply, dirs], ec) \<Rightarrow>
            if ec = No_error then
              (case to_int cursor_reply of
                 None \<Rightarrow> None
               | Some cursor' \<Rightarrow>
                   (case scan_dirs L user (kv_pairs dirs) coll_list of
                      Inl e \<Rightarrow> Some (db', Inl e)
                    | Inr coll_list' \<Rightarrow>
                        if cursor' \<noteq> 0 then scan_collections_io (later K) exec L fuel user cursor' coll_list' db'
                        else Some (db', ok (coll_list', ec))))
            else Some (db', ok (coll_list, ec))
        | _ \<Rightarrow> None)"

definition scan_all_collections_io ::
  "faults \<Rightarrow> ('db \<Rightarrow> rcmd \<Rightarrow> 'db \<times> redisReply) \<Rightarrow> extlib \<Rightarrow> nat \<Rightarrow> string \<Rightarrow> 'db \<Rightarrow> ('db \<times> (CollectionList \<times> error_code) result) option" where
  "scan_all_collections_io K exec L fuel user db = scan_collections_io K exec L fuel user 0 [] db"

text \<open>The index of perceptual hashes ignores the reply.\<close>

definition phash_add_io :: "fault \<Rightarrow> ('db \<Rightarrow> rcmd \<Rightarrow> 'db \<times> redisReply) \<Rightarrow> ObjectID \<Rightarrow> 64 word \<Rightarrow> 'db \<Rightarrow> 'db" where
  "phash_add_io f exec blob h db = fst (transmit f (eval (phash_add_script exec blob h)) db)"

section \<open>Handlers\<close>

definition on_login_io :: "faults \<Rightarrow> 'db henv \<Rightarrow> 'u request \<Rightarrow> string \<Rightarrow> 'db srv \<Rightarrow> ('db srv \<times> response) option" where
  "on_login_io K E req body s =
     (if rq_fields req ''Content-Type'' = form_type then
        (case find_fields urlform body [''username'', ''password''] of
           [username, password] \<Rightarrow>
             (case verify_user_io K (h_exec E) (h_kdf E) (h_random E) username password (h_session_length E) (s_db s) of
                None \<Rightarrow> None
              | Some (db, ec, session) \<Rightarrow>
                  (let st = (if ec = Hrb_error H_login_incorrect then St_forbidden
                             else if ec \<noteq> No_error then St_internal_server_error else St_no_content);
                       s1 = s\<lparr>s_db := db\<rparr>
                   in Some (if ec = No_error then s1\<lparr>s_auth := session\<rparr> else s1,
                            set_field ''Cache-Control'' no_store (empty_response st))))
         | _ \<Rightarrow> None)
      else Some (s, empty_response St_bad_request))"

definition on_logout_io :: "faults \<Rightarrow> 'db henv \<Rightarrow> 'db srv \<Rightarrow> ('db srv \<times> response) option" where
  "on_logout_io K E s =
     (case destroy_session_io (K 0) (h_exec E) (s_auth s) (s_db s) of
        (db, ec) \<Rightarrow>
          Some (s\<lparr>s_db := db, s_auth := no_user\<rparr>,
                set_field ''Connection'' ''close'' (set_field ''Cache-Control'' no_store (empty_response St_ok))))"

definition unlink_io :: "faults \<Rightarrow> 'db henv \<Rightarrow> BlobRequest \<Rightarrow> 'db srv \<Rightarrow> ('db srv \<times> response) option" where
  "unlink_io K E req s =
     (case br_blob (h_lib E) req of
        None \<Rightarrow> None
      | Some blob \<Rightarrow>
          if \<not> request_by_owner req (s_auth s) then Some (s, empty_response St_forbidden)
          else (case unlink_blob_io (K 0) (h_exec E) (h_lib E) (br_owner req) (br_collection req) blob (s_db s) of
             (db, ec) \<Rightarrow>
               Some (s\<lparr>s_db := db\<rparr>, empty_response
                 (if ec = Hrb_error H_object_not_exist then St_bad_request
                  else if ec \<noteq> No_error then St_internal_server_error else St_no_content))))"

definition post_blob_io :: "faults \<Rightarrow> 'db henv \<Rightarrow> BlobRequest \<Rightarrow> 'db srv \<Rightarrow> ('db srv \<times> response) option" where
  "post_blob_io K E req s =
     (if \<not> request_by_owner req (s_auth s) then Some (s, empty_response St_forbidden)
      else case (br_blob (h_lib E) req, find_fields urlform (br_body req) [''perm'', ''move'']) of
        (Some blob, [perm_str, move_destination]) \<Rightarrow>
          if perm_str = [] \<and> move_destination = [] then Some (s, empty_response St_bad_request)
          else if perm_str \<noteq> [] then
            (case set_permission_io (K 0) (h_exec E) (h_lib E) (br_owner req) blob (from_description perm_str) (s_db s) of
               (db, ec) \<Rightarrow> Some (s\<lparr>s_db := db\<rparr>, complete_status ec))
          else
            (case move_blob_io (K 0) (h_exec E) (h_lib E) (br_owner req) (br_collection req) move_destination blob (s_db s) of
               (db, ec) \<Rightarrow> Some (s\<lparr>s_db := db\<rparr>, complete_status ec))
      | _ \<Rightarrow> None)"

text \<open>The index of hashes is command 0 of an upload, the link command 1.\<close>

definition on_upload_io ::
  "faults \<Rightarrow> 'db henv \<Rightarrow> UploadFile request \<Rightarrow> UploadFile \<Rightarrow> 'db srv \<Rightarrow> ('db srv \<times> UploadFile \<times> response) option" where
  "on_upload_io K E req body s =
     (let path_url = URLIntent_of (rq_target req); L = h_lib E in
      if m_user (s_auth s) \<noteq> i_user path_url then Some (s, body, empty_response St_forbidden)
      else if \<not> up_open body then Some (s, body, empty_response St_internal_server_error)
      else if (case s_files s (up_tmp_path body) of Some c \<Rightarrow> c | None \<Rightarrow> []) = [] then
        Some (s, body, empty_response St_bad_request)
      else
        (case save L (h_blobs E) body (s_files s) of
           (fs, body1, blob, saved) \<Rightarrow>
             if \<not> saved then Some (s\<lparr>s_files := fs\<rparr>, body1, empty_response St_internal_server_error)
             else
               (let db1 = (case im_phash (meta_of blob) of
                      Some h \<Rightarrow> phash_add_io (K 0) (h_exec E) (bf_id blob) h (s_db s) | None \<Rightarrow> s_db s);
                    entry = \<lparr>bi_perm = private_perm, bi_filename = i_filename path_url,
                             bi_mime = im_mime (meta_of blob), bi_timestamp = original_datetime blob\<rparr>;
                    location = intent_str (URLIntent_name Api (m_user (s_auth s)) (i_coll path_url) (to_hex L (bf_id blob)) [])
                in case link_blob_io (K 1) (h_exec E) L (m_user (s_auth s)) (i_coll path_url) (bf_id blob) entry db1 of
                     Inl _ \<Rightarrow> None
                   | Inr (db2, ec) \<Rightarrow>
                       Some (s\<lparr>s_db := db2, s_files := fs\<rparr>, body1,
                         set_field ''Cache-Control'' no_store
                           (if ec = No_error then set_field ''Location'' location (empty_response St_created)
                            else empty_response St_internal_server_error)))))"

definition post_view_io :: "faults \<Rightarrow> 'db henv \<Rightarrow> BlobRequest \<Rightarrow> 'db srv \<Rightarrow> ('db srv \<times> response) option" where
  "post_view_io K E req s =
     (if \<not> request_by_owner req (s_auth s) then Some (s, empty_response St_forbidden)
      else case find_fields urlform (br_body req) [''cover'', ''share''] of
        [cover, share] \<Rightarrow>
          (case oid_from_hex (h_lib E) cover of
             Some cover_blob \<Rightarrow>
               (case set_cover_io (K 0) (h_exec E) (h_lib E) (br_owner req) (br_collection req) cover_blob (s_db s) of
                  (db, covered, ec) \<Rightarrow>
                    Some (s\<lparr>s_db := db\<rparr>, empty_response
                      (if ec \<noteq> No_error then St_internal_server_error
                       else if covered then St_no_content else St_bad_request)))
           | None \<Rightarrow>
               if share = ''create'' then
                 (case share_resource_io (K 0) (h_exec E) (h_random E) (h_now E) (br_owner req) (br_collection req)
                         (3600 * 10 ^ 9) (s_db s) of
                    (db, auth, _) \<Rightarrow>
                      Some (s\<lparr>s_db := db\<rparr>, set_field ''Location''
                        (intent_str (URLIntent_name View (br_owner req) (br_collection req) []
                           (''auth='' @ to_hex (h_lib E) (m_session auth)))) (empty_response St_no_content)))
               else if share = ''list'' then
                 (case list_guests_io (K 0) (h_exec E) (br_owner req) (br_collection req) (s_db s) of
                    (db, guests, _) \<Rightarrow>
                      map_option (\<lambda>text. (s\<lparr>s_db := db\<rparr>,
                          set_field ''Content-Type'' ''application/json'' (respond St_ok (String_body text))))
                        (json_dump (h_lib E) (JArr (map (\<lambda>g. JStr (to_hex (h_lib E) (m_session g))) guests))))
               else Some (s, empty_response St_bad_request))
      | _ \<Rightarrow> None)"

fun validate_entries_io ::
  "faults \<Rightarrow> 'db henv \<Rightarrow> (ObjectID \<times> BlobInode) list \<Rightarrow> Collection \<Rightarrow> 'db srv \<Rightarrow> ('db srv \<times> Collection) option" where
  "validate_entries_io K E [] coll s = Some (s, coll)"
| "validate_entries_io K E ((i, entry) # entries) coll s =
     (if bi_timestamp entry = 0 then
        (let (fs, b) = update_meta (h_lib E) (h_blobs E) (find_blob (h_lib E) (h_blobs E) i) (s_files s);
             t = original_datetime b
         in case update_blob_io (K 0) (h_exec E) (h_lib E) (m_user (s_auth s)) i (entry\<lparr>bi_timestamp := t\<rparr>) (s_db s) of
              Inl _ \<Rightarrow> None
            | Inr db \<Rightarrow> validate_entries_io (later K) E entries (update_timestamp i t coll) (s\<lparr>s_files := fs, s_db := db\<rparr>))
      else validate_entries_io K E entries coll s)"

definition handle_get_blob_io :: "faults \<Rightarrow> 'db henv \<Rightarrow> BlobRequest \<Rightarrow> ObjectID \<Rightarrow> 'db srv \<Rightarrow> ('db srv \<times> response) option" where
  "handle_get_blob_io K E req blob s =
     (let L = h_lib E in
      if br_etag req = to_quoted_hex L blob then
        Some (s, set_cache_control L blob (empty_response St_not_modified))
      else
        (case get_blob_io (K 0) (h_exec E) (br_owner req) (br_collection req) blob (s_db s) of
           (db, reply) \<Rightarrow> get_blob_reply E req blob (s\<lparr>s_db := db\<rparr>) reply))"

definition send_collection_list_io :: "faults \<Rightarrow> 'db henv \<Rightarrow> string \<Rightarrow> bool \<Rightarrow> 'db srv \<Rightarrow> ('db srv \<times> response) option" where
  "send_collection_list_io K E user page s =
     (case scan_all_collections_io K (h_exec E) (h_lib E) (h_scan_fuel E) user (s_db s) of
        Some (db, Inr (colls, ec)) \<Rightarrow> Some (s\<lparr>s_db := db\<rparr>, SendJSON E s None page (list_to_json colls) ec)
      | _ \<Rightarrow> None)"

definition scan_collection_io :: "faults \<Rightarrow> 'db henv \<Rightarrow> URLIntent \<Rightarrow> 'db srv \<Rightarrow> ('db srv \<times> response) option" where
  "scan_collection_io K E intent s =
     (case find_optional urlform (i_option intent) [''user'', ''json''] of
        [Some user, json] \<Rightarrow>
          if m_user (s_auth s) \<noteq> user then Some (s, respond St_forbidden (String_body []))
          else send_collection_list_io K E user (json = None) s
      | _ \<Rightarrow> Some (s, bad_request ''invalid user in query''))"

definition handle_query_blob_io :: "faults \<Rightarrow> 'db henv \<Rightarrow> BlobRequest \<Rightarrow> 'db srv \<Rightarrow> ('db srv \<times> response) option" where
  "handle_query_blob_io K E req s =
     (let L = h_lib E in
      case find_fields urlform (br_option req) [''id'', ''rendition'', ''owner''] of
        [blob_arg, rendition, owner0] \<Rightarrow>
          (case oid_from_hex L blob_arg of
             None \<Rightarrow> Some (s, bad_request ''invalid blob ID'')
           | Some blob \<Rightarrow>
               (let owner = (if owner0 = [] then m_user (s_auth s) else owner0) in
                case get_inode_io (K 0) (h_exec E) owner (s_auth s) blob (s_db s) of
                  (db, reply) \<Rightarrow> query_blob_reply E blob rendition (s\<lparr>s_db := db\<rparr>) reply))
      | _ \<Rightarrow> None)"

definition handle_list_public_io :: "faults \<Rightarrow> 'db henv \<Rightarrow> bool \<Rightarrow> string \<Rightarrow> 'db srv \<Rightarrow> ('db srv \<times> response) option" where
  "handle_list_public_io K E is_json user s =
     (case list_public_blobs_io (K 0) (h_exec E) (h_lib E) (s_db s) of
        (db, Inl _) \<Rightarrow> None
      | (db, Inr (blobs, ec)) \<Rightarrow>
          (let pub_blobs = filter (\<lambda>b. (user = [] \<or> user = b_owner b) \<and> bi_perm (b_info b) = public_perm) blobs
           in Some (s\<lparr>s_db := db\<rparr>, SendJSON E s None (\<not> is_json) (ok (elements_to_json (h_lib E) pub_blobs)) ec)))"

definition query_blob_set_io :: "faults \<Rightarrow> 'db henv \<Rightarrow> URLIntent \<Rightarrow> 'db srv \<Rightarrow> ('db srv \<times> response) option" where
  "query_blob_set_io K E intent s =
     (case find_optional urlform (i_option intent) [''public'', ''detect_dup'', ''json''] of
        [Some pub, _, json] \<Rightarrow> handle_list_public_io K E (json \<noteq> None) pub s
      | [None, Some dup_coll, json] \<Rightarrow>
          (case get_collection_io (K 0) (h_exec E) (h_lib E) (m_user (s_auth s)) (s_auth s) dup_coll (s_db s) of
             (db, Inl _) \<Rightarrow> None
           | (db, Inr (coll, ec)) \<Rightarrow>
               (case find_similar (h_lib E) (h_blobs E) 10 (map fst (c_blobs coll)) (s_files s) of
                  (fs, similar) \<Rightarrow>
                    Some (s\<lparr>s_db := db, s_files := fs\<rparr>,
                      SendJSON E s None (json = None)
                        (ok (JObj [(''dups'', JArr (map (match_json (h_lib E)) similar))])) ec)))
      | _ \<Rightarrow> Some (s, bad_request ''invalid query''))"

definition on_query_io :: "faults \<Rightarrow> 'db henv \<Rightarrow> BlobRequest \<Rightarrow> 'db srv \<Rightarrow> ('db srv \<times> response) option" where
  "on_query_io K E req s = (case i_query_target (br_url req) of
       QCollection \<Rightarrow> scan_collection_io K E (br_url req) s
     | QBlob \<Rightarrow> handle_query_blob_io K E req s
     | QBlobSet \<Rightarrow> query_blob_set_io K E (br_url req) s
     | QNone \<Rightarrow> Some (s, bad_request ''unsupported query target''))"

section \<open>Dispatch\<close>

definition on_request_api_io :: "faults \<Rightarrow> 'db henv \<Rightarrow> UploadFile request \<Rightarrow> URLIntent \<Rightarrow> 'db srv \<Rightarrow> ('db srv \<times> response) option" where
  "on_request_api_io K E req intent s =
     (let breq = BlobRequest_of req intent in
      case rq_method req of
        V_delete \<Rightarrow> unlink_io K E breq s
      | V_get \<Rightarrow>
          (case br_blob (h_lib E) breq of
             Some blob \<Rightarrow> handle_get_blob_io K E breq blob s
           | None \<Rightarrow>
               (case get_collection_io (K 0) (h_exec E) (h_lib E) (br_owner breq) (s_auth s) (br_collection breq) (s_db s) of
                  (db, Inl _) \<Rightarrow> None
                | (db, Inr (coll, ec)) \<Rightarrow>
                    map_option (\<lambda>(s1, coll1). (s1, SendJSON E s1 None False (ok (coll_to_json (h_lib E) coll1)) ec))
                      (validate_entries_io (later K) E (c_blobs coll) coll (s\<lparr>s_db := db\<rparr>))))
      | V_post \<Rightarrow> (if br_blob (h_lib E) breq \<noteq> None then post_blob_io K E breq s else post_view_io K E breq s)
      | _ \<Rightarrow> Some (s, empty_response St_bad_request))"

definition on_request_view_io :: "faults \<Rightarrow> 'db henv \<Rightarrow> UploadFile request \<Rightarrow> URLIntent \<Rightarrow> 'db srv \<Rightarrow> ('db srv \<times> response) option" where
  "on_request_view_io K E req intent s =
     (let breq = BlobRequest_of req intent in
      if rq_method req = V_get then
        (case get_collection_io (K 0) (h_exec E) (h_lib E) (br_owner breq) (s_auth s) (br_collection breq) (s_db s) of
           (db, Inl _) \<Rightarrow> None
         | (db, Inr (coll, ec)) \<Rightarrow>
             Some (s\<lparr>s_db := db\<rparr>, SendJSON E s (br_blob (h_lib E) breq) True (ok (coll_to_json (h_lib E) coll)) ec))
      else Some (s, empty_response St_bad_request))"

definition on_empty_request_io :: "faults \<Rightarrow> 'db henv \<Rightarrow> UploadFile request \<Rightarrow> URLIntent \<Rightarrow> 'db srv \<Rightarrow> ('db srv \<times> response) option" where
  "on_empty_request_io K E req intent s =
     (if rq_method req \<noteq> V_get then Some (s, bad_request ''unsupported HTTP method'')
      else case i_action intent of
        Lib \<Rightarrow> Some (s, file_request E intent (rq_fields req ''If-None-Match''))
      | Home \<Rightarrow> (if valid (s_auth s) then send_collection_list_io K E (m_user (s_auth s)) True s
                  else handle_list_public_io K E False [] s)
      | Query \<Rightarrow> on_query_io K E (BlobRequest_of req intent) s
      | Logout \<Rightarrow> on_logout_io K E s
      | _ \<Rightarrow> map_option (\<lambda>r. (s, r)) (not_found E s))"

definition on_request_body_io :: "faults \<Rightarrow> 'db henv \<Rightarrow> UploadFile request \<Rightarrow> 'db srv \<Rightarrow> ('db srv \<times> response) option" where
  "on_request_body_io K E req s =
     (let intent = URLIntent_of (rq_target req);
          discard = (\<lambda>(s1, r). (case rq_body req of
            Req_upload u \<Rightarrow> (s1\<lparr>s_files := upload_destroy u (s_files s1)\<rparr>, r) | _ \<Rightarrow> (s1, r)))
      in if i_action intent = Login then
           (case rq_body req of
              Req_string body \<Rightarrow> if rq_method req = V_post then on_login_io K E req body s else Some (s, empty_response St_bad_request)
            | _ \<Rightarrow> Some (discard (s, empty_response St_bad_request)))
         else if i_action intent = View then map_option discard (on_request_view_io K E req intent s)
         else if i_action intent = Api then map_option discard (on_request_api_io K E req intent s)
         else case rq_body req of
           Req_empty \<Rightarrow> on_empty_request_io K E req intent s
         | Req_upload u \<Rightarrow>
             if i_action intent = Upload then
               map_option (\<lambda>(s1, u1, r). (s1\<lparr>s_files := upload_destroy u1 (s_files s1)\<rparr>, r)) (on_upload_io K E req u s)
             else map_option (\<lambda>r. discard (s, r)) (not_found E s)
         | Req_string _ \<Rightarrow> map_option (\<lambda>r. (s, r)) (not_found E s))"

definition on_request_header_io ::
  "faults \<Rightarrow> 'db henv \<Rightarrow> 'u request \<Rightarrow> 'db srv \<Rightarrow> ('db srv \<times> RequestBodyType \<times> error_code) option" where
  "on_request_header_io K E header s0 =
     (let intent = URLIntent_of (rq_target header); L = h_lib E in
      if i_action intent = Login then Some (s0, RB_string, No_error)
      else
        (let s = s0\<lparr>s_request_session := parse_cookie L (Cookie (rq_fields header ''Cookie''))\<rparr>
         in case s_request_session s of
              None \<Rightarrow>
                (case hex_to_array L SessionID_size (hd (find_fields urlform (i_option intent) [''auth''])) of
                   Some auth_key \<Rightarrow>
                     if rq_method header = V_get then
                       (let auth = UserID_of auth_key (i_user intent) True
                        in case is_shared_resource_io (K 0) (h_exec E) (h_now E sdiv 10 ^ 9) auth (i_coll intent) (s_db s) of
                             None \<Rightarrow> None
                           | Some (db, shared, err) \<Rightarrow>
                               Some (if err = No_error \<and> shared then s\<lparr>s_db := db, s_auth := auth\<rparr> else s\<lparr>s_db := db\<rparr>,
                                     RB_empty, err))
                     else Some (s, RB_empty, No_error)
                 | None \<Rightarrow> Some (s, RB_empty, No_error))
            | Some session \<Rightarrow>
                (case verify_session_io K (h_exec E) (h_random E) session (h_session_length E) (s_db s) of
                   (db, ec, auth) \<Rightarrow>
                     Some (s\<lparr>s_db := db, s_auth := auth\<rparr>, body_type_for ec (i_action intent) (rq_method header), ec))))"

section \<open>A connection without failures\<close>

named_theorems answered \<open>operations whose commands are all answered\<close>

lemma later_answered [simp]: "later (\<lambda>_. f) = (\<lambda>_. f)"
  by (simp add: later_def)

lemma answered_operations [answered]:
  "create_session_io Delivered = create_session" "renew_session_io Delivered = renew_session"
  "destroy_session_io Delivered = destroy_session" "share_resource_io Delivered = share_resource"
  "is_shared_resource_io Delivered = is_shared_resource" "list_guests_io Delivered = list_guests"
  "add_user_io Delivered = add_user"
  by (intro ext; simp add: create_session_io_def create_session_def renew_session_io_def renew_session_def
      destroy_session_io_def destroy_session_def share_resource_io_def share_resource_def is_shared_resource_io_def
      is_shared_resource_def list_guests_io_def list_guests_def add_user_io_def add_user_def Let_def
      split: prod.splits option.splits)+

lemma answered_sessions [answered]:
  "verify_user_io (\<lambda>_. Delivered) = verify_user" "verify_session_io (\<lambda>_. Delivered) = verify_session"
  by (intro ext; simp add: verify_user_io_def verify_user_def verify_session_io_def verify_session_def answered Let_def
      split: prod.splits option.splits list.splits)+

lemma answered_ownership [answered]:
  "link_blob_io Delivered = link_blob" "unlink_blob_io Delivered = unlink_blob" "move_blob_io Delivered = move_blob"
  "rename_blob_io Delivered = rename_blob" "set_permission_io Delivered = set_permission" "set_cover_io Delivered = set_cover"
  "update_blob_io Delivered = update_blob" "get_collection_io Delivered = get_collection" "get_blob_io Delivered = get_blob"
  "get_inode_io Delivered = get_inode" "list_public_blobs_io Delivered = list_public_blobs"
  "query_blob_io Delivered = query_blob" "phash_add_io Delivered = phash_add"
  by (intro ext; simp add: link_blob_io_def link_blob_def unlink_blob_io_def unlink_blob_def move_blob_io_def move_blob_def
      rename_blob_io_def rename_blob_def set_permission_io_def set_permission_def set_cover_io_def set_cover_def
      update_blob_io_def update_blob_def update_def get_collection_io_def get_collection_def get_blob_io_def get_blob_def
      get_inode_io_def get_inode_def list_public_blobs_io_def list_public_blobs_def query_blob_io_def query_blob_def
      phash_add_io_def phash_add_def prod.case_distrib [of "\<lambda>x. x"] case_prod_unfold)+

lemma answered_scan [answered]:
  "scan_collections_io (\<lambda>_. Delivered) exec L n user cursor colls db = scan_collections exec L n user cursor colls db"
  by (induction n arbitrary: cursor colls db)
     (auto simp: split: prod.splits list.splits option.splits sum.splits)

lemma answered_scan_all [answered]: "scan_all_collections_io (\<lambda>_. Delivered) = scan_all_collections"
  by (intro ext) (simp add: scan_all_collections_io_def scan_all_collections_def answered)

lemma answered_validate [answered]:
  "validate_entries_io (\<lambda>_. Delivered) E es coll s = validate_entries E es coll s"
  by (induction es arbitrary: coll s) (auto simp: answered Let_def split: prod.splits sum.splits)

lemma answered_handlers [answered]:
  "on_login_io (\<lambda>_. Delivered) E r b s = on_login E r b s" "on_logout_io (\<lambda>_. Delivered) E s = on_logout E s"
  "unlink_io (\<lambda>_. Delivered) E q s = unlink E q s" "post_blob_io (\<lambda>_. Delivered) E q s = post_blob E q s"
  "on_upload_io (\<lambda>_. Delivered) E ru u s = on_upload E ru u s" "post_view_io (\<lambda>_. Delivered) E q s = post_view E q s"
  "handle_get_blob_io (\<lambda>_. Delivered) E q blob s = handle_get_blob E q blob s"
  "handle_query_blob_io (\<lambda>_. Delivered) E q s = handle_query_blob E q s"
  "handle_list_public_io (\<lambda>_. Delivered) E j user s = handle_list_public E j user s"
  "send_collection_list_io (\<lambda>_. Delivered) E user page s = send_collection_list E user page s"
  by (simp_all only: on_login_io_def on_login_def on_logout_io_def on_logout_def unlink_io_def unlink_def
      post_blob_io_def post_blob_def on_upload_io_def on_upload_def post_view_io_def post_view_def handle_get_blob_io_def
      handle_get_blob_def handle_query_blob_io_def handle_query_blob_def handle_list_public_io_def handle_list_public_def
      send_collection_list_io_def send_collection_list_def answered)

lemma answered_dispatch [answered]:
  "scan_collection_io (\<lambda>_. Delivered) E intent s = scan_collection E intent s"
  "query_blob_set_io (\<lambda>_. Delivered) E intent s = query_blob_set E intent s"
  "on_query_io (\<lambda>_. Delivered) E q s = on_query E q s"
  "on_request_api_io (\<lambda>_. Delivered) E req intent s = on_request_api E req intent s"
  "on_request_view_io (\<lambda>_. Delivered) E req intent s = on_request_view E req intent s"
  "on_empty_request_io (\<lambda>_. Delivered) E req intent s = on_empty_request E req intent s"
  by (simp_all only: scan_collection_io_def scan_collection_def query_blob_set_io_def query_blob_set_def on_query_io_def
      on_query_def on_request_api_io_def on_request_api_def on_request_view_io_def on_request_view_def
      on_empty_request_io_def on_empty_request_def validate_collection_def later_answered answered)

text \<open>When every command is answered, these are the handlers of the server.\<close>

lemma answered_handler:
  "on_request_header_io (\<lambda>_. Delivered) E header s0 = on_request_header E header s0 \<and>
   on_request_body_io (\<lambda>_. Delivered) E req s = on_request_body E req s"
  by (simp only: on_request_header_io_def on_request_header_def on_request_body_io_def on_request_body_def answered simp_thms)

section \<open>Failing commands\<close>

named_theorems failed \<open>operations whose commands fail\<close>

lemma failing_cases:
  assumes "failing f"
  obtains "fault_error f \<noteq> No_error" "\<And>h. fault_error f \<noteq> Hrb_error h" "f \<noteq> Delivered"
  using assms by (cases f) (auto simp: failing_def connection_error_def split: error_code.splits)

lemma failing_simps [simp]:
  "failing f \<Longrightarrow> fault_error f \<noteq> No_error" "failing f \<Longrightarrow> fault_error f \<noteq> Hrb_error h" "failing f \<Longrightarrow> f \<noteq> Delivered"
  by (erule failing_cases, simp)+

text \<open>The database after a command that failed.\<close>

definition after_fault :: "fault \<Rightarrow> ('db \<Rightarrow> 'db \<times> redisReply) \<Rightarrow> 'db \<Rightarrow> 'db" where
  "after_fault f cmd db = (case f of Cut _ \<Rightarrow> fst (cmd db) | _ \<Rightarrow> db)"

lemma transmit_failed [failed]: "failing f \<Longrightarrow> transmit f cmd db = (after_fault f cmd db, None, fault_error f)"
  by (cases f) (auto simp: failing_def connection_error_def after_fault_def split: prod.splits)

text \<open>These are the calls that a connection makes outside of transactions (lemma \<open>callback_outcome\<close> of
  Redis_Connection).\<close>

lemma transmit_outcome:
  assumes "f = Delivered \<or> failing f" and "transmit f cmd db = (db', r, ec)"
  shows "outcome r ec" and "ec \<noteq> Hrb_error H_redis_transaction_aborted"
  using assms by (auto simp: transmit_failed outcome_def split: prod.splits)

lemma after_fault_unsent [simp]: "after_fault (Unsent ec) cmd db = db"
  by (simp add: after_fault_def)

lemma empty_reply [simp]:
  "array_size None = 0" "elements None = []" "as_int None = 0" "kv_pairs None = []" "to_int None = Some 0" "as_string None = []"
  by (simp_all add: array_size_def elements_def as_int_def kv_pairs_def to_int_def as_any_string_def as_string_def)

lemma callbacks_failed [failed]:
  "get_collection_callback L user requester coll None ec = ok (empty_coll, Hrb_error H_redis_command_error)"
  "get_blob_callback None ec = (empty_inode_db, [], Hrb_error H_object_not_exist)"
  "get_inode_callback user requester None ec = (empty_inode_db, Hrb_error H_object_not_exist)"
  "list_public_callback L None ec = ok ([], ec)"
  "query_blob_callback L user blob None ec = ok ([], ec)"
  "set_cover_callback None ec = (False, ec)" "ec_callback None ec = ec"
  by (simp_all add: get_collection_callback_def get_blob_callback_def get_inode_callback_def list_public_callback_def
      query_blob_callback_def set_cover_callback_def ec_callback_def bind_r_def)

lemma SendJSON_failed [failed]:
  "ec \<noteq> No_error \<Longrightarrow> SendJSON E s blob page json ec = empty_response St_internal_server_error"
  by (cases json) (simp_all add: SendJSON_def send_json_def bind_r_def)

lemma not_found_db [simp]: "not_found E (s\<lparr>s_db := db\<rparr>) = not_found E s"
  by (simp add: not_found_def)

lemma no_blobs [simp]: "c_blobs empty_coll = []"
  by (simp add: empty_coll_def)

lemmas io_operations = create_session_io_def verify_user_io_def renew_session_io_def verify_session_io_def
  destroy_session_io_def share_resource_io_def is_shared_resource_io_def list_guests_io_def link_blob_io_def
  unlink_blob_io_def move_blob_io_def set_permission_io_def set_cover_io_def get_collection_io_def get_blob_io_def
  get_inode_io_def list_public_blobs_io_def phash_add_io_def

lemmas io_handlers = on_login_io_def on_logout_io_def unlink_io_def post_blob_io_def post_view_io_def
  handle_get_blob_io_def get_blob_reply_def send_collection_list_io_def scan_all_collections_io_def scan_collection_io_def
  handle_query_blob_io_def query_blob_reply_def handle_list_public_io_def query_blob_set_io_def on_query_io_def
  on_request_view_io_def on_empty_request_io_def

section \<open>Responses without a database\<close>

definition succeeded :: "status \<Rightarrow> bool" where
  "succeeded st \<longleftrightarrow> st = St_ok \<or> st = St_created \<or> st = St_no_content"

lemma succeeded_simps [simp]:
  "succeeded St_ok" "succeeded St_created" "succeeded St_no_content" "\<not> succeeded St_not_modified"
  "\<not> succeeded St_bad_request" "\<not> succeeded St_forbidden" "\<not> succeeded St_not_found" "\<not> succeeded St_internal_server_error"
  by (simp_all add: succeeded_def)

text \<open>What a failed handler does: it does not change the user, and its response is no success.\<close>

definition refused :: "'db srv \<Rightarrow> ('db srv \<times> response) option \<Rightarrow> bool" where
  "refused s out = (case out of None \<Rightarrow> True | Some (s', r) \<Rightarrow> s_auth s' = s_auth s \<and> \<not> succeeded (res_status r))"

lemma refused_simps [simp]:
  "refused s None" "refused s (Some (s', r)) \<longleftrightarrow> s_auth s' = s_auth s \<and> \<not> succeeded (res_status r)"
  by (simp_all add: refused_def)

lemma scan_failed [failed]:
  "failing (K 0) \<Longrightarrow> scan_collections_io K exec L (Suc n) user cursor colls db =
     Some (after_fault (K 0) (\<lambda>d. exec d (HSCAN (key_collection_list user) (narrow_int cursor))) db, ok (colls, fault_error (K 0)))"
  by (simp add: failed)

lemma send_collection_list_refused: "failing (K 0) \<Longrightarrow> refused s (send_collection_list_io K E user page s)"
  by (cases "h_scan_fuel E") (simp_all add: refused_def io_handlers failed del: scan_collections_io.simps(2))

lemma reads_refused:
  assumes "failing (K 0)"
  shows "refused s (handle_get_blob_io K E q blob s)" "refused s (on_request_view_io K E req intent s)"
    "refused s (handle_list_public_io K E j user s)"
  using assms by (simp_all add: refused_def io_handlers io_operations failed Let_def set_cache_control_def)

lemma changes_refused:
  assumes "failing (K 0)"
  shows "refused s (on_login_io K E r b s)" "refused s (unlink_io K E q s)" "refused s (post_blob_io K E q s)"
  using assms
  by (auto simp: refused_def io_handlers io_operations failed Let_def complete_status_def split: list.splits option.splits)

lemma web_inject_status [simp]: "res_status (web_inject w st json meta) = st"
  by (simp add: web_inject_def Let_def)

lemma response_status [simp]:
  "res_status (bad_request why) = St_bad_request" "res_status (server_error what) = St_internal_server_error"
  by (simp_all add: bad_request_def server_error_def)

lemma not_found_status: "not_found E s = Some r \<Longrightarrow> res_status r = St_not_found"
  by (auto simp: not_found_def)

lemma not_found_refused [simp]: "s_auth s1 = s_auth s \<Longrightarrow> refused s (map_option (Pair s1) (not_found E s))"
  by (cases "not_found E s") (auto dest: not_found_status)

lemma query_refused:
  assumes "failing (K 0)"
  shows "refused s (on_query_io K E q s)"
proof (cases "i_query_target (br_url q)")
  case QCollection
  then show ?thesis using send_collection_list_refused [of K s E] assms
    by (auto simp: on_query_io_def scan_collection_io_def split: list.splits option.splits)
next
  case QBlob
  then show ?thesis using assms
    by (auto simp: refused_def io_handlers io_operations failed Let_def dest: not_found_status split: list.splits option.splits)
next
  case QBlobSet
  then show ?thesis using assms reads_refused(3) [of K s E]
    by (auto simp: refused_def on_query_io_def query_blob_set_io_def get_collection_io_def failed Let_def
        split: list.splits option.splits prod.splits)
qed (simp add: refused_def on_query_io_def)

lemma upload_refused:
  assumes "failing (K 1)"
  shows "refused s (map_option (\<lambda>(s1, u1, r). (s1\<lparr>s_files := upload_destroy u1 (s_files s1)\<rparr>, r)) (on_upload_io K E req u s))"
  using assms by (simp add: on_upload_io_def link_blob_io_def failed Let_def bind_r_def split: prod.splits sum.splits)

text \<open>The exceptions: a logout, and the two requests of an owner about shares, whose callbacks do
  not look at the error.\<close>

definition unreported :: "'db henv \<Rightarrow> UploadFile request \<Rightarrow> bool" where
  "unreported E req =
     (let intent = URLIntent_of (rq_target req); q = BlobRequest_of req intent
      in if i_action intent = Logout then rq_method req = V_get \<and> rq_body req = Req_empty
         else i_action intent = Api \<and> rq_method req = V_post \<and> br_blob (h_lib E) q = None \<and>
           (case find_fields urlform (br_body q) [''cover'', ''share''] of
              [cover, share] \<Rightarrow> oid_from_hex (h_lib E) cover = None \<and> (share = ''create'' \<or> share = ''list'')
            | _ \<Rightarrow> False))"

lemma post_view_refused:
  assumes "failing (K 0)" and "find_fields urlform (br_body q) [''cover'', ''share''] = [cover, share]"
    and "oid_from_hex (h_lib E) cover \<noteq> None \<or> share \<noteq> ''create'' \<and> share \<noteq> ''list''"
  shows "refused s (post_view_io K E q s)"
  using assms by (auto simp: post_view_io_def set_cover_io_def failed split: option.splits)

lemma post_view_auth: "post_view_io K E q s = Some (s', r) \<Longrightarrow> s_auth s' = s_auth s"
  by (auto simp: post_view_io_def split: if_splits list.splits option.splits prod.splits)

lemma find_fields_length: "length (find_fields F t fs) = length fs"
  by (simp add: find_fields_def)

lemma two_fields: obtains a b where "find_fields F t [x, y] = [a, b]"
proof -
  have "length (find_fields F t [x, y]) = Suc (Suc 0)" by (simp add: find_fields_def)
  then show ?thesis using that by (auto simp: length_Suc_conv)
qed

text \<open>Every request but a static file and the exceptions is refused.\<close>

lemma api_refused:
  assumes "failing (K 0)" and "i_action intent = Api" "intent = URLIntent_of (rq_target req)" and "\<not> unreported E req"
  shows "refused s (on_request_api_io K E req intent s)"
proof (cases "rq_method req")
  case V_get
  then show ?thesis using assms reads_refused(1) [of K s E]
    by (auto simp: on_request_api_io_def get_collection_io_def failed Let_def split: option.splits)
next
  case V_post
  obtain cover share where fields: "find_fields urlform (br_body (BlobRequest_of req intent)) [''cover'', ''share''] = [cover, share]"
    by (rule two_fields)
  show ?thesis using V_post assms fields changes_refused(3) [of K s E] post_view_refused [where K = K and q = "BlobRequest_of req intent", OF assms(1) fields]
    by (auto simp: on_request_api_io_def unreported_def Let_def)
next
  case V_delete
  then show ?thesis using assms(1) changes_refused(2) [of K s E] by (simp add: on_request_api_io_def)
qed (simp_all add: on_request_api_io_def)

lemma refused_discard:
  "refused s out \<Longrightarrow> refused s (map_option (\<lambda>(s1, r). (case b of Req_upload u \<Rightarrow> (s1\<lparr>s_files := upload_destroy u (s_files s1)\<rparr>, r)
     | _ \<Rightarrow> (s1, r))) out)"
  by (cases out; cases b) auto

lemma body_refused:
  assumes down: "\<And>i. failing (K i)" and "\<not> unreported E req" and "i_action (URLIntent_of (rq_target req)) \<noteq> Lib"
  shows "refused s (on_request_body_io K E req s)"
proof -
  let ?i = "URLIntent_of (rq_target req)"
  have empty: "refused s (on_empty_request_io K E req ?i s)" if "rq_body req = Req_empty"
    using down assms(2,3) that send_collection_list_refused [of K s E] reads_refused(3) [of K s E] query_refused [of K s E]
    by (auto simp: on_empty_request_io_def unreported_def split: Action.splits)
  show ?thesis
    using assms changes_refused(1) [of K s E] reads_refused(2) [of K s E] api_refused [of K ?i req E s] empty
      upload_refused [of K s E req]
    by (auto simp: on_request_body_io_def Let_def refused_discard dest: not_found_status split: request_body.splits)
qed

section \<open>The response does not depend on the database\<close>

definition blind :: "('db srv \<Rightarrow> ('db srv \<times> response) option) \<Rightarrow> bool" where
  "blind h \<longleftrightarrow> (\<forall>s db. map_option snd (h (s\<lparr>s_db := db\<rparr>)) = map_option snd (h s))"

lemma blindI: "(\<And>s db. map_option snd (h (s\<lparr>s_db := db\<rparr>)) = map_option snd (h s)) \<Longrightarrow> blind h"
  by (simp add: blind_def)

lemma snd_map_Pair [simp]: "map_option snd (map_option (Pair s) x) = x" "map_option snd (map_option (\<lambda>r. (f r, r)) y) = y"
  by (simp_all add: option.map_comp comp_def option.map_ident)

lemma scan_blind: "failing (K 0) \<Longrightarrow> blind (send_collection_list_io K E user page)"
  by (rule blindI, cases "h_scan_fuel E") (simp_all add: io_handlers failed del: scan_collections_io.simps(2))

lemma reads_blind:
  assumes "failing (K 0)"
  shows "blind (handle_get_blob_io K E q blob)" "blind (on_request_view_io K E req intent)" "blind (handle_list_public_io K E j user)"
  using assms by (auto intro!: blindI simp: io_handlers io_operations failed Let_def)

lemma changes_blind:
  assumes "failing (K 0)"
  shows "blind (on_login_io K E r b)" "blind (unlink_io K E q)" "blind (post_blob_io K E q)" "blind (post_view_io K E q)"
    "blind (on_logout_io K E)"
  using assms
  by (auto intro!: blindI simp: io_handlers io_operations failed Let_def option.map_comp comp_def split: list.splits option.splits)

lemma blindD: "blind h \<Longrightarrow> map_option snd (h (s\<lparr>s_db := db\<rparr>)) = map_option snd (h s)"
  by (simp add: blind_def)

lemma query_blind:
  assumes "failing (K 0)"
  shows "blind (on_query_io K E q)"
proof (rule blindI)
  fix s db
  note rules = scan_blind [where K = K, OF assms, THEN blindD] reads_blind(3) [where K = K, OF assms, THEN blindD]
  show "map_option snd (on_query_io K E q (s\<lparr>s_db := db\<rparr>)) = map_option snd (on_query_io K E q s)"
  proof (cases "i_query_target (br_url q)")
    case QCollection
    then show ?thesis by (auto simp: on_query_io_def scan_collection_io_def rules split: list.splits option.splits)
  next
    case QBlob
    then show ?thesis using assms
      by (auto simp: io_handlers io_operations failed Let_def split: list.splits option.splits)
  next
    case QBlobSet
    then show ?thesis using assms
      by (auto simp: on_query_io_def query_blob_set_io_def get_collection_io_def failed rules
          split: list.splits option.splits prod.splits)
  qed (simp add: on_query_io_def)
qed

lemma upload_blind:
  assumes "failing (K 1)"
  shows "blind (\<lambda>s. map_option (\<lambda>(s1, u1, r). (s1\<lparr>s_files := upload_destroy u1 (s_files s1)\<rparr>, r)) (on_upload_io K E req u s))"
  using assms
  by (auto intro!: blindI simp: on_upload_io_def link_blob_io_def link_command_def failed Let_def bind_r_def split: prod.splits sum.splits)

lemma api_blind:
  assumes "\<And>i. failing (K i)"
  shows "blind (on_request_api_io K E req intent)"
proof (rule blindI)
  fix s db
  show "map_option snd (on_request_api_io K E req intent (s\<lparr>s_db := db\<rparr>)) = map_option snd (on_request_api_io K E req intent s)"
    using assms by (auto simp: on_request_api_io_def get_collection_io_def failed Let_def
        changes_blind [THEN blindD] reads_blind [THEN blindD] split: verb.splits option.splits)
qed

lemma snd_discard [simp]: "map_option snd (map_option (\<lambda>(s1, r). (f s1, r)) x) = map_option snd x"
  by (cases x) auto

lemma body_blind:
  assumes down: "\<And>i. failing (K i)"
  shows "blind (on_request_body_io K E req)"
proof (rule blindI)
  fix s db
  let ?i = "URLIntent_of (rq_target req)"
  have "map_option snd (on_empty_request_io K E req ?i (s\<lparr>s_db := db\<rparr>)) = map_option snd (on_empty_request_io K E req ?i s)"
    using down by (auto simp: on_empty_request_io_def scan_blind [THEN blindD] reads_blind [THEN blindD]
        query_blind [THEN blindD] changes_blind [THEN blindD] split: Action.splits)
  then show "map_option snd (on_request_body_io K E req (s\<lparr>s_db := db\<rparr>)) = map_option snd (on_request_body_io K E req s)"
    using down by (simp add: on_request_body_io_def Let_def api_blind [THEN blindD] reads_blind [THEN blindD]
        changes_blind [THEN blindD] upload_blind [THEN blindD] option.map_id split: request_body.splits)
qed

section \<open>Some commands fail\<close>

definition faulty :: "faults \<Rightarrow> bool" where
  "faulty K \<longleftrightarrow> (\<forall>i. K i = Delivered \<or> failing (K i))"

lemma faultyD: "faulty K \<Longrightarrow> K i = Delivered \<or> failing (K i)"
  by (simp add: faulty_def)

lemma faulty_later [simp]: "faulty K \<Longrightarrow> faulty (later K)"
  by (simp add: faulty_def later_def)

text \<open>A success on a faulty connection is what the handler does without faults: the same response and
  state. With \<^term>\<open>bg\<close> only the user is the same: the handler also sends commands whose replies nobody
  reads, and what they leave is the subject of \<open>body_spared\<close> below.\<close>

definition honest :: "bool \<Rightarrow> ('db srv \<times> response) option \<Rightarrow> ('db srv \<times> response) option \<Rightarrow> bool" where
  "honest bg out out0 = (case out of
       None \<Rightarrow> True
     | Some (s', r) \<Rightarrow> succeeded (res_status r) \<longrightarrow>
         (\<exists>s0. out0 = Some (s0, r) \<and> s_auth s0 = s_auth s' \<and> (bg \<or> s0 = s')))"

lemma honest_simps [simp]:
  "honest bg None out0"
  "honest bg (Some (s', r)) out0 \<longleftrightarrow> (succeeded (res_status r) \<longrightarrow>
     (\<exists>s0. out0 = Some (s0, r) \<and> s_auth s0 = s_auth s' \<and> (bg \<or> s0 = s')))"
  by (simp_all add: honest_def)

lemma honest_same [simp]: "honest bg out out"
  by (cases out) auto

lemma honest_refused: "refused s out \<Longrightarrow> honest bg out out0"
  by (cases out) auto

text \<open>A handler with one command either gets its reply or refuses.\<close>

lemma honest_single:
  assumes "faulty K" and "K 0 = Delivered \<Longrightarrow> out = out0" and "failing (K 0) \<Longrightarrow> refused s out"
  shows "honest bg out out0"
  using faultyD [OF assms(1), of 0] assms(2,3) honest_refused by auto

lemma scan_honest:
  assumes "faulty K" and "scan_collections_io K exec L n user cursor colls db = Some (db', Inr (c, No_error))"
  shows "scan_collections exec L n user cursor colls db = Some (db', Inr (c, No_error))"
  using assms
proof (induction n arbitrary: K cursor colls db)
  case (Suc n)
  have "K 0 = Delivered" using faultyD [OF Suc.prems(1), of 0] Suc.prems(2) by (auto simp: failed)
  then show ?case using Suc.prems(2) Suc.IH [OF faulty_later [OF Suc.prems(1)]]
    by (auto split: prod.splits list.splits option.splits sum.splits if_splits)
qed simp

lemma verify_user_honest:
  assumes "faulty K" and "verify_user_io K exec kdf random name password n db = Some (db', No_error, uid)"
  shows "verify_user exec kdf random name password n db = Some (db', No_error, uid)"
proof -
  have 0: "K 0 = Delivered" using faultyD [OF assms(1), of 0] assms(2) by (auto simp: verify_user_io_def failed Let_def)
  show ?thesis
  proof (cases "K 1 = Delivered")
    case True
    with 0 have "verify_user_io K = (verify_user_io (\<lambda>_. Delivered) :: ('a \<Rightarrow> rcmd \<Rightarrow> 'a \<times> redisReply) \<Rightarrow> _)"
      by (intro ext) (simp only: verify_user_io_def)
    then show ?thesis using assms(2) by (simp add: answered)
  next
    case False
    then have "failing (K 1)" using faultyD [OF assms(1), of 1] by simp
    with 0 show ?thesis using assms(2)
      by (auto simp: verify_user_io_def create_session_io_def failed Let_def split: prod.splits option.splits if_splits)
  qed
qed

lemma verify_session_honest:
  assumes "faulty K" and "verify_session_io K exec random cookie n db = (db', No_error, uid)"
  shows "verify_session exec random cookie n db = (db', No_error, uid)"
proof -
  have 0: "K 0 = Delivered" using faultyD [OF assms(1), of 0] assms(2) by (auto simp: verify_session_io_def failed)
  show ?thesis
  proof (cases "K 1 = Delivered")
    case True
    with 0 have "verify_session_io K = (verify_session_io (\<lambda>_. Delivered) :: ('a \<Rightarrow> rcmd \<Rightarrow> 'a \<times> redisReply) \<Rightarrow> _)"
      by (intro ext) (simp only: verify_session_io_def)
    then show ?thesis using assms(2) by (simp add: answered)
  next
    case False
    then have "failing (K 1)" using faultyD [OF assms(1), of 1] by simp
    with 0 show ?thesis using assms(2)
      by (auto simp: verify_session_io_def verify_session_def renew_session_io_def failed Let_def
          split: prod.splits list.splits if_splits)
  qed
qed

lemma SendJSON_auth:
  assumes "s_auth s = s_auth t"
  shows "SendJSON E s = SendJSON E t"
  by (intro ext) (simp only: SendJSON_def send_json_def decorate_def page_meta_def assms)

lemma SendJSON_succeeded: "succeeded (res_status (SendJSON E s blob page json ec)) \<Longrightarrow> ec = No_error"
  using SendJSON_failed [of ec E s blob page json] by (cases "ec = No_error") auto

lemma validate_faults:
  assumes "validate_entries_io K E es c s = Some (s1, c1)" and "s_auth t = s_auth s" "s_files t = s_files s"
  shows "\<exists>t1. validate_entries E es c t = Some (t1, c1) \<and> s_auth t1 = s_auth s1"
  using assms
proof (induction es arbitrary: K c s t)
  case (Cons e es)
  obtain i x where e: "e = (i, x)" by (cases e)
  obtain fs b where b: "update_meta (h_lib E) (h_blobs E) (find_blob (h_lib E) (h_blobs E) i) (s_files s) = (fs, b)"
    by (metis surj_pair)
  show ?case
    using Cons.prems Cons.IH e b
    by (cases "bi_timestamp x = 0"; cases "inodedb_create_fields (h_lib E) (x\<lparr>bi_timestamp := original_datetime b\<rparr>)")
       (auto simp: update_blob_io_def update_blob_def bind_r_def Let_def)
qed simp

lemma login_honest:
  assumes "faulty K"
  shows "honest bg (on_login_io K E r b s) (on_login E r b s)"
proof -
  obtain name password where f: "find_fields urlform b [''username'', ''password''] = [name, password]" by (rule two_fields)
  let ?io = "verify_user_io K (h_exec E) (h_kdf E) (h_random E) name password (h_session_length E) (s_db s)"
  show ?thesis
  proof (cases "\<exists>db uid. ?io = Some (db, No_error, uid)")
    case True
    then obtain db uid where "?io = Some (db, No_error, uid)" by blast
    then show ?thesis using verify_user_honest [OF assms, of "h_exec E"] by (simp add: on_login_io_def on_login_def f Let_def)
  next
    case False
    then show ?thesis by (auto simp: on_login_io_def on_login_def f Let_def split: option.splits)
  qed
qed

lemma send_collection_list_honest:
  assumes "faulty K"
  shows "honest bg (send_collection_list_io K E user page s) (send_collection_list E user page s)"
  using scan_honest [OF assms, of "h_exec E" "h_lib E" "h_scan_fuel E" user 0 "[]" "s_db s"]
  by (auto simp: send_collection_list_io_def send_collection_list_def scan_all_collections_io_def scan_all_collections_def
      dest!: SendJSON_succeeded split: option.splits prod.splits sum.splits)

lemma upload_delivered:
  assumes "K 1 = Delivered"
  shows "map_option (\<lambda>(s1, u1, r). (s_auth s1, r)) (on_upload_io K E req u s) =
    map_option (\<lambda>(s1, u1, r). (s_auth s1, r)) (on_upload E req u s)"
proof -
  obtain fs u1 blob saved where sv: "save (h_lib E) (h_blobs E) u (s_files s) = (fs, u1, blob, saved)" by (metis surj_pair)
  have link: "link_blob_io (K 1) exec L user coll b entry db = (case inodedb_create_fields L entry of Inl e \<Rightarrow> Inl e
      | Inr raw \<Rightarrow> Inr (fst (eval (link_script exec L user coll b raw
          (if bi_filename entry = [] then ''hello'' else bi_filename entry)) db), No_error))"
    for exec :: "'a \<Rightarrow> rcmd \<Rightarrow> 'a \<times> redisReply" and L user coll b entry db
    unfolding assms(1)
    by (cases "inodedb_create_fields L entry") (simp_all add: link_blob_io_def link_command_def bind_r_def ec_callback_def Let_def case_prod_unfold)
  note link0 = link [unfolded assms(1) answered_ownership]
  show ?thesis unfolding on_upload_io_def on_upload_def Let_def link link0 sv prod.case
    by (simp del: transmit.simps split: sum.split)
qed

lemma upload_honest:
  assumes "faulty K"
  shows "honest True (map_option (\<lambda>(s1, u1, r). (s1\<lparr>s_files := upload_destroy u1 (s_files s1)\<rparr>, r)) (on_upload_io K E req u s))
    (map_option (\<lambda>(s1, u1, r). (s1\<lparr>s_files := upload_destroy u1 (s_files s1)\<rparr>, r)) (on_upload E req u s))"
proof (cases "K 1 = Delivered")
  case True
  show ?thesis using upload_delivered [where K = K, OF True, of E req u s]
    by (cases "on_upload_io K E req u s"; cases "on_upload E req u s") auto
next
  case False
  then have "failing (K 1)" using faultyD [OF assms, of 1] by simp
  then show ?thesis by (rule honest_refused [where s = s, OF upload_refused [where K = K]])
qed

lemma single_delivered:
  assumes "K 0 = Delivered"
  shows "handle_get_blob_io K E q blob s = handle_get_blob E q blob s" "unlink_io K E q s = unlink E q s"
    "post_blob_io K E q s = post_blob E q s" "post_view_io K E q s = post_view E q s"
    "on_request_view_io K E req intent s = on_request_view E req intent s"
    "handle_list_public_io K E j user s = handle_list_public E j user s"
    "handle_query_blob_io K E q s = handle_query_blob E q s" "query_blob_set_io K E intent s = query_blob_set E intent s"
  by (simp_all only: handle_get_blob_io_def handle_get_blob_def unlink_io_def unlink_def post_blob_io_def post_blob_def
      post_view_io_def post_view_def on_request_view_io_def on_request_view_def handle_list_public_io_def
      handle_list_public_def handle_query_blob_io_def handle_query_blob_def query_blob_set_io_def query_blob_set_def
      assms answered)

lemma query_honest:
  assumes "faulty K"
  shows "honest bg (on_query_io K E q s) (on_query E q s)"
proof (cases "i_query_target (br_url q) = QCollection")
  case True
  then show ?thesis using send_collection_list_honest [OF assms]
    by (auto simp: on_query_io_def on_query_def scan_collection_io_def scan_collection_def split: list.splits option.splits)
next
  case False
  have "on_query_io K E q s = on_query E q s" if "K 0 = Delivered"
    using False that by (cases "i_query_target (br_url q)") (simp_all add: on_query_io_def on_query_def single_delivered)
  then show ?thesis using query_refused [of K s E q] by (intro honest_single [OF assms, of _ _ s])
qed

lemma api_honest:
  assumes K: "faulty K" and api: "i_action intent = Api" "intent = URLIntent_of (rq_target req)" "\<not> unreported E req"
  shows "honest (rq_method req = V_get \<and> br_blob (h_lib E) (BlobRequest_of req intent) = None) (on_request_api_io K E req intent s) (on_request_api E req intent s)"
proof (cases "K 0 = Delivered")
  case False
  then show ?thesis using faultyD [OF K, of 0] api_refused [OF _ api] by (auto intro: honest_refused)
next
  case delivered: True
  let ?q = "BlobRequest_of req intent"
  show ?thesis
  proof (cases "rq_method req = V_get \<and> br_blob (h_lib E) ?q = None")
    case False
    then show ?thesis by (cases "rq_method req") (auto simp: on_request_api_io_def on_request_api_def Let_def single_delivered [where K = K, OF delivered])
  next
    case get: True
    let ?get = "get_collection (h_exec E) (h_lib E) (br_owner ?q) (s_auth s) (br_collection ?q) (s_db s)"
    have io: "get_collection_io (K 0) (h_exec E) (h_lib E) (br_owner ?q) (s_auth s) (br_collection ?q) (s_db s) = ?get"
      by (simp add: delivered answered)
    obtain db res where g: "?get = (db, res)" by (cases ?get)
    show ?thesis
    proof (cases res)
      case (Inr x)
      obtain coll ec where x: "x = (coll, ec)" by (cases x)
      show ?thesis
      proof (cases "validate_entries_io (later K) E (c_blobs coll) coll (s\<lparr>s_db := db\<rparr>)")
        case (Some v)
        obtain s1 c1 where v: "v = (s1, c1)" by (cases v)
        then obtain t1 where t1: "validate_entries E (c_blobs coll) coll (s\<lparr>s_db := db\<rparr>) = Some (t1, c1)" "s_auth t1 = s_auth s1"
          using validate_faults [OF Some [unfolded v], of "s\<lparr>s_db := db\<rparr>"] by auto
        then show ?thesis
          using get by (simp add: on_request_api_io_def on_request_api_def Let_def io g Inr x validate_collection_def Some v
              SendJSON_auth [OF t1(2)])
      qed (use get in \<open>simp add: on_request_api_io_def Let_def io g Inr x\<close>)
    qed (use get in \<open>simp add: on_request_api_io_def Let_def io g\<close>)
  qed
qed

lemma honest_discard:
  "honest bg out out0 \<Longrightarrow> honest bg (map_option (\<lambda>(s1, r). (case b of Req_upload u \<Rightarrow> (s1\<lparr>s_files := upload_destroy u (s_files s1)\<rparr>, r)
     | _ \<Rightarrow> (s1, r))) out)
   (map_option (\<lambda>(s1, r). (case b of Req_upload u \<Rightarrow> (s1\<lparr>s_files := upload_destroy u (s_files s1)\<rparr>, r) | _ \<Rightarrow> (s1, r))) out0)"
  by (cases out; cases b) auto

text \<open>An upload also indexes the hash of the picture, and the listing of a collection corrects the
  times that are missing; the replies to these commands, and to no others, are ignored.\<close>

definition ignored :: "'db henv \<Rightarrow> UploadFile request \<Rightarrow> nat \<Rightarrow> bool" where
  "ignored E req i =
     (let intent = URLIntent_of (rq_target req)
      in if i_action intent = Upload then i = 0
         else i_action intent = Api \<and> rq_method req = V_get \<and> br_blob (h_lib E) (BlobRequest_of req intent) = None \<and> 0 < i)"

text \<open>The faults that hit the ignored commands, with all other commands answered.\<close>

definition spare :: "'db henv \<Rightarrow> UploadFile request \<Rightarrow> faults \<Rightarrow> faults" where
  "spare E req K i = (if ignored E req i then K i else Delivered)"

lemma body_honest:
  assumes K: "faulty K" and "\<not> unreported E req"
  shows "honest (\<exists>i. ignored E req i) (on_request_body_io K E req s) (on_request_body E req s)"
proof -
  let ?i = "URLIntent_of (rq_target req)"
  have bg: "(\<exists>i. ignored E req i) \<longleftrightarrow> i_action ?i = Upload \<or>
      i_action ?i = Api \<and> rq_method req = V_get \<and> br_blob (h_lib E) (BlobRequest_of req ?i) = None"
    by (auto simp: ignored_def Let_def)
  have single: "honest bg (handle_list_public_io K E j user s) (handle_list_public E j user s)"
    "honest bg (on_request_view_io K E req ?i s) (on_request_view E req ?i s)" for bg j user
    by (rule honest_single [OF K, of _ _ s], simp add: single_delivered, simp add: reads_refused)+
  have empty: "honest bg (on_empty_request_io K E req ?i s) (on_empty_request E req ?i s)" if "rq_body req = Req_empty" for bg
    using that assms(2) send_collection_list_honest [OF K] query_honest [OF K] single
    by (auto simp: on_empty_request_io_def on_empty_request_def unreported_def split: Action.splits)
  show ?thesis
  proof (cases "i_action ?i = View \<or> i_action ?i = Api")
    case True
    then show ?thesis using api_honest [OF K _ refl assms(2), of s] single(2)
      by (auto simp: on_request_body_io_def on_request_body_def bg Let_def honest_discard)
  next
    case False
    then show ?thesis using login_honest [OF K, of _ E req _ s] empty upload_honest [OF K, of E req _ s]
      by (cases "rq_body req") (simp_all add: on_request_body_io_def on_request_body_def bg Let_def)
  qed
qed

text \<open>Only the ignored commands can have failed when a success is reported.\<close>

lemma upload_two: "K 0 = K' 0 \<Longrightarrow> K 1 = K' 1 \<Longrightarrow> on_upload_io K E req u s = on_upload_io K' E req u s"
  by (simp only: on_upload_io_def)

lemma body_spared:
  assumes K: "faulty K" and "\<not> unreported E req"
    and run: "on_request_body_io K E req s = Some (s', r)" "succeeded (res_status r)"
  shows "on_request_body_io (spare E req K) E req s = Some (s', r)"
proof -
  let ?i = "URLIntent_of (rq_target req)"
  consider (none) "\<forall>i. \<not> ignored E req i" | (upload) "i_action ?i = Upload"
    | (get) "i_action ?i = Api" "rq_method req = V_get" "br_blob (h_lib E) (BlobRequest_of req ?i) = None"
    unfolding ignored_def Let_def by metis
  then show ?thesis
  proof cases
    case none
    then have "spare E req K = (\<lambda>_. Delivered)" by (simp add: spare_def fun_eq_iff)
    then show ?thesis using body_honest [OF assms(1,2), of s] run none by (simp add: answered_handler)
  next
    case upload
    show ?thesis
    proof (cases "\<exists>u. rq_body req = Req_upload u")
      case True
      then obtain u where u: "rq_body req = Req_upload u" by blast
      have "K 1 = Delivered"
        using upload_refused [of K s E req u] faultyD [OF K, of 1] run upload u by (auto simp: on_request_body_io_def Let_def)
      then have "on_upload_io K E req u s = on_upload_io (spare E req K) E req u s"
        by (intro upload_two) (simp_all add: spare_def ignored_def upload)
      then show ?thesis using run(1) by (simp add: on_request_body_io_def upload u)
    next
      case False
      then show ?thesis using run(1) upload by (cases "rq_body req") (auto simp: on_request_body_io_def on_empty_request_io_def Let_def)
    qed
  next
    case get
    have "K 0 = Delivered"
    proof (rule ccontr)
      assume "K 0 \<noteq> Delivered"
      then have "refused s (on_request_body_io K E req s)"
        using api_refused [OF _ get(1) refl assms(2)] faultyD [OF K, of 0] get(1)
        by (simp add: on_request_body_io_def Let_def refused_discard)
      then show False using run by simp
    qed
    then have "spare E req K = K" by (auto simp: spare_def ignored_def get fun_eq_iff Let_def)
    then show ?thesis using run(1) by simp
  qed
qed

lemma header_honest:
  assumes K: "faulty K" and run: "on_request_header_io K E header s0 = Some (s, body, No_error)"
  shows "on_request_header E header s0 = Some (s, body, No_error)"
proof -
  have shared: "is_shared_resource exec time uid resource db = Some (db', sh, No_error)"
    if "is_shared_resource_io (K 0) exec time uid resource db = Some (db', sh, No_error)"
    for exec :: "'a \<Rightarrow> rcmd \<Rightarrow> 'a \<times> redisReply" and time uid resource db db' sh
    using faultyD [OF K, of 0] that
    by (cases "K 0 = Delivered") (simp_all add: answered is_shared_resource_io_def [of "K 0"] failed)
  show ?thesis
  proof (cases "parse_cookie (h_lib E) (Cookie (rq_fields header ''Cookie''))")
    case None
    then show ?thesis using run
      by (auto simp: on_request_header_io_def on_request_header_def Let_def dest!: shared split: if_splits option.splits)
  next
    case (Some cookie)
    then show ?thesis using run
      by (auto simp: on_request_header_io_def on_request_header_def Let_def dest!: verify_session_honest [OF K] split: if_splits prod.splits)
  qed
qed

section \<open>The exceptions\<close>

lemma unreported_cases:
  assumes "unreported E req"
  obtains (logout) "on_request_body_io K E req s = on_logout_io K E s" "i_action (URLIntent_of (rq_target req)) = Logout"
  | (share) share where "on_request_body_io K E req s =
        map_option (\<lambda>(s1, r). (case rq_body req of Req_upload u \<Rightarrow> (s1\<lparr>s_files := upload_destroy u (s_files s1)\<rparr>, r) | _ \<Rightarrow> (s1, r)))
          (post_view_io K E (BlobRequest_of req (URLIntent_of (rq_target req))) s)"
      "i_action (URLIntent_of (rq_target req)) = Api" "share = ''create'' \<or> share = ''list''"
      "\<exists>cover. find_fields urlform (br_body (BlobRequest_of req (URLIntent_of (rq_target req)))) [''cover'', ''share''] = [cover, share] \<and>
         oid_from_hex (h_lib E) cover = None"
proof (cases "i_action (URLIntent_of (rq_target req)) = Logout")
  case True
  then show ?thesis using assms logout by (simp add: unreported_def on_request_body_io_def on_empty_request_io_def Let_def)
next
  case False
  obtain cover shared where "find_fields urlform (br_body (BlobRequest_of req (URLIntent_of (rq_target req)))) [''cover'', ''share''] = [cover, shared]"
    by (rule two_fields)
  with False show ?thesis using assms
    by (intro share [of shared]) (auto simp: unreported_def on_request_body_io_def on_request_api_io_def Let_def)
qed

lemma discard_auth:
  "map_option (\<lambda>(s1, r). (case b of Req_upload u \<Rightarrow> (s1\<lparr>s_files := upload_destroy u (s_files s1)\<rparr>, r) | _ \<Rightarrow> (s1, r))) out = Some (s', res) \<Longrightarrow>
   \<exists>s1. out = Some (s1, res) \<and> s_auth s' = s_auth s1 \<and> s_db s' = s_db s1"
  by (cases b) auto

lemma unreported_auth:
  assumes "unreported E req" and "on_request_body_io K E req s = Some (s', res)"
  shows "s_auth s' = s_auth s \<or> s_auth s' = no_user"
  using assms(1)
proof (cases rule: unreported_cases [where K = K and s = s])
  case logout
  then show ?thesis using assms(2) by (auto simp: on_logout_io_def split: prod.splits)
next
  case share
  then show ?thesis using discard_auth [OF assms(2) [unfolded share(1)]] post_view_auth by metis
qed

lemma static_auth:
  "i_action (URLIntent_of (rq_target req)) = Lib \<Longrightarrow> on_request_body_io K E req s = Some (s', res) \<Longrightarrow> s_auth s' = s_auth s"
  by (auto simp: on_request_body_io_def on_empty_request_io_def Let_def split: request_body.splits if_splits)

section \<open>Properties\<close>

text \<open>C10: A database that fails makes the server refuse, not lie. On a connection on which any of the
  commands fail, before or after the server has run them, a header that is accepted gives the state and the
  user that it gives without faults. When a response to a body reports a success, the request gets the same
  response, for the same user, without faults, and the database and the files afterwards are exactly those of a run in
  which every command was answered but the ones whose replies the handler ignores: the first command of an upload,
  which indexes the perceptual hash, and those after the first of a listing, which fill in missing times.
  A request without such commands has exactly the effect that it has without faults. The exceptions are the logout and the
  two requests about shares, which report a success in any case.\<close>

theorem failures_reported:
  assumes "\<And>i. K i = Delivered \<or> failing (K i)"
  shows "(on_request_header_io K E header s0 = Some (s1, body, No_error) \<longrightarrow>
      on_request_header E header s0 = Some (s1, body, No_error)) \<and>
    (on_request_body_io K E req s = Some (s', res) \<and> succeeded (res_status res) \<and> \<not> unreported E req \<longrightarrow>
      on_request_body_io (\<lambda>i. if ignored E req i then K i else Delivered) E req s = Some (s', res) \<and>
      (\<exists>t. on_request_body E req s = Some (t, res) \<and> s_auth t = s_auth s' \<and> ((\<exists>i. ignored E req i) \<or> t = s')))"
proof -
  have K: "faulty K" using assms by (simp add: faulty_def)
  have "(\<lambda>i. if ignored E req i then K i else Delivered) = spare E req K" by (simp add: spare_def fun_eq_iff)
  then show ?thesis using header_honest [OF K] body_honest [OF K, of E req s] body_spared [OF K, of E req s s' res] by auto
qed

text \<open>The faults of the examples: the connection breaks after a command was sent, or before.\<close>

definition demo_faults :: faults where
  "demo_faults i = (if i = 1 then Delivered else Cut (System_error 104))"

lemma failing_system [simp]: "failing (Cut (System_error n))" "failing (Unsent (System_error n))"
  by (simp_all add: failing_def connection_error_def)

theorem failures_reported_witness:
  "\<exists>s' res t. on_request_body_io demo_faults demo_henv demo_upload demo_upload_srv = Some (s', res) \<and>
     res_status res = St_created \<and> on_request_body demo_henv demo_upload demo_upload_srv = Some (t, res) \<and> s_auth t = s_auth s'"
proof -
  obtain t r where "on_request_body demo_henv demo_upload demo_upload_srv = Some (t, r)" "res_status r = St_created"
    using demo_upload_runs by blast
  then obtain s' where run: "on_request_body_io demo_faults demo_henv demo_upload demo_upload_srv = Some (s', r)"
    using upload_delivered [of demo_faults demo_henv demo_upload demo_file demo_upload_srv]
    by (auto simp: on_request_body_def on_request_body_io_def demo_upload_def demo_upload_intent demo_faults_def Let_def)
  have "\<not> unreported demo_henv demo_upload" by (simp add: unreported_def demo_upload_def demo_upload_intent)
  then have ok: "on_request_body_io demo_faults demo_henv demo_upload demo_upload_srv = Some (s', r) \<and> succeeded (res_status r) \<and>
      \<not> unreported demo_henv demo_upload" using run \<open>res_status r = St_created\<close> by simp
  have "\<And>i. demo_faults i = Delivered \<or> failing (demo_faults i)" by (simp add: demo_faults_def)
  then have "\<exists>t. on_request_body demo_henv demo_upload demo_upload_srv = Some (t, r) \<and> s_auth t = s_auth s' \<and>
      ((\<exists>i. ignored demo_henv demo_upload i) \<or> t = s')"
    by (rule failures_reported [THEN conjunct2, THEN mp, OF _ ok, THEN conjunct2])
  then show ?thesis using run \<open>res_status r = St_created\<close> by auto
qed

text \<open>C11: Without its database the server discloses nothing. When every command fails, the response to
  a request does not depend on what the database holds, nobody gains an identity, and no request but
  one for a static file, a logout or a request about shares is answered with a success.\<close>

theorem failure_discloses_nothing:
  assumes "\<And>i. failing (K i)"
  shows "map_option snd (on_request_body_io K E req (s\<lparr>s_db := db\<rparr>)) = map_option snd (on_request_body_io K E req s) \<and>
    (on_request_body_io K E req s = Some (s', res) \<longrightarrow>
      (s_auth s' = s_auth s \<or> s_auth s' = no_user) \<and>
      (succeeded (res_status res) \<longrightarrow> unreported E req \<or> i_action (URLIntent_of (rq_target req)) = Lib))"
proof -
  have refuses: "refused s (on_request_body_io K E req s)"
    if "\<not> unreported E req" "i_action (URLIntent_of (rq_target req)) \<noteq> Lib"
    using assms that by (rule body_refused)
  then have "s_auth s' = s_auth s \<or> s_auth s' = no_user" if "on_request_body_io K E req s = Some (s', res)"
    using that unreported_auth [OF _ that] static_auth [OF _ that] by auto
  moreover have "blind (on_request_body_io K E req)" using assms by (rule body_blind)
  ultimately show ?thesis using refuses by (cases "unreported E req \<or> i_action (URLIntent_of (rq_target req)) = Lib") (auto simp: blindD)
qed

theorem failure_discloses_nothing_witness:
  "map_option snd (on_request_body_io (\<lambda>_. Cut (System_error 104)) demo_henv (demo_request V_get)
       (demo_srv (UserID_of cookie1 ''sumsum'' False))) = Some (empty_response St_not_found) \<and>
   map_option snd (on_request_body_io (\<lambda>_. Cut (System_error 104)) demo_henv (demo_request V_get)
     ((demo_srv (UserID_of cookie1 ''sumsum'' False))\<lparr>s_db := empty_db\<rparr>)) = Some (empty_response St_not_found)"
proof -
  have "br_etag (BlobRequest_of (demo_request V_get) (URLIntent_of demo_target)) \<noteq> to_quoted_hex ref_lib demo_oid"
    by (simp add: BlobRequest_of_def demo_request_def to_quoted_hex_def)
  then have "map_option snd (on_request_body_io (\<lambda>_. Cut (System_error 104)) demo_henv (demo_request V_get)
      (demo_srv (UserID_of cookie1 ''sumsum'' False))) = Some (empty_response St_not_found)"
    by (simp add: on_request_body_io_def on_request_api_io_def handle_get_blob_io_def get_blob_reply_def get_blob_io_def failed
        demo_request_def demo_intent demo_henv_def demo_srv_def br_blob_def BlobRequest_of_def request_by_owner_def UserID_of_def Let_def)
  then show ?thesis
    using failure_discloses_nothing [of "\<lambda>_. Cut (System_error 104)" demo_henv "demo_request V_get" empty_db
        "demo_srv (UserID_of cookie1 ''sumsum'' False)"]
    by simp
qed

text \<open>The link of a share, as the server reads it.\<close>

lemma share_link_parsed:
  assumes "hex_codec L" and "length auth = SessionID_size" and "owner \<noteq> []" "segment owner" "no_end_slash coll"
  defines "i \<equiv> URLIntent_of (intent_str (URLIntent_name View owner coll [] (''auth='' @ to_hex L auth)))"
  shows "i_action i = View" "i_user i = owner" "i_coll i = coll"
    "hex_to_array L SessionID_size (hd (find_fields urlform (i_option i) [''auth''])) = Some auth"
proof -
  have "trim owner = owner" "trim coll = coll" "trim [] = []"
    using assms(3-5) by (auto simp: trim_def segment_def no_end_slash_def intro!: trim_both_id dest: last_in_set hd_in_set)
  then have "URLIntent_name View owner coll [] (''auth='' @ to_hex L auth) =
      \<lparr>i_action = View, i_user = owner, i_coll = coll, i_filename = [], i_option = ''auth='' @ to_hex L auth, i_query_target = QNone, i_valid = True\<rparr>"
    by (simp add: URLIntent_name_def empty_intent_def)
  then have i: "i = \<lparr>i_action = View, i_user = owner, i_coll = coll, i_filename = [], i_option = ''auth='' @ to_hex L auth, i_query_target = QNone, i_valid = True\<rparr>"
    using URLIntent_of_str assms(3-5) by (simp add: i_def)
  have "set (to_hex L auth) \<inter> set '';&'' = {}"
    using hex_codec.set_hex_lower [OF assms(1), of auth] by (auto simp: to_hex_def hex_lower_digits_def)
  then have "fields_of urlform (''auth'' @ CHR ''='' # to_hex L auth) = [(''auth'', to_hex L auth)]"
    using uf.fields_of_single [of "''auth''" "to_hex L auth"] by (simp add: urlform_def)
  then have "last_value urlform (''auth='' @ to_hex L auth) ''auth'' = Some (to_hex L auth)" by (simp add: last_value_def)
  then have "hd (find_fields urlform (''auth='' @ to_hex L auth) [''auth'']) = to_hex L auth"
    using find_fields_nth [of "[''auth'']" 0 urlform "''auth='' @ to_hex L auth"] find_fields_length [of urlform "''auth='' @ to_hex L auth" "[''auth'']"]
    by (cases "find_fields urlform (''auth='' @ to_hex L auth) [''auth'']") simp_all
  then show "i_action i = View" "i_user i = owner" "i_coll i = coll"
    "hex_to_array L SessionID_size (hd (find_fields urlform (i_option i) [''auth''])) = Some auth"
    using hex_codec.hex_to_array_to_hex [OF assms(1,2)] by (simp_all add: i)
qed

text \<open>A guest whose session is not in the table of the collection stays anonymous.\<close>

lemma unknown_guest:
  assumes "redis_server (h_exec E) view ttl" and "is_hash (view db (key_shared_auth owner coll))"
    and "hash_of (view db (key_shared_auth owner coll)) auth = None" and "0 \<le> h_now E" and "owner \<noteq> []"
    and "i = URLIntent_of (rq_target header)" "i_action i = View" "i_user i = owner" "i_coll i = coll"
    and "hex_to_array (h_lib E) SessionID_size (hd (find_fields urlform (i_option i) [''auth''])) = Some auth"
    and "rq_method header = V_get" "parse_cookie (h_lib E) (Cookie (rq_fields header ''Cookie'')) = None"
  shows "\<exists>t. on_request_header E header (new_handler db fs) = Some (t, RB_empty, No_error) \<and> s_auth t = no_user"
proof -
  let ?uid = "UserID_of auth owner True"
  have uid: "m_user ?uid = owner" "m_session ?uid = auth" using assms(5) by (simp_all add: UserID_of_def)
  have "0 \<le> h_now E sdiv 10 ^ 9" using assms(4) by (simp add: signed_divide_int_def sgn_if pos_imp_zdiv_nonneg_iff)
  then obtain db2 where "is_shared_resource (h_exec E) (h_now E sdiv 10 ^ 9) ?uid coll db = Some (db2, False, No_error)"
    using redis_server.guest_facts(2) [OF assms(1), of db ?uid coll] assms(2,3) by (auto simp: uid)
  then show ?thesis using assms(6-12)
    by (auto simp: on_request_header_def new_handler_def Let_def)
qed

text \<open>C27: Some failures are not reported. When the command of a logout, or of an owner who shares a
  collection or lists its guests, does not reach the database, the response is a success although
  nothing was done, and the database is as it was. After such a logout, the session is still accepted as the user if it was
  before; the link in the \<^verbatim>\<open>Location\<close> of such a share, opened without a cookie, leaves its visitor anonymous unless
  the random session of the link was already a guest; and the list of guests is the empty JSON list, whatever the
  database holds.\<close>

theorem failures_unreported:
  fixes E :: "'db henv" and req :: "UploadFile request"
  defines "q \<equiv> BlobRequest_of req (URLIntent_of (rq_target req))"
  assumes "redis_server (h_exec E) view ttl" "hex_codec (h_lib E)"
    and "K 0 = Unsent ec" "failing (K 0)" and "unreported E req" and "json_dump (h_lib E) (JArr []) = Some t"
    and "i_action (URLIntent_of (rq_target req)) = Api \<Longrightarrow> request_by_owner q (s_auth s)"
  shows "\<exists>s' res. on_request_body_io K E req s = Some (s', res) \<and> succeeded (res_status res) \<and> s_db s' = s_db s \<and>
    (i_action (URLIntent_of (rq_target req)) = Logout \<longrightarrow> s_auth s' = no_user \<and>
      (\<forall>c user random n. view (s_db s) (key_session (m_session (s_auth s))) = Str (c # user) \<and> user \<noteq> [] \<and>
          0 \<le> ttl (s_db s) (key_session (m_session (s_auth s))) \<longrightarrow>
        m_user (snd (snd (verify_session (h_exec E) random (m_session (s_auth s)) n (s_db s')))) = user)) \<and>
    (i_action (URLIntent_of (rq_target req)) = Api \<and> find_fields urlform (br_body q) [''cover'', ''share''] ! 1 = ''create'' \<longrightarrow>
      (\<exists>link. res_fields res ''Location'' = Some link \<and>
        (\<forall>E' (header :: UploadFile request) fs. h_exec E' = h_exec E \<and> h_lib E' = h_lib E \<and> 0 \<le> h_now E' \<and>
            rq_target header = link \<and> rq_method header = V_get \<and>
            parse_cookie (h_lib E) (Cookie (rq_fields header ''Cookie'')) = None \<and>
            length (h_random E) = SessionID_size \<and> br_owner q \<noteq> [] \<and> segment (br_owner q) \<and> no_end_slash (br_collection q) \<and>
            is_hash (view (s_db s) (key_shared_auth (br_owner q) (br_collection q))) \<and>
            hash_of (view (s_db s) (key_shared_auth (br_owner q) (br_collection q))) (h_random E) = None \<longrightarrow>
          (\<exists>t. on_request_header E' header (new_handler (s_db s') fs) = Some (t, RB_empty, No_error) \<and> s_auth t = no_user)))) \<and>
    (i_action (URLIntent_of (rq_target req)) = Api \<and> find_fields urlform (br_body q) [''cover'', ''share''] ! 1 = ''list'' \<longrightarrow>
      res_body res = String_body t)"
  using assms(6)
proof (cases rule: unreported_cases [where K = K and s = s])
  case logout
  have kept: "m_user (snd (snd (verify_session (h_exec E) random (m_session (s_auth s)) n (s_db s)))) = user"
    if "view (s_db s) (key_session (m_session (s_auth s))) = Str (c # user)" "user \<noteq> []"
      "0 \<le> ttl (s_db s) (key_session (m_session (s_auth s)))" for c user random n
    using redis_server.stored_session_verifies [OF assms(2) that, of random n] that(2) by (auto simp: UserID_of_def)
  have act: "i_action (URLIntent_of (rq_target req)) = Logout" using logout(2) .
  show ?thesis using assms(4) logout(1) kept by (auto simp: on_logout_io_def destroy_session_io_def act)
next
  case (share shared)
  obtain cover where fields: "find_fields urlform (br_body q) [''cover'', ''share''] = [cover, shared]" "oid_from_hex (h_lib E) cover = None"
    using share(4) by (auto simp: q_def)
  let ?auth = "m_session (UserID_of (h_random E) (br_owner q) True)"
  let ?link = "intent_str (URLIntent_name View (br_owner q) (br_collection q) [] (''auth='' @ to_hex (h_lib E) ?auth))"
  have own: "request_by_owner q (s_auth s)" using assms(8) share(2) by simp
  obtain r where r: "post_view_io K E q s = Some (s, r)" "succeeded (res_status r)"
    "shared = ''create'' \<longrightarrow> res_fields r ''Location'' = Some ?link" "shared = ''list'' \<longrightarrow> res_body r = String_body t"
    using assms(4,7) own fields share(3) by (auto simp: post_view_io_def share_resource_io_def list_guests_io_def Let_def)
  have unknown: "\<exists>t. on_request_header E' header (new_handler (s_db s) fs) = Some (t, RB_empty, No_error) \<and> s_auth t = no_user"
    if "h_exec E' = h_exec E" "h_lib E' = h_lib E" "0 \<le> h_now E'" "rq_target header = ?link" "rq_method header = V_get"
      "parse_cookie (h_lib E) (Cookie (rq_fields header ''Cookie'')) = None"
      "length (h_random E) = SessionID_size" "br_owner q \<noteq> []" "segment (br_owner q)" "no_end_slash (br_collection q)"
      "is_hash (view (s_db s) (key_shared_auth (br_owner q) (br_collection q)))"
      "hash_of (view (s_db s) (key_shared_auth (br_owner q) (br_collection q))) (h_random E) = None"
    for E' and header :: "UploadFile request" and fs
    using unknown_guest [of E' view ttl "s_db s" "br_owner q" "br_collection q" "h_random E" "URLIntent_of ?link" header fs]
      share_link_parsed [OF assms(3) that(7-10)] that assms(2) by (simp add: UserID_of_def)
  obtain s' where s': "on_request_body_io K E req s = Some (s', r)" "s_db s' = s_db s"
    using share(1) r(1) unfolding q_def by (cases "rq_body req") auto
  have act: "i_action (URLIntent_of (rq_target req)) = Api" using share(2) .
  show ?thesis
    by (intro exI [of _ s'] exI [of _ r]) (use s' r(2-4) unknown fields(1) act in auto)
qed

definition demo_logout :: "UploadFile request" where
  "demo_logout = \<lparr>rq_method = V_get, rq_target = ''/logout'', rq_fields = (\<lambda>_. []), rq_body = Req_empty\<rparr>"

theorem failures_unreported_witness:
  "\<exists>s' res. on_request_body_io (\<lambda>_. Unsent (System_error 32)) demo_henv demo_logout (demo_srv (UserID_of cookie1 ''sumsum'' False)) =
     Some (s', res) \<and> succeeded (res_status res) \<and> s_db s' = demo_db"
proof -
  have logout: "i_action (URLIntent_of ''/logout'') = Logout" by code_simp
  then have "unreported demo_henv demo_logout" by (simp add: unreported_def demo_logout_def)
  moreover obtain t where "json_dump (h_lib demo_henv) (JArr []) = Some t" by (simp add: demo_henv_def ref_lib_def)
  moreover have "redis_server (h_exec demo_henv) ref_view ref_ttl" "hex_codec (h_lib demo_henv)"
    using ref.redis_server_axioms ref_hex.hex_codec_axioms by (simp_all add: demo_login_env)
  moreover have "i_action (URLIntent_of (rq_target demo_logout)) \<noteq> Api" by (simp add: demo_logout_def logout)
  ultimately show ?thesis
    using failures_unreported [of demo_henv ref_view ref_ttl "\<lambda>_. Unsent (System_error 32)" "System_error 32" demo_logout t
        "demo_srv (UserID_of cookie1 ''sumsum'' False)"]
    by (fastforce simp: demo_srv_def)
qed

end
