(* ===== verification/Sync_Run.thy ===== *)
theory Sync_Run
  imports Client
begin

text \<open>
  A run of \<^verbatim>\<open>hrbsync\<close> (\<^verbatim>\<open>src/client/hrbsync/main.cc\<close>) against the server: the client asks for a collection, the handlers of the server list it
  from the database with its permissions and print it as JSON, the client reads it, compares it with the
  local directory, and asks for what is missing. The theories of the client, of the handlers and of the database meet here.
\<close>

section \<open>main\<close>

text \<open>The arguments are the server, its port, the collection, the name and the password; the result is \<^term>\<open>None\<close> when
  there are too few of them. The local collection is read first, then the client logs in. \<^term>\<open>agent\<close> is Boost's version.\<close>

definition sync_main :: "string \<Rightarrow> Collection \<Rightarrow> string list \<Rightarrow> (Collection \<times> client \<times> string \<times> unit request) option" where
  "sync_main agent current_directory argv =
     (if length argv < 6 then None
      else (let client = HRBClient (argv ! 1) (argv ! 2) agent
            in Some (current_directory, client, argv ! 3, login_request client (argv ! 4) (argv ! 5))))"

section \<open>The document of a collection\<close>

lemma sorted_fold_emplace:
  "sorted_wrt (<) (map fst acc) \<Longrightarrow> sorted_wrt (<) (map fst (fold (\<lambda>(i, e). obj_emplace (f i) (g e)) xs acc))"
  by (induction xs arbitrary: acc) (auto simp: sorted_obj_emplace split: prod.splits)

lemma set_fold_emplace:
  "set (fold (\<lambda>(i, e). obj_emplace (f i) (g e)) xs acc) \<subseteq> set acc \<union> {(k, g e) | k e. True}"
proof (induction xs arbitrary: acc)
  case (Cons x xs)
  obtain i e where x: "x = (i, e)" by (cases x)
  have "set (obj_emplace (f i) (g e) acc) \<subseteq> set acc \<union> {(k, g e) | k e. True}" using set_obj_emplace [of "f i" "g e" acc] by blast
  then show ?case using Cons [of "obj_emplace (f i) (g e) acc"] by (auto simp: x)
qed simp

lemma coll_to_json_wf:
  assumes "wf_json (c_meta c)" "float_free (c_meta c)"
  shows "wf_json (coll_to_json L c)" "finite_json (coll_to_json L c)"
proof -
  let ?items = "fold (\<lambda>(i, e). obj_emplace (to_hex L i) (inode_to_json e)) (c_blobs c) []"
  have sorted: "sorted_wrt (<) (map fst ?items)" by (rule sorted_fold_emplace) simp
  have vals: "wf_json j \<and> float_free j" if "(k, j) \<in> set ?items" for k j
    using that set_fold_emplace [of "to_hex L" inode_to_json "c_blobs c" "[]"] wf_inode_to_json by auto
  have "wf_json (JObj ?items)" "float_free (JObj ?items)" using sorted vals by auto
  then show "wf_json (coll_to_json L c)" "finite_json (coll_to_json L c)"
    using assms float_free_finite by (auto simp: coll_to_json_def Let_def less_char_def)
qed

text \<open>The fields that the server adds to a document leave what the client reads of it.\<close>

definition same_collection :: "json \<Rightarrow> json \<Rightarrow> bool" where
  "same_collection j j' \<longleftrightarrow> (\<forall>k \<in> {''collection'', ''owner'', ''meta'', ''elements''}. json_at j k = json_at j' k)"

lemma coll_from_json_cong: "same_collection j j' \<Longrightarrow> coll_from_json L j = coll_from_json L j'"
  by (simp add: same_collection_def coll_from_json_def)

lemma emplace_keeps:
  assumes "emplace k v j = ok j'" "wf_json j" "is_object j" "finite_json j" "wf_json v" "finite_json v"
    "k \<notin> {''collection'', ''owner'', ''meta'', ''elements''}"
  shows "wf_json j' \<and> is_object j' \<and> finite_json j' \<and> same_collection j j'"
proof -
  obtain kvs where j: "j = JObj kvs" using assms(3) by (cases j) (auto simp: is_object_def)
  have j': "j' = JObj (obj_emplace k v kvs)" using assms(1) by (simp add: emplace_def j)
  have sorted: "sorted_wrt (<) (map fst kvs)" using assms(2) by (simp add: j)
  have "\<forall>x \<in> set (obj_emplace k v kvs). x = (k, v) \<or> x \<in> set kvs" using set_obj_emplace [of k v kvs] by blast
  then have "wf_json j'" "finite_json j'"
    using assms(2,4,5,6) sorted_obj_emplace [OF sorted] by (auto simp: j j')
  then show ?thesis
    using assms(7) by (auto simp: j j' is_object_def same_collection_def json_at_def map_of_obj_emplace [OF sorted])
qed

lemma same_collection_trans: "same_collection a b \<Longrightarrow> same_collection b c \<Longrightarrow> same_collection a c"
  by (simp add: same_collection_def)

lemma decorate_keeps:
  assumes "decorate E s None j = ok j'" "wf_json j" "is_object j" "finite_json j" "\<And>d. h_elapse E = Some d \<Longrightarrow> finite_double d"
  shows "wf_json j' \<and> finite_json j' \<and> same_collection j j'"
proof -
  have refl: "same_collection j j" by (simp add: same_collection_def)
  obtain j1 where j1: "(if \<not> m_guest (s_auth s) \<and> valid (s_auth s) then emplace ''username'' (JStr (m_user (s_auth s))) j else ok j) = ok j1"
    and rest: "bind_r (if m_guest (s_auth s) then emplace ''auth'' (JStr (to_hex (h_lib E) (m_session (s_auth s)))) j1 else ok j1) (\<lambda>j2.
       case h_elapse E of Some d \<Rightarrow> emplace ''elapse'' (JFloat d) j2 | None \<Rightarrow> ok j2) = ok j'"
    using assms(1) unfolding decorate_def by (auto simp: bind_r_def split: sum.splits)
  have 1: "wf_json j1 \<and> is_object j1 \<and> finite_json j1 \<and> same_collection j j1"
    using j1 emplace_keeps [of "''username''" _ j j1] assms(2-4) refl by (auto split: if_splits)
  obtain j2 where j2: "(if m_guest (s_auth s) then emplace ''auth'' (JStr (to_hex (h_lib E) (m_session (s_auth s)))) j1 else ok j1) = ok j2"
    and last: "(case h_elapse E of Some d \<Rightarrow> emplace ''elapse'' (JFloat d) j2 | None \<Rightarrow> ok j2) = ok j'"
    using rest by (auto simp: bind_r_def split: sum.splits)
  have 2: "wf_json j2 \<and> is_object j2 \<and> finite_json j2 \<and> same_collection j1 j2"
    using j2 emplace_keeps [of "''auth''" _ j1 j2] 1 by (auto simp: same_collection_def split: if_splits)
  have "wf_json j' \<and> finite_json j' \<and> same_collection j2 j'"
    using last emplace_keeps [of "''elapse''" _ j2 j'] 2 assms(5) by (auto simp: same_collection_def split: option.splits)
  then show ?thesis using 1 2 same_collection_trans by blast
qed

section \<open>The listing of the server\<close>

text \<open>An entry but for its time, which \<^verbatim>\<open>validate_collection\<close> may fill in.\<close>

definition untimed :: "BlobInode \<Rightarrow> BlobInode" where
  "untimed e = e\<lparr>bi_timestamp := 0\<rparr>"

lemma untimed_simps:
  "untimed (e\<lparr>bi_timestamp := t\<rparr>) = untimed e" "bi_filename (untimed e) = bi_filename e" "untimed (norm_perm e) = norm_perm (untimed e)"
  "bi_filename (norm_perm e) = bi_filename e"
  by (simp_all add: untimed_def norm_perm_def)

lemma validate_entries_keeps:
  assumes "validate_entries E entries coll s = Some (s', coll')"
  shows "c_name coll' = c_name coll \<and> c_owner coll' = c_owner coll \<and> c_meta coll' = c_meta coll \<and>
    map fst (c_blobs coll') = map fst (c_blobs coll) \<and> (\<forall>i. map_option untimed (coll_find i coll') = map_option untimed (coll_find i coll))"
  using assms
proof (induction entries arbitrary: coll s)
  case (Cons x entries)
  obtain i e where x: "x = (i, e)" by (cases x)
  obtain coll1 s1 where run: "validate_entries E entries coll1 s1 = Some (s', coll')" "coll1 = coll \<or> (\<exists>t. coll1 = update_timestamp i t coll)"
    using Cons.prems by (auto simp: x Let_def split: if_splits sum.splits prod.splits)
  have upd: "c_name (update_timestamp i t coll) = c_name coll" "c_owner (update_timestamp i t coll) = c_owner coll"
    "c_meta (update_timestamp i t coll) = c_meta coll" "map fst (c_blobs (update_timestamp i t coll)) = map fst (c_blobs coll)" for t
    by (simp_all add: update_timestamp_def um_update_def case_prod_unfold comp_def if_distrib [of fst] cong: if_cong)
  have "map_option untimed (coll_find j (update_timestamp i t coll)) = map_option untimed (coll_find j coll)" for t j
    by (simp add: coll_find_update_timestamp option.map_comp comp_def untimed_simps)
  then have "c_name coll1 = c_name coll" "c_owner coll1 = c_owner coll" "c_meta coll1 = c_meta coll"
    "map fst (c_blobs coll1) = map fst (c_blobs coll)" "\<forall>j. map_option untimed (coll_find j coll1) = map_option untimed (coll_find j coll)"
    using run(2) upd by auto
  then show ?case using Cons.IH [OF run(1)] by simp
qed simp

lemma wf_coll_same_keys: "wf_coll c \<Longrightarrow> map fst (c_blobs c') = map fst (c_blobs c) \<Longrightarrow> wf_coll c'"
proof -
  assume c: "wf_coll c" "map fst (c_blobs c') = map fst (c_blobs c)"
  then have "fst ` set (c_blobs c') = fst ` set (c_blobs c)" by (metis set_map)
  then show ?thesis using c by (fastforce simp: wf_coll_def image_iff)
qed

text \<open>The request of the client for a collection, as the server reads it.\<close>

lemma collection_request_parsed:
  assumes "m_user (c_m_user c) \<noteq> []" "segment (m_user (c_m_user c))" "no_end_slash coll"
  shows "URLIntent_of (rq_target (get_collection_request L c coll)) =
    \<lparr>i_action = Api, i_user = m_user (c_m_user c), i_coll = coll, i_filename = [], i_option = [], i_query_target = QNone, i_valid = True\<rparr>"
proof -
  have "trim (m_user (c_m_user c)) = m_user (c_m_user c)" "trim coll = coll"
    using assms by (auto simp: trim_def segment_def no_end_slash_def intro!: trim_both_id dest: last_in_set hd_in_set)
  moreover have "trim [] = []" by (simp add: trim_def trim_both_def)
  ultimately have "URLIntent_name Api (m_user (c_m_user c)) coll [] [] =
      \<lparr>i_action = Api, i_user = m_user (c_m_user c), i_coll = coll, i_filename = [], i_option = [], i_query_target = QNone, i_valid = True\<rparr>"
    by (simp add: URLIntent_name_def empty_intent_def)
  then show ?thesis using URLIntent_of_str assms by (simp add: get_collection_request_def client_request_simps)
qed

context handler_env
begin

lemma listing_reaches_client:
  assumes V: "typed (view (s_db s))" "indexed L (library (view (s_db s)))"
    and u: "u = m_user (c_m_user c)" "u \<noteq> []" "segment u" "plain_user u" and coll: "no_end_slash coll"
    and raws: "\<And>b raw. lb_inodes (library (view (s_db s))) u b = Some raw \<Longrightarrow> readable L raw"
    and elapse: "\<And>d. h_elapse E = Some d \<Longrightarrow> finite_double d"
    and run: "on_request_body E (received_header (get_collection_request L c coll)) s = Some (s', r)" "res_status r = St_ok"
  obtains remote where "get_collection_response L r No_error = ok (remote, No_error)" "wf_coll remote" "c_owner remote = u" "c_name remote = coll"
    "\<And>b. map_option untimed (coll_find b remote) = (case lb_entries (library (view (s_db s))) u coll b of
       None \<Rightarrow> None
     | Some f \<Rightarrow> (case lb_inodes (library (view (s_db s))) u b of
         None \<Rightarrow> None | Some raw \<Rightarrow> map_option (untimed \<circ> norm_perm) (visible L u (s_auth s) raw f)))"
proof -
  let ?req = "received_header (get_collection_request L c coll)" and ?S = "library (view (s_db s))"
  let ?seen = "\<lambda>b. case lb_entries ?S u coll b of None \<Rightarrow> None
     | Some f \<Rightarrow> (case lb_inodes ?S u b of None \<Rightarrow> None | Some raw \<Rightarrow> visible L u (s_auth s) raw f)"
  have intent: "URLIntent_of (rq_target ?req) =
      \<lparr>i_action = Api, i_user = u, i_coll = coll, i_filename = [], i_option = [], i_query_target = QNone, i_valid = True\<rparr>"
    using collection_request_parsed [of c coll L] u coll by (simp add: received_header_def)
  have req: "rq_method ?req = V_get" "rq_body ?req = Req_empty"
    by (simp_all add: received_header_def get_collection_request_def client_request_simps)
  have no_blob: "oid_from_hex L [] = None" using oid_from_hex_defined [of "[]"] not_is_hex_Nil by (cases "oid_from_hex L []") auto
  obtain c0 where c0: "snd (get_collection exec L u (s_auth s) coll (s_db s)) = ok (c0, No_error)" "c_name c0 = coll" "c_owner c0 = u"
    "\<And>b. coll_find b c0 = ?seen b" "wf_coll c0" "wf_json (c_meta c0)" "float_free (c_meta c0)"
    by (rule get_collection_full [OF V u(4), where requester = "s_auth s" and c = coll]) (erule raws, rule that)
  obtain s1 c1 where val: "validate_entries E (c_blobs c0) c0 (s\<lparr>s_db := fst (get_collection exec L u (s_auth s) coll (s_db s))\<rparr>) = Some (s1, c1)"
    and r: "r = SendJSON E s1 None False (ok (coll_to_json L c1)) No_error"
    using run(1) intent req no_blob c0(1)
    by (auto simp: on_request_body_def on_request_api_def br_blob_def br_owner_def br_collection_def BlobRequest_of_def env_exec env_lib
        validate_collection_def Let_def split: prod.splits)
  note same = validate_entries_keeps [OF val]
  obtain j body where j: "decorate E s1 None (coll_to_json L c1) = ok j" "json_dump L j = Some body"
    "r = set_field ''Content-Type'' ''application/json'' (respond St_ok (String_body body))"
    using run(2) r by (auto simp: SendJSON_def send_json_def json_text_def bind_r_def env_lib split: sum.splits option.splits)
  have meta: "wf_json (c_meta c1)" "float_free (c_meta c1)" using same c0(6,7) by simp_all
  have "is_object (coll_to_json L c1)" by (simp add: coll_to_json_def Let_def is_object_def)
  note deco = decorate_keeps [OF j(1) coll_to_json_wf(1) [OF meta] this coll_to_json_wf(2) [OF meta] elapse]
  have parse: "json_parse L body = Some j" using parse_dump_finite [OF j(2)] deco by blast
  have wf1: "wf_coll c1" using wf_coll_same_keys [OF c0(5)] same by blast
  obtain remote where remote: "coll_from_json L (coll_to_json L c1) = ok remote" "c_name remote = coll" "c_owner remote = u"
    "\<forall>i. coll_find i remote = map_option norm_perm (coll_find i c1)"
    using coll_json_roundtrip [OF wf1] same c0(2,3) by auto
  have "coll_from_json L j = ok remote" using coll_from_json_cong remote(1) deco by metis
  then have response: "get_collection_response L r No_error = ok (remote, No_error)"
    by (simp add: get_collection_response_def j(3) response_text_def parse bind_r_def)
  show thesis
  proof (rule that [OF response coll_from_json_wf [OF hex_codec_axioms remote(1)] remote(3,2)])
    fix b
    have "map_option untimed (coll_find b remote) = map_option norm_perm (map_option untimed (coll_find b c1))"
      using remote(4) by (simp add: option.map_comp comp_def untimed_simps)
    also have "\<dots> = map_option norm_perm (map_option untimed (?seen b))" using same c0(4) by simp
    finally show "map_option untimed (coll_find b remote) = (case lb_entries ?S u coll b of None \<Rightarrow> None
     | Some f \<Rightarrow> (case lb_inodes ?S u b of None \<Rightarrow> None | Some raw \<Rightarrow> map_option (untimed \<circ> norm_perm) (visible L u (s_auth s) raw f)))"
      by (simp add: option.map_comp comp_def untimed_simps split: option.splits)
  qed
qed

text \<open>The names under which the client finds the blobs.\<close>

lemma listing_names:
  assumes "typed (view (s_db s))" "indexed L (library (view (s_db s)))"
    and "u = m_user (c_m_user c)" "u \<noteq> []" "segment u" "plain_user u" "no_end_slash coll"
    and raws: "\<And>b raw. lb_inodes (library (view (s_db s))) u b = Some raw \<Longrightarrow> readable L raw"
    and elapse: "\<And>d. h_elapse E = Some d \<Longrightarrow> finite_double d"
    and run: "on_request_body E (received_header (get_collection_request L c coll)) s = Some (s', r)" "res_status r = St_ok"
  obtains remote where "get_collection_response L r No_error = ok (remote, No_error)" "wf_coll remote" "c_owner remote = u" "c_name remote = coll"
    "\<And>b name. (\<exists>e. coll_find b remote = Some e \<and> bi_filename e = name) \<longleftrightarrow>
      (\<exists>f raw e. lb_entries (library (view (s_db s))) u coll b = Some f \<and> lb_inodes (library (view (s_db s))) u b = Some raw \<and>
        visible L u (s_auth s) raw f = Some e \<and> bi_filename e = name)"
proof -
  let ?S = "library (view (s_db s))"
  obtain remote where remote: "get_collection_response L r No_error = ok (remote, No_error)" "wf_coll remote" "c_owner remote = u" "c_name remote = coll"
    "\<And>b. map_option untimed (coll_find b remote) = (case lb_entries ?S u coll b of
       None \<Rightarrow> None
     | Some f \<Rightarrow> (case lb_inodes ?S u b of
         None \<Rightarrow> None | Some raw \<Rightarrow> map_option (untimed \<circ> norm_perm) (visible L u (s_auth s) raw f)))"
    by (rule listing_reaches_client [OF assms(1-7) _ _ run]) (erule raws, erule elapse, rule that)
  have names: "map_option bi_filename (coll_find b remote) = (case lb_entries ?S u coll b of None \<Rightarrow> None
     | Some f \<Rightarrow> (case lb_inodes ?S u b of None \<Rightarrow> None | Some raw \<Rightarrow> map_option bi_filename (visible L u (s_auth s) raw f)))" for b
    using arg_cong [OF remote(5) [of b], of "map_option bi_filename"]
    by (simp add: option.map_comp comp_def untimed_simps split: option.splits)
  show thesis
  proof (rule that [OF remote(1-4)])
    fix b name
    have "(\<exists>e. coll_find b remote = Some e \<and> bi_filename e = name) \<longleftrightarrow> map_option bi_filename (coll_find b remote) = Some name" by auto
    then show "(\<exists>e. coll_find b remote = Some e \<and> bi_filename e = name) \<longleftrightarrow>
      (\<exists>f raw e. lb_entries ?S u coll b = Some f \<and> lb_inodes ?S u b = Some raw \<and> visible L u (s_auth s) raw f = Some e \<and> bi_filename e = name)"
      unfolding names by (auto split: option.splits)
  qed
qed

end

section \<open>The requests of the synchronisation\<close>

text \<open>C9: A run of \<^verbatim>\<open>hrbsync\<close> mirrors a collection of its user. When the server answers the client's request for the
  collection with 200, the client reads the collection from the answer, and the requests that it then makes are \<^verbatim>\<open>GET\<close>
  requests which the server reads as the master renditions of exactly the blobs that the database has in this collection, that
  the permission in the stored inode lets the authenticated user see, that the local directory has not, and
  whose file, under the name that the blob has in the collection, can be written there.\<close>

theorem sync_fetches_collection:
  assumes "handler_env exec view ttl L E" and "typed (view (s_db s))" "indexed L (library (view (s_db s)))"
    and "u = m_user (c_m_user c)" "u \<noteq> []" "segment u" "plain_user u" "no_end_slash coll"
    and "\<And>b raw. lb_inodes (library (view (s_db s))) u b = Some raw \<Longrightarrow> readable L raw"
    and "\<And>d. h_elapse E = Some d \<Longrightarrow> finite_double d"
    and "on_request_body E (received_header (get_collection_request L c coll)) s = Some (s', r)" "res_status r = St_ok"
  shows "\<exists>remote. get_collection_response L r No_error = ok (remote, No_error) \<and>
    (\<lambda>(q, file). let i = URLIntent_of (rq_target q) in
      (rq_method q, i_action i, i_user i, i_coll i, intent_blob L i, i_option i, file)) `
      set (sync_on_collection L c here can_write dir (remote, No_error)) =
    {(V_get, Api, u, coll, Some b, ''rendition=master'', path_append dir (bi_filename e)) | b f raw e.
      lb_entries (library (view (s_db s))) u coll b = Some f \<and> lb_inodes (library (view (s_db s))) u b = Some raw \<and>
      visible L u (s_auth s) raw f = Some e \<and> coll_find b here = None \<and> can_write (path_append dir (bi_filename e))}"
proof -
  let ?S = "library (view (s_db s))"
  have hex: "hex_codec L" using assms(1) by (simp add: handler_env_def ownership_server_def)
  obtain remote where remote: "get_collection_response L r No_error = ok (remote, No_error)" "wf_coll remote" "c_owner remote = u" "c_name remote = coll"
    and entry: "\<And>b name. (\<exists>e. coll_find b remote = Some e \<and> bi_filename e = name) \<longleftrightarrow>
      (\<exists>f raw e. lb_entries ?S u coll b = Some f \<and> lb_inodes ?S u b = Some raw \<and> visible L u (s_auth s) raw f = Some e \<and> bi_filename e = name)"
    by (rule handler_env.listing_names [OF assms(1-8) _ _ assms(11,12)]) (erule assms(9), erule assms(10), rule that)
  have "{(V_get, Api, u, coll, Some b, ''rendition=master'', path_append dir (bi_filename e)) | b e.
      coll_find b remote = Some e \<and> coll_find b here = None \<and> can_write (path_append dir (bi_filename e))} =
    {(V_get, Api, u, coll, Some b, ''rendition=master'', path_append dir name) | b name.
      (\<exists>e. coll_find b remote = Some e \<and> bi_filename e = name) \<and> coll_find b here = None \<and> can_write (path_append dir name)}" by blast
  also have "\<dots> = {(V_get, Api, u, coll, Some b, ''rendition=master'', path_append dir (bi_filename e)) | b f raw e.
      lb_entries ?S u coll b = Some f \<and> lb_inodes ?S u b = Some raw \<and>
      visible L u (s_auth s) raw f = Some e \<and> coll_find b here = None \<and> can_write (path_append dir (bi_filename e))}"
    unfolding entry by blast
  finally show ?thesis
    using sync_requests_missing [OF hex remote(2), unfolded remote(3,4), OF assms(5,6,8), of c here can_write dir] remote(1) by simp
qed

text \<open>The owner of the small library synchronises it into an empty directory.\<close>

abbreviation demo_user :: UserID where
  "demo_user \<equiv> UserID_of cookie1 ''sumsum'' False"

definition demo_client :: client where
  "demo_client = (HRBClient ''h'' ''443'' ''beast'')\<lparr>c_m_user := demo_user\<rparr>"

lemma demo_visible: "visible ref_lib ''sumsum'' demo_user demo_raw ''cat.jpg'' = Some demo_entry"
  using ref_json.inodedb_fields_create [OF demo_create]
  by (simp add: visible_def demo_raw_def inodedb_permission_def allow_def UserID_of_def demo_entry_def)

lemma demo_readable: "lb_inodes (library (ref_view demo_db)) u b = Some raw \<Longrightarrow> readable ref_lib raw"
  using ref_json.inodedb_fields_create [OF demo_create] by (simp add: demo_contents readable_def split: if_splits)

lemma demo_listing_runs:
  "\<exists>s' r. on_request_body demo_henv (received_header (get_collection_request ref_lib demo_client ''pets'')) (demo_srv demo_user) = Some (s', r) \<and>
     res_status r = St_ok"
proof -
  let ?req = "received_header (get_collection_request ref_lib demo_client ''pets'')"
  obtain c0 where c0: "snd (get_collection ref_exec ref_lib ''sumsum'' demo_user ''pets'' demo_db) = ok (c0, No_error)"
    "\<And>b. coll_find b c0 = (case lb_entries (library (ref_view demo_db)) ''sumsum'' ''pets'' b of
       None \<Rightarrow> None
     | Some f \<Rightarrow> (case lb_inodes (library (ref_view demo_db)) ''sumsum'' b of None \<Rightarrow> None | Some raw \<Rightarrow> visible ref_lib ''sumsum'' demo_user raw f))"
    "wf_coll c0"
    by (rule own.get_collection_full [OF demo_typed demo_indexed demo_wf(2), where requester = demo_user and c = "''pets''"])
      (erule demo_readable, rule that)
  have blobs: "c_blobs c0 = [(demo_oid, demo_entry)]"
    using c0(2) by (intro single_blob [OF c0(3)]) (simp add: demo_contents demo_visible)
  have user: "m_user (c_m_user demo_client) = ''sumsum''" by (simp add: demo_client_def HRBClient_def UserID_of_def)
  have intent: "URLIntent_of (rq_target ?req) =
      \<lparr>i_action = Api, i_user = ''sumsum'', i_coll = ''pets'', i_filename = [], i_option = [], i_query_target = QNone, i_valid = True\<rparr>"
    using collection_request_parsed [of demo_client "''pets''" ref_lib] by (simp add: user received_header_def segment_def no_end_slash_def)
  have req: "rq_method ?req = V_get" "rq_body ?req = Req_empty"
    by (simp_all add: received_header_def get_collection_request_def client_request_simps)
  have no_blob: "oid_from_hex ref_lib [] = None" using hex_codec.oid_from_hex_defined [OF ref_hex.hex_codec_axioms, of "[]"] by (cases "oid_from_hex ref_lib []") auto
  have env: "h_exec demo_henv = ref_exec" "h_lib demo_henv = ref_lib" "h_elapse demo_henv = None" by (simp_all add: demo_henv_def)
  have srv: "s_db (demo_srv demo_user) = demo_db" "s_auth (demo_srv demo_user) = demo_user" by (simp_all add: demo_srv_def)
  have t: "bi_timestamp demo_entry \<noteq> 0" by (simp add: demo_entry_def)
  obtain db where get: "get_collection ref_exec ref_lib ''sumsum'' demo_user ''pets'' demo_db = (db, ok (c0, No_error))"
    using c0(1) by (metis prod.collapse)
  have run: "on_request_body demo_henv ?req (demo_srv demo_user) = Some ((demo_srv demo_user)\<lparr>s_db := db\<rparr>,
      SendJSON demo_henv ((demo_srv demo_user)\<lparr>s_db := db\<rparr>) None False (ok (coll_to_json ref_lib c0)) No_error)"
    using intent req no_blob get t
    by (simp add: on_request_body_def on_request_api_def br_blob_def br_owner_def br_collection_def BlobRequest_of_def env srv
        validate_collection_def blobs Let_def)
  have dump: "json_dump ref_lib j = Some (ref_print j)" for j by (simp add: ref_lib_def)
  obtain kvs where "coll_to_json ref_lib c0 = JObj kvs" by (simp add: coll_to_json_def Let_def)
  then have "res_status (SendJSON demo_henv ((demo_srv demo_user)\<lparr>s_db := db\<rparr>) None False (ok (coll_to_json ref_lib c0)) No_error) = St_ok"
    by (simp add: SendJSON_def send_json_def decorate_def json_text_def bind_r_def env dump emplace_def)
  with run show ?thesis by blast
qed

theorem sync_fetches_collection_witness:
  "\<exists>s' r remote q. on_request_body demo_henv (received_header (get_collection_request ref_lib demo_client ''pets'')) (demo_srv demo_user) = Some (s', r) \<and>
     get_collection_response ref_lib r No_error = ok (remote, No_error) \<and>
     (q, ''/home/cat.jpg'') \<in> set (sync_on_collection ref_lib demo_client empty_coll (\<lambda>_. True) ''/home'' (remote, No_error)) \<and>
     intent_blob ref_lib (URLIntent_of (rq_target q)) = Some demo_oid"
proof -
  have user: "''sumsum'' = m_user (c_m_user demo_client)" by (simp add: demo_client_def HRBClient_def UserID_of_def)
  have names: "''sumsum'' \<noteq> []" "segment ''sumsum''" "no_end_slash ''pets''" by (simp_all add: segment_def no_end_slash_def)
  have srv: "s_db (demo_srv demo_user) = demo_db" "s_auth (demo_srv demo_user) = demo_user" by (simp_all add: demo_srv_def)
  obtain s' r where run: "on_request_body demo_henv (received_header (get_collection_request ref_lib demo_client ''pets'')) (demo_srv demo_user) = Some (s', r)"
    "res_status r = St_ok" using demo_listing_runs by blast
  have elapse: "h_elapse demo_henv = Some d \<Longrightarrow> finite_double d" for d by (simp add: demo_henv_def)
  let ?requests = "\<lambda>remote. (\<lambda>(q, file). let i = URLIntent_of (rq_target q) in (rq_method q, i_action i, i_user i, i_coll i, intent_blob ref_lib i, i_option i, file)) `
      set (sync_on_collection ref_lib demo_client empty_coll (\<lambda>_. True) ''/home'' (remote, No_error))"
  let ?missing = "{(V_get, Api, ''sumsum'', ''pets'', Some b, ''rendition=master'', path_append ''/home'' (bi_filename e)) | b f raw e.
      lb_entries (library (ref_view demo_db)) ''sumsum'' ''pets'' b = Some f \<and> lb_inodes (library (ref_view demo_db)) ''sumsum'' b = Some raw \<and>
      visible ref_lib ''sumsum'' demo_user raw f = Some e \<and> coll_find b empty_coll = None \<and> True}"
  have "\<exists>remote. get_collection_response ref_lib r No_error = ok (remote, No_error) \<and> ?requests remote = ?missing"
    by (rule sync_fetches_collection [where s = "demo_srv demo_user" and here = empty_coll and can_write = "\<lambda>_. True" and dir = "''/home''",
        unfolded srv, OF demo.handler_env_axioms demo_typed demo_indexed user names(1,2) demo_wf(2) names(3) _ _ run])
      (erule demo_readable, erule elapse)
  then obtain remote where remote: "get_collection_response ref_lib r No_error = ok (remote, No_error)" "?requests remote = ?missing"
    by (elim exE conjE)
  have path: "path_append ''/home'' (bi_filename demo_entry) = ''/home/cat.jpg''" by (simp add: path_append_def demo_entry_def)
  have "(V_get, Api, ''sumsum'', ''pets'', Some demo_oid, ''rendition=master'', ''/home/cat.jpg'') \<in> ?missing"
    using demo_visible path
    by (intro CollectI exI [of _ demo_oid] exI [of _ "''cat.jpg''"] exI [of _ demo_raw] exI [of _ demo_entry])
      (simp add: demo_contents coll_find_def empty_coll_def)
  then have "(V_get, Api, ''sumsum'', ''pets'', Some demo_oid, ''rendition=master'', ''/home/cat.jpg'') \<in> ?requests remote"
    unfolding remote(2) .
  then show ?thesis using run(1) remote(1) by (auto simp: Let_def)
qed

end
