(* ===== verification/Sync_Files.thy ===== *)
theory Sync_Files
  imports Sync_Run
begin

text \<open>
  The downloads of \<^verbatim>\<open>hrbsync\<close>: \<^verbatim>\<open>HRBClient::download_blob\<close> (\<^verbatim>\<open>src/client/http/HRBClient.ipp\<close>) opens the
  file before the request is made, Boost.Beast writes the body of the response to it, and the
  handlers of the server answer from the files of the blob store. Together with Sync_Run this is the
  whole way of a picture from the directory of the server to that of the client.
\<close>

section \<open>The file of a download\<close>

text \<open>\<^verbatim>\<open>file_mode::write\<close> truncates the file, and every download has a handle of its own, which writes from
  the start of the file: two downloads to one file overwrite each other without a truncation between them. A
  body above the limit is an error of the read, after which the callback is not called
  (\<^verbatim>\<open>GenericHTTPRequest::on_read\<close>). The status of the response is not looked at.\<close>

definition download_limit :: nat where
  "download_limit = 20 * 1024 * 1024"

definition download_open :: "string \<Rightarrow> (string \<rightharpoonup> string) \<Rightarrow> string \<rightharpoonup> string" where
  "download_open file local = local(file \<mapsto> [])"

definition download_load ::
  "response \<Rightarrow> string \<Rightarrow> (string \<rightharpoonup> string) \<Rightarrow> (string \<rightharpoonup> string) \<times> (nat \<times> error_code) option" where
  "download_load res file local =
     (let body = response_text res
      in if length body \<le> download_limit
         then (local(file \<mapsto> body @ drop (length body) (case local file of None \<Rightarrow> [] | Some bytes \<Rightarrow> bytes)), Some (length body, No_error))
         else (local, None))"

text \<open>The downloads in the order in which their responses arrive. The requests are by one user, and
  nothing else changes the server meanwhile; \<^term>\<open>None\<close> when the server does not answer.\<close>

fun run_downloads ::
  "'db henv \<Rightarrow> (unit request \<times> string) list \<Rightarrow> 'db srv \<Rightarrow> (string \<rightharpoonup> string) \<Rightarrow> ('db srv \<times> (string \<rightharpoonup> string)) option" where
  "run_downloads E [] s local = Some (s, local)"
| "run_downloads E ((q, file) # qs) s local =
     (case on_request_body E (received_header q) s of
        None \<Rightarrow> None
      | Some (s', res) \<Rightarrow> run_downloads E qs s' (fst (download_load res file local)))"

text \<open>All files are opened first.\<close>

definition sync_download ::
  "'db henv \<Rightarrow> (unit request \<times> string) list \<Rightarrow> 'db srv \<Rightarrow> (string \<rightharpoonup> string) \<Rightarrow> ('db srv \<times> (string \<rightharpoonup> string)) option" where
  "sync_download E qs s local = run_downloads E qs s (fold (\<lambda>(_, file). download_open file) qs local)"

section \<open>The response of the server\<close>

lemma master_option:
  "find_optional urlform ''rendition=master'' [''json''] = [None]" "find_fields urlform ''rendition=master'' [''rendition''] = [''master'']"
  by code_simp+

lemma master_plain: "\<not> (\<exists>c \<in> set ''master''. \<not> isalpha c \<and> \<not> isdigit c)"
  by code_simp

lemma visible_time:
  assumes "visible L u requester raw f = Some e"
  obtains t where "inodedb_timestamp L raw = ok t" "allow (inodedb_permission raw) requester u"
proof -
  have "inodedb_fields L raw \<noteq> Inl x" "allow (inodedb_permission raw) requester u" for x
    using assms by (auto simp: visible_def split: if_splits sum.splits)
  then show ?thesis using that
    by (cases "inodedb_timestamp L raw"; cases "inodedb_fields L raw")
       (auto simp: inodedb_timestamp_def inodedb_fields_def bind_r_def split: option.splits sum.splits)
qed

context handler_env
begin

text \<open>The request for the original of a blob that the user may see gets the stored bytes, and
  changes neither the contents of the database nor the files.\<close>

lemma master_response:
  assumes V: "typed (view (s_db s))" and u: "u \<noteq> []" "segment u" "plain_user u" "no_end_slash coll" and b: "wf_oid b"
    and entry: "lb_entries (library (view (s_db s))) u coll b = Some f" "lb_inodes (library (view (s_db s))) u b = Some raw"
      "visible L u (s_auth s) raw f = Some e"
    and master: "s_files s (join (dest L (h_blobs E) b) ''master'') = Some bytes" "bytes \<noteq> []"
  obtains db r where "on_request_body E (received_header (get_blob_request L c u coll b ''master'')) s = Some (s\<lparr>s_db := db\<rparr>, r)"
    "view db = view (s_db s)" "res_status r = St_ok" "response_text r = bytes"
proof -
  let ?q = "received_header (get_blob_request L c u coll b ''master'')"
  have intent: "URLIntent_of (rq_target ?q) = \<lparr>i_action = Api, i_user = u, i_coll = coll, i_filename = to_hex L b,
      i_option = ''rendition=master'', i_query_target = QNone, i_valid = True\<rparr>"
    using blob_intent_parsed [OF hex_codec_axioms b u(1,2,4)] by (simp add: received_header_def get_blob_request_def client_request_simps)
  have req: "rq_method ?q = V_get" "rq_body ?q = Req_empty" "rq_fields ?q ''If-None-Match'' = []"
    by (simp_all add: received_header_def get_blob_request_def client_request_def init_request_def set_req_field_def)
  obtain db where get: "get_blob exec u coll b (s_db s) = (db, raw, f, No_error)"
    using get_blob_result [OF V, of u coll b] entry(1,2) by (auto simp: library_sel u(3))
  obtain t where t: "inodedb_timestamp L raw = ok t" "allow (inodedb_permission raw) (s_auth s) u"
    by (rule visible_time [OF entry(3)])
  have hex: "oid_from_hex L (to_hex L b) = Some b" by (rule oid_from_hex_to_hex [OF b])
  have resp: "blob_response L (h_blobs E) b ''master'' (s_files s) = Some (s_files s,
      set_cache_control L b (set_field ''Content-Type'' (be_magic (h_blobs E) bytes) (respond St_ok (File_body bytes))))"
    unfolding blob_response_def if_not_P [OF master_plain] using master
    by (simp add: blob_rendition_def master_rendition_def load_master_def find_blob_def mmap_open_def)
  show ?thesis
    by (rule that [of db "set_field ''Last-Modified'' (http_format t) (set_field ''Content-Disposition'' (''inline; filename='' @ url_encode f)
          (set_cache_control L b (set_field ''Content-Type'' (be_magic (h_blobs E) bytes) (respond St_ok (File_body bytes)))))"])
      (use intent req get t hex resp get_blob_reads [OF get] master_option in
        \<open>simp_all add: on_request_body_def on_request_api_def handle_get_blob_def get_blob_reply_def br_blob_def br_owner_def
          br_collection_def br_option_def BlobRequest_of_def env_exec env_lib of_result_def set_cache_control_def response_text_def to_quoted_hex_def Let_def\<close>)
qed

text \<open>A download that the server can answer: the original of the blob is stored, within the limit, and
  \<^term>\<open>bytes\<close> is what the file of the download is to hold.\<close>

definition answerable :: "'db srv \<Rightarrow> client \<Rightarrow> string \<Rightarrow> string \<Rightarrow> string \<Rightarrow> unit request \<Rightarrow> bool" where
  "answerable s c u coll bytes q \<longleftrightarrow> (\<exists>b f raw e. q = get_blob_request L c u coll b ''master'' \<and> wf_oid b \<and>
     lb_entries (library (view (s_db s))) u coll b = Some f \<and> lb_inodes (library (view (s_db s))) u b = Some raw \<and>
     visible L u (s_auth s) raw f = Some e \<and> s_files s (join (dest L (h_blobs E) b) ''master'') = Some bytes \<and>
     bytes \<noteq> [] \<and> length bytes \<le> download_limit)"

lemma answerable_same:
  "view db = view (s_db s) \<Longrightarrow> answerable (s\<lparr>s_db := db\<rparr>) c u coll bytes q = answerable s c u coll bytes q"
  by (simp add: answerable_def)

lemma run_downloads_bytes:
  assumes V: "typed (view (s_db s))" and u: "u \<noteq> []" "segment u" "plain_user u" "no_end_slash coll"
    and all: "\<And>q file. (q, file) \<in> set qs \<Longrightarrow> answerable s c u coll (want file) q"
    and fresh: "\<And>file. file \<in> snd ` set qs \<Longrightarrow> local file \<in> {Some [], Some (want file)}"
  shows "\<exists>s'. run_downloads E qs s local = Some (s', \<lambda>p. if p \<in> snd ` set qs then Some (want p) else local p) \<and>
    view (s_db s') = view (s_db s) \<and> s_files s' = s_files s"
  using V all fresh
proof (induction qs arbitrary: s local)
  case (Cons x qs)
  obtain q fp where x: "x = (q, fp)" by (cases x)
  have "answerable s c u coll (want fp) q" using Cons.prems(2) [of q fp] x by simp
  then obtain b f raw e where q: "q = get_blob_request L c u coll b ''master''" and b: "wf_oid b"
    and entry: "lb_entries (library (view (s_db s))) u coll b = Some f" "lb_inodes (library (view (s_db s))) u b = Some raw"
      "visible L u (s_auth s) raw f = Some e"
    and master: "s_files s (join (dest L (h_blobs E) b) ''master'') = Some (want fp)" "want fp \<noteq> []"
    and limit: "length (want fp) \<le> download_limit"
    unfolding answerable_def by blast
  obtain db r where r: "on_request_body E (received_header q) s = Some (s\<lparr>s_db := db\<rparr>, r)" "view db = view (s_db s)"
    "res_status r = St_ok" "response_text r = want fp"
    unfolding q by (rule master_response [OF Cons.prems(1) u b entry master])
  have ok: "answerable (s\<lparr>s_db := db\<rparr>) c u coll (want fp') q'" if "(q', fp') \<in> set qs" for q' fp'
    using Cons.prems(2) [of q' fp'] that by (simp add: answerable_same r(2))
  have typed': "typed (view (s_db (s\<lparr>s_db := db\<rparr>)))" using Cons.prems(1) r(2) by simp
  have fresh': "(local(fp \<mapsto> want fp)) fp' \<in> {Some [], Some (want fp')}" if "fp' \<in> snd ` set qs" for fp'
    using Cons.prems(3) [of fp'] that by simp
  have "fst (download_load r fp local) = local(fp \<mapsto> want fp)"
    using Cons.prems(3) [of fp] x r(4) limit by (auto simp: download_load_def Let_def)
  note load = this
  obtain s' where s': "run_downloads E qs (s\<lparr>s_db := db\<rparr>) (local(fp \<mapsto> want fp)) =
      Some (s', \<lambda>p. if p \<in> snd ` set qs then Some (want p) else (local(fp \<mapsto> want fp)) p)"
    "view (s_db s') = view (s_db (s\<lparr>s_db := db\<rparr>))" "s_files s' = s_files (s\<lparr>s_db := db\<rparr>)"
    using Cons.IH [OF typed' ok fresh'] by blast
  have "(\<lambda>p. if p \<in> snd ` set qs then Some (want p) else (local(fp \<mapsto> want fp)) p) =
      (\<lambda>p. if p \<in> snd ` set (x # qs) then Some (want p) else local p)" by (auto simp: x fun_eq_iff)
  then show ?case using s' r(2) by (simp add: x r(1) load)
qed simp

end

section \<open>The files of the synchronisation\<close>

lemma fold_open:
  "fold (\<lambda>(_, file). download_open file) qs local p = (if p \<in> snd ` set qs then Some [] else local p)"
  by (induction qs arbitrary: local) (auto simp: download_open_def)

text \<open>The name of a file directly in a directory.\<close>

definition plain_name :: "string \<Rightarrow> bool" where
  "plain_name name \<longleftrightarrow> name \<noteq> [] \<and> CHR ''/'' \<notin> set name \<and> name \<noteq> ''.'' \<and> name \<noteq> ''..''"

lemma path_append_plain:
  "plain_name name \<Longrightarrow> dir \<noteq> [] \<Longrightarrow> last dir \<noteq> CHR ''/'' \<Longrightarrow> path_append dir name = dir @ ''/'' @ name"
  by (cases name) (auto simp: path_append_def plain_name_def)

text \<open>The requests of the synchronisation, by blob and name.\<close>

lemma sync_requests_of:
  assumes "handler_env exec view ttl L E" and "typed (view (s_db s))" "indexed L (library (view (s_db s)))"
    and "u = m_user (c_m_user c)" "u \<noteq> []" "segment u" "plain_user u" "no_end_slash coll"
    and "\<And>b raw. lb_inodes (library (view (s_db s))) u b = Some raw \<Longrightarrow> readable L raw"
    and "\<And>d. h_elapse E = Some d \<Longrightarrow> finite_double d"
    and "on_request_body E (received_header (get_collection_request L c coll)) s = Some (s', r)" "res_status r = St_ok"
    and m: "missing = {(b, bi_filename e) | b f raw e.
      lb_entries (library (view (s_db s))) u coll b = Some f \<and> lb_inodes (library (view (s_db s))) u b = Some raw \<and>
      visible L u (s_auth s) raw f = Some e \<and> coll_find b here = None \<and> can_write (path_append dir (bi_filename e))}"
  obtains remote where "get_collection_response L r No_error = ok (remote, No_error)"
    "set (sync_on_collection L c here can_write dir (remote, No_error)) =
      (\<lambda>(b, name). (get_blob_request L c u coll b ''master'', path_append dir name)) ` missing"
    "\<And>b name. (b, name) \<in> missing \<Longrightarrow> wf_oid b"
proof -
  let ?S = "library (view (s_db s))"
  obtain remote where remote: "get_collection_response L r No_error = ok (remote, No_error)" "wf_coll remote" "c_owner remote = u" "c_name remote = coll"
    and entry: "\<And>b name. (\<exists>e. coll_find b remote = Some e \<and> bi_filename e = name) \<longleftrightarrow>
      (\<exists>f raw e. lb_entries ?S u coll b = Some f \<and> lb_inodes ?S u b = Some raw \<and> visible L u (s_auth s) raw f = Some e \<and> bi_filename e = name)"
    by (rule handler_env.listing_names [OF assms(1-8) _ _ assms(11,12)]) (erule assms(9), erule assms(10), rule that)
  have missing: "(b, name) \<in> missing \<longleftrightarrow> (\<exists>e. coll_find b remote = Some e \<and> bi_filename e = name) \<and>
      coll_find b here = None \<and> can_write (path_append dir name)" for b name
    unfolding entry m by auto
  have "set (sync_on_collection L c here can_write dir (remote, No_error)) =
      {(get_blob_request L c u coll b ''master'', path_append dir name) | b name. (b, name) \<in> missing}"
    unfolding sync_downloads remote(3,4) missing by auto
  also have "\<dots> = (\<lambda>(b, name). (get_blob_request L c u coll b ''master'', path_append dir name)) ` missing" by force
  finally have reqs: "set (sync_on_collection L c here can_write dir (remote, No_error)) = \<dots>" .
  have "wf_oid b" if "(b, name) \<in> missing" for b name
    using that remote(2) unfolding missing by (auto simp: wf_coll_def coll_find_def dest: map_of_SomeD)
  then show thesis by (rule that [OF remote(1) reqs])
qed

text \<open>C12: A run of \<^verbatim>\<open>hrbsync\<close> copies the pictures. Take the blobs of the collection that the user may see,
  that the client did not have and whose file can be written, and suppose that no two of them have the
  same file name, that every name is that of a file directly in the directory (no slash, not \<^verbatim>\<open>.\<close> or \<^verbatim>\<open>..\<close>),
  and that the blob store has their originals, none of them empty and none above the limit of 20 MiB. When the
  listing of the collection was answered and the library has not changed since, then the downloads, in
  whatever order the responses arrive, leave in the directory of the client for every such blob a file of its
  name with exactly the bytes of its original, and change no other file.\<close>

theorem sync_copies_files:
  assumes "handler_env exec view ttl L E" and "typed (view (s_db s))" "indexed L (library (view (s_db s)))"
    and "u = m_user (c_m_user c)" "u \<noteq> []" "segment u" "plain_user u" "no_end_slash coll"
    and "\<And>b raw. lb_inodes (library (view (s_db s))) u b = Some raw \<Longrightarrow> readable L raw"
    and "\<And>d. h_elapse E = Some d \<Longrightarrow> finite_double d"
    and "on_request_body E (received_header (get_collection_request L c coll)) s = Some (s', r)" "res_status r = St_ok"
    and "typed (view (s_db t))" "library (view (s_db t)) = library (view (s_db s))" "s_auth t = s_auth s"
    and "missing = {(b, bi_filename e) | b f raw e.
      lb_entries (library (view (s_db s))) u coll b = Some f \<and> lb_inodes (library (view (s_db s))) u b = Some raw \<and>
      visible L u (s_auth s) raw f = Some e \<and> coll_find b here = None \<and> can_write (path_append dir (bi_filename e))}"
    and "dir \<noteq> []" "last dir \<noteq> CHR ''/''"
    and "\<And>b name. (b, name) \<in> missing \<Longrightarrow> plain_name name"
    and "\<And>b b' name. (b, name) \<in> missing \<Longrightarrow> (b', name) \<in> missing \<Longrightarrow> b = b'"
    and "\<And>b name. (b, name) \<in> missing \<Longrightarrow> s_files t (join (dest L (h_blobs E) b) ''master'') = Some (original b) \<and>
      original b \<noteq> [] \<and> length (original b) \<le> 20 * 1024 * 1024"
  shows "\<exists>remote. get_collection_response L r No_error = ok (remote, No_error) \<and>
    (\<forall>qs. set qs = set (sync_on_collection L c here can_write dir (remote, No_error)) \<longrightarrow>
      (\<exists>t' local'. sync_download E qs t local = Some (t', local') \<and>
        (\<forall>(b, name) \<in> missing. local' (dir @ ''/'' @ name) = Some (original b)) \<and>
        (\<forall>p. (\<forall>(b, name) \<in> missing. p \<noteq> dir @ ''/'' @ name) \<longrightarrow> local' p = local p)))"
proof -
  let ?req = "\<lambda>(b, name). (get_blob_request L c u coll b ''master'', path_append dir name)"
  have path: "path_append dir name = dir @ ''/'' @ name" if "(b, name) \<in> missing" for b name
    using path_append_plain [OF assms(19) [OF that] assms(17,18)] .
  define want where "want p = original (THE b. \<exists>name. (b, name) \<in> missing \<and> p = dir @ ''/'' @ name)" for p
  have want: "want (dir @ ''/'' @ name) = original b" if "(b, name) \<in> missing" for b name
  proof -
    have "(THE b'. \<exists>n. (b', n) \<in> missing \<and> dir @ ''/'' @ name = dir @ ''/'' @ n) = b"
      using that assms(20) by (intro the_equality) auto
    then show ?thesis by (simp add: want_def)
  qed
  obtain remote where remote: "get_collection_response L r No_error = ok (remote, No_error)"
    and reqs: "set (sync_on_collection L c here can_write dir (remote, No_error)) = ?req ` missing"
    and oid: "\<And>b name. (b, name) \<in> missing \<Longrightarrow> wf_oid b"
    by (rule sync_requests_of [OF assms(1-8) _ _ assms(11,12,16)]) (erule assms(9), erule assms(10), rule that)
  have "\<exists>t' local'. sync_download E qs t local = Some (t', local') \<and>
      (\<forall>(b, name) \<in> missing. local' (dir @ ''/'' @ name) = Some (original b)) \<and>
      (\<forall>p. (\<forall>(b, name) \<in> missing. p \<noteq> dir @ ''/'' @ name) \<longrightarrow> local' p = local p)"
    if qs: "set qs = set (sync_on_collection L c here can_write dir (remote, No_error))" for qs
  proof -
    have files: "p \<in> snd ` set qs \<longleftrightarrow> (\<exists>b name. (b, name) \<in> missing \<and> p = dir @ ''/'' @ name)" for p
      unfolding qs reqs using path by force
    have ok: "handler_env.answerable view L E t c u coll (want p) q" if "(q, p) \<in> set qs" for q p
    proof -
      obtain b name where b: "(b, name) \<in> missing" "q = get_blob_request L c u coll b ''master''" "p = dir @ ''/'' @ name"
        using \<open>(q, p) \<in> set qs\<close> path unfolding qs reqs by auto
      then show ?thesis
        unfolding handler_env.answerable_def [OF assms(1)] assms(14,15) b(3) want [OF b(1)]
        using b(1) [unfolded assms(16)] b(2) assms(21) [OF b(1)] oid [OF b(1)] by (auto simp: download_limit_def)
    qed
    let ?opened = "fold (\<lambda>(_, file). download_open file) qs local"
    have opened: "?opened p \<in> {Some [], Some (want p)}" if "p \<in> snd ` set qs" for p
      using that by (simp add: fold_open)
    obtain t' where "sync_download E qs t local = Some (t', \<lambda>p. if p \<in> snd ` set qs then Some (want p) else ?opened p)"
      using handler_env.run_downloads_bytes [where qs = qs and want = want and local = ?opened, OF assms(1,13,5-8) ok opened]
      by (auto simp: sync_download_def)
    then show ?thesis using want by (fastforce simp: files fold_open)
  qed
  with remote show ?thesis by blast
qed

text \<open>The picture of the small library reaches an empty directory.\<close>

definition stored_srv :: "refdb srv" where
  "stored_srv = (demo_srv demo_user)\<lparr>s_files := [join (dest ref_lib demo_blob_env demo_oid) ''master'' \<mapsto> ''purr'']\<rparr>"

theorem sync_copies_files_witness:
  "\<exists>s' r remote t'. on_request_body demo_henv (received_header (get_collection_request ref_lib demo_client ''pets'')) (demo_srv demo_user) = Some (s', r) \<and>
     get_collection_response ref_lib r No_error = ok (remote, No_error) \<and>
     sync_download demo_henv (sync_on_collection ref_lib demo_client empty_coll (\<lambda>_. True) ''/home'' (remote, No_error)) stored_srv Map.empty =
       Some (t', [''/home/cat.jpg'' \<mapsto> ''purr''])"
proof -
  let ?S = "library (ref_view demo_db)"
  let ?missing = "{(b, bi_filename e) | b f raw e.
      lb_entries ?S ''sumsum'' ''pets'' b = Some f \<and> lb_inodes ?S ''sumsum'' b = Some raw \<and>
      visible ref_lib ''sumsum'' demo_user raw f = Some e \<and> coll_find b empty_coll = None \<and> True}"
  have user: "''sumsum'' = m_user (c_m_user demo_client)" by (simp add: demo_client_def HRBClient_def UserID_of_def)
  have names: "''sumsum'' \<noteq> []" "segment ''sumsum''" "no_end_slash ''pets''" by (simp_all add: segment_def no_end_slash_def)
  have srv: "s_db (demo_srv demo_user) = demo_db" "s_auth (demo_srv demo_user) = demo_user" "s_db stored_srv = demo_db" "s_auth stored_srv = demo_user"
    by (simp_all add: demo_srv_def stored_srv_def)
  obtain s' r where run: "on_request_body demo_henv (received_header (get_collection_request ref_lib demo_client ''pets'')) (demo_srv demo_user) = Some (s', r)"
    "res_status r = St_ok" using demo_listing_runs by blast
  have entry: "bi_filename demo_entry = ''cat.jpg''" by (simp add: demo_entry_def)
  have missing: "?missing = {(demo_oid, ''cat.jpg'')}"
    using demo_visible entry by (auto simp: demo_contents coll_find_def empty_coll_def split: if_splits)
  have stored: "s_files stored_srv (join (dest ref_lib (h_blobs demo_henv) demo_oid) ''master'') = Some ''purr''"
    by (simp add: stored_srv_def demo_henv_def)
  have "\<exists>remote. get_collection_response ref_lib r No_error = ok (remote, No_error) \<and>
    (\<forall>qs. set qs = set (sync_on_collection ref_lib demo_client empty_coll (\<lambda>_. True) ''/home'' (remote, No_error)) \<longrightarrow>
      (\<exists>t' local'. sync_download demo_henv qs stored_srv Map.empty = Some (t', local') \<and>
        (\<forall>(b, name) \<in> {(demo_oid, ''cat.jpg'')}. local' (''/home'' @ ''/'' @ name) = Some ''purr'') \<and>
        (\<forall>p. (\<forall>(b, name) \<in> {(demo_oid, ''cat.jpg'')}. p \<noteq> ''/home'' @ ''/'' @ name) \<longrightarrow> local' p = Map.empty p)))"
    by (rule sync_copies_files [where s = "demo_srv demo_user" and here = empty_coll and can_write = "\<lambda>_. True" and dir = "''/home''"
        and original = "\<lambda>_. ''purr''" and t = stored_srv and local = Map.empty,
        unfolded srv, OF demo.handler_env_axioms demo_typed demo_indexed user names(1,2) demo_wf(2) names(3) _ _ run demo_typed refl refl missing [symmetric]])
      (erule demo_readable, simp add: demo_henv_def, use stored in \<open>auto simp: plain_name_def\<close>)
  then obtain remote t' local' where "get_collection_response ref_lib r No_error = ok (remote, No_error)"
    "sync_download demo_henv (sync_on_collection ref_lib demo_client empty_coll (\<lambda>_. True) ''/home'' (remote, No_error)) stored_srv Map.empty = Some (t', local')"
    "local' ''/home/cat.jpg'' = Some ''purr''" "\<And>p. p \<noteq> ''/home/cat.jpg'' \<Longrightarrow> local' p = None" by auto
  moreover from this(3,4) have "local' = [''/home/cat.jpg'' \<mapsto> ''purr'']" by (simp add: fun_eq_iff)
  ultimately show ?thesis using run(1) by blast
qed

end
