(* ===== verification/Time_Index.thy ===== *)
theory Time_Index
  imports Redis_Commands Authentication Object_ID
begin

text \<open>
  \<^verbatim>\<open>src/server/hrb/index/TimeIndex.cc\<close>: the sorted set of the blobs of a user by time. Its one operation
  sends a command and ignores the reply. The count of the time point is a 64-bit number of nanoseconds;
  the formatter reads it with \<^verbatim>\<open>%d\<close>, as an \<^verbatim>\<open>int\<close>.
\<close>

definition time_key :: string where
  "time_key = ''timeidx:''"

text \<open>The arguments as the formatter sees them: a \<^verbatim>\<open>%b\<close> is a pair of a pointer and a length.\<close>

definition time_args :: "string \<Rightarrow> ObjectID \<Rightarrow> int \<Rightarrow> string list" where
  "time_args user blob ticks = [time_key, user, to_string (narrow_int ticks), blob]"

definition time_add ::
  "'c reaction \<Rightarrow> formatter \<Rightarrow> 'c \<Rightarrow> string \<Rightarrow> ObjectID \<Rightarrow> int \<Rightarrow> ('c, 'r) channel \<Rightarrow> ('c, 'r) channel" where
  "time_add react fmt callback user blob tp ch = command react fmt callback ''ZADD %b%b %d %b'' (time_args user blob tp) ch"

text \<open>Times that differ by a multiple of \<^term>\<open>2 ^ 32\<close> nanoseconds, a little more than four seconds,
  send the same command; a time later than about two seconds after 1970 may even come before it.\<close>

lemma time_add_wraps:
  assumes "t mod 2 ^ 32 = t' mod 2 ^ 32"
  shows "time_add react fmt cb user blob t ch = time_add react fmt cb user blob t' ch"
  by (simp only: time_add_def time_args_def narrow_int_cong [OF assms])

lemma time_add_exact:
  assumes "- (2 ^ 31) \<le> t" "t < 2 ^ 31"
  shows "time_args user blob t ! 2 = to_string t"
proof -
  have "narrow_int t = t"
    using assms by (simp add: narrow_int_def signed_of_int signed_take_bit_int_eq_self)
  then show ?thesis by (simp add: time_args_def)
qed

lemma time_add_negative: "time_args user blob 3000000000 ! 2 = to_string (- 1294967296)"
  by (simp add: time_args_def narrow_int_def)

text \<open>One command goes out, and the callback waits for its reply.\<close>

lemma time_add_sends:
  assumes "CommandString_of fmt ''ZADD %b%b %d %b'' (time_args user blob t) = Some cs"
  shows "ch_sent (time_add react fmt cb user blob t ch) = ch_sent ch @ [cs]"
    and "ch_conn (time_add react fmt cb user blob t ch) = do_write (Some cb) (ch_conn ch)"
  using assms by (simp_all add: time_add_def command_def command_string_def write_command_def)

end
