(* ===== verification/Desktop_Client.thy ===== *)
theory Desktop_Client
  imports Common_Properties
begin

text \<open>
  \<^verbatim>\<open>src/client/qt\<close>: the desktop client. \<^verbatim>\<open>QtClient\<close> sends requests and reads their replies, \<^verbatim>\<open>CollectionModel\<close> and
  \<^verbatim>\<open>CollectionListModel\<close> hold what the two lists of the window show, and \<^verbatim>\<open>MainWindow\<close> connects them. Replies finish in
  any order, so the window is a step relation over the events of Qt. The network, the JSON parser and the decoder of
  images are parameters; a signal calls its slots at once, as all objects live in one thread.
\<close>

section \<open>QtClient\<close>

record QtClient =
  q_host :: string
  q_port :: int
  q_user :: string

definition no_client :: QtClient where
  "no_client = \<lparr>q_host = [], q_port = 0, q_user = []\<rparr>"

text \<open>\<^verbatim>\<open>QUrl\<close>: a query that has been set is printed after a question mark, even when it is empty.\<close>

record QUrl =
  u_scheme :: string
  u_host :: string
  u_port :: int
  u_path :: string
  u_query :: string

definition url_target :: "QUrl \<Rightarrow> string" where
  "url_target u = u_path u @ ''?'' @ u_query u"

text \<open>What the program does when a reply has finished: one of the lambdas of \<^verbatim>\<open>QtClient\<close>, with what it captures.\<close>

datatype on_finished = On_login | On_list_collection | On_get_blob ObjectID string | On_owned_collections

record qt_request =
  r_url :: QUrl
  r_type :: string
  r_post :: "string option"
  r_finished :: on_finished

definition setup_url :: "QtClient \<Rightarrow> URLIntent \<Rightarrow> QUrl" where
  "setup_url c intent =
     \<lparr>u_scheme = ''https'', u_host = q_host c, u_port = q_port c, u_path = write_path intent, u_query = i_option intent\<rparr>"

definition qt_get :: "QUrl \<Rightarrow> on_finished \<Rightarrow> qt_request" where
  "qt_get url k = \<lparr>r_url = url, r_type = [], r_post = None, r_finished = k\<rparr>"

definition qt_login :: "string \<Rightarrow> int \<Rightarrow> string \<Rightarrow> string \<Rightarrow> QtClient \<Rightarrow> QtClient \<times> qt_request" where
  "qt_login host port username password c =
     (let c' = c\<lparr>q_host := host, q_port := port, q_user := username\<rparr> in
      (c', \<lparr>r_url = setup_url c' (URLIntent_name Login [] [] [] []), r_type = ''application/x-www-form-urlencoded'',
            r_post = Some (''username='' @ username @ ''&password='' @ password), r_finished = On_login\<rparr>))"

definition qt_list_collection :: "QtClient \<Rightarrow> string \<Rightarrow> qt_request" where
  "qt_list_collection c coll = qt_get (setup_url c (URLIntent_name Api (q_user c) coll [] [])) On_list_collection"

definition qt_get_blob :: "extlib \<Rightarrow> QtClient \<Rightarrow> string \<Rightarrow> string \<Rightarrow> ObjectID \<Rightarrow> string \<Rightarrow> qt_request" where
  "qt_get_blob L c owner coll blob rendition =
     qt_get (setup_url c (URLIntent_name Api owner coll (to_hex L blob) (''rendition='' @ rendition))) (On_get_blob blob rendition)"

definition qt_owned_collections :: "QtClient \<Rightarrow> string \<Rightarrow> qt_request" where
  "qt_owned_collections c user = qt_get (setup_url c (URLIntent_query QCollection (''json&user='' @ user))) On_owned_collections"

section \<open>CollectionModel\<close>

record 'img CollectionModel =
  cm_coll :: Collection
  cm_blob_ids :: "ObjectID list"
  cm_images :: "(ObjectID \<times> 'img) list"

definition no_model :: "'img CollectionModel" where
  "no_model = \<lparr>cm_coll = empty_coll, cm_blob_ids = [], cm_images = []\<rparr>"

datatype role = DisplayRole | DecorationRole | OtherRole

datatype 'img QVariant = QNothing | QText string | QIcon 'img

text \<open>A size as \<^verbatim>\<open>int\<close>, and an \<^verbatim>\<open>int\<close> compared with a size: the row becomes unsigned.\<close>

definition size_int :: "nat \<Rightarrow> int" where
  "size_int n = sint (word_of_nat n :: 32 word)"

definition row_index :: "int \<Rightarrow> nat" where
  "row_index row = nat (row mod 2 ^ 64)"

definition coll_rowCount :: "bool \<Rightarrow> 'img CollectionModel \<Rightarrow> int" where
  "coll_rowCount parent_valid m = (if parent_valid then 0 else size_int (length (c_blobs (cm_coll m))))"

definition coll_data_assert :: "'img CollectionModel \<Rightarrow> bool" where
  "coll_data_assert m \<longleftrightarrow> length (c_blobs (cm_coll m)) = length (cm_blob_ids m)"

definition coll_data :: "'img CollectionModel \<Rightarrow> int \<Rightarrow> role \<Rightarrow> 'img QVariant" where
  "coll_data m row role =
     (if row_index row < length (cm_blob_ids m) then
        let i = cm_blob_ids m ! row_index row in
        (case coll_find i (cm_coll m) of
           None \<Rightarrow> QNothing
         | Some entry \<Rightarrow> (case role of
               DisplayRole \<Rightarrow> QText (bi_filename entry)
             | DecorationRole \<Rightarrow> (case map_of (cm_images m) i of Some img \<Rightarrow> QIcon img | None \<Rightarrow> QNothing)
             | OtherRole \<Rightarrow> QNothing))
      else QNothing)"

text \<open>\<^verbatim>\<open>update\<close> asks for the thumbnail of every blob. The images of earlier collections are kept.\<close>

definition coll_update :: "extlib \<Rightarrow> QtClient \<Rightarrow> Collection \<Rightarrow> 'img CollectionModel \<Rightarrow> 'img CollectionModel \<times> qt_request list" where
  "coll_update L c coll m =
     (m\<lparr>cm_coll := coll, cm_blob_ids := map fst (c_blobs coll)\<rparr>,
      map (\<lambda>(i, en). qt_get_blob L c (c_owner coll) (c_name coll) i ''thumbnail'') (c_blobs coll))"

text \<open>\<^verbatim>\<open>receive_blob\<close>, with the row that it reports as changed.\<close>

fun index_of :: "'a \<Rightarrow> 'a list \<Rightarrow> nat option" where
  "index_of x [] = None"
| "index_of x (y # ys) = (if x = y then Some 0 else map_option Suc (index_of x ys))"

definition receive_blob ::
  "(string \<Rightarrow> 'img option) \<Rightarrow> ObjectID \<Rightarrow> string \<Rightarrow> string \<Rightarrow> 'img CollectionModel \<Rightarrow> 'img CollectionModel \<times> nat option" where
  "receive_blob loadFromData i rendition blob m =
     (case loadFromData blob of
        None \<Rightarrow> (m, None)
      | Some img \<Rightarrow> (m\<lparr>cm_images := um_emplace i img (cm_images m)\<rparr>, index_of i (cm_blob_ids m)))"

section \<open>CollectionListModel\<close>

definition list_rowCount :: "bool \<Rightarrow> CollectionList \<Rightarrow> int" where
  "list_rowCount parent_valid entries = (if parent_valid then 0 else size_int (length entries))"

definition list_data :: "CollectionList \<Rightarrow> int \<Rightarrow> role \<Rightarrow> 'img QVariant" where
  "list_data entries row role =
     (if row_index row < length entries \<and> role = DisplayRole then QText (c_name (entries ! row_index row)) else QNothing)"

definition list_update :: "CollectionList \<Rightarrow> CollectionList \<Rightarrow> CollectionList" where
  "list_update coll entries = coll"

text \<open>\<^verbatim>\<open>at\<close> throws when there is no such entry.\<close>

definition list_at :: "CollectionList \<Rightarrow> int \<Rightarrow> Collection option" where
  "list_at entries row = (if row_index row < length entries then Some (entries ! row_index row) else None)"

section \<open>MainWindow\<close>

text \<open>The window with the requests whose replies have not finished.\<close>

record 'img MainWindow =
  w_hrb :: QtClient
  w_username :: string
  w_coll_model :: "'img CollectionModel"
  w_list_model :: CollectionList
  w_waiting :: "qt_request list"

definition MainWindow_new :: "'img MainWindow" where
  "MainWindow_new = \<lparr>w_hrb = no_client, w_username = [], w_coll_model = no_model, w_list_model = [], w_waiting = []\<rparr>"

definition send_requests :: "qt_request list \<Rightarrow> 'img MainWindow \<Rightarrow> 'img MainWindow" where
  "send_requests rs w = w\<lparr>w_waiting := w_waiting w @ rs\<rparr>"

text \<open>The dialog has been accepted, and an item of the list of collections has been clicked.\<close>

definition action_login :: "string \<Rightarrow> int \<Rightarrow> string \<Rightarrow> string \<Rightarrow> 'img MainWindow \<Rightarrow> 'img MainWindow" where
  "action_login host port username password w =
     (let (c, r) = qt_login host port username password (w_hrb w)
      in send_requests [r] (w\<lparr>w_hrb := c, w_username := username\<rparr>))"

text \<open>\<^verbatim>\<open>LoginDialog\<close> holds four lines of text; a build with assertions fills in an account for tests.
  \<^term>\<open>toInt\<close> is \<^verbatim>\<open>QString::toInt\<close>, and \<^term>\<open>accepted\<close> how \<^verbatim>\<open>exec\<close> ended.\<close>

record LoginDialog =
  d_host :: string
  d_port :: string
  d_username :: string
  d_password :: string

definition LoginDialog_new :: "bool \<Rightarrow> LoginDialog" where
  "LoginDialog_new debug =
     (if debug then \<lparr>d_host = ''localhost'', d_port = ''4433'', d_username = ''sumsum'', d_password = ''bearbear''\<rparr>
      else \<lparr>d_host = [], d_port = [], d_username = [], d_password = []\<rparr>)"

definition dialog_port :: "(string \<Rightarrow> int) \<Rightarrow> LoginDialog \<Rightarrow> int" where
  "dialog_port toInt d = toInt (d_port d)"

definition login_triggered ::
  "(string \<Rightarrow> int) \<Rightarrow> bool \<Rightarrow> LoginDialog \<Rightarrow> 'img MainWindow \<Rightarrow> 'img MainWindow" where
  "login_triggered toInt accepted dlg w =
     (if accepted then action_login (d_host dlg) (dialog_port toInt dlg) (d_username dlg) (d_password dlg) w else w)"

definition remote_dirs_clicked :: "int \<Rightarrow> 'img MainWindow \<Rightarrow> 'img MainWindow option" where
  "remote_dirs_clicked row w =
     map_option (\<lambda>entry. send_requests [qt_list_collection (w_hrb w) (c_name entry)] w) (list_at (w_list_model w) row)"

definition window_on_login :: "'img MainWindow \<Rightarrow> 'img MainWindow" where
  "window_on_login w =
     send_requests [qt_list_collection (w_hrb w) [], qt_owned_collections (w_hrb w) (w_username w)] w"

text \<open>The lambdas for a reply that has finished, with its status and its body: \<^term>\<open>None\<close> when an exception leaves the
  lambda. A login that failed is announced like one that succeeded; a discarded document does not convert to a list of
  collections.\<close>

definition login_finished :: "'img MainWindow \<Rightarrow> 'img MainWindow option" where
  "login_finished w = Some (window_on_login w)"

definition list_finished :: "extlib \<Rightarrow> string \<Rightarrow> 'img MainWindow \<Rightarrow> 'img MainWindow option" where
  "list_finished L body w = (case json_parse L body of
       None \<Rightarrow> Some w
     | Some dir \<Rightarrow> (case coll_from_json L dir of
           Inl _ \<Rightarrow> None
         | Inr coll \<Rightarrow> (case coll_update L (w_hrb w) coll (w_coll_model w) of
               (m, rs) \<Rightarrow> Some (send_requests rs (w\<lparr>w_coll_model := m\<rparr>)))))"

definition blob_finished ::
  "(string \<Rightarrow> 'img option) \<Rightarrow> ObjectID \<Rightarrow> string \<Rightarrow> nat \<Rightarrow> string \<Rightarrow> 'img MainWindow \<Rightarrow> 'img MainWindow option" where
  "blob_finished loadFromData i rendition status body w =
     Some (if status = 200 then w\<lparr>w_coll_model := fst (receive_blob loadFromData i rendition body (w_coll_model w))\<rparr> else w)"

definition owned_finished :: "extlib \<Rightarrow> nat \<Rightarrow> string \<Rightarrow> 'img MainWindow \<Rightarrow> 'img MainWindow option" where
  "owned_finished L status body w =
     (if status = 200 then
        (case json_parse L body of
           None \<Rightarrow> None
         | Some j \<Rightarrow> (case list_from_json j of
             Inl _ \<Rightarrow> None
           | Inr colls \<Rightarrow> Some (w\<lparr>w_list_model := list_update colls (w_list_model w)\<rparr>)))
      else Some w)"

definition reply_finished ::
  "extlib \<Rightarrow> (string \<Rightarrow> 'img option) \<Rightarrow> on_finished \<Rightarrow> nat \<Rightarrow> string \<Rightarrow> 'img MainWindow \<Rightarrow> 'img MainWindow option" where
  "reply_finished L loadFromData k status body w = (case k of
       On_login \<Rightarrow> login_finished w
     | On_list_collection \<Rightarrow> list_finished L body w
     | On_get_blob i rendition \<Rightarrow> blob_finished loadFromData i rendition status body w
     | On_owned_collections \<Rightarrow> owned_finished L status body w)"

lemmas finished_defs = reply_finished_def login_finished_def list_finished_def blob_finished_def owned_finished_def

section \<open>The events of the window\<close>

definition finish_reply ::
  "extlib \<Rightarrow> (string \<Rightarrow> 'img option) \<Rightarrow> nat \<Rightarrow> nat \<Rightarrow> string \<Rightarrow> 'img MainWindow \<Rightarrow> 'img MainWindow option" where
  "finish_reply L loadFromData k status body w =
     reply_finished L loadFromData (r_finished (w_waiting w ! k)) status body
       (w\<lparr>w_waiting := take k (w_waiting w) @ drop (Suc k) (w_waiting w)\<rparr>)"

text \<open>The states of a window, with the replies it has got: the request, its status and its body.\<close>

inductive window_reaches ::
  "extlib \<Rightarrow> (string \<Rightarrow> 'img option) \<Rightarrow> (qt_request \<times> nat \<times> string) list \<Rightarrow> 'img MainWindow \<Rightarrow> bool"
  for L loadFromData where
  win_start: "window_reaches L loadFromData [] MainWindow_new"
| win_login: "window_reaches L loadFromData log w \<Longrightarrow> window_reaches L loadFromData log (action_login host port username password w)"
| win_click: "window_reaches L loadFromData log w \<Longrightarrow> remote_dirs_clicked row w = Some w' \<Longrightarrow> window_reaches L loadFromData log w'"
| win_reply: "window_reaches L loadFromData log w \<Longrightarrow> k < length (w_waiting w) \<Longrightarrow>
    finish_reply L loadFromData k status body w = Some w' \<Longrightarrow>
    window_reaches L loadFromData (log @ [(w_waiting w ! k, status, body)]) w'"

inductive_cases window_reachesE: "window_reaches L loadFromData log w"

section \<open>The invariant of the window\<close>

text \<open>What the window has asked for: the requests that got a reply and those that wait.\<close>

definition asked :: "(qt_request \<times> nat \<times> string) list \<Rightarrow> 'img MainWindow \<Rightarrow> qt_request set" where
  "asked log w = fst ` set log \<union> set (w_waiting w)"

definition images_received ::
  "(string \<Rightarrow> 'img option) \<Rightarrow> (qt_request \<times> nat \<times> string) list \<Rightarrow> (ObjectID \<times> 'img) list \<Rightarrow> bool" where
  "images_received loadFromData log images \<longleftrightarrow> (\<forall>(i, img) \<in> set images.
     \<exists>r rendition body. (r, 200, body) \<in> set log \<and> r_finished r = On_get_blob i rendition \<and> loadFromData body = Some img)"

definition window_inv :: "extlib \<Rightarrow> (string \<Rightarrow> 'img option) \<Rightarrow> (qt_request \<times> nat \<times> string) list \<Rightarrow> 'img MainWindow \<Rightarrow> bool" where
  "window_inv L loadFromData log w \<longleftrightarrow>
     (let m = w_coll_model w; coll = cm_coll m in
      wf_coll coll \<and> cm_blob_ids m = map fst (c_blobs coll) \<and> images_received loadFromData log (cm_images m) \<and>
      (\<forall>i \<in> set (cm_blob_ids m). \<exists>c. qt_get_blob L c (c_owner coll) (c_name coll) i ''thumbnail'' \<in> asked log w))"

lemma window_inv_mono:
  assumes "window_inv L loadFromData log w" "w_coll_model w' = w_coll_model w" "asked log w \<subseteq> asked log' w'" "set log \<subseteq> set log'"
  shows "window_inv L loadFromData log' w'"
  using assms unfolding window_inv_def Let_def images_received_def by (fastforce simp: subset_iff)

lemma asked_finish:
  assumes "k < length (w_waiting w)" "w_waiting w' = (take k (w_waiting w) @ drop (Suc k) (w_waiting w)) @ rs"
  shows "asked (log @ [(w_waiting w ! k, status, body)]) w' = asked log w \<union> set rs"
  using assms id_take_nth_drop [OF assms(1)] by (auto simp: asked_def) (metis in_set_conv_decomp set_append Un_iff set_ConsD list.set_intros)+

lemma window_inv_update:
  assumes "hex_codec L" "coll_from_json L dir = Inr coll" "images_received loadFromData log (cm_images (w_coll_model w))"
    "coll_update L c coll (w_coll_model w) = (m, rs)" "w_coll_model w' = m" "set rs \<subseteq> asked log w'"
  shows "window_inv L loadFromData log w'"
proof -
  have m: "m = (w_coll_model w)\<lparr>cm_coll := coll, cm_blob_ids := map fst (c_blobs coll)\<rparr>"
    and rs: "rs = map (\<lambda>(i, en). qt_get_blob L c (c_owner coll) (c_name coll) i ''thumbnail'') (c_blobs coll)"
    using assms(4) by (auto simp: coll_update_def)
  have "qt_get_blob L c (c_owner coll) (c_name coll) i ''thumbnail'' \<in> asked log w'" if "i \<in> fst ` set (c_blobs coll)" for i
    using that assms(6) unfolding rs by (auto 4 3)
  then show ?thesis using coll_from_json_wf [OF assms(1,2)] assms(3,5) by (auto simp: window_inv_def m)
qed

lemma window_inv_receive:
  assumes "window_inv L loadFromData log w" "(r, 200, body) \<in> set log'" "r_finished r = On_get_blob i rendition"
    "w_coll_model w' = fst (receive_blob loadFromData i rendition body (w_coll_model w))" "asked log w \<subseteq> asked log' w'" "set log \<subseteq> set log'"
  shows "window_inv L loadFromData log' w'"
proof (cases "loadFromData body")
  case None
  then show ?thesis using assms window_inv_mono by (fastforce simp: receive_blob_def)
next
  case (Some img)
  let ?m = "w_coll_model w"
  have m: "w_coll_model w' = ?m\<lparr>cm_images := um_emplace i img (cm_images ?m)\<rparr>" using assms(4) Some by (simp add: receive_blob_def)
  have "images_received loadFromData log' (cm_images ?m)"
    using assms(1,6) by (fastforce simp: window_inv_def Let_def images_received_def subset_iff)
  then have "images_received loadFromData log' (um_emplace i img (cm_images ?m))"
    using assms(2,3) Some by (auto simp: images_received_def um_emplace_def)
  moreover have "\<exists>c. qt_get_blob L c (c_owner (cm_coll ?m)) (c_name (cm_coll ?m)) j ''thumbnail'' \<in> asked log' w'"
    if "j \<in> set (cm_blob_ids ?m)" for j
    using that assms(1,5) unfolding window_inv_def Let_def by blast
  ultimately show ?thesis using assms(1) by (simp add: window_inv_def Let_def m)
qed

lemma finish_reply_inv:
  assumes "hex_codec L" "window_inv L loadFromData log w" "k < length (w_waiting w)"
    "finish_reply L loadFromData k status body w = Some w'"
  shows "window_inv L loadFromData (log @ [(w_waiting w ! k, status, body)]) w'"
proof -
  let ?r = "w_waiting w ! k" and ?left = "take k (w_waiting w) @ drop (Suc k) (w_waiting w)"
  let ?log = "log @ [(?r, status, body)]" and ?w = "w\<lparr>w_waiting := take k (w_waiting w) @ drop (Suc k) (w_waiting w)\<rparr>"
  note fin = assms(4) [unfolded finish_reply_def finished_defs]
  have asked: "asked ?log v = asked log w \<union> set rs" if "w_waiting v = ?left @ rs" for v :: "'a MainWindow" and rs
    by (rule asked_finish [OF assms(3) that])
  have keep: ?thesis if "w_coll_model w' = w_coll_model w" "w_waiting w' = ?left @ rs" for rs
    using window_inv_mono [OF assms(2) that(1), of ?log] asked [OF that(2)] by auto
  show ?thesis
  proof (cases "r_finished ?r")
    case On_login
    then show ?thesis using fin by (intro keep) (auto simp: window_on_login_def send_requests_def)
  next
    case On_list_collection
    show ?thesis
    proof (cases "json_parse L body")
      case None
      then show ?thesis using fin On_list_collection keep [of "[]"] by auto
    next
      case (Some dir)
      then obtain coll m rs where upd: "coll_from_json L dir = Inr coll" "coll_update L (w_hrb w) coll (w_coll_model w) = (m, rs)"
        and w': "w' = send_requests rs (?w\<lparr>w_coll_model := m\<rparr>)"
        using fin On_list_collection by (auto split: sum.splits prod.splits)
      have "images_received loadFromData ?log (cm_images (w_coll_model w))"
        using assms(2) by (fastforce simp: window_inv_def Let_def images_received_def)
      moreover have "w_coll_model w' = m" "set rs \<subseteq> asked ?log w'" using asked [of w' rs] by (auto simp: w' send_requests_def)
      ultimately show ?thesis using window_inv_update [OF assms(1) upd(1) _ upd(2)] by blast
    qed
  next
    case (On_get_blob i rendition)
    show ?thesis
    proof (cases "status = 200")
      case True
      then have "w' = ?w\<lparr>w_coll_model := fst (receive_blob loadFromData i rendition body (w_coll_model w))\<rparr>"
        using fin On_get_blob by simp
      then show ?thesis using True On_get_blob asked [of w' "[]"]
        by (intro window_inv_receive [OF assms(2), of ?r body ?log i rendition]) auto
    next
      case False
      then show ?thesis using fin On_get_blob keep [of "[]"] by auto
    qed
  next
    case On_owned_collections
    then have "w_coll_model w' = w_coll_model w" "w_waiting w' = ?left"
      using fin by (auto split: if_splits option.splits sum.splits)
    then show ?thesis using keep [of "[]"] by simp
  qed
qed

lemma window_reaches_inv:
  assumes "hex_codec L"
  shows "window_reaches L loadFromData log w \<Longrightarrow> window_inv L loadFromData log w"
proof (induction rule: window_reaches.induct)
  case win_start
  show ?case by (simp add: window_inv_def MainWindow_new_def no_model_def empty_coll_def wf_coll_def images_received_def)
next
  case (win_login log w host port username password)
  then show ?case
    by (intro window_inv_mono [OF win_login.IH]) (auto simp: action_login_def send_requests_def asked_def split: prod.splits)
next
  case (win_click log w row w')
  then show ?case
    by (intro window_inv_mono [OF win_click.IH]) (auto simp: remote_dirs_clicked_def send_requests_def asked_def)
next
  case (win_reply log w k status body w')
  then show ?case using finish_reply_inv [OF assms] by blast
qed

lemma row_index_nat: "0 \<le> row \<Longrightarrow> row < 2 ^ 31 \<Longrightarrow> row_index row = nat row"
  by (simp add: row_index_def)

lemma thumbnail_parsed:
  assumes "hex_codec L" "wf_oid i" "owner \<noteq> []" "segment owner" "no_end_slash coll"
  shows "URLIntent_of (url_target (r_url (qt_get_blob L c owner coll i ''thumbnail''))) =
    \<lparr>i_action = Api, i_user = owner, i_coll = coll, i_filename = to_hex L i, i_option = ''rendition=thumbnail'', i_query_target = QNone, i_valid = True\<rparr>"
proof -
  have "trim (to_hex L i) = to_hex L i"
    using is_hex_chars [OF hex_codec.is_hex_to_hex [OF assms(1,2)]] hex_digits_plain
    by (auto simp: trim_def intro!: trim_both_id dest: last_in_set hd_in_set)
  then have "URLIntent_name Api owner coll (to_hex L i) ''rendition=thumbnail'' = URLIntent_blob L Api owner coll i ''rendition=thumbnail''"
    using hex_codec.is_hex_to_hex [OF assms(1,2)] by (simp add: URLIntent_blob_def URLIntent_name_def)
  moreover have "url_target (r_url (qt_get_blob L c owner coll i ''thumbnail'')) =
      intent_str (URLIntent_name Api owner coll (to_hex L i) ''rendition=thumbnail'')"
    by (simp add: url_target_def qt_get_blob_def qt_get_def setup_url_def intent_str_def URLIntent_name_def)
  ultimately show ?thesis using blob_intent_parsed [OF assms] by simp
qed

text \<open>A dialog, accepted or not, leads to a state that the theorems are about.\<close>

lemma login_triggered_reaches:
  "window_reaches L loadFromData log w \<Longrightarrow> window_reaches L loadFromData log (login_triggered toInt accepted dlg w)"
  by (simp add: login_triggered_def win_login)

text \<open>C23: The window of the desktop client, in every state that any order of logins, clicks and replies leads to: the
  assertion of \<^verbatim>\<open>CollectionModel::data\<close> holds; row \<open>n\<close> of the list shows the file name of the \<open>n\<close>-th blob of the
  collection and no other row shows anything; an icon has been decoded from the body of a reply with status 200 to a
  request for the blob of its row; and for every row the client has asked for the thumbnail with a URL
  that the server reads as this blob of this collection.\<close>

theorem window_shows_collection:
  assumes "hex_codec L" and "window_reaches L loadFromData log w"
  shows "let m = w_coll_model w; coll = cm_coll m in coll_data_assert m \<and>
    (\<forall>row. 0 \<le> row \<and> row < 2 ^ 31 \<longrightarrow>
       coll_data m row DisplayRole =
         (if nat row < length (c_blobs coll) then QText (bi_filename (snd (c_blobs coll ! nat row))) else QNothing) \<and>
       (\<forall>img. coll_data m row DecorationRole = QIcon img \<longrightarrow> nat row < length (c_blobs coll) \<and>
          (\<exists>r rendition body. (r, 200, body) \<in> set log \<and> loadFromData body = Some img \<and>
             r_finished r = On_get_blob (fst (c_blobs coll ! nat row)) rendition))) \<and>
    (c_owner coll \<noteq> [] \<and> segment (c_owner coll) \<and> no_end_slash (c_name coll) \<longrightarrow>
     (\<forall>i \<in> fst ` set (c_blobs coll). \<exists>r \<in> asked log w. r_finished r = On_get_blob i ''thumbnail'' \<and>
        URLIntent_of (url_target (r_url r)) = \<lparr>i_action = Api, i_user = c_owner coll, i_coll = c_name coll,
          i_filename = to_hex L i, i_option = ''rendition=thumbnail'', i_query_target = QNone, i_valid = True\<rparr>))"
proof -
  define m where "m = w_coll_model w"
  define coll where "coll = cm_coll m"
  have inv: "wf_coll coll" "cm_blob_ids m = map fst (c_blobs coll)" "images_received loadFromData log (cm_images m)"
      "\<forall>i \<in> fst ` set (c_blobs coll). \<exists>c. qt_get_blob L c (c_owner coll) (c_name coll) i ''thumbnail'' \<in> asked log w"
    using window_reaches_inv [OF assms] by (simp_all add: window_inv_def Let_def m_def coll_def)
  have found: "coll_find (fst (c_blobs coll ! n)) coll = Some (snd (c_blobs coll ! n))" if "n < length (c_blobs coll)" for n
    using that inv(1) by (simp add: coll_find_def wf_coll_def map_of_eq_Some_iff)
  have shown: "coll_data m row DisplayRole =
      (if nat row < length (c_blobs coll) then QText (bi_filename (snd (c_blobs coll ! nat row))) else QNothing)"
    if "0 \<le> row" "row < 2 ^ 31" for row
    using found inv(2) by (simp add: coll_data_def row_index_nat [OF that] coll_def)
  have icon: "nat row < length (c_blobs coll) \<and> (\<exists>r rendition body. (r, 200, body) \<in> set log \<and> loadFromData body = Some img \<and>
      r_finished r = On_get_blob (fst (c_blobs coll ! nat row)) rendition)"
    if "0 \<le> row" "row < 2 ^ 31" "coll_data m row DecorationRole = QIcon img" for row img
  proof -
    have len: "nat row < length (c_blobs coll)"
      using that(3) inv(2) by (simp add: coll_data_def row_index_nat [OF that(1,2)] split: if_splits)
    then have "map_of (cm_images m) (fst (c_blobs coll ! nat row)) = Some img"
      using that(3) inv(2) found [OF len] by (simp add: coll_data_def row_index_nat [OF that(1,2)] coll_def split: option.splits)
    then show ?thesis using len inv(3) by (fastforce simp: images_received_def dest: map_of_SomeD)
  qed
  have asks: "\<exists>r \<in> asked log w. r_finished r = On_get_blob i ''thumbnail'' \<and>
        URLIntent_of (url_target (r_url r)) = \<lparr>i_action = Api, i_user = c_owner coll, i_coll = c_name coll,
          i_filename = to_hex L i, i_option = ''rendition=thumbnail'', i_query_target = QNone, i_valid = True\<rparr>"
    if "c_owner coll \<noteq> []" "segment (c_owner coll)" "no_end_slash (c_name coll)" "i \<in> fst ` set (c_blobs coll)" for i
  proof -
    note mem = that(4)
    obtain c where "qt_get_blob L c (c_owner coll) (c_name coll) i ''thumbnail'' \<in> asked log w" using inv(4) mem by blast
    moreover have "wf_oid i" using inv(1) mem by (auto simp: wf_coll_def)
    ultimately show ?thesis using thumbnail_parsed [OF assms(1) _ that(1-3)] by (force simp: qt_get_blob_def qt_get_def)
  qed
  have "coll_data_assert m" using inv(2) by (simp add: coll_data_assert_def coll_def)
  then show ?thesis unfolding Let_def m_def [symmetric] coll_def [symmetric] using shown icon asks by blast
qed

text \<open>A login, the reply to it and a listing.\<close>

definition demo_json :: json where
  "demo_json = coll_to_json ref_lib demo_coll"

lemma demo_json_wf: "wf_json demo_json" "float_free demo_json"
  by code_simp+

lemma login_window_reaches:
  "\<exists>log w rest. window_reaches ref_lib Some log w \<and> w_waiting w = qt_list_collection (w_hrb w) [] # rest"
proof -
  let ?w = "action_login ''h'' 4433 ''sumsum'' ''bearbear'' MainWindow_new :: string MainWindow"
  have reach: "window_reaches ref_lib Some [] ?w" by (intro win_login win_start)
  have "finish_reply ref_lib Some 0 204 [] ?w = Some (window_on_login (?w\<lparr>w_waiting := []\<rparr>))" "0 < length (w_waiting ?w)"
    by (simp_all add: finish_reply_def finished_defs action_login_def MainWindow_new_def send_requests_def qt_login_def Let_def)
  from win_reply [OF reach this(2,1)] show ?thesis by (fastforce simp: window_on_login_def send_requests_def)
qed

lemma demo_window_reaches:
  "\<exists>log w. window_reaches ref_lib Some log w \<and> c_blobs (cm_coll (w_coll_model w)) = [(replicate 20 CHR ''a'', demo_inode)]"
proof -
  obtain body where "json_dump ref_lib demo_json = Some body" by (simp add: ref_lib_def)
  then have parse: "json_parse ref_lib body = Some demo_json" using ref_json.parse_dump demo_json_wf by blast
  obtain coll where coll: "coll_from_json ref_lib demo_json = Inr coll" "\<forall>i. coll_find i coll = map_option norm_perm (coll_find i demo_coll)"
    using ref_hex.coll_json_roundtrip [OF wf_demo_coll] by (auto simp: demo_json_def)
  have blobs: "c_blobs coll = [(replicate 20 CHR ''a'', demo_inode)]"
    using coll_from_json_wf [OF ref_hex.hex_codec_axioms coll(1)] coll(2)
    by (intro single_blob) (auto simp: demo_coll_find norm_perm_demo_inode)
  obtain log w rest where w: "window_reaches ref_lib Some log (w :: string MainWindow)" "w_waiting w = qt_list_collection (w_hrb w) [] # rest"
    using login_window_reaches by blast
  obtain w' where "finish_reply ref_lib Some 0 200 body w = Some w'" "cm_coll (w_coll_model w') = coll"
    using w(2) parse coll(1)
    by (simp add: finish_reply_def finished_defs qt_list_collection_def qt_get_def coll_update_def send_requests_def)
  with win_reply [OF w(1) _ this(1)] w(2) blobs show ?thesis by auto
qed

theorem window_shows_collection_witness:
  "\<exists>log (w :: string MainWindow). window_reaches ref_lib Some log w \<and> coll_data_assert (w_coll_model w) \<and>
     coll_data (w_coll_model w) 0 DisplayRole = QText ''dog.png'' \<and> coll_data (w_coll_model w) 1 DisplayRole = QNothing"
proof -
  obtain log w where w: "window_reaches ref_lib Some log (w :: string MainWindow)"
    "c_blobs (cm_coll (w_coll_model w)) = [(replicate 20 CHR ''a'', demo_inode)]"
    using demo_window_reaches by blast
  note shown = window_shows_collection [OF ref_hex.hex_codec_axioms w(1), unfolded Let_def w(2)]
  have all: "coll_data (w_coll_model w) row DisplayRole = (if nat row < 1 then QText (bi_filename (snd ([(replicate 20 CHR ''a'', demo_inode)] ! nat row))) else QNothing)"
    if "0 \<le> row" "row < 2 ^ 31" for row :: int
    using shown that by simp
  have "coll_data (w_coll_model w) 0 DisplayRole = QText ''dog.png''" "coll_data (w_coll_model w) 1 DisplayRole = QNothing"
    using all [of 0] all [of 1] by (simp_all add: demo_inode_def)
  moreover have "coll_data_assert (w_coll_model w)" using shown by blast
  ultimately show ?thesis using w(1) by blast
qed

end
