(* ===== verification/Memory_Map.thy ===== *)
theory Memory_Map
  imports HRB_Prelude
begin

text \<open>
  \<^verbatim>\<open>src/common/util/MMap.cc\<close>: the objects that own the memory mappings of files. The kernel is a list of the
  mapped regions with a function that picks the address of a new one; the locale \<^verbatim>\<open>mmap_kernel\<close> says that the
  address is not null and not in use. Objects are created, moved, assigned, swapped, cleared and destroyed in any
  order; a region is always owned by exactly one object, none is unmapped twice, and none is left when the
  objects are gone.
\<close>

section \<open>Mappings\<close>

text \<open>The regions, each an address and a size, and the calls of \<^verbatim>\<open>munmap\<close> that named no region.\<close>

record vm =
  vm_regions :: "(nat \<times> nat) list"
  vm_bad_unmaps :: nat

type_synonym kernel = "(nat \<times> nat) list \<Rightarrow> nat \<Rightarrow> nat option"

definition munmap :: "nat \<Rightarrow> nat \<Rightarrow> vm \<Rightarrow> vm" where
  "munmap addr len v = (if (addr, len) \<in> set (vm_regions v) then v\<lparr>vm_regions := removeAll (addr, len) (vm_regions v)\<rparr>
     else v\<lparr>vm_bad_unmaps := vm_bad_unmaps v + 1\<rparr>)"

record MMap =
  m_mmap :: nat
  m_size :: nat

definition no_map :: MMap where
  "no_map = \<lparr>m_mmap = 0, m_size = 0\<rparr>"

definition is_opened :: "MMap \<Rightarrow> bool" where
  "is_opened m \<longleftrightarrow> m_mmap m \<noteq> 0"

text \<open>\<^verbatim>\<open>MMap::mmap\<close>; the result tells whether there was no error. It is called on closed objects only.\<close>

definition mm_map :: "kernel \<Rightarrow> nat \<Rightarrow> vm \<Rightarrow> MMap \<times> vm \<times> bool" where
  "mm_map pick len v = (case pick (vm_regions v) len of
       None \<Rightarrow> (no_map, v, False)
     | Some addr \<Rightarrow> (\<lparr>m_mmap = addr, m_size = len\<rparr>, v\<lparr>vm_regions := (addr, len) # vm_regions v\<rparr>, True))"

definition mm_clear :: "MMap \<Rightarrow> vm \<Rightarrow> MMap \<times> vm" where
  "mm_clear m v = (no_map, munmap (m_mmap m) (m_size m) v)"

definition mm_destroy :: "MMap \<Rightarrow> vm \<Rightarrow> vm" where
  "mm_destroy m v = (if is_opened m then snd (mm_clear m v) else v)"

text \<open>\<^verbatim>\<open>open(fd)\<close> with the size that \<^verbatim>\<open>fstat\<close> gives, if it succeeds, and \<^verbatim>\<open>open(path)\<close>, where the file itself may not
  open. \<^verbatim>\<open>create\<close> and \<^verbatim>\<open>allocate\<close> map a given size.\<close>

definition mm_open_fd :: "kernel \<Rightarrow> nat option \<Rightarrow> vm \<Rightarrow> MMap \<times> vm \<times> bool" where
  "mm_open_fd pick fstat v = (case fstat of Some len \<Rightarrow> mm_map pick len v | None \<Rightarrow> (no_map, v, False))"

definition mm_open_path :: "kernel \<Rightarrow> nat option option \<Rightarrow> vm \<Rightarrow> MMap \<times> vm \<times> bool" where
  "mm_open_path pick fd v = (case fd of Some fstat \<Rightarrow> mm_open_fd pick fstat v | None \<Rightarrow> (no_map, v, False))"

definition mm_create :: "kernel \<Rightarrow> nat \<Rightarrow> vm \<Rightarrow> MMap \<times> vm \<times> bool" where
  "mm_create pick len v = mm_map pick len v"

definition mm_allocate :: "kernel \<Rightarrow> nat \<Rightarrow> vm \<Rightarrow> MMap \<times> vm \<times> bool" where
  "mm_allocate pick len v = mm_map pick len v"

definition mm_swap :: "MMap \<Rightarrow> MMap \<Rightarrow> MMap \<times> MMap" where
  "mm_swap this target = (target, this)"

text \<open>The move constructor swaps with a new object.\<close>

definition mm_move :: "MMap \<Rightarrow> MMap \<times> MMap" where
  "mm_move m = mm_swap no_map m"

text \<open>The objects of a program by their names, and what it does with them. The move assignment moves into a
  copy, swaps with the copy, and destroys the copy.\<close>

record heap =
  hp_objects :: "nat \<rightharpoonup> MMap"
  hp_vm :: vm

datatype mm_op =
    Op_new nat
  | Op_open nat "nat option option"
  | Op_construct nat "nat option"
  | Op_allocate nat nat
  | Op_move nat nat
  | Op_assign nat nat
  | Op_swap nat nat
  | Op_clear nat
  | Op_destroy nat

definition mm_assign :: "nat \<Rightarrow> nat \<Rightarrow> heap \<Rightarrow> heap" where
  "mm_assign x y h =
     (let (copy, rhs) = mm_move (the (hp_objects h y));
          objs1 = (hp_objects h)(y \<mapsto> rhs);
          (this, copy') = mm_swap (the (objs1 x)) copy
      in h\<lparr>hp_objects := objs1(x \<mapsto> this), hp_vm := mm_destroy copy' (hp_vm h)\<rparr>)"

text \<open>The constructor with a file descriptor calls the static function \<^verbatim>\<open>open\<close> and drops its result, so that the file is
  unmapped again; with an error it throws.\<close>

definition mm_construct :: "kernel \<Rightarrow> nat option \<Rightarrow> vm \<Rightarrow> MMap option \<times> vm" where
  "mm_construct pick fstat v =
     (case mm_open_fd pick fstat v of (m, v', okay) \<Rightarrow> (if okay then Some no_map else None, mm_destroy m v'))"

definition put_new :: "nat \<Rightarrow> MMap \<times> vm \<times> bool \<Rightarrow> heap \<Rightarrow> heap" where
  "put_new x r h = (case r of (m, v, _) \<Rightarrow> h\<lparr>hp_objects := (hp_objects h)(x \<mapsto> m), hp_vm := v\<rparr>)"

fun mm_step :: "kernel \<Rightarrow> mm_op \<Rightarrow> heap \<Rightarrow> heap" where
  "mm_step pick (Op_new x) h = h\<lparr>hp_objects := (hp_objects h)(x \<mapsto> no_map)\<rparr>"
| "mm_step pick (Op_open x fd) h = put_new x (mm_open_path pick fd (hp_vm h)) h"
| "mm_step pick (Op_construct x fstat) h =
     (let (m, v) = mm_construct pick fstat (hp_vm h)
      in h\<lparr>hp_objects := (case m of Some m \<Rightarrow> (hp_objects h)(x \<mapsto> m) | None \<Rightarrow> hp_objects h), hp_vm := v\<rparr>)"
| "mm_step pick (Op_allocate x len) h = put_new x (mm_allocate pick len (hp_vm h)) h"
| "mm_step pick (Op_move x y) h =
     (let (this, rhs) = mm_move (the (hp_objects h y)) in h\<lparr>hp_objects := (hp_objects h)(y \<mapsto> rhs, x \<mapsto> this)\<rparr>)"
| "mm_step pick (Op_assign x y) h = mm_assign x y h"
| "mm_step pick (Op_swap x y) h =
     (let (this, target) = mm_swap (the (hp_objects h x)) (the (hp_objects h y))
      in h\<lparr>hp_objects := (hp_objects h)(x \<mapsto> this, y \<mapsto> target)\<rparr>)"
| "mm_step pick (Op_clear x) h =
     (let (m, v) = mm_clear (the (hp_objects h x)) (hp_vm h) in h\<lparr>hp_objects := (hp_objects h)(x \<mapsto> m), hp_vm := v\<rparr>)"
| "mm_step pick (Op_destroy x) h =
     h\<lparr>hp_objects := (hp_objects h)(x := None), hp_vm := mm_destroy (the (hp_objects h x)) (hp_vm h)\<rparr>"

text \<open>What C++ itself asks for: a new object has a new name, an operation has living operands, and \<^verbatim>\<open>clear\<close> asserts that the
  object is open.\<close>

fun op_allowed :: "mm_op \<Rightarrow> heap \<Rightarrow> bool" where
  "op_allowed (Op_new x) h \<longleftrightarrow> hp_objects h x = None"
| "op_allowed (Op_open x fd) h \<longleftrightarrow> hp_objects h x = None"
| "op_allowed (Op_construct x fstat) h \<longleftrightarrow> hp_objects h x = None"
| "op_allowed (Op_allocate x len) h \<longleftrightarrow> hp_objects h x = None"
| "op_allowed (Op_move x y) h \<longleftrightarrow> hp_objects h x = None \<and> hp_objects h y \<noteq> None"
| "op_allowed (Op_assign x y) h \<longleftrightarrow> hp_objects h x \<noteq> None \<and> hp_objects h y \<noteq> None"
| "op_allowed (Op_swap x y) h \<longleftrightarrow> hp_objects h x \<noteq> None \<and> hp_objects h y \<noteq> None"
| "op_allowed (Op_clear x) h \<longleftrightarrow> hp_objects h x \<noteq> None \<and> is_opened (the (hp_objects h x))"
| "op_allowed (Op_destroy x) h \<longleftrightarrow> hp_objects h x \<noteq> None"

definition empty_heap :: heap where
  "empty_heap = \<lparr>hp_objects = Map.empty, hp_vm = \<lparr>vm_regions = [], vm_bad_unmaps = 0\<rparr>\<rparr>"

inductive mm_reachable :: "kernel \<Rightarrow> heap \<Rightarrow> bool" for pick :: kernel where
  start: "mm_reachable pick empty_heap"
| step: "\<lbrakk>mm_reachable pick h; op_allowed op h\<rbrakk> \<Longrightarrow> mm_reachable pick (mm_step pick op h)"

section \<open>Ownership\<close>

text \<open>The open objects; every region belongs to exactly one of them.\<close>

definition open_objects :: "(nat \<rightharpoonup> MMap) \<Rightarrow> nat \<rightharpoonup> MMap" where
  "open_objects objs x = (case objs x of Some m \<Rightarrow> if is_opened m then Some m else None | None \<Rightarrow> None)"

definition owned_by :: "(nat \<rightharpoonup> MMap) \<Rightarrow> vm \<Rightarrow> bool" where
  "owned_by P v \<longleftrightarrow> distinct (map fst (vm_regions v)) \<and> vm_bad_unmaps v = 0 \<and>
     (\<forall>x m. P x = Some m \<longrightarrow> is_opened m) \<and>
     (\<forall>x y m m'. P x = Some m \<longrightarrow> P y = Some m' \<longrightarrow> m_mmap m = m_mmap m' \<longrightarrow> x = y) \<and>
     set (vm_regions v) = (\<lambda>m. (m_mmap m, m_size m)) ` ran P"

definition owned :: "heap \<Rightarrow> bool" where
  "owned h \<longleftrightarrow> owned_by (open_objects (hp_objects h)) (hp_vm h)"

lemma open_objects_upd:
  "open_objects (objs(x \<mapsto> m)) = (open_objects objs)(x := if is_opened m then Some m else None)"
  "open_objects (objs(x := None)) = (open_objects objs)(x := None)"
  "\<not> is_opened no_map" "objs x = None \<Longrightarrow> open_objects objs x = None"
  "objs x = Some m \<Longrightarrow> open_objects objs x = (if is_opened m then Some m else None)"
  by (auto simp: open_objects_def fun_eq_iff no_map_def is_opened_def)

lemma owned_byD:
  assumes "owned_by P v"
  shows "distinct (map fst (vm_regions v))" "vm_bad_unmaps v = 0" "P x = Some m \<Longrightarrow> is_opened m"
    "\<lbrakk>P x = Some m; P y = Some m'; m_mmap m = m_mmap m'\<rbrakk> \<Longrightarrow> x = y"
    "set (vm_regions v) = (\<lambda>m. (m_mmap m, m_size m)) ` ran P"
  using assms unfolding owned_by_def by blast+

lemma owned_exchange:
  assumes "owned_by P v"
  shows "owned_by (P(x := P y, y := P x)) v"
proof -
  have "r \<in> ran (P(x := P y, y := P x))" if "P a = Some r" for a r
    using that by (intro ranI [of _ "if a = x then y else if a = y then x else a"]) auto
  then have "ran P \<subseteq> ran (P(x := P y, y := P x))" unfolding ran_def [of P] by blast
  moreover have "ran (P(x := P y, y := P x)) \<subseteq> ran P" by (auto simp: ran_def split: if_splits)
  ultimately have ran: "ran (P(x := P y, y := P x)) = ran P" by (rule equalityI [rotated])
  have inj: "a = b" if "(P(x := P y, y := P x)) a = Some m" "(P(x := P y, y := P x)) b = Some m'" "m_mmap m = m_mmap m'" for a b m m'
    using that owned_byD(4) [OF assms] by (auto split: if_splits)
  have opened: "is_opened m" if "(P(x := P y, y := P x)) a = Some m" for a m
    using that owned_byD(3) [OF assms] by (auto split: if_splits)
  show ?thesis
    unfolding owned_by_def ran using owned_byD(1,2,5) [OF assms] inj opened by (intro conjI allI impI)
qed

lemma owned_drop:
  assumes own: "owned_by P v" and x: "P x = Some m"
  shows "owned_by (P(x := None)) (munmap (m_mmap m) (m_size m) v)"
proof -
  have mem: "(m_mmap m, m_size m) \<in> set (vm_regions v)" using own x by (auto simp: owned_by_def ran_def)
  have "ran (P(x := None)) = ran P - {m}"
  proof (intro equalityI subsetI)
    fix r assume "r \<in> ran (P(x := None))"
    then obtain a where "a \<noteq> x" "P a = Some r" by (auto simp: ran_def split: if_splits)
    then show "r \<in> ran P - {m}" using x owned_byD(4) [OF own] by (auto intro: ranI)
  next
    fix r assume "r \<in> ran P - {m}"
    then obtain a where "P a = Some r" "r \<noteq> m" by (auto simp: ran_def)
    then show "r \<in> ran (P(x := None))" using x by (intro ranI [of _ a]) auto
  qed
  then have "set (removeAll (m_mmap m, m_size m) (vm_regions v)) = (\<lambda>m. (m_mmap m, m_size m)) ` ran (P(x := None))"
    using owned_byD(5) [OF own] x by (auto simp: inj_on_def)
  moreover have "distinct (map fst (removeAll (m_mmap m, m_size m) (vm_regions v)))"
    using own by (simp add: owned_by_def distinct_map removeAll_filter_not_eq inj_on_def)
  ultimately show ?thesis using own mem by (auto simp: owned_by_def munmap_def)
qed

lemma owned_add:
  assumes own: "owned_by P v" and "P x = None" and m: "is_opened m" "m_mmap m \<notin> fst ` set (vm_regions v)"
  shows "owned_by (P(x \<mapsto> m)) (v\<lparr>vm_regions := (m_mmap m, m_size m) # vm_regions v\<rparr>)"
proof -
  have "ran (P(x \<mapsto> m)) = insert m (ran P)" using assms(2) by (rule ran_map_upd)
  moreover have "P y = Some m' \<Longrightarrow> m_mmap m' \<noteq> m_mmap m \<and> m_mmap m \<noteq> m_mmap m'" for y m'
  proof -
    assume "P y = Some m'"
    then have "(m_mmap m', m_size m') \<in> set (vm_regions v)" using owned_byD(5) [OF own] by (simp add: ranI)
    then show ?thesis using m(2) by force
  qed
  ultimately show ?thesis
    using owned_byD [OF own] m unfolding owned_by_def by (auto split: if_splits)
qed

locale mmap_kernel =
  fixes pick :: kernel
  assumes pick_fresh: "pick rs len = Some addr \<Longrightarrow> addr \<noteq> 0 \<and> addr \<notin> fst ` set rs"
begin

lemma owned_map:
  assumes "owned_by P v" and "P x = None" and "mm_map pick len v = (m, v', okay)"
  shows "owned_by (P(x := if is_opened m then Some m else None)) v'" and "okay \<longleftrightarrow> is_opened m" and "\<not> okay \<Longrightarrow> v' = v"
  using assms pick_fresh [of "vm_regions v" len] owned_add [of P v x m]
  by (auto simp: mm_map_def is_opened_def no_map_def fun_upd_idem split: option.splits)

lemma owned_open_path:
  assumes "owned_by P v" and "P x = None" and "mm_open_path pick fd v = (m, v', okay)"
  shows "owned_by (P(x := if is_opened m then Some m else None)) v'"
proof (cases "\<exists>len. fd = Some (Some len)")
  case True
  then obtain len where "fd = Some (Some len)" by blast
  then have "mm_map pick len v = (m, v', okay)" using assms(3) by (simp add: mm_open_path_def mm_open_fd_def)
  with assms(1,2) show ?thesis by (rule owned_map(1))
next
  case False
  then have "m = no_map" "v' = v" using assms(3) by (auto simp: mm_open_path_def mm_open_fd_def split: option.splits)
  with assms(1,2) show ?thesis by (simp add: open_objects_upd(3) fun_upd_idem)
qed

lemma owned_destroy:
  assumes "owned h" and "hp_objects h x = Some m"
  shows "owned_by ((open_objects (hp_objects h))(x := None)) (mm_destroy m (hp_vm h))"
  using assms owned_drop [of "open_objects (hp_objects h)" "hp_vm h" x m]
  by (auto simp: owned_def mm_destroy_def mm_clear_def open_objects_upd fun_upd_idem)

lemma owned_construct:
  assumes "owned h" and "hp_objects h x = None"
  shows "owned_by (open_objects (hp_objects h)) (snd (mm_construct pick fstat (hp_vm h)))"
proof -
  let ?P = "open_objects (hp_objects h)"
  obtain m v' okay where run: "mm_open_fd pick fstat (hp_vm h) = (m, v', okay)" by (metis prod_cases3)
  have x: "?P x = None" using assms(2) by (rule open_objects_upd(4))
  have "owned_by (?P(x := if is_opened m then Some m else None)) v'"
    using owned_open_path [of ?P "hp_vm h" x "Some fstat"] assms x run by (simp add: owned_def mm_open_path_def)
  then have "owned_by (?P(x := None)) (mm_destroy m v')"
    using owned_drop [of "?P(x \<mapsto> m)" v' x m] by (cases "is_opened m") (auto simp: mm_destroy_def mm_clear_def)
  with x run show ?thesis by (simp add: mm_construct_def fun_upd_idem)
qed

lemma owned_assign:
  assumes own: "owned h" and "hp_objects h x = Some m" "hp_objects h y = Some m'"
  shows "owned (mm_assign x y h)"
proof (cases "x = y")
  case True
  then show ?thesis
    using assms by (simp add: owned_def mm_assign_def mm_move_def mm_swap_def mm_destroy_def open_objects_upd fun_upd_idem)
next
  case False
  let ?P = "open_objects (hp_objects h)"
  have "owned_by (?P(x := None)) (mm_destroy m (hp_vm h))" using owned_destroy [OF assms(1,2)] .
  from owned_exchange [OF this, of x y] show ?thesis
    using False assms(2,3)
    by (simp add: owned_def mm_assign_def mm_move_def mm_swap_def open_objects_upd fun_upd_twist)
qed

lemma owned_step:
  assumes "owned h" and "op_allowed op h"
  shows "owned (mm_step pick op h)"
proof (cases op)
  case (Op_new x)
  with assms show ?thesis by (simp add: owned_def open_objects_upd fun_upd_idem)
next
  case (Op_open x fd)
  obtain m v' okay where run: "mm_open_path pick fd (hp_vm h) = (m, v', okay)" by (metis prod_cases3)
  with Op_open assms owned_open_path [OF _ _ run] show ?thesis by (simp add: owned_def put_new_def open_objects_upd)
next
  case (Op_construct x fstat)
  with assms owned_construct [of h x fstat] show ?thesis
    by (auto simp: owned_def mm_construct_def Let_def open_objects_upd fun_upd_idem split: prod.splits option.splits)
next
  case (Op_allocate x len)
  obtain m v' okay where run: "mm_map pick len (hp_vm h) = (m, v', okay)" by (metis prod_cases3)
  with Op_allocate assms owned_map(1) [OF _ _ run] show ?thesis
    by (simp add: owned_def put_new_def mm_allocate_def open_objects_upd)
next
  case (Op_move x y)
  then obtain m where m: "hp_objects h x = None" "hp_objects h y = Some m" using assms(2) by auto
  with owned_exchange [of "open_objects (hp_objects h)" "hp_vm h" y x] assms(1) Op_move show ?thesis
    by (simp add: owned_def mm_move_def mm_swap_def open_objects_upd)
next
  case (Op_assign x y)
  with assms owned_assign show ?thesis by auto
next
  case (Op_swap x y)
  then obtain m m' where m: "hp_objects h x = Some m" "hp_objects h y = Some m'" using assms(2) by auto
  with owned_exchange [of "open_objects (hp_objects h)" "hp_vm h" x y] assms(1) Op_swap show ?thesis
    by (simp add: owned_def mm_swap_def open_objects_upd)
next
  case (Op_clear x)
  then obtain m where m: "hp_objects h x = Some m" "is_opened m" using assms(2) by auto
  with owned_drop [of "open_objects (hp_objects h)" "hp_vm h" x m] assms(1) Op_clear show ?thesis
    by (simp add: owned_def mm_clear_def open_objects_upd)
next
  case (Op_destroy x)
  then obtain m where m: "hp_objects h x = Some m" using assms(2) by auto
  with owned_destroy [OF assms(1) m] Op_destroy show ?thesis by (simp add: owned_def open_objects_upd)
qed

lemma reachable_owned: "mm_reachable pick h \<Longrightarrow> owned h"
proof (induction rule: mm_reachable.induct)
  case start
  show ?case by (simp add: owned_def owned_by_def empty_heap_def open_objects_def ran_def)
next
  case (step h op)
  then show ?case by (simp add: owned_step)
qed

end

text \<open>A kernel that maps everything but the empty file behind the last address in use.\<close>

definition ref_pick :: kernel where
  "ref_pick rs len = (if len = 0 then None else Some (Suc (foldr max (map fst rs) 0)))"

lemma foldr_max_ge: "n \<in> set ns \<Longrightarrow> n \<le> foldr max ns (0 :: nat)"
  by (induction ns) auto

interpretation ref_kernel: mmap_kernel ref_pick
proof
  fix rs len addr
  assume "ref_pick rs len = Some addr"
  then have "addr = Suc (foldr max (map fst rs) 0)" by (simp add: ref_pick_def split: if_splits)
  then show "addr \<noteq> 0 \<and> addr \<notin> fst ` set rs" using foldr_max_ge [of addr "map fst rs"] by auto
qed

text \<open>C20: Memory mappings are never leaked and never released twice. However objects are opened, moved, assigned (to
  themselves too), swapped, cleared and destroyed, every mapped region belongs to exactly one open object,
  every open object has its region, no call of \<^verbatim>\<open>munmap\<close> ever names a region that is not mapped, and
  when no object is left no region is.\<close>

theorem mappings_owned_once:
  assumes "mmap_kernel pick" and "mm_reachable pick h"
  shows "(\<forall>r \<in> set (vm_regions (hp_vm h)). \<exists>!x. \<exists>m. hp_objects h x = Some m \<and> is_opened m \<and> r = (m_mmap m, m_size m)) \<and>
    (\<forall>x m. hp_objects h x = Some m \<and> is_opened m \<longrightarrow> (m_mmap m, m_size m) \<in> set (vm_regions (hp_vm h))) \<and>
    vm_bad_unmaps (hp_vm h) = 0 \<and> (hp_objects h = Map.empty \<longrightarrow> vm_regions (hp_vm h) = [])"
proof -
  note own = mmap_kernel.reachable_owned [OF assms, unfolded owned_def]
  have P: "open_objects (hp_objects h) x = Some m \<longleftrightarrow> hp_objects h x = Some m \<and> is_opened m" for x m
    by (auto simp: open_objects_def split: option.splits)
  have regions: "set (vm_regions (hp_vm h)) = {(m_mmap m, m_size m) | x m. hp_objects h x = Some m \<and> is_opened m}"
    using owned_byD(5) [OF own] by (auto simp: ran_def P)
  have "\<exists>!x. \<exists>m. hp_objects h x = Some m \<and> is_opened m \<and> r = (m_mmap m, m_size m)" if "r \<in> set (vm_regions (hp_vm h))" for r
    using that owned_byD(4) [OF own, unfolded P] unfolding regions by (auto intro!: ex_ex1I)
  then show ?thesis using owned_byD(2) [OF own] regions by auto
qed

theorem mappings_owned_once_witness:
  "vm_bad_unmaps (hp_vm (mm_step ref_pick (Op_assign 1 0) (mm_step ref_pick (Op_open 1 (Some (Some 5)))
     (mm_step ref_pick (Op_open 0 (Some (Some 3))) empty_heap)))) = 0"
proof -
  have "mm_reachable ref_pick (mm_step ref_pick (Op_assign 1 0) (mm_step ref_pick (Op_open 1 (Some (Some 5)))
     (mm_step ref_pick (Op_open 0 (Some (Some 3))) empty_heap)))"
    by (intro mm_reachable.intros) (simp_all add: empty_heap_def put_new_def mm_open_path_def mm_open_fd_def mm_map_def ref_pick_def)
  from mappings_owned_once [OF ref_kernel.mmap_kernel_axioms this] show ?thesis by blast
qed

end
