(* ===== verification/Random_Numbers.thy ===== *)
theory Random_Numbers
  imports HRB_Prelude "HOL-Library.Word"
begin

text \<open>
  \<^verbatim>\<open>src/common/crypto/Random.hh\<close>, \<^verbatim>\<open>Random.cc\<close> and \<^verbatim>\<open>src/server/crypto/Password.cc\<close>: random bytes from the system and from
  the generator \<^verbatim>\<open>Blake2x\<close>, and passwords with the derivation of keys. The entropy of the system, the hash
  function and PBKDF2 are parameters. The generator never hashes the same input twice in its first \<open>2 ^ 32\<close> values,
  and gets new entropy every \<open>0x7ffff\<close> values; after \<open>2 ^ 32\<close> values its counter leaves the range that it asserts.
\<close>

unbundle bit_operations_syntax

section \<open>Filling a buffer\<close>

text \<open>The bytes of a 64-bit value in memory (little-endian).\<close>

definition word_bytes :: "64 word \<Rightarrow> string" where
  "word_bytes w = map (\<lambda>k. char_of (unat (take_bit 8 (drop_bit (8 * k) w)))) [0..<8]"

definition bytes_word :: "string \<Rightarrow> 64 word" where
  "bytes_word bytes = foldr (\<lambda>c w. push_bit 8 w + of_char c) bytes 0"

text \<open>\<^verbatim>\<open>getentropy\<close>: the bytes and the new state of the system, or an error, which \<^verbatim>\<open>secure_random\<close> throws.\<close>

type_synonym 'e entropy = "nat \<Rightarrow> 'e \<Rightarrow> (string \<times> 'e) option"

definition secure_random :: "'e entropy \<Rightarrow> nat \<Rightarrow> 'e \<Rightarrow> (string \<times> 'e) option" where
  "secure_random getentropy len e = getentropy len e"

text \<open>\<^verbatim>\<open>random_buffer\<close> with a generator of 64-bit values; an exception of the generator is \<^term>\<open>None\<close>.\<close>

function random_buffer :: "('g \<Rightarrow> (64 word \<times> 'g) option) \<Rightarrow> nat \<Rightarrow> 'g \<Rightarrow> (string \<times> 'g) option" where
  "random_buffer gen len g =
     (if len = 0 then Some ([], g)
      else case gen g of
          None \<Rightarrow> None
        | Some (rand, g') \<Rightarrow> map_option (\<lambda>(rest, g''). (take (min 8 len) (word_bytes rand) @ rest, g'')) (random_buffer gen (len - 8) g'))"
  by auto
termination by (relation "measure (\<lambda>(_, len, _). len)") auto

declare random_buffer.simps [simp del]

section \<open>Blake2x\<close>

text \<open>What changes in the parameter block, and the key; the block depends on nothing else that changes.\<close>

record blake2x =
  bx_salt :: string
  bx_node_offset :: "64 word"
  bx_h0 :: "64 word"

definition reseed :: "'e entropy \<Rightarrow> blake2x \<times> 'e \<Rightarrow> (blake2x \<times> 'e) option" where
  "reseed getentropy st = (case st of (b, e) \<Rightarrow>
     (case secure_random getentropy 16 e of
        None \<Rightarrow> None
      | Some (salt, e1) \<Rightarrow> (case secure_random getentropy 8 e1 of
          None \<Rightarrow> None
        | Some (h0, e2) \<Rightarrow> Some (b\<lparr>bx_salt := salt, bx_h0 := bytes_word h0\<rparr>, e2))))"

text \<open>The constructor, and one call. The assertion of the call is the function below.\<close>

definition Blake2x :: "'e entropy \<Rightarrow> 'e \<Rightarrow> (blake2x \<times> 'e) option" where
  "Blake2x getentropy e = reseed getentropy (\<lparr>bx_salt = replicate 16 CHR 0x00, bx_node_offset = 0xFFFFFFFF00000000, bx_h0 = 0\<rparr>, e)"

definition blake2x_assert :: "blake2x \<Rightarrow> bool" where
  "blake2x_assert b \<longleftrightarrow> drop_bit 32 (bx_node_offset b) = 0xFFFFFFFF"

definition blake2x_next ::
  "'e entropy \<Rightarrow> (string \<Rightarrow> 64 word \<Rightarrow> 64 word \<Rightarrow> 64 word) \<Rightarrow> blake2x \<times> 'e \<Rightarrow> (64 word \<times> blake2x \<times> 'e) option" where
  "blake2x_next getentropy blake2b st = (case st of (b, e) \<Rightarrow>
     (let hash = blake2b (bx_salt b) (bx_node_offset b) (bx_h0 b);
          native_offset = bx_node_offset b + 1;
          b1 = b\<lparr>bx_node_offset := native_offset\<rparr>
      in if (native_offset AND 0xFFFFFFFF) mod 0x7FFFF = 0 then map_option (Pair hash) (reseed getentropy (b1, e))
         else Some (hash, b1, e)))"

text \<open>The random values of the program: a session of a user comes from the system, that of a guest from the generator.\<close>

definition secure_session :: "'e entropy \<Rightarrow> 'e \<Rightarrow> (string \<times> 'e) option" where
  "secure_session getentropy e = secure_random getentropy 16 e"

definition insecure_session ::
  "'e entropy \<Rightarrow> (string \<Rightarrow> 64 word \<Rightarrow> 64 word \<Rightarrow> 64 word) \<Rightarrow> blake2x \<times> 'e \<Rightarrow> (string \<times> blake2x \<times> 'e) option" where
  "insecure_session getentropy blake2b st = random_buffer (blake2x_next getentropy blake2b) 16 st"

text \<open>\<^verbatim>\<open>random_salt\<close> of \<^verbatim>\<open>Authentication.cc\<close>: \<^verbatim>\<open>std::generate\<close> fills four values of a generator of the thread, which
  a union reads as the 32 bytes of the salt.\<close>

fun generate :: "('g \<Rightarrow> (64 word \<times> 'g) option) \<Rightarrow> nat \<Rightarrow> 'g \<Rightarrow> (64 word list \<times> 'g) option" where
  "generate gen 0 g = Some ([], g)"
| "generate gen (Suc n) g =
     (case gen g of
        None \<Rightarrow> None
      | Some (v, g') \<Rightarrow> map_option (\<lambda>(vs, g''). (v # vs, g'')) (generate gen n g'))"

definition random_salt ::
  "'e entropy \<Rightarrow> (string \<Rightarrow> 64 word \<Rightarrow> 64 word \<Rightarrow> 64 word) \<Rightarrow> blake2x \<times> 'e \<Rightarrow> (string \<times> blake2x \<times> 'e) option" where
  "random_salt getentropy blake2b salt_generator =
     map_option (\<lambda>(lls, g). (concat (map word_bytes lls), g)) (generate (blake2x_next getentropy blake2b) 4 salt_generator)"

section \<open>Passwords\<close>

text \<open>The bytes of a password are locked in memory while there are any. \<^term>\<open>mlock\<close> tells whether the pages can be
  locked.\<close>

record Password =
  pw_val :: string
  pw_locked :: bool

definition no_password :: Password where
  "no_password = \<lparr>pw_val = [], pw_locked = False\<rparr>"

definition Password_of :: "(nat \<Rightarrow> bool) \<Rightarrow> string \<Rightarrow> Password option" where
  "Password_of mlock val =
     (if val = [] then Some no_password else if mlock (length val) then Some \<lparr>pw_val = val, pw_locked = True\<rparr> else None)"

text \<open>\<^verbatim>\<open>clear\<close> overwrites the bytes before it unlocks them; the second component is what it leaves in the memory.\<close>

definition password_clear :: "Password \<Rightarrow> Password \<times> string" where
  "password_clear p = (if pw_val p \<noteq> [] then (no_password, map (\<lambda>_. CHR 0x00) (pw_val p)) else (p, []))"

definition password_swap :: "Password \<Rightarrow> Password \<Rightarrow> Password \<times> Password" where
  "password_swap p other = (other, p)"

definition password_size :: "Password \<Rightarrow> nat" where
  "password_size p = length (pw_val p)"

definition password_empty :: "Password \<Rightarrow> bool" where
  "password_empty p \<longleftrightarrow> pw_val p = []"

text \<open>\<^verbatim>\<open>derive_key\<close>: the lengths are cast to \<^verbatim>\<open>int\<close>; \<^term>\<open>pbkdf2\<close> gets the password, its length, the salt, its length, the
  iterations and the name of the digest, and returns 64 bytes or fails, which throws.\<close>

type_synonym pbkdf2 = "string \<Rightarrow> int \<Rightarrow> string \<Rightarrow> int \<Rightarrow> int \<Rightarrow> string \<Rightarrow> string option"

definition int_length :: "string \<Rightarrow> int" where
  "int_length s = sint (word_of_nat (length s) :: 32 word)"

definition derive_key :: "pbkdf2 \<Rightarrow> string \<Rightarrow> string \<Rightarrow> int \<Rightarrow> string \<Rightarrow> string option" where
  "derive_key pbkdf2 val salt iteration hash_name = pbkdf2 val (int_length val) salt (int_length salt) iteration hash_name"

section \<open>A buffer is filled\<close>

lemma length_word_bytes [simp]: "length (word_bytes w) = 8"
  by (simp add: word_bytes_def)

lemma random_buffer_length:
  "random_buffer gen len g = Some (bytes, g') \<Longrightarrow> length bytes = len"
proof (induction gen len g arbitrary: bytes rule: random_buffer.induct)
  case (1 gen len g)
  then show ?case
    by (subst (asm) (2) random_buffer.simps) (auto split: if_splits option.splits)
qed

text \<open>The salt is what \<^verbatim>\<open>random_buffer\<close> would write: 32 bytes.\<close>

lemma generate_buffer:
  "map_option (\<lambda>(vs, g'). (concat (map word_bytes vs), g')) (generate gen n g) = random_buffer gen (8 * n) g"
proof (induction n arbitrary: g)
  case (Suc n)
  then have "map_option (\<lambda>(rest, g''). (word_bytes v @ rest, g'')) (random_buffer gen (8 * n) g') =
      map_option (\<lambda>(vs, g''). (concat (map word_bytes vs), g'')) (map_option (\<lambda>(vs, g''). (v # vs, g'')) (generate gen n g'))" for v g'
    unfolding Suc [symmetric] by (cases "generate gen n g'") auto
  then show ?case
    by (subst random_buffer.simps) (auto simp: word_bytes_def split: option.splits)
qed (simp add: random_buffer.simps)

lemma random_salt_buffer: "random_salt getentropy blake2b g = random_buffer (blake2x_next getentropy blake2b) 32 g"
  using generate_buffer [of "blake2x_next getentropy blake2b" 4 g] by (simp add: random_salt_def)

lemma random_salt_length: "random_salt getentropy blake2b g = Some (salt, g') \<Longrightarrow> length salt = 32"
  unfolding random_salt_buffer by (rule random_buffer_length)

section \<open>The values of the generator\<close>

text \<open>Calls in a row: the generator before each call with the value of the call, and the generator at the end.\<close>

primrec blake2x_run ::
  "'e entropy \<Rightarrow> (string \<Rightarrow> 64 word \<Rightarrow> 64 word \<Rightarrow> 64 word) \<Rightarrow> nat \<Rightarrow> blake2x \<times> 'e \<Rightarrow>
    ((blake2x \<times> 64 word) list \<times> blake2x \<times> 'e) option" where
  "blake2x_run getentropy blake2b 0 st = Some ([], st)"
| "blake2x_run getentropy blake2b (Suc n) st = (case blake2x_run getentropy blake2b n st of
      None \<Rightarrow> None
    | Some (calls, st') \<Rightarrow> (case blake2x_next getentropy blake2b st' of
        None \<Rightarrow> None
      | Some (hash, st'') \<Rightarrow> Some (calls @ [(fst st', hash)], st'')))"

lemma reseed_offset: "reseed ge (b, e) = Some (b', e') \<Longrightarrow> bx_node_offset b' = bx_node_offset b"
  by (auto simp: reseed_def split: option.splits)

lemma reseed_some:
  fixes getentropy :: "'e entropy"
  assumes "\<And>len e. getentropy len e \<noteq> None"
  shows "\<exists>st'. reseed getentropy st = Some st'"
proof -
  obtain b e where st: "st = (b, e)" by (cases st)
  obtain salt e1 where "getentropy 16 e = Some (salt, e1)" using assms [of 16 e] by auto
  moreover obtain h0 e2 where "getentropy 8 e1 = Some (h0, e2)" using assms [of 8 e1] by auto
  ultimately show ?thesis by (simp add: st reseed_def secure_random_def)
qed

lemma blake2x_next_some:
  fixes getentropy :: "'e entropy"
  assumes "\<And>len e. getentropy len e \<noteq> None"
  shows "\<exists>r. blake2x_next getentropy blake2b st = Some r"
proof -
  obtain b e where st: "st = (b, e)" by (cases st)
  obtain st' where "reseed getentropy (b\<lparr>bx_node_offset := bx_node_offset b + 1\<rparr>, e) = Some st'"
    using reseed_some [of getentropy, OF assms] by blast
  then show ?thesis by (simp add: st blake2x_next_def Let_def)
qed

lemma blake2x_next_effect:
  assumes "blake2x_next ge blake2b (b, e) = Some (hash, b', e')"
  shows "hash = blake2b (bx_salt b) (bx_node_offset b) (bx_h0 b)"
    and "bx_node_offset b' = bx_node_offset b + 1"
    and "((bx_node_offset b + 1) AND 0xFFFFFFFF) mod 0x7FFFF \<noteq> 0 \<Longrightarrow> bx_salt b' = bx_salt b \<and> bx_h0 b' = bx_h0 b"
  using assms by (auto simp: blake2x_next_def Let_def reseed_offset split: if_splits)

lemma blake2x_run_some:
  fixes getentropy :: "'e entropy"
  assumes "\<And>len e. getentropy len e \<noteq> None"
  shows "\<exists>r. blake2x_run getentropy blake2b n st = Some r"
proof (induction n)
  case (Suc n)
  then obtain calls st' where "blake2x_run getentropy blake2b n st = Some (calls, st')" by auto
  with blake2x_next_some [of getentropy blake2b st', OF assms] show ?case by auto
qed simp

text \<open>The offset counts the calls, every value is the hash of the generator before it, and two calls in a row have
  the same key and salt unless the counter reaches a multiple of the period.\<close>

definition seed_of :: "blake2x \<Rightarrow> string \<times> 64 word" where
  "seed_of b = (bx_salt b, bx_h0 b)"

definition run_inv :: "(string \<Rightarrow> 64 word \<Rightarrow> 64 word \<Rightarrow> 64 word) \<Rightarrow> 64 word \<Rightarrow> nat \<Rightarrow> (blake2x \<times> 64 word) list \<Rightarrow> blake2x \<Rightarrow> bool" where
  "run_inv blake2b start n calls b \<longleftrightarrow>
     length calls = n \<and> bx_node_offset b = start + of_nat n \<and>
     (\<forall>k < n. bx_node_offset (fst (calls ! k)) = start + of_nat k
        \<and> snd (calls ! k) = blake2b (bx_salt (fst (calls ! k))) (bx_node_offset (fst (calls ! k))) (bx_h0 (fst (calls ! k)))) \<and>
     (\<forall>k < n. ((start + of_nat (Suc k)) AND 0xFFFFFFFF) mod 0x7FFFF \<noteq> 0 \<longrightarrow>
        seed_of ((map fst calls @ [b]) ! Suc k) = seed_of (fst (calls ! k)))"

lemma run_inv_step:
  assumes "run_inv blake2b start n calls b" "blake2x_next ge blake2b (b, e) = Some (hash, b', e')"
  shows "run_inv blake2b start (Suc n) (calls @ [(b, hash)]) b'"
proof -
  note inv = assms(1) [unfolded run_inv_def]
  have off: "bx_node_offset b + 1 = start + of_nat (Suc n)" using inv by simp
  note eff = blake2x_next_effect [OF assms(2), unfolded off]
  have old: "(map fst (calls @ [(b, hash)]) @ [b']) ! Suc k = (map fst calls @ [b]) ! Suc k" if "k < n" for k
    using that inv by (simp add: nth_append)
  have new: "(map fst (calls @ [(b, hash)]) @ [b']) ! Suc n = b'" using inv by (simp add: nth_append)
  have seeds: "seed_of ((map fst (calls @ [(b, hash)]) @ [b']) ! Suc k) = seed_of (fst ((calls @ [(b, hash)]) ! k))"
    if "k < Suc n" "((start + of_nat (Suc k)) AND 0xFFFFFFFF) mod 0x7FFFF \<noteq> 0" for k
  proof (cases "k = n")
    case True
    then show ?thesis using new inv eff(3) that by (simp add: seed_of_def nth_append)
  next
    case False
    then have "k < n" using that by simp
    then have "seed_of ((map fst calls @ [b]) ! Suc k) = seed_of (fst (calls ! k))" using inv that(2) by blast
    then show ?thesis unfolding old [OF \<open>k < n\<close>] using \<open>k < n\<close> inv by (simp add: nth_append)
  qed
  show ?thesis
    unfolding run_inv_def using inv eff(1,2) off seeds by (simp add: nth_append less_Suc_eq)
qed

lemma blake2x_run_inv:
  "blake2x_run ge blake2b n (b0, e0) = Some (calls, b, e) \<Longrightarrow> run_inv blake2b (bx_node_offset b0) n calls b"
proof (induction n arbitrary: calls b e)
  case 0
  then show ?case by (simp add: run_inv_def)
next
  case (Suc n)
  then obtain calls1 b1 e1 hash where run: "blake2x_run ge blake2b n (b0, e0) = Some (calls1, b1, e1)"
    and step: "blake2x_next ge blake2b (b1, e1) = Some (hash, b, e)" and calls: "calls = calls1 @ [(b1, hash)]"
    by (auto split: option.splits prod.splits)
  show ?case using run_inv_step [OF Suc.IH [OF run] step] calls by simp
qed

text \<open>The counter starts at \<open>0xFFFFFFFF00000000\<close>: its lower half counts, its upper half is what the assertion reads.\<close>

abbreviation first_offset :: "64 word" where
  "first_offset \<equiv> 0xFFFFFFFF00000000"

lemma high_part: "k < m \<Longrightarrow> (c * m + k) div m = c" for c m k :: nat
  by simp

lemma mod_add_eq_low: "k < 4294967296 \<Longrightarrow> (18446744069414584320 + k) mod 4294967296 = k" for k :: nat
  by (simp add: mod_add_left_eq [symmetric, of 18446744069414584320])

lemma div_Suc_same: "Suc k mod m \<noteq> 0 \<Longrightarrow> Suc k div m = k div m"
  by (simp add: div_Suc)

lemma div_Suc_next: "Suc k mod m = 0 \<Longrightarrow> Suc k div m = Suc (k div m)"
  by (simp add: div_Suc)

lemma unat_offset: "k < 2 ^ 32 \<Longrightarrow> unat (first_offset + of_nat k) = 0xFFFFFFFF00000000 + k"
  by (simp add: unat_word_ariths unat_of_nat)

lemma offset_low: "k < 2 ^ 32 \<Longrightarrow> (first_offset + of_nat k) AND 0xFFFFFFFF = of_nat k"
proof -
  assume k: "k < 2 ^ 32"
  have "(first_offset + of_nat k) AND 0xFFFFFFFF = take_bit 32 (first_offset + of_nat k)"
    by (simp add: take_bit_eq_mask mask_eq_decr_exp)
  also have "\<dots> = of_nat (unat (take_bit 32 (first_offset + of_nat k)))" by simp
  also have "unat (take_bit 32 (first_offset + of_nat k)) = unat (first_offset + of_nat k) mod 2 ^ 32"
    by (simp add: take_bit_eq_mod unat_mod)
  also have "\<dots> = k"
    unfolding unat_offset [OF k] using k by (simp add: mod_add_eq_low)
  finally show ?thesis .
qed

lemma offset_high: "k < 2 ^ 32 \<Longrightarrow> drop_bit 32 (first_offset + of_nat k) = 0xFFFFFFFF"
proof -
  assume k: "k < 2 ^ 32"
  have "unat (drop_bit 32 (first_offset + of_nat k)) = drop_bit 32 (unat (first_offset + of_nat k))"
    by (rule unat_drop_bit_eq)
  also have "\<dots> = (0xFFFFFFFF * 2 ^ 32 + k) div 2 ^ 32" unfolding unat_offset [OF k] drop_bit_eq_div by simp
  also have "\<dots> = 0xFFFFFFFF" by (rule high_part [OF k])
  finally show ?thesis by (simp add: word_unat_eq_iff)
qed

lemma offset_wraps: "first_offset + of_nat (2 ^ 32) = 0"
  by simp

lemma first_offset_low: "Suc k < 2 ^ 32 \<Longrightarrow> (((first_offset + of_nat (Suc k)) AND 0xFFFFFFFF) mod 0x7FFFF = 0) \<longleftrightarrow> (Suc k) mod 0x7FFFF = 0"
proof -
  assume k: "Suc k < 2 ^ 32"
  then have "unat (of_nat (Suc k) mod 0x7FFFF :: 64 word) = Suc k mod 0x7FFFF"
    by (simp add: unat_mod unat_of_nat del: of_nat_Suc)
  moreover have "(of_nat (Suc k) mod 0x7FFFF :: 64 word) = 0 \<longleftrightarrow> unat (of_nat (Suc k) mod 0x7FFFF :: 64 word) = 0"
    by (rule unat_eq_0 [symmetric])
  ultimately show ?thesis unfolding offset_low [OF k] by presburger
qed

lemma period_seed:
  assumes "run_inv blake2b first_offset n calls b" "n \<le> 2 ^ 32"
  shows "k < n \<Longrightarrow> seed_of (fst (calls ! k)) = seed_of (fst (calls ! (k div 0x7FFFF * 0x7FFFF)))"
proof (induction k)
  case (Suc k)
  have len: "length calls = n" using assms(1) by (simp add: run_inv_def)
  show ?case
  proof (cases "Suc k mod 0x7FFFF = 0")
    case True
    then have "Suc k div 0x7FFFF * 0x7FFFF = Suc k" by (metis mod_0_imp_dvd dvd_div_mult_self)
    then show ?thesis by simp
  next
    case False
    then have "((first_offset + of_nat (Suc k)) AND 0xFFFFFFFF) mod 0x7FFFF \<noteq> 0"
      using first_offset_low [of k] Suc.prems assms(2) by (simp del: of_nat_Suc)
    then have "seed_of ((map fst calls @ [b]) ! Suc k) = seed_of (fst (calls ! k))"
      using assms(1) Suc.prems unfolding run_inv_def by (meson Suc_lessD)
    then have "seed_of (fst (calls ! Suc k)) = seed_of (fst (calls ! k))"
      using Suc.prems len by (simp add: nth_append)
    moreover have "Suc k div 0x7FFFF = k div 0x7FFFF" using False by (rule div_Suc_same)
    ultimately show ?thesis using Suc by simp
  qed
qed simp

text \<open>The generator takes entropy when it is made and once per period.\<close>

definition drawn :: "'e entropy \<Rightarrow> 'e \<Rightarrow> 'e" where
  "drawn getentropy e = snd (the (getentropy 8 (snd (the (getentropy 16 e)))))"

lemma reseed_drawn: "reseed ge (b, e) = Some (b', e') \<Longrightarrow> e' = drawn ge e"
  by (auto simp: reseed_def drawn_def secure_random_def split: option.splits)

lemma blake2x_run_drawn:
  assumes "bx_node_offset b0 = first_offset"
  shows "blake2x_run ge blake2b n (b0, e0) = Some (calls, b, e) \<Longrightarrow> n < 2 ^ 32 \<Longrightarrow> e = (drawn ge ^^ (n div 0x7FFFF)) e0"
proof (induction n arbitrary: calls b e)
  case (Suc n)
  then obtain calls1 b1 e1 hash where run: "blake2x_run ge blake2b n (b0, e0) = Some (calls1, b1, e1)"
    and step: "blake2x_next ge blake2b (b1, e1) = Some (hash, b, e)"
    by (auto split: option.splits prod.splits)
  have e1: "e1 = (drawn ge ^^ (n div 0x7FFFF)) e0" using Suc.IH [OF run] Suc.prems by simp
  have off: "bx_node_offset b1 + 1 = first_offset + of_nat (Suc n)"
    using blake2x_run_inv [OF run] assms by (simp add: run_inv_def)
  show ?case
  proof (cases "Suc n mod 0x7FFFF = 0")
    case True
    then have "e = drawn ge e1"
      using step first_offset_low [OF Suc.prems(2)] unfolding off [symmetric]
      by (auto simp: blake2x_next_def Let_def intro: reseed_drawn)
    moreover have "Suc n div 0x7FFFF = Suc (n div 0x7FFFF)" using True by (rule div_Suc_next)
    ultimately show ?thesis by (simp add: e1)
  next
    case False
    then have "e = e1"
      using step first_offset_low [OF Suc.prems(2)] unfolding off [symmetric] by (simp add: blake2x_next_def Let_def)
    then show ?thesis using e1 div_Suc_same [OF False] by simp
  qed
qed simp

text \<open>C35: \<^verbatim>\<open>Blake2x\<close>: while the system has entropy the generator always gives its values. In its first \<open>2 ^ 32\<close> values
  the assertion of \<^verbatim>\<open>operator()\<close> holds at each call, value \<open>k\<close> is the hash of the parameter block with node offset
  \<open>0xFFFFFFFF00000000 + k\<close> (so no two values hash the same block), the salt and the key are the same within a period of
  \<open>0x7FFFF\<close> values only, and entropy has been drawn once in the constructor and once at the end of every period. After
  \<open>2 ^ 32\<close> values the assertion no longer holds, since \<^verbatim>\<open>reseed\<close> leaves the offset as it is.\<close>

theorem blake2x_stream:
  fixes getentropy :: "'e entropy"
  assumes "\<And>len e. getentropy len e \<noteq> None" and "n \<le> 2 ^ 32"
  shows "\<exists>b0 e0 calls b e'. Blake2x getentropy e = Some (b0, e0) \<and>
    blake2x_run getentropy blake2b n (b0, e0) = Some (calls, b, e') \<and> length calls = n \<and>
    (\<forall>k < n. blake2x_assert (fst (calls ! k)) \<and>
       unat (bx_node_offset (fst (calls ! k))) = 0xFFFFFFFF00000000 + k \<and>
       snd (calls ! k) = blake2b (bx_salt (fst (calls ! k))) (bx_node_offset (fst (calls ! k))) (bx_h0 (fst (calls ! k))) \<and>
       seed_of (fst (calls ! k)) = seed_of (fst (calls ! (k div 0x7FFFF * 0x7FFFF)))) \<and>
    (n < 2 ^ 32 \<longrightarrow> e' = (drawn getentropy ^^ (1 + n div 0x7FFFF)) e) \<and>
    (blake2x_assert b \<longleftrightarrow> n < 2 ^ 32)"
proof -
  obtain b0 e0 where new: "Blake2x getentropy e = Some (b0, e0)"
    using reseed_some [of getentropy, OF assms(1)] by (force simp: Blake2x_def)
  have start: "bx_node_offset b0 = first_offset" and e0: "e0 = drawn getentropy e"
    using new by (auto simp: Blake2x_def dest: reseed_offset reseed_drawn)
  obtain calls b e' where run: "blake2x_run getentropy blake2b n (b0, e0) = Some (calls, b, e')"
    using blake2x_run_some [of getentropy blake2b n "(b0, e0)", OF assms(1)] by auto
  note inv = blake2x_run_inv [OF run, unfolded start]
  have k: "k < 2 ^ 32" if "k < n" for k using that assms(2) by simp
  have offs: "bx_node_offset (fst (calls ! k)) = first_offset + of_nat k" if "k < n" for k
    using inv that unfolding run_inv_def by blast
  have last: "blake2x_assert b \<longleftrightarrow> n < 2 ^ 32"
  proof (cases "n = 2 ^ 32")
    case True
    then have "bx_node_offset b = 0" using inv offset_wraps unfolding run_inv_def by simp
    then show ?thesis using True by (simp add: blake2x_assert_def)
  next
    case False
    then have "n < 2 ^ 32" using assms(2) by simp
    then show ?thesis using inv offset_high [of n] unfolding run_inv_def blake2x_assert_def by simp
  qed
  show ?thesis
  proof (intro exI conjI allI impI)
    show "length calls = n" using inv by (simp add: run_inv_def)
    show "blake2x_assert (fst (calls ! k))" if "k < n" for k
      unfolding blake2x_assert_def offs [OF that] by (rule offset_high [OF k [OF that]])
    show "unat (bx_node_offset (fst (calls ! k))) = 0xFFFFFFFF00000000 + k" if "k < n" for k
      unfolding offs [OF that] by (rule unat_offset [OF k [OF that]])
    show "snd (calls ! k) = blake2b (bx_salt (fst (calls ! k))) (bx_node_offset (fst (calls ! k))) (bx_h0 (fst (calls ! k)))"
      if "k < n" for k
      using inv that unfolding run_inv_def by blast
    show "seed_of (fst (calls ! k)) = seed_of (fst (calls ! (k div 0x7FFFF * 0x7FFFF)))" if "k < n" for k
      by (rule period_seed [OF inv assms(2) that])
    show "e' = (drawn getentropy ^^ (1 + n div 0x7FFFF)) e" if "n < 2 ^ 32"
      unfolding blake2x_run_drawn [OF start run that] e0 by (simp add: funpow_swap1)
  qed (rule new run last)+
qed

text \<open>Three values of a generator whose system counts its requests.\<close>

definition counting_entropy :: "nat entropy" where
  "counting_entropy len e = Some (replicate len (char_of e), Suc e)"

theorem blake2x_stream_witness:
  "(\<forall>len e. counting_entropy len e \<noteq> None) \<and> (3 :: nat) \<le> 2 ^ 32 \<and>
   (\<exists>b0 e0 calls b. Blake2x counting_entropy 0 = Some (b0, e0) \<and>
      blake2x_run counting_entropy (\<lambda>salt offset h0. offset + h0) 3 (b0, e0) = Some (calls, b, 2) \<and>
      length calls = 3 \<and> blake2x_assert b \<and> unat (bx_node_offset (fst (calls ! 2))) = 0xFFFFFFFF00000002)"
proof -
  have some: "counting_entropy len e \<noteq> None" for len e by (simp add: counting_entropy_def)
  have e2: "(drawn counting_entropy ^^ (1 + 3 div 0x7FFFF)) 0 = 2" by (simp add: drawn_def counting_entropy_def)
  have le: "(3 :: nat) \<le> 2 ^ 32" and less: "(3 :: nat) < 2 ^ 32" and two: "(2 :: nat) < 3" by simp_all
  from blake2x_stream [of counting_entropy 3 0 "\<lambda>salt offset h0. offset + h0", OF some le]
  obtain b0 e0 calls b e' where res: "Blake2x counting_entropy 0 = Some (b0, e0)"
      "blake2x_run counting_entropy (\<lambda>salt offset h0. offset + h0) 3 (b0, e0) = Some (calls, b, e')" "length calls = 3"
    and offs: "\<forall>k < 3. unat (bx_node_offset (fst (calls ! k))) = 0xFFFFFFFF00000000 + k"
    and ent: "(3 :: nat) < 2 ^ 32 \<longrightarrow> e' = (drawn counting_entropy ^^ (1 + 3 div 0x7FFFF)) 0"
    and last: "blake2x_assert b \<longleftrightarrow> (3 :: nat) < 2 ^ 32"
    by blast
  have e': "e' = 2" using ent less e2 by (simp only: simp_thms)
  have "unat (bx_node_offset (fst (calls ! 2))) = 0xFFFFFFFF00000000 + 2" using offs two by blast
  then have off: "unat (bx_node_offset (fst (calls ! 2))) = 0xFFFFFFFF00000002" by simp
  show ?thesis using some le res last less off unfolding e' by blast
qed

end
