(* ===== verification/Configuration.thy ===== *)
theory Configuration
  imports Blob_Store Reference_Libs
begin

text \<open>
  \<^verbatim>\<open>src/server/util/Configuration.cc\<close>: the command line and the configuration file, with the operations
  of \<^verbatim>\<open>std::filesystem::path\<close> that resolve the paths in it. A loaded configuration has no root
  ids, no empty rendition and only normal paths, which name the same places as the ones in the file
  seen from its directory.
\<close>

section \<open>Paths\<close>

text \<open>The file names between the separators; an empty one for two separators in a row and at the ends.\<close>

fun path_split :: "string \<Rightarrow> string list" where
  "path_split [] = [[]]"
| "path_split (c # s) = (if c = CHR ''/'' then [] # path_split s
     else case path_split s of [] \<Rightarrow> [[c]] | x # xs \<Rightarrow> (c # x) # xs)"

fun path_join :: "string list \<Rightarrow> string" where
  "path_join [] = []"
| "path_join [x] = x"
| "path_join (x # y # xs) = x @ CHR ''/'' # path_join (y # xs)"

definition is_absolute :: "string \<Rightarrow> bool" where
  "is_absolute p \<longleftrightarrow> p \<noteq> [] \<and> hd p = CHR ''/''"

definition has_filename :: "string \<Rightarrow> bool" where
  "has_filename p \<longleftrightarrow> p \<noteq> [] \<and> last p \<noteq> CHR ''/''"

text \<open>\<^verbatim>\<open>operator/\<close>.\<close>

definition path_append :: "string \<Rightarrow> string \<Rightarrow> string" where
  "path_append a b = (if is_absolute b then b else if has_filename a then a @ CHR ''/'' # b else a @ b)"

text \<open>\<^verbatim>\<open>parent_path()\<close>: a path without a file name after the root is its own parent.\<close>

definition parent_path :: "string \<Rightarrow> string" where
  "parent_path p =
     (if list_all (\<lambda>c. c = CHR ''/'') p then p
      else let dir = rev (dropWhile (\<lambda>c. c = CHR ''/'') (dropWhile (\<lambda>c. c \<noteq> CHR ''/'') (rev p)))
        in if dir = [] \<and> is_absolute p then ''/'' else dir)"

text \<open>\<^verbatim>\<open>lexically_normal()\<close>. The file names are taken from the left onto a stack; the flag tells that
  what was read last leaves a separator at the end.\<close>

definition normal_step :: "bool \<Rightarrow> string \<Rightarrow> string list \<times> bool \<Rightarrow> string list \<times> bool" where
  "normal_step absolute name st = (case st of (stack, slash) \<Rightarrow>
     if name = [] \<or> name = ''.'' then (stack, True)
     else if name = ''..'' then
       (case stack of
          [] \<Rightarrow> if absolute then ([], True) else ([''..''], False)
        | x # xs \<Rightarrow> if x = ''..'' then (''..'' # stack, False) else (xs, True))
     else (name # stack, False))"

definition lexically_normal :: "string \<Rightarrow> string" where
  "lexically_normal p =
     (if p = [] then []
      else case fold (normal_step (is_absolute p)) (path_split p) ([], False) of (stack, slash) \<Rightarrow>
        let r = (if is_absolute p then ''/'' else []) @ path_join (rev stack) @
              (if slash \<and> stack \<noteq> [] \<and> hd stack \<noteq> ''..'' then ''/'' else [])
        in if r = [] then ''.'' else r)"

section \<open>Configuration\<close>

record endpoint =
  ep_address :: string
  ep_port :: "16 word"

record Configuration =
  cf_listen_http :: endpoint
  cf_listen_https :: endpoint
  cf_redis :: endpoint
  cf_cert_chain :: string
  cf_private_key :: string
  cf_root :: string
  cf_blob_path :: string
  cf_haar_path :: string
  cf_server_name :: string
  cf_thread_count :: "64 word"
  cf_upload_limit :: "64 word"
  cf_rendition :: RenditionSetting
  cf_user_id :: "32 word"
  cf_group_id :: "32 word"
  cf_session_length :: int

definition default_config :: Configuration where
  "default_config =
     \<lparr>cf_listen_http = \<lparr>ep_address = ''0.0.0.0'', ep_port = 0\<rparr>, cf_listen_https = \<lparr>ep_address = ''0.0.0.0'', ep_port = 0\<rparr>,
      cf_redis = \<lparr>ep_address = ''127.0.0.1'', ep_port = 6379\<rparr>,
      cf_cert_chain = [], cf_private_key = [], cf_root = [], cf_blob_path = [], cf_haar_path = [], cf_server_name = [],
      cf_thread_count = 1, cf_upload_limit = 10 * 1024 * 1024, cf_rendition = default_settings,
      cf_user_id = 65535, cf_group_id = 65535, cf_session_length = 3600\<rparr>"

text \<open>The exceptions of \<^verbatim>\<open>load_config\<close>. \<^verbatim>\<open>Undefined\<close> is no exception: the behaviour of the program is
  undefined there.\<close>

datatype cfg_error = Json_error exn | FileError | InvalidUserOrGroup | BadAddress | Undefined

type_synonym 'a cfg = "cfg_error + 'a"

definition cbind :: "'a cfg \<Rightarrow> ('a \<Rightarrow> 'b cfg) \<Rightarrow> 'b cfg" where
  "cbind r f = (case r of Inl e \<Rightarrow> Inl e | Inr x \<Rightarrow> f x)"

text \<open>\<^verbatim>\<open>json.at(json_pointer{"/k"})\<close>: the name is no index of an array.\<close>

definition at_pointer :: "json \<Rightarrow> string \<Rightarrow> json cfg" where
  "at_pointer j k = (case j of
       JObj kvs \<Rightarrow> (case map_of kvs k of Some v \<Rightarrow> Inr v | None \<Rightarrow> Inl (Json_error OutOfRange))
     | JArr _ \<Rightarrow> Inl (Json_error ParseError)
     | _ \<Rightarrow> Inl (Json_error OutOfRange))"

definition value_or :: "(json \<Rightarrow> 'a cfg) \<Rightarrow> json \<Rightarrow> string \<Rightarrow> 'a \<Rightarrow> 'a cfg" where
  "value_or g j k d = (case j of
       JObj kvs \<Rightarrow> (case map_of kvs k of Some v \<Rightarrow> g v | None \<Rightarrow> Inr d)
     | _ \<Rightarrow> Inl (Json_error TypeError))"

definition cfg_string :: "json \<Rightarrow> string cfg" where
  "cfg_string j = (case j of JStr s \<Rightarrow> Inr s | _ \<Rightarrow> Inl (Json_error TypeError))"

definition cfg_bool :: "json \<Rightarrow> bool cfg" where
  "cfg_bool j = (case j of JBool b \<Rightarrow> Inr b | _ \<Rightarrow> Inl (Json_error TypeError))"

text \<open>The conversion to an integer type: integers wrap, a \<^verbatim>\<open>double\<close> must be in range. A type that is not one
  of the number types of the JSON library takes a boolean too.\<close>

definition cfg_unsigned :: "bool \<Rightarrow> json \<Rightarrow> ('w::len) word cfg" where
  "cfg_unsigned from_bool j = (case j of
       JInt i \<Rightarrow> Inr (word_of_int i)
     | JFloat w \<Rightarrow> (let z = double_to_int w in if 0 \<le> z \<and> z < 2 ^ LENGTH('w) then Inr (word_of_int z) else Inl Undefined)
     | JBool b \<Rightarrow> if from_bool then Inr (if b then 1 else 0) else Inl (Json_error TypeError)
     | _ \<Rightarrow> Inl (Json_error TypeError))"

definition cfg_int :: "json \<Rightarrow> int cfg" where
  "cfg_int j = (case j of
       JInt i \<Rightarrow> Inr (sint (word_of_int i :: 32 word))
     | JFloat w \<Rightarrow> (let z = double_to_int w in if - (2 ^ 31) \<le> z \<and> z < 2 ^ 31 then Inr z else Inl Undefined)
     | JBool b \<Rightarrow> Inr (if b then 1 else 0)
     | _ \<Rightarrow> Inl (Json_error TypeError))"

definition cfg_long :: "json \<Rightarrow> int cfg" where
  "cfg_long j = (case j of
       JInt i \<Rightarrow> Inr (sint (word_of_int i :: 64 word))
     | JFloat w \<Rightarrow> (let z = double_to_int w in if - (2 ^ 63) \<le> z \<and> z < 2 ^ 63 then Inr z else Inl Undefined)
     | _ \<Rightarrow> Inl (Json_error TypeError))"

text \<open>The limit in megabytes is a \<^verbatim>\<open>double\<close>; multiplying it by \<open>2 ^ 20\<close> is exact, and adds 20 to the
  exponent. The result is truncated and must fit into a \<^verbatim>\<open>std::size_t\<close>. An integer that a \<^verbatim>\<open>double\<close> does
  not hold exactly is out of range too.\<close>

definition megabytes :: "json \<Rightarrow> 64 word cfg" where
  "megabytes j =
     (let fits = (\<lambda>z :: int. if 0 \<le> z \<and> z < 2 ^ 64 then Inr (word_of_int z) else Inl Undefined)
      in case j of
           JInt i \<Rightarrow> fits (i * 2 ^ 20)
         | JFloat w \<Rightarrow>
             (let e = unat (and (drop_bit 52 w) 0x7FF);
                  f = uint (and w 0xFFFFFFFFFFFFF);
                  m = (if e = 0 then f else f + 2 ^ 52);
                  x = (if e = 0 then 1 else e) + 20;
                  n = (if 1075 \<le> x then m * 2 ^ (x - 1075) else m div 2 ^ (1075 - x))
              in fits (if bit w 63 then - n else n))
         | _ \<Rightarrow> Inl (Json_error TypeError))"

text \<open>\<^verbatim>\<open>parse_endpoint\<close>: \<^verbatim>\<open>operator[]\<close> of a constant value has no check that the key is there.\<close>

definition const_index :: "json \<Rightarrow> string \<Rightarrow> json cfg" where
  "const_index j k = (case j of
       JObj kvs \<Rightarrow> (case map_of kvs k of Some v \<Rightarrow> Inr v | None \<Rightarrow> Inl Undefined)
     | _ \<Rightarrow> Inl (Json_error TypeError))"

definition parse_endpoint :: "(string \<rightharpoonup> string) \<Rightarrow> json \<Rightarrow> endpoint cfg" where
  "parse_endpoint make_address j =
     cbind (const_index j ''address'') (\<lambda>a. cbind (cfg_string a) (\<lambda>s.
       case make_address s of
         None \<Rightarrow> Inl BadAddress
       | Some addr \<Rightarrow> cbind (const_index j ''port'') (\<lambda>p. cbind (cfg_unsigned True p) (\<lambda>port.
           Inr \<lparr>ep_address = addr, ep_port = port\<rparr>))))"

text \<open>\<^verbatim>\<open>items()\<close> of a JSON value: of an array the indices, of a value that is no container the value
  itself under an empty name.\<close>

definition json_items :: "json \<Rightarrow> (string \<times> json) list" where
  "json_items j = (case j of
       JObj kvs \<Rightarrow> kvs
     | JArr js \<Rightarrow> map (\<lambda>(i, v). (show_nat i, v)) (enumerate 0 js)
     | JNull \<Rightarrow> []
     | _ \<Rightarrow> [([], j)])"

fun load_renditions :: "(string \<times> json) list \<Rightarrow> RenditionSetting \<Rightarrow> RenditionSetting cfg" where
  "load_renditions [] cfg = Inr cfg"
| "load_renditions ((rend, v) # rest) cfg =
     cbind (value_or cfg_int v ''width'' 0) (\<lambda>width.
     cbind (value_or cfg_int v ''height'' 0) (\<lambda>height.
     cbind (value_or cfg_int v ''quality'' 70) (\<lambda>quality.
     cbind (value_or cfg_bool v ''square_crop'' False) (\<lambda>square_crop.
       load_renditions rest
         (if width > 0 \<and> height > 0 then rend_add rend width height quality square_crop cfg else cfg)))))"

definition config_path :: "string \<Rightarrow> json cfg \<Rightarrow> string cfg" where
  "config_path dir v = cbind v (\<lambda>j. cbind (cfg_string j) (\<lambda>s. Inr (lexically_normal (path_append dir s))))"

text \<open>The members that are read from the document; \<^term>\<open>haarcascades_path\<close> is a constant of the build.\<close>

definition read_config :: "string \<Rightarrow> (string \<rightharpoonup> string) \<Rightarrow> string \<Rightarrow> json \<Rightarrow> Configuration cfg" where
  "read_config haarcascades_path make_address dir j =
     (let d = default_config in
      cbind (config_path dir (at_pointer j ''cert_chain'')) (\<lambda>cert_chain.
      cbind (config_path dir (at_pointer j ''private_key'')) (\<lambda>private_key.
      cbind (config_path dir (at_pointer j ''web_root'')) (\<lambda>root.
      cbind (config_path dir (at_pointer j ''blob_path'')) (\<lambda>blob_path.
      cbind (config_path dir (value_or Inr j ''haar_path'' (JStr haarcascades_path))) (\<lambda>haar_path.
      cbind (cbind (at_pointer j ''server_name'') cfg_string) (\<lambda>server_name.
      cbind (value_or (cfg_unsigned False) j ''thread_count'' (cf_thread_count d)) (\<lambda>thread_count.
      cbind (value_or cfg_string j ''default_rendition'' (m_default (cf_rendition d))) (\<lambda>default.
      cbind (value_or megabytes j ''upload_limit_mb'' (cf_upload_limit d)) (\<lambda>upload_limit.
      cbind (cbind (value_or Inr j ''rendition'' JNull) (\<lambda>rs. load_renditions (json_items rs) ((cf_rendition d)\<lparr>m_default := default\<rparr>))) (\<lambda>rendition.
      cbind (value_or cfg_long j ''session_length_in_sec'' 3600) (\<lambda>session_length.
      cbind (value_or (cfg_unsigned True) j ''uid'' (cf_user_id d)) (\<lambda>user_id.
      cbind (value_or (cfg_unsigned True) j ''gid'' (cf_group_id d)) (\<lambda>group_id.
      if user_id = 0 \<or> group_id = 0 then Inl InvalidUserOrGroup
      else
      cbind (cbind (at_pointer j ''http'') (parse_endpoint make_address)) (\<lambda>http.
      cbind (cbind (at_pointer j ''https'') (parse_endpoint make_address)) (\<lambda>https.
      cbind (value_or (\<lambda>r. case r of JObj kvs \<Rightarrow> Inr r | _ \<Rightarrow> Inl (Json_error TypeError)) j ''redis'' (JObj [])) (\<lambda>redis.
      cbind (if redis = JObj [] then Inr (cf_redis d) else parse_endpoint make_address redis) (\<lambda>redis_endpoint.
        Inr \<lparr>cf_listen_http = http, cf_listen_https = https, cf_redis = redis_endpoint,
          cf_cert_chain = cert_chain, cf_private_key = private_key, cf_root = root, cf_blob_path = blob_path,
          cf_haar_path = haar_path, cf_server_name = server_name, cf_thread_count = thread_count,
          cf_upload_limit = upload_limit, cf_rendition = rendition, cf_user_id = user_id,
          cf_group_id = group_id, cf_session_length = session_length\<rparr>))))))))))))))))))"

definition load_config :: "extlib \<Rightarrow> string \<Rightarrow> (string \<rightharpoonup> string) \<Rightarrow> files \<Rightarrow> string \<Rightarrow> Configuration cfg" where
  "load_config L haarcascades_path make_address fs config_file = (case fs config_file of
       None \<Rightarrow> Inl FileError
     | Some contents \<Rightarrow> (case json_parse L contents of
         None \<Rightarrow> Inl (Json_error ParseError)
       | Some j \<Rightarrow> read_config haarcascades_path make_address (parent_path config_file) j))"

text \<open>The constructor: \<^term>\<open>given\<close> are the options of a command line with \<^term>\<open>argc\<close> words, from which
  Boost.Program_options makes \<^verbatim>\<open>m_args\<close> with the default of \<^verbatim>\<open>cfg\<close>. A string cannot be made of a null pointer.\<close>

definition stored_args :: "string \<Rightarrow> int \<Rightarrow> (string \<rightharpoonup> string) \<Rightarrow> string option \<Rightarrow> (string \<rightharpoonup> string)" where
  "stored_args config_filename argc given env =
     (if 0 < argc then (if given ''cfg'' = None
          then given(''cfg'' \<mapsto> (case env of Some e \<Rightarrow> e | None \<Rightarrow> config_filename)) else given)
      else Map.empty)"

definition Configuration_of ::
  "extlib \<Rightarrow> string \<Rightarrow> string \<Rightarrow> (string \<rightharpoonup> string) \<Rightarrow> files \<Rightarrow> int \<Rightarrow> (string \<rightharpoonup> string) \<Rightarrow> string option \<Rightarrow>
   ((string \<rightharpoonup> string) \<times> Configuration) cfg" where
  "Configuration_of L config_filename haarcascades_path make_address fs argc given env =
     (let args = stored_args config_filename argc given env
      in if args ''help'' \<noteq> None then Inr (args, default_config)
         else case (case args ''cfg'' of Some p \<Rightarrow> Some p | None \<Rightarrow> env) of
             None \<Rightarrow> Inl Undefined
           | Some p \<Rightarrow> cbind (load_config L haarcascades_path make_address fs p) (\<lambda>c. Inr (args, c)))"

definition https_root :: "Configuration \<Rightarrow> string" where
  "https_root c = ''https://'' @ cf_server_name c @
     (if ep_port (cf_listen_https c) = 443 then [] else CHR '':'' # show_nat (unat (ep_port (cf_listen_https c))))"

definition change_listen_ports :: "16 word \<Rightarrow> 16 word \<Rightarrow> Configuration \<Rightarrow> Configuration" where
  "change_listen_ports https http c =
     c\<lparr>cf_listen_https := (cf_listen_https c)\<lparr>ep_port := https\<rparr>, cf_listen_http := (cf_listen_http c)\<lparr>ep_port := http\<rparr>\<rparr>"

text \<open>Two calls are enough to find a rendition.\<close>

definition rend_dimension :: "RenditionSetting \<Rightarrow> string \<Rightarrow> (int \<times> int) option" where
  "rend_dimension cfg rend = map_option (\<lambda>s. (js_width s, js_height s)) (rend_find 2 cfg rend)"

definition rend_quality :: "RenditionSetting \<Rightarrow> string \<Rightarrow> int option" where
  "rend_quality cfg rend = map_option js_quality (rend_find 2 cfg rend)"

section \<open>Paths name the same places\<close>

text \<open>Where a path leads from a directory, given as the list of the names above it, innermost first, when
  no name is a symbolic link; the root is its own parent.\<close>

definition enter :: "string \<Rightarrow> string list \<Rightarrow> string list" where
  "enter name at = (if name = [] \<or> name = ''.'' then at else if name = ''..'' then tl at else name # at)"

definition place :: "string list \<Rightarrow> string \<Rightarrow> string list" where
  "place cwd p = fold enter (path_split p) (if is_absolute p then [] else cwd)"

text \<open>A path in normal form: no separator twice in a row, no \<^verbatim>\<open>.\<close> unless it is the whole path, and \<^verbatim>\<open>..\<close> only
  at the beginning.\<close>

definition normal_path :: "string \<Rightarrow> bool" where
  "normal_path p \<longleftrightarrow> p = ''.'' \<or>
     (let names = path_split p in ''.'' \<notin> set names \<and> [] \<notin> set (butlast (tl names)) \<and>
        (\<forall>i < length names. names ! i = ''..'' \<longrightarrow> (\<forall>k < i. names ! k = ''..'')))"

lemma path_split_ne [simp]: "path_split p \<noteq> []"
  by (cases p) (auto split: list.splits)

lemma path_split_Cons: "path_split (c # s) = (if c = CHR ''/'' then [] # path_split s
    else (c # hd (path_split s)) # tl (path_split s))"
  by (cases "path_split s") simp_all

declare path_split.simps(2) [simp del] path_split_Cons [simp]

lemma path_split_append: "path_split (p @ CHR ''/'' # q) = path_split p @ path_split q"
  by (induction p) (auto simp: hd_append tl_append_if)

lemma path_split_plain: "CHR ''/'' \<notin> set p \<Longrightarrow> path_split p = [p]"
  by (induction p) auto

lemma path_split_no_separator: "\<forall>x \<in> set (path_split p). CHR ''/'' \<notin> set x"
proof (induction p)
  case (Cons c p)
  then have "CHR ''/'' \<notin> set (hd (path_split p))" "\<forall>x \<in> set (tl (path_split p)). CHR ''/'' \<notin> set x"
    by (auto dest: list.set_sel(2) [rotated])
  with Cons show ?case by auto
qed simp

lemma path_split_join:
  assumes "xs \<noteq> []" and "\<forall>x \<in> set xs. CHR ''/'' \<notin> set x"
  shows "path_split (path_join xs) = xs" and "path_split (path_join xs @ ''/'') = xs @ [[]]"
proof -
  show split: "path_split (path_join xs) = xs"
    using assms by (induction xs rule: path_join.induct) (auto simp: path_split_append path_split_plain)
  show "path_split (path_join xs @ ''/'') = xs @ [[]]"
    using split by (simp add: path_split_append)
qed

text \<open>The stack of \<^term>\<open>lexically_normal\<close>: names, below them the leading \<^verbatim>\<open>..\<close> of a relative path.\<close>

definition stack_ok :: "bool \<Rightarrow> string list \<Rightarrow> bool" where
  "stack_ok absolute stack \<longleftrightarrow> (\<forall>x \<in> set stack. CHR ''/'' \<notin> set x \<and> x \<noteq> [] \<and> x \<noteq> ''.'') \<and>
     (\<exists>names n. stack = names @ replicate n ''..'' \<and> ''..'' \<notin> set names \<and> (absolute \<longrightarrow> n = 0))"

lemma stack_okI:
  "\<lbrakk>\<forall>x \<in> set names. CHR ''/'' \<notin> set x \<and> x \<noteq> [] \<and> x \<noteq> ''.'' \<and> x \<noteq> ''..''; absolute \<Longrightarrow> n = 0\<rbrakk> \<Longrightarrow>
   stack_ok absolute (names @ replicate n ''..'')"
  unfolding stack_ok_def
proof (rule conjI)
  assume names: "\<forall>x \<in> set names. CHR ''/'' \<notin> set x \<and> x \<noteq> [] \<and> x \<noteq> ''.'' \<and> x \<noteq> ''..''" and n: "absolute \<Longrightarrow> n = 0"
  from names show "\<forall>x \<in> set (names @ replicate n ''..''). CHR ''/'' \<notin> set x \<and> x \<noteq> [] \<and> x \<noteq> ''.''" by (auto simp: set_replicate_conv_if)
  from names have "''..'' \<notin> set names" by blast
  with n show "\<exists>ns k. names @ replicate n ''..'' = ns @ replicate k ''..'' \<and> ''..'' \<notin> set ns \<and> (absolute \<longrightarrow> k = 0)"
    by blast
qed

lemma normal_step_ok:
  assumes ok: "stack_ok absolute stack" and name: "CHR ''/'' \<notin> set name"
  shows "stack_ok absolute (fst (normal_step absolute name (stack, slash)))"
proof -
  obtain names n where st: "stack = names @ replicate n ''..''" "absolute \<Longrightarrow> n = 0"
    and names: "\<forall>x \<in> set names. CHR ''/'' \<notin> set x \<and> x \<noteq> [] \<and> x \<noteq> ''.'' \<and> x \<noteq> ''..''"
    using ok by (auto simp: stack_ok_def)
  consider "name = [] \<or> name = ''.''" | "name = ''..''" "names = []" | x xs where "name = ''..''" "names = x # xs"
    | "name \<noteq> []" "name \<noteq> ''.''" "name \<noteq> ''..''" by (cases names) auto
  then show ?thesis
  proof cases
    case 2
    with st ok stack_okI [of "[]" absolute "Suc n"] show ?thesis by (cases n) (auto simp: normal_step_def)
  next
    case (3 x xs)
    with st names stack_okI [of xs absolute n] show ?thesis by (auto simp: normal_step_def)
  next
    case 4
    with st names name stack_okI [of "name # names" absolute n] show ?thesis by (simp add: normal_step_def)
  qed (use ok in \<open>auto simp: normal_step_def\<close>)
qed

lemma normal_step_place:
  assumes "stack_ok absolute stack"
  shows "fold enter (rev (fst (normal_step absolute name (stack, slash)))) (if absolute then [] else cwd) =
    enter name (fold enter (rev stack) (if absolute then [] else cwd))"
proof (cases stack)
  case (Cons x xs)
  with assms have "x \<noteq> []" "x \<noteq> ''.''" by (auto simp: stack_ok_def)
  with Cons show ?thesis by (auto simp: normal_step_def enter_def)
qed (auto simp: normal_step_def enter_def)

lemma normal_fold:
  assumes "stack_ok absolute stack" and "\<forall>x \<in> set names. CHR ''/'' \<notin> set x"
    and "fold (normal_step absolute) names (stack, slash) = (stack', slash')"
  shows "stack_ok absolute stack'"
    and "fold enter (rev stack') (if absolute then [] else cwd) = fold enter names (fold enter (rev stack) (if absolute then [] else cwd))"
proof -
  have "stack_ok absolute stack' \<and> fold enter (rev stack') (if absolute then [] else cwd) =
      fold enter names (fold enter (rev stack) (if absolute then [] else cwd))"
    using assms
  proof (induction names arbitrary: stack slash)
    case (Cons x xs)
    obtain stack1 slash1 where step: "normal_step absolute x (stack, slash) = (stack1, slash1)" by fastforce
    have "stack_ok absolute stack1" using normal_step_ok [of absolute stack x slash] step Cons.prems by simp
    with Cons.IH [of stack1 slash1] Cons.prems step normal_step_place [of absolute stack x slash cwd]
    show ?case by simp
  qed simp
  then show "stack_ok absolute stack'"
    and "fold enter (rev stack') (if absolute then [] else cwd) = fold enter names (fold enter (rev stack) (if absolute then [] else cwd))"
    by auto
qed

lemma hd_path_join: "xs \<noteq> [] \<Longrightarrow> hd xs \<noteq> [] \<Longrightarrow> path_join xs \<noteq> [] \<and> hd (path_join xs) = hd (hd xs)"
  by (induction xs rule: path_join.induct) auto

text \<open>The names of a normalised path.\<close>

lemma lexically_normal_names:
  assumes "p \<noteq> []"
  obtains stack trail where "stack_ok (is_absolute p) stack"
    and "\<And>cwd. fold enter (rev stack) (if is_absolute p then [] else cwd) = place cwd p"
    and "stack = [] \<Longrightarrow> lexically_normal p = (if is_absolute p then ''/'' else ''.'')"
    and "stack \<noteq> [] \<Longrightarrow> path_split (lexically_normal p) =
      (if is_absolute p then [[]] else []) @ rev stack @ (if trail then [[]] else [])"
    and "is_absolute (lexically_normal p) = is_absolute p"
proof -
  obtain stack slash where run: "fold (normal_step (is_absolute p)) (path_split p) ([], False) = (stack, slash)"
    by fastforce
  have nil: "stack_ok (is_absolute p) []" using stack_okI [of "[]" "is_absolute p" 0] by simp
  note inv = normal_fold [OF nil path_split_no_separator run]
  define trail where "trail = (slash \<and> stack \<noteq> [] \<and> hd stack \<noteq> ''..'')"
  let ?r = "(if is_absolute p then ''/'' else []) @ path_join (rev stack) @ (if trail then ''/'' else [])"
  have res: "lexically_normal p = (if ?r = [] then ''.'' else ?r)"
    using assms run by (simp add: lexically_normal_def trail_def Let_def)
  have plain: "\<forall>x \<in> set (rev stack). CHR ''/'' \<notin> set x" using inv(1) by (simp add: stack_ok_def)
  show thesis
  proof (rule that [of stack trail])
    show "stack_ok (is_absolute p) stack" by (rule inv(1))
    show "\<And>cwd. fold enter (rev stack) (if is_absolute p then [] else cwd) = place cwd p"
      using inv(2) by (simp add: place_def)
    show empty: "stack = [] \<Longrightarrow> lexically_normal p = (if is_absolute p then ''/'' else ''.'')"
      using res by (simp add: trail_def)
    assume ne: "stack \<noteq> []"
    then have "hd (rev stack) \<noteq> []" using inv(1) by (simp add: hd_rev stack_ok_def)
    then have "path_join (rev stack) \<noteq> []" using hd_path_join [of "rev stack"] ne by simp
    then have "lexically_normal p = ?r" using res by simp
    then show "path_split (lexically_normal p) =
        (if is_absolute p then [[]] else []) @ rev stack @ (if trail then [[]] else [])"
      using ne path_split_join [OF _ plain] by (cases trail) simp_all
  next
    show "is_absolute (lexically_normal p) = is_absolute p"
    proof (cases "stack = []")
      case True with res show ?thesis by (auto simp: trail_def is_absolute_def)
    next
      case False
      then have "hd (rev stack) \<noteq> []" "CHR ''/'' \<notin> set (hd (rev stack))" using inv(1) by (auto simp: hd_rev stack_ok_def)
      then have "path_join (rev stack) \<noteq> []" "hd (path_join (rev stack)) \<noteq> CHR ''/''"
        using hd_path_join [of "rev stack"] False by (auto dest: hd_in_set)
      then show ?thesis using res by (auto simp: is_absolute_def)
    qed
  qed
qed

lemma lexically_normal_place: "place cwd (lexically_normal p) = place cwd p"
proof (cases "p = []")
  case False
  from lexically_normal_names [OF this] obtain stack trail where names:
    "\<And>cwd. fold enter (rev stack) (if is_absolute p then [] else cwd) = place cwd p"
    "stack = [] \<Longrightarrow> lexically_normal p = (if is_absolute p then ''/'' else ''.'')"
    "stack \<noteq> [] \<Longrightarrow> path_split (lexically_normal p) = (if is_absolute p then [[]] else []) @ rev stack @ (if trail then [[]] else [])"
    "is_absolute (lexically_normal p) = is_absolute p" by metis
  show ?thesis
  proof (cases "stack = []")
    case True with names(1) [of cwd] names(2) show ?thesis by (auto simp: place_def is_absolute_def enter_def)
  next
    case False with names(1) [of cwd] names(3,4) show ?thesis by (auto simp: place_def [of _ "lexically_normal p"] enter_def)
  qed
qed (simp add: lexically_normal_def)

lemma lexically_normal_normal: "normal_path (lexically_normal p)"
proof (cases "p = []")
  case False
  from lexically_normal_names [OF this] obtain stack trail where ok: "stack_ok (is_absolute p) stack"
    and names: "stack = [] \<Longrightarrow> lexically_normal p = (if is_absolute p then ''/'' else ''.'')"
    "stack \<noteq> [] \<Longrightarrow> path_split (lexically_normal p) = (if is_absolute p then [[]] else []) @ rev stack @ (if trail then [[]] else [])" by metis
  obtain ns n where st: "stack = ns @ replicate n ''..''" "''..'' \<notin> set ns" "is_absolute p \<longrightarrow> n = 0"
    using ok by (auto simp: stack_ok_def)
  have plain: "[] \<notin> set stack" "''.'' \<notin> set stack" using ok by (auto simp: stack_ok_def)
  show ?thesis
  proof (cases "stack = []")
    case True with names(1) show ?thesis by (auto simp: normal_path_def Let_def less_Suc_eq)
  next
    case ne: False
    let ?t = "if trail then [[]] else [] :: string list"
    have "\<forall>k < i. ((if is_absolute p then [[]] else []) @ rev stack @ ?t) ! k = ''..''"
      if i: "i < length ((if is_absolute p then [[]] else []) @ rev stack @ ?t)"
        and up: "((if is_absolute p then [[]] else []) @ rev stack @ ?t) ! i = ''..''" for i
    proof (cases "is_absolute p")
      case True
      then have "''..'' \<notin> set ((if is_absolute p then [[]] else []) @ rev stack @ ?t)" using st by simp
      then show ?thesis using nth_mem [OF i] up by simp
    next
      case False
      have "''..'' \<notin> set (rev ns @ ?t)" using st(2) by simp
      have "\<not> n \<le> i"
      proof
        assume "n \<le> i"
        then have "(rev ns @ ?t) ! (i - n) = ''..''" "i - n < length (rev ns @ ?t)"
          using up i False by (simp_all add: st(1) nth_append split: if_splits)
        with \<open>''..'' \<notin> set (rev ns @ ?t)\<close> show False by (metis nth_mem)
      qed
      then show ?thesis using False by (simp add: st(1) nth_append)
    qed
    moreover have "[] \<notin> set (butlast (tl ((if is_absolute p then [[]] else []) @ rev stack @ ?t)))"
      using plain ne list.set_sel(2) [of "rev stack" "[]"] list.set_sel(2) [of stack "[]"] by (auto simp: butlast_append dest: in_set_butlastD)
    ultimately show ?thesis using names(2) [OF ne] plain by (auto simp: normal_path_def Let_def)
  qed
qed (simp add: lexically_normal_def normal_path_def)

lemma place_append: "place cwd (path_append a b) = place (place cwd a) b"
proof (cases "is_absolute b \<or> a = []")
  case False
  show ?thesis
  proof (cases "has_filename a")
    case True
    with False show ?thesis by (auto simp: path_append_def place_def is_absolute_def path_split_append hd_append)
  next
    case no_name: False
    with False obtain d where d: "a = d @ ''/''" by (cases a rule: rev_cases) (auto simp: has_filename_def)
    then have "path_split (a @ b) = path_split d @ path_split b" "path_split a = path_split d @ [[]]"
      by (simp_all add: path_split_append)
    with False no_name d show ?thesis
      by (cases d) (auto simp: path_append_def place_def is_absolute_def enter_def hd_append)
  qed
qed (auto simp: path_append_def place_def is_absolute_def has_filename_def enter_def)

section \<open>What a loaded configuration promises\<close>

lemma cbind_Inr: "cbind r f = Inr y \<longleftrightarrow> (\<exists>x. r = Inr x \<and> f x = Inr y)"
  by (cases r) (auto simp: cbind_def)

lemma at_pointer_Inr: "at_pointer j k = Inr v \<Longrightarrow> \<exists>kvs. j = JObj kvs \<and> map_of kvs k = Some v"
  by (auto simp: at_pointer_def split: json.splits option.splits)

lemma value_or_Inr:
  "value_or g j k d = Inr x \<Longrightarrow> \<exists>kvs. j = JObj kvs \<and> (case map_of kvs k of Some v \<Rightarrow> g v = Inr x | None \<Rightarrow> x = d)"
  by (auto simp: value_or_def split: json.splits option.splits)

lemma cfg_string_Inr: "cfg_string j = Inr s \<Longrightarrow> j = JStr s"
  by (cases j) (auto simp: cfg_string_def)

lemma config_path_Inr:
  assumes "config_path dir v = Inr p"
  obtains s where "v = Inr (JStr s)" "normal_path p" "\<And>cwd. place cwd p = place (place cwd dir) s"
proof -
  obtain s where s: "v = Inr (JStr s)" "p = lexically_normal (path_append dir s)"
    using assms by (auto simp: config_path_def cbind_Inr dest!: cfg_string_Inr)
  show thesis
    by (rule that [OF s(1)]) (simp_all add: s(2) lexically_normal_normal lexically_normal_place place_append)
qed

lemma cfg_int_bounds: "cfg_int j = Inr i \<Longrightarrow> - (2 ^ 31) \<le> i \<and> i < 2 ^ 31"
  using sint_range_size [of "word_of_int _ :: 32 word"]
  by (auto simp: cfg_int_def Let_def word_size split: json.splits if_splits)

lemma cfg_long_bounds: "cfg_long j = Inr i \<Longrightarrow> - (2 ^ 63) \<le> i \<and> i < 2 ^ 63"
  using sint_range_size [of "word_of_int _ :: 64 word"]
  by (auto simp: cfg_long_def Let_def word_size split: json.splits if_splits)

text \<open>Every rendition has a size that an \<^verbatim>\<open>int\<close> holds.\<close>

definition sized :: "RenditionSetting \<Rightarrow> bool" where
  "sized cfg \<longleftrightarrow> (\<forall>r s. m_renditions cfg r = Some s \<longrightarrow> 0 < js_width s \<and> js_width s < 2 ^ 31 \<and> 0 < js_height s \<and> js_height s < 2 ^ 31)"

lemma load_renditions_sized:
  assumes "load_renditions rs cfg = Inr cfg'" and "sized cfg"
  shows "sized cfg' \<and> dom (m_renditions cfg) \<subseteq> dom (m_renditions cfg') \<and> m_default cfg' = m_default cfg"
  using assms
proof (induction rs cfg rule: load_renditions.induct)
  case (2 rend v rest cfg)
  then obtain w h q sq where read: "value_or cfg_int v ''width'' 0 = Inr w" "value_or cfg_int v ''height'' 0 = Inr h"
    and reads: "value_or cfg_int v ''quality'' 70 = Inr q" "value_or cfg_bool v ''square_crop'' False = Inr sq"
    and rest: "load_renditions rest (if w > 0 \<and> h > 0 then rend_add rend w h q sq cfg else cfg) = Inr cfg'"
    by (auto simp: cbind_Inr)
  have "w < 2 ^ 31" "h < 2 ^ 31"
    using read by (auto dest!: value_or_Inr cfg_int_bounds split: option.splits)
  then have "sized (if w > 0 \<and> h > 0 then rend_add rend w h q sq cfg else cfg)"
    using 2(3) by (simp add: sized_def rend_add_def)
  note step = "2.IH" [OF rest this]
  have "dom (m_renditions cfg) \<subseteq> dom (m_renditions (if w > 0 \<and> h > 0 then rend_add rend w h q sq cfg else cfg))"
    "m_default (if w > 0 \<and> h > 0 then rend_add rend w h q sq cfg else cfg) = m_default cfg"
    by (auto simp: rend_add_def)
  with step show ?case by (metis order_trans)
qed simp

lemma default_sized: "sized default_settings"
  by (simp add: sized_def default_settings_def)

lemma read_config_paths:
  assumes "read_config haar make_address dir j = Inr c"
  shows "\<exists>kvs. j = JObj kvs \<and> (\<forall>(k, p) \<in> {(''cert_chain'', cf_cert_chain c), (''private_key'', cf_private_key c),
       (''web_root'', cf_root c), (''blob_path'', cf_blob_path c)}.
     \<exists>s. map_of kvs k = Some (JStr s) \<and> normal_path p \<and> (\<forall>cwd. place cwd p = place (place cwd dir) s))"
  using assms
  by (auto simp: read_config_def Let_def cbind_Inr split: if_splits elim!: config_path_Inr dest!: at_pointer_Inr)

lemma read_config_haar:
  assumes "read_config haar make_address dir (JObj kvs) = Inr c"
  shows "\<exists>s. (case map_of kvs ''haar_path'' of None \<Rightarrow> s = haar | Some v \<Rightarrow> v = JStr s) \<and> normal_path (cf_haar_path c) \<and>
    (\<forall>cwd. place cwd (cf_haar_path c) = place (place cwd dir) s)"
proof -
  have "config_path dir (value_or Inr (JObj kvs) ''haar_path'' (JStr haar)) = Inr (cf_haar_path c)"
    using assms by (auto simp: read_config_def Let_def cbind_Inr split: if_splits)
  then show ?thesis
    by (rule config_path_Inr) (auto dest!: value_or_Inr split: option.splits)
qed

lemma read_config_values:
  assumes "read_config haar make_address dir j = Inr c"
  shows "cf_user_id c \<noteq> 0 \<and> cf_group_id c \<noteq> 0"
    and "- (2 ^ 63) \<le> cf_session_length c \<and> cf_session_length c < 2 ^ 63"
    and "\<exists>rs default. load_renditions rs (default_settings\<lparr>m_default := default\<rparr>) = Inr (cf_rendition c)"
proof -
  show "cf_user_id c \<noteq> 0 \<and> cf_group_id c \<noteq> 0"
    using assms by (auto simp: read_config_def Let_def cbind_Inr split: if_splits)
  have "\<exists>j'. value_or cfg_long j' ''session_length_in_sec'' 3600 = Inr (cf_session_length c)"
    using assms by (auto simp: read_config_def Let_def cbind_Inr split: if_splits)
  then show "- (2 ^ 63) \<le> cf_session_length c \<and> cf_session_length c < 2 ^ 63"
    by (auto dest!: value_or_Inr cfg_long_bounds split: option.splits)
  show "\<exists>rs default. load_renditions rs (default_settings\<lparr>m_default := default\<rparr>) = Inr (cf_rendition c)"
    using assms by (auto simp: read_config_def Let_def cbind_Inr default_config_def split: if_splits intro!: exI)
qed

text \<open>A configuration as in the documentation, in the directory \<^verbatim>\<open>/etc/hrb\<close>.\<close>

definition demo_config :: json where
  "demo_config = JObj [(''blob_path'', JStr ''../blobs/./''), (''cert_chain'', JStr ''certificate.pem''), (''gid'', JInt 955),
     (''http'', JObj [(''address'', JStr ''0.0.0.0''), (''port'', JInt 8080)]),
     (''https'', JObj [(''address'', JStr ''0.0.0.0''), (''port'', JInt 4433)]),
     (''private_key'', JStr ''/keys/key.pem''),
     (''rendition'', JObj [(''thumbnail'', JObj [(''height'', JInt 768), (''square_crop'', JBool True), (''width'', JInt 768)])]),
     (''server_name'', JStr ''example.com''), (''uid'', JInt 127), (''web_root'', JStr ''.'')]"

definition demo_config_files :: files where
  "demo_config_files = [''/etc/hrb/hrb.json'' \<mapsto> the (json_dump ref_lib demo_config)]"

definition demo_loaded :: Configuration where
  "demo_loaded = default_config\<lparr>cf_listen_http := \<lparr>ep_address = ''0.0.0.0'', ep_port = 8080\<rparr>,
     cf_listen_https := \<lparr>ep_address = ''0.0.0.0'', ep_port = 4433\<rparr>,
     cf_cert_chain := ''/etc/hrb/certificate.pem'', cf_private_key := ''/keys/key.pem'', cf_root := ''/etc/hrb/'',
     cf_blob_path := ''/etc/blobs/'', cf_haar_path := ''/usr/share/haar'', cf_server_name := ''example.com'',
     cf_rendition := rend_add ''thumbnail'' 768 768 70 True default_settings, cf_user_id := 127, cf_group_id := 955\<rparr>"

lemma demo_config_parsed: "json_parse ref_lib (the (json_dump ref_lib demo_config)) = Some demo_config"
proof -
  have "\<exists>s. json_dump ref_lib demo_config = Some s" by (simp add: ref_lib_def)
  then show ?thesis
    using ref_json.parse_dump [of demo_config] by (auto simp: demo_config_def)
qed

lemma demo_config_loaded: "load_config ref_lib ''/usr/share/haar'' Some demo_config_files ''/etc/hrb/hrb.json'' = Inr demo_loaded"
proof -
  have "parent_path ''/etc/hrb/hrb.json'' = ''/etc/hrb''" by code_simp
  moreover have "read_config ''/usr/share/haar'' Some ''/etc/hrb'' demo_config = Inr demo_loaded"
  proof -
    have "lexically_normal (path_append ''/etc/hrb'' ''../blobs/./'') = ''/etc/blobs/''"
      "lexically_normal (path_append ''/etc/hrb'' ''certificate.pem'') = ''/etc/hrb/certificate.pem''"
      "lexically_normal (path_append ''/etc/hrb'' ''/keys/key.pem'') = ''/keys/key.pem''"
      "lexically_normal (path_append ''/etc/hrb'' ''.'') = ''/etc/hrb/''"
      "lexically_normal (path_append ''/etc/hrb'' ''/usr/share/haar'') = ''/usr/share/haar''"
      by code_simp+
    then show ?thesis
      by (simp add: read_config_def demo_config_def demo_loaded_def default_config_def default_settings_def rend_add_def
          Let_def cbind_def config_path_def at_pointer_def value_or_def cfg_string_def cfg_bool_def cfg_int_def
          cfg_unsigned_def json_items_def parse_endpoint_def const_index_def)
  qed
  ultimately show ?thesis by (simp add: load_config_def demo_config_files_def demo_config_parsed)
qed

text \<open>C22: A configuration that was loaded is usable: its user and group are not root, every rendition
  has a positive size and the built-in rendition is there, the session length fits its type, and every path
  in it is in normal form and names the place that the text in the file names from the directory of the
  file; the path of the face detection, which the file may leave out, then names the place that the constant of
  the build names from there.\<close>

theorem loaded_config_wf:
  assumes "load_config L haarcascades_path make_address fs config_file = Inr c"
  shows "cf_user_id c \<noteq> 0 \<and> cf_group_id c \<noteq> 0 \<and>
    - (2 ^ 63) \<le> cf_session_length c \<and> cf_session_length c < 2 ^ 63 \<and>
    (\<forall>r s. m_renditions (cf_rendition c) r = Some s \<longrightarrow>
       0 < js_width s \<and> js_width s < 2 ^ 31 \<and> 0 < js_height s \<and> js_height s < 2 ^ 31) \<and>
    rend_valid (cf_rendition c) ''2048x2048'' \<and>
    (\<exists>contents kvs. fs config_file = Some contents \<and> json_parse L contents = Some (JObj kvs) \<and>
      (\<forall>(k, p) \<in> {(''cert_chain'', cf_cert_chain c), (''private_key'', cf_private_key c),
          (''web_root'', cf_root c), (''blob_path'', cf_blob_path c)}.
        \<exists>s. map_of kvs k = Some (JStr s) \<and> normal_path p \<and>
          (\<forall>cwd. place cwd p = place (place cwd (parent_path config_file)) s)) \<and>
      (\<exists>s. (case map_of kvs ''haar_path'' of None \<Rightarrow> s = haarcascades_path | Some v \<Rightarrow> v = JStr s) \<and> normal_path (cf_haar_path c) \<and>
        (\<forall>cwd. place cwd (cf_haar_path c) = place (place cwd (parent_path config_file)) s)))"
proof -
  obtain contents j where parsed: "fs config_file = Some contents" "json_parse L contents = Some j"
    and read: "read_config haarcascades_path make_address (parent_path config_file) j = Inr c"
    using assms by (auto simp: load_config_def split: option.splits)
  obtain rs default where rend: "load_renditions rs (default_settings\<lparr>m_default := default\<rparr>) = Inr (cf_rendition c)"
    using read_config_values(3) [OF read] by blast
  have "sized (default_settings\<lparr>m_default := default\<rparr>)" using default_sized by (simp add: sized_def)
  obtain kvs where kvs: "j = JObj kvs" "\<forall>(k, p) \<in> {(''cert_chain'', cf_cert_chain c), (''private_key'', cf_private_key c),
       (''web_root'', cf_root c), (''blob_path'', cf_blob_path c)}.
     \<exists>s. map_of kvs k = Some (JStr s) \<and> normal_path p \<and> (\<forall>cwd. place cwd p = place (place cwd (parent_path config_file)) s)"
    using read_config_paths [OF read] by blast
  from load_renditions_sized [OF rend \<open>sized (default_settings\<lparr>m_default := default\<rparr>)\<close>] have "sized (cf_rendition c)" "rend_valid (cf_rendition c) ''2048x2048''"
    by (auto simp: rend_valid_def default_settings_def)
  then show ?thesis
    using read_config_values(1,2) [OF read] kvs(2) read_config_haar [OF read [unfolded kvs(1)]] parsed kvs(1) unfolding sized_def by auto
qed

theorem loaded_config_wf_witness:
  "cf_user_id demo_loaded \<noteq> 0 \<and> rend_valid (cf_rendition demo_loaded) ''2048x2048'' \<and> normal_path (cf_blob_path demo_loaded)"
  using loaded_config_wf [OF demo_config_loaded] by auto

end
