(* ===== verification/Server_Process.thy ===== *)
theory Server_Process
  imports Configuration HTTP_Session
begin

text \<open>
  \<^verbatim>\<open>src/server/main.cc\<close>, \<^verbatim>\<open>src/server/hrb/Server.cc\<close>, \<^verbatim>\<open>src/server/net/Listener.cc\<close> and \<^verbatim>\<open>InsecureSession.cc\<close>:
  the start of the server, the sockets it listens on and the connections it accepts there. The calls of the
  operating system are the record \<^verbatim>\<open>sys\<close>; what is used of \<^verbatim>\<open>setgid\<close> and \<^verbatim>\<open>setuid\<close> is the locale
  \<^verbatim>\<open>posix_ids\<close>. The server only serves requests after it has given up the rights of root.
\<close>

section \<open>Connections without encryption\<close>

datatype insecure_pending = I_idle | I_read | I_write | I_closed

record insecure =
  is_response :: response
  is_pending :: insecure_pending
  is_sent :: "response list"

definition InsecureSession :: "string \<Rightarrow> insecure" where
  "InsecureSession redirect =
     \<lparr>is_response = set_field ''Location'' redirect (empty_response St_moved_permanently), is_pending = I_idle, is_sent = []\<rparr>"

definition insecure_run :: "insecure \<Rightarrow> insecure" where
  "insecure_run s = s\<lparr>is_pending := I_read\<rparr>"

text \<open>\<^verbatim>\<open>on_read\<close> answers also after an error of the read; after the response the socket is shut down. Nothing
  happens unless the operation was pending.\<close>

definition insecure_on_read :: "bool \<Rightarrow> insecure \<Rightarrow> insecure" where
  "insecure_on_read failed s = s\<lparr>is_pending := I_write, is_sent := is_sent s @ [is_response s]\<rparr>"

definition insecure_completed :: "bool \<Rightarrow> insecure \<Rightarrow> insecure" where
  "insecure_completed failed s = (case is_pending s of
       I_read \<Rightarrow> insecure_on_read failed s
     | I_write \<Rightarrow> s\<lparr>is_pending := I_closed\<rparr>
     | _ \<Rightarrow> s)"

section \<open>Listeners\<close>

datatype accepted = Secure_session nat int "64 word" | Insecure_session insecure

text \<open>\<^term>\<open>li_accepts\<close> counts the calls of \<^verbatim>\<open>async_accept\<close> that are under way.\<close>

record listener =
  li_cfg :: Configuration
  li_ssl :: bool
  li_open :: bool
  li_session_count :: nat
  li_accepts :: nat
  li_started :: "accepted list"

definition listen_endpoint :: "bool \<Rightarrow> Configuration \<Rightarrow> endpoint" where
  "listen_endpoint ssl cfg = (if ssl then cf_listen_https cfg else cf_listen_http cfg)"

text \<open>The constructor; \<^term>\<open>listens\<close> tells whether the socket can be opened, bound and listened on.\<close>

definition Listener :: "(endpoint \<Rightarrow> bool) \<Rightarrow> bool \<Rightarrow> Configuration \<Rightarrow> listener option" where
  "Listener listens ssl cfg =
     (if listens (listen_endpoint ssl cfg)
      then Some \<lparr>li_cfg = cfg, li_ssl = ssl, li_open = True, li_session_count = 0, li_accepts = 0, li_started = []\<rparr>
      else None)"

definition do_accept :: "listener \<Rightarrow> listener" where
  "do_accept l = l\<lparr>li_accepts := li_accepts l + 1\<rparr>"

definition listener_run :: "listener \<Rightarrow> listener" where
  "listener_run l = (if li_open l then do_accept l else l)"

definition on_accept :: "bool \<Rightarrow> listener \<Rightarrow> listener" where
  "on_accept failed l =
     (let l0 = l\<lparr>li_accepts := li_accepts l - 1\<rparr>;
          l1 = (if failed then l0
            else if li_ssl l0 then
              l0\<lparr>li_started := li_started l0 @ [Secure_session (li_session_count l0) (cf_session_length (li_cfg l0)) (cf_upload_limit (li_cfg l0))],
                 li_session_count := li_session_count l0 + 1\<rparr>
            else l0\<lparr>li_started := li_started l0 @ [Insecure_session (insecure_run (InsecureSession (https_root (li_cfg l0))))]\<rparr>)
      in do_accept l1)"

section \<open>The server\<close>

record ids =
  id_user :: "32 word"
  id_effective :: "32 word"
  id_saved :: "32 word"
  id_group :: "32 word"

datatype path_kind = Absent | Directory | Other_file

datatype sys_event =
    Created_directory string
  | Loaded_certificate string
  | Loaded_key string
  | Listening bool endpoint
  | Set_group "32 word"
  | Set_user "32 word"
  | Serving "64 word"

record proc =
  p_ids :: ids
  p_events :: "sys_event list"

text \<open>The calls of the operating system and of OpenSSL: the boolean ones tell whether the call succeeds,
  \<^verbatim>\<open>setgid\<close> and \<^verbatim>\<open>setuid\<close> return the new identity or \<^term>\<open>None\<close> for an error.\<close>

record sys =
  sys_kind :: "string \<Rightarrow> path_kind"
  sys_create_directories :: "string \<Rightarrow> bool"
  sys_certificate :: "string \<Rightarrow> bool"
  sys_key :: "string \<Rightarrow> bool"
  sys_listen :: "ids \<Rightarrow> endpoint \<Rightarrow> bool"
  sys_setgid :: "32 word \<Rightarrow> ids \<Rightarrow> ids option"
  sys_setuid :: "32 word \<Rightarrow> ids \<Rightarrow> ids option"

datatype startup_error =
    Missing_resource | File_exists | Cannot_create | Ssl_failure | Listen_failure
  | Setgid_failed | Setuid_failed | Cannot_run_as_root

definition event :: "sys_event \<Rightarrow> proc \<Rightarrow> proc" where
  "event e p = p\<lparr>p_events := p_events p @ [e]\<rparr>"

definition and_then :: "startup_error + proc \<Rightarrow> (proc \<Rightarrow> startup_error + proc) \<Rightarrow> startup_error + proc" where
  "and_then r f = (case r of Inl e \<Rightarrow> Inl e | Inr p \<Rightarrow> f p)"

definition BlobDatabase :: "sys \<Rightarrow> Configuration \<Rightarrow> proc \<Rightarrow> startup_error + proc" where
  "BlobDatabase y cfg p = (case sys_kind y (cf_blob_path cfg) of
       Other_file \<Rightarrow> Inl File_exists
     | Directory \<Rightarrow> Inr p
     | Absent \<Rightarrow> if sys_create_directories y (cf_blob_path cfg) then Inr (event (Created_directory (cf_blob_path cfg)) p)
         else Inl Cannot_create)"

text \<open>The constructor reads the web pages; \<^term>\<open>pages\<close> is the result of \<^term>\<open>WebResources\<close> on the web root.\<close>

definition Server :: "sys \<Rightarrow> (string \<Rightarrow> web option) \<Rightarrow> Configuration \<Rightarrow> proc \<Rightarrow> startup_error + proc" where
  "Server y pages cfg p = (case pages (cf_root cfg) of None \<Rightarrow> Inl Missing_resource | Some w \<Rightarrow> BlobDatabase y cfg p)"

definition start_listener :: "sys \<Rightarrow> bool \<Rightarrow> Configuration \<Rightarrow> proc \<Rightarrow> startup_error + proc" where
  "start_listener y ssl cfg p = (case Listener (sys_listen y (p_ids p)) ssl cfg of
       None \<Rightarrow> Inl Listen_failure
     | Some l \<Rightarrow> Inr (event (Listening ssl (listen_endpoint ssl cfg)) p))"

definition listen :: "sys \<Rightarrow> Configuration \<Rightarrow> proc \<Rightarrow> startup_error + proc" where
  "listen y cfg p =
     (if \<not> sys_certificate y (cf_cert_chain cfg) then Inl Ssl_failure
      else if \<not> sys_key y (cf_private_key cfg) then Inl Ssl_failure
      else and_then (start_listener y False cfg (event (Loaded_key (cf_private_key cfg)) (event (Loaded_certificate (cf_cert_chain cfg)) p)))
        (start_listener y True cfg))"

definition drop_privileges :: "sys \<Rightarrow> Configuration \<Rightarrow> proc \<Rightarrow> startup_error + proc" where
  "drop_privileges y cfg p =
     and_then
       (if id_user (p_ids p) = 0 then
          (case sys_setgid y (cf_group_id cfg) (p_ids p) of
             None \<Rightarrow> Inl Setgid_failed
           | Some i1 \<Rightarrow> (case sys_setuid y (cf_user_id cfg) i1 of
               None \<Rightarrow> Inl Setuid_failed
             | Some i2 \<Rightarrow> Inr (event (Set_user (cf_user_id cfg)) (event (Set_group (cf_group_id cfg)) (p\<lparr>p_ids := i2\<rparr>)))))
        else Inr p)
       (\<lambda>q. if id_user (p_ids q) = 0 then Inl Cannot_run_as_root else Inr q)"

text \<open>What a handler of the server works with.\<close>

definition start_session :: "Configuration \<Rightarrow> web \<Rightarrow> 'db henv \<Rightarrow> 'db henv" where
  "start_session cfg lib E = E\<lparr>h_web := lib,
     h_blobs := (h_blobs E)\<lparr>be_blob_path := cf_blob_path cfg, be_settings := cf_rendition cfg\<rparr>,
     h_root := https_root cfg, h_session_length := cf_session_length cfg\<rparr>"

text \<open>\<^verbatim>\<open>run\<close>: the number of threads is at least one.\<close>

definition run :: "sys \<Rightarrow> (string \<Rightarrow> web option) \<Rightarrow> Configuration \<Rightarrow> proc \<Rightarrow> startup_error + proc" where
  "run y pages cfg p =
     and_then (and_then (and_then (Server y pages cfg p) (listen y cfg)) (drop_privileges y cfg))
       (\<lambda>q. Inr (event (Serving (max 1 (cf_thread_count cfg))) q))"

datatype outcome = Exit_success | Exit_failure | Undefined_outcome | Serves proc

text \<open>\<^verbatim>\<open>StartServer\<close>: \<^term>\<open>stdin_line\<close> is the line that \<^verbatim>\<open>std::getline\<close> reads. The callback of \<^verbatim>\<open>add_user\<close> only prints the
  result.\<close>

definition StartServer ::
  "('db \<Rightarrow> rcmd \<Rightarrow> 'db \<times> redisReply) \<Rightarrow> kdf \<Rightarrow> string \<Rightarrow> string option \<Rightarrow> sys \<Rightarrow> (string \<Rightarrow> web option) \<Rightarrow>
   (string \<rightharpoonup> string) \<Rightarrow> Configuration \<Rightarrow> ids \<Rightarrow> 'db \<Rightarrow> outcome \<times> 'db" where
  "StartServer exec kdf salt stdin_line y pages args cfg i db = (case args ''add-user'' of
       Some username \<Rightarrow> (case stdin_line of
           None \<Rightarrow> (Exit_success, db)
         | Some password \<Rightarrow> (case add_user exec kdf salt username password db of
             None \<Rightarrow> (Exit_failure, db)
           | Some (db', ec) \<Rightarrow> (Exit_success, db')))
     | None \<Rightarrow> (case run y pages cfg \<lparr>p_ids = i, p_events = []\<rparr> of
           Inl e \<Rightarrow> (Exit_failure, db)
         | Inr p \<Rightarrow> (Serves p, db)))"

text \<open>\<^verbatim>\<open>main\<close>, after the command line was parsed and the configuration read into \<^term>\<open>loaded\<close>. The option
  \<^verbatim>\<open>blob-id\<close> does nothing, and missing models of the face detection are only logged.\<close>

definition main ::
  "((string \<rightharpoonup> string) \<times> Configuration) cfg \<Rightarrow> ('db \<Rightarrow> rcmd \<Rightarrow> 'db \<times> redisReply) \<Rightarrow> kdf \<Rightarrow> string \<Rightarrow> string option \<Rightarrow>
   sys \<Rightarrow> (string \<Rightarrow> web option) \<Rightarrow> ids \<Rightarrow> 'db \<Rightarrow> outcome \<times> 'db" where
  "main loaded exec kdf salt stdin_line y pages i db = (case loaded of
       Inl Undefined \<Rightarrow> (Undefined_outcome, db)
     | Inl e \<Rightarrow> (Exit_failure, db)
     | Inr (args, cfg) \<Rightarrow>
         if args ''help'' \<noteq> None then (Exit_success, db)
         else if args ''blob-id'' \<noteq> None then (Exit_success, db)
         else StartServer exec kdf salt stdin_line y pages args cfg i db)"

section \<open>Accepting connections\<close>

lemma insecure_runs:
  "is_sent (fold insecure_completed fs (insecure_run (InsecureSession r))) =
     (if fs = [] then [] else [is_response (InsecureSession r)])"
proof -
  have closed: "is_sent (fold insecure_completed fs s) = is_sent s" if "is_pending s \<in> {I_write, I_closed}" for s fs
    using that by (induction fs arbitrary: s) (auto simp: insecure_completed_def)
  show ?thesis
    by (cases fs) (auto simp: closed insecure_completed_def insecure_on_read_def insecure_run_def InsecureSession_def)
qed

text \<open>A listener that has accepted some connections.\<close>

definition listener_ok :: "Configuration \<Rightarrow> bool \<Rightarrow> nat \<Rightarrow> listener \<Rightarrow> bool" where
  "listener_ok cfg ssl n l \<longleftrightarrow> li_cfg l = cfg \<and> li_ssl l = ssl \<and> li_accepts l = 1 \<and>
     li_session_count l = (if ssl then n else 0) \<and>
     li_started l = (if ssl then map (\<lambda>k. Secure_session k (cf_session_length cfg) (cf_upload_limit cfg)) [0..<n]
       else replicate n (Insecure_session (insecure_run (InsecureSession (https_root cfg)))))"

lemma on_accept_ok:
  "listener_ok cfg ssl n l \<Longrightarrow> listener_ok cfg ssl (if failed then n else Suc n) (on_accept failed l)"
  by (auto simp: listener_ok_def on_accept_def do_accept_def Let_def replicate_append_same)

lemma accepts_ok:
  "listener_ok cfg ssl n l \<Longrightarrow> listener_ok cfg ssl (n + length (filter Not fs)) (fold on_accept fs l)"
proof (induction fs arbitrary: n l)
  case (Cons f fs)
  from Cons.IH [OF on_accept_ok [OF Cons.prems, of f]] show ?case by (simp split: if_splits)
qed simp

text \<open>A listener never stops accepting: whatever the accepts give, one further accept is under way, and
  every accepted connection got a session, on the encrypted port numbered in order.\<close>

theorem listener_keeps_accepting:
  assumes "Listener listens ssl cfg = Some l"
  shows "listener_ok cfg ssl (length (filter Not fs)) (fold on_accept fs (listener_run l))"
proof -
  have "listener_ok cfg ssl 0 (listener_run l)"
    using assms by (auto simp: Listener_def listener_ok_def listener_run_def do_accept_def split: if_splits)
  from accepts_ok [OF this, of fs] show ?thesis by simp
qed

section \<open>Giving up the rights of root\<close>

text \<open>The manual pages of \<^verbatim>\<open>setgid\<close> and \<^verbatim>\<open>setuid\<close>: a process that may change its identity gets the one
  it asks for, as the real, the effective and the saved one, and neither call changes the other identifier.\<close>

locale posix_ids =
  fixes y :: sys
  assumes setgid_group: "sys_setgid y g i = Some i' \<Longrightarrow> id_effective i = 0 \<Longrightarrow> id_group i' = g"
    and setgid_user: "sys_setgid y g i = Some i' \<Longrightarrow> id_user i' = id_user i \<and> id_effective i' = id_effective i \<and> id_saved i' = id_saved i"
    and setuid_user: "sys_setuid y u i = Some i' \<Longrightarrow> id_effective i = 0 \<Longrightarrow> id_user i' = u \<and> id_effective i' = u \<and> id_saved i' = u"
    and setuid_group: "sys_setuid y u i = Some i' \<Longrightarrow> id_group i' = id_group i"
begin

lemma drop_privileges_effect:
  assumes "drop_privileges y cfg p = Inr q"
  shows "id_user (p_ids q) \<noteq> 0"
    and "id_user (p_ids p) \<noteq> 0 \<Longrightarrow> q = p"
    and "id_user (p_ids p) = 0 \<Longrightarrow> p_events q = p_events p @ [Set_group (cf_group_id cfg), Set_user (cf_user_id cfg)]"
    and "id_user (p_ids p) = 0 \<Longrightarrow> id_effective (p_ids p) = 0 \<Longrightarrow>
      p_ids q = \<lparr>id_user = cf_user_id cfg, id_effective = cf_user_id cfg, id_saved = cf_user_id cfg, id_group = cf_group_id cfg\<rparr>"
proof -
  show "id_user (p_ids q) \<noteq> 0" "id_user (p_ids p) \<noteq> 0 \<Longrightarrow> q = p"
    using assms by (auto simp: drop_privileges_def and_then_def split: sum.splits option.splits if_splits)
  assume "id_user (p_ids p) = 0"
  then obtain i1 i2 where calls: "sys_setgid y (cf_group_id cfg) (p_ids p) = Some i1" "sys_setuid y (cf_user_id cfg) i1 = Some i2"
    and q: "q = event (Set_user (cf_user_id cfg)) (event (Set_group (cf_group_id cfg)) (p\<lparr>p_ids := i2\<rparr>))"
    using assms by (auto simp: drop_privileges_def and_then_def split: sum.splits option.splits if_splits)
  show "p_events q = p_events p @ [Set_group (cf_group_id cfg), Set_user (cf_user_id cfg)]"
    by (simp add: q event_def)
  assume root: "id_effective (p_ids p) = 0"
  from setgid_user [OF calls(1)] root setuid_user [OF calls(2)] setuid_group [OF calls(2)] setgid_group [OF calls(1) root]
  show "p_ids q = \<lparr>id_user = cf_user_id cfg, id_effective = cf_user_id cfg, id_saved = cf_user_id cfg, id_group = cf_group_id cfg\<rparr>"
    by (simp add: q event_def)
qed

end

lemma and_then_Inr: "and_then r f = Inr q \<longleftrightarrow> (\<exists>p. r = Inr p \<and> f p = Inr q)"
  by (cases r) (auto simp: and_then_def)

lemma Server_effect:
  assumes "Server y pages cfg p = Inr q"
  shows "p_ids q = p_ids p" and "\<exists>es. p_events q = p_events p @ es \<and> set es \<subseteq> {Created_directory (cf_blob_path cfg)}"
  using assms by (auto simp: Server_def BlobDatabase_def event_def split: option.splits path_kind.splits if_splits)

lemma listen_effect:
  assumes "listen y cfg p = Inr q"
  shows "p_ids q = p_ids p" and "p_events q = p_events p @ [Loaded_certificate (cf_cert_chain cfg),
    Loaded_key (cf_private_key cfg), Listening False (cf_listen_http cfg), Listening True (cf_listen_https cfg)]"
  using assms by (auto simp: listen_def start_listener_def and_then_Inr event_def listen_endpoint_def split: if_splits option.splits)

text \<open>An operating system that behaves like the manual pages, on which every call succeeds for root.\<close>

definition ref_sys :: sys where
  "ref_sys = \<lparr>sys_kind = (\<lambda>p. Absent), sys_create_directories = (\<lambda>p. True), sys_certificate = (\<lambda>p. True), sys_key = (\<lambda>p. True),
     sys_listen = (\<lambda>i e. id_effective i = 0 \<or> 1024 \<le> ep_port e),
     sys_setgid = (\<lambda>g i. if id_effective i = 0 \<or> id_group i = g then Some (i\<lparr>id_group := g\<rparr>) else None),
     sys_setuid = (\<lambda>u i. if id_effective i = 0 then Some (i\<lparr>id_user := u, id_effective := u, id_saved := u\<rparr>)
       else if id_user i = u \<or> id_saved i = u then Some (i\<lparr>id_effective := u\<rparr>) else None)\<rparr>"

interpretation linux: posix_ids ref_sys
  by unfold_locales (auto simp: ref_sys_def split: if_splits)

text \<open>C19: A server that is not installed set-user-id never serves requests as root. When the start of the program ends
  with the server running, its real user is not root; when the program was started with the same real, effective and
  saved user, none of the three is root; started by root it has the user and the group of the configuration, which are
  not root either; and it read its certificate and key and opened both ports, in this order, before it gave up its
  rights. The database is as before. (A set-user-id program keeps its effective user: only the real one is looked at.)\<close>

theorem server_not_root:
  assumes "posix_ids y"
    and "main (Configuration_of L config_filename haarcascades_path make_address fs argc given env) exec kdf salt stdin_line y pages i db
      = (Serves p, db')"
  shows "\<exists>args cfg dirs. Configuration_of L config_filename haarcascades_path make_address fs argc given env = Inr (args, cfg) \<and>
    id_user (p_ids p) \<noteq> 0 \<and> db' = db \<and>
    (id_effective i = id_user i \<and> id_saved i = id_user i \<longrightarrow> id_effective (p_ids p) \<noteq> 0 \<and> id_saved (p_ids p) \<noteq> 0) \<and>
    (id_user i = 0 \<and> id_effective i = 0 \<longrightarrow>
       p_ids p = \<lparr>id_user = cf_user_id cfg, id_effective = cf_user_id cfg, id_saved = cf_user_id cfg, id_group = cf_group_id cfg\<rparr> \<and> cf_group_id cfg \<noteq> 0) \<and>
    set dirs \<subseteq> {Created_directory (cf_blob_path cfg)} \<and>
    p_events p = dirs @ [Loaded_certificate (cf_cert_chain cfg), Loaded_key (cf_private_key cfg),
        Listening False (cf_listen_http cfg), Listening True (cf_listen_https cfg)] @
      (if id_user i = 0 then [Set_group (cf_group_id cfg), Set_user (cf_user_id cfg)] else []) @
      [Serving (max 1 (cf_thread_count cfg))]"
proof -
  let ?c = "Configuration_of L config_filename haarcascades_path make_address fs argc given env"
  obtain args cfg where loaded: "?c = Inr (args, cfg)" and no_help: "args ''help'' = None"
    and run: "run y pages cfg \<lparr>p_ids = i, p_events = []\<rparr> = Inr p" "db' = db"
    using assms(2) by (auto simp: main_def StartServer_def split: sum.splits prod.splits cfg_error.splits option.splits if_splits)
  obtain p1 p2 p3 where steps: "Server y pages cfg \<lparr>p_ids = i, p_events = []\<rparr> = Inr p1" "listen y cfg p1 = Inr p2"
    "drop_privileges y cfg p2 = Inr p3" "p = event (Serving (max 1 (cf_thread_count cfg))) p3"
    using run(1) by (auto simp: run_def and_then_Inr)
  note drop = posix_ids.drop_privileges_effect [OF assms(1) steps(3)]
  have "cf_user_id cfg \<noteq> 0 \<and> cf_group_id cfg \<noteq> 0"
    using loaded no_help by (auto simp: Configuration_of_def Let_def cbind_Inr load_config_def split: option.splits if_splits
        dest!: read_config_values(1))
  moreover have "p_ids p2 = i" using listen_effect(1) [OF steps(2)] Server_effect(1) [OF steps(1)] by simp
  ultimately show ?thesis
    using loaded drop listen_effect(2) [OF steps(2)] Server_effect(2) [OF steps(1)] run(2)
    by (cases "id_user i = 0") (auto simp: steps(4) event_def)
qed

theorem server_not_root_witness:
  "\<exists>p. main (Configuration_of ref_lib [] ''/usr/share/haar'' Some demo_config_files 0 Map.empty (Some ''/etc/hrb/hrb.json''))
      ref_exec (\<lambda>_ _ _ _. None) [] None ref_sys (\<lambda>_. Some \<lparr>w_static = [], w_dynamic = []\<rparr>)
      \<lparr>id_user = 0, id_effective = 0, id_saved = 0, id_group = 0\<rparr> (\<lambda>_. DNone) = (Serves p, \<lambda>_. DNone) \<and> id_user (p_ids p) \<noteq> 0 \<and> id_effective (p_ids p) \<noteq> 0"
proof -
  have "Configuration_of ref_lib [] ''/usr/share/haar'' Some demo_config_files 0 Map.empty (Some ''/etc/hrb/hrb.json'') =
      Inr (Map.empty, demo_loaded)"
    by (simp add: Configuration_of_def stored_args_def demo_config_loaded cbind_def)
  then obtain p where run: "main (Configuration_of ref_lib [] ''/usr/share/haar'' Some demo_config_files 0 Map.empty (Some ''/etc/hrb/hrb.json''))
      ref_exec (\<lambda>_ _ _ _. None) [] None ref_sys (\<lambda>_. Some \<lparr>w_static = [], w_dynamic = []\<rparr>)
      \<lparr>id_user = 0, id_effective = 0, id_saved = 0, id_group = 0\<rparr> (\<lambda>_. DNone) = (Serves p, \<lambda>_. DNone)"
    by (auto simp: main_def StartServer_def run_def Server_def BlobDatabase_def listen_def start_listener_def Listener_def
        drop_privileges_def and_then_def ref_sys_def event_def demo_loaded_def)
  from server_not_root [OF linux.posix_ids_axioms run] have "id_user (p_ids p) \<noteq> 0 \<and> id_effective (p_ids p) \<noteq> 0" by auto
  with run show ?thesis by blast
qed

end
