(* ===== verification/Spec2Isabelle.thy ===== *)
theory Spec2Isabelle
  imports Redis_Commands Database_Failure Sync_Files Time_Index Desktop_Client Memory_Map Random_Numbers Server_Process
begin

text \<open>
  Hearty Rabbit is a web photo album: a C++ server keeps photographs (\<^emph>\<open>blobs\<close>) as files, keeps who
  owns them in a Redis database, and serves them over HTTPS to a browser, to a desktop client and
  to the synchronisation tool \<^verbatim>\<open>hrbsync\<close>. All paths below are under \<^verbatim>\<open>src/src\<close> of the repository.

  \<^bold>\<open>How the parts interact.\<close> A connection (\<^verbatim>\<open>server/net/Session.cc\<close>) reads the header of a request and hands
  it to a \<^verbatim>\<open>SessionHandler\<close>, which reads the cookie, asks \<^verbatim>\<open>Authentication\<close> who sent it, and chooses the
  type of the body; an upload goes to a temporary file. After the body it parses the target into a
  \<^verbatim>\<open>URLIntent\<close> and calls one handler. The handlers call \<^verbatim>\<open>Ownership\<close> (scripts in Lua that run inside
  the database), \<^verbatim>\<open>BlobDatabase\<close> (files) and \<^verbatim>\<open>WebResources\<close> (pages), and the response goes back to the
  connection. \<^verbatim>\<open>Ownership\<close> and \<^verbatim>\<open>Authentication\<close> send their commands through \<^verbatim>\<open>redis::Connection\<close>. The
  client builds the same URLs, and reads the same JSON and cookies, with the common library.

  \<^bold>\<open>The common library.\<close>
  \<^item> \<^verbatim>\<open>HRB_Prelude\<close>: strings as C++ has them, results with exceptions, collections of facts.
  \<^item> \<^verbatim>\<open>Escape\<close>: \<^verbatim>\<open>common/util/Escape.cc\<close>. \<^verbatim>\<open>String_Fields\<close>: \<^verbatim>\<open>StringFields.hh\<close>, \<^verbatim>\<open>RepeatingTuple.hh\<close>,
    \<^verbatim>\<open>Cookie.cc\<close>; the parser is proved once in the locale \<^verbatim>\<open>field_syntax\<close> and interpreted for forms and
    for cookies.
  \<^item> \<^verbatim>\<open>Object_ID\<close>, \<^verbatim>\<open>User_ID\<close>, \<^verbatim>\<open>URL_Intent\<close>, \<^verbatim>\<open>Blob_Inode\<close>, \<^verbatim>\<open>Collections\<close>: the files of these names in
    \<^verbatim>\<open>common/hrb\<close>, with \<^verbatim>\<open>server/hrb/BlobInodeDB.cc\<close> and \<^verbatim>\<open>client/hrbsync/CollectionComparison.cc\<close>.
  \<^item> \<^verbatim>\<open>Calendar\<close>: the dates of \<^verbatim>\<open>common/util/Timestamp.cc\<close>, \<^verbatim>\<open>Cookie.cc\<close> and \<^verbatim>\<open>common/image/EXIF2.cc\<close>, on the calendar functions
    of the C library; an expiry date that is printed is read back.
  \<^item> \<^verbatim>\<open>Memory_Map\<close>: \<^verbatim>\<open>common/util/MMap.cc\<close> on a model of the address space; over any sequence of operations every
    mapping has exactly one owner. \<^verbatim>\<open>Random_Numbers\<close>: \<^verbatim>\<open>common/crypto/Random.cc\<close> and \<^verbatim>\<open>server/crypto/Password.cc\<close>; the
    generator hashes a new block for each value and takes new entropy in every period.
  \<^item> \<^verbatim>\<open>Common_Properties\<close>: what the URL of every intent that the program builds parses back to, a parsed blob name
    is a hexadecimal identifier, the field parsers agree with the grammar of their texts (the last item of a name), who a permission lets in,
    and the round trips of inodes, collections and lists of collections.

  \<^bold>\<open>The database.\<close>
  \<^item> \<^verbatim>\<open>Redis_Reply\<close>: replies and error codes (\<^verbatim>\<open>server/net/Redis.hh\<close>, \<^verbatim>\<open>common/util/Error.cc\<close>).
  \<^item> \<^verbatim>\<open>Redis_Connection\<close>: \<^verbatim>\<open>server/net/Redis.cc\<close>, the queues of callbacks of a connection, transactions and
    the pool. Steps are completions of asynchronous operations in any order. Shown: while the connection is open, the
    first reply is for the first command and so on; callbacks are called at most once, none is forgotten, the read handler returns, a transaction hands each
    command its reply, a failure answers everyone.
  \<^item> \<^verbatim>\<open>Redis_Commands\<close>: the overloads of \<^verbatim>\<open>Connection::command\<close>, command strings and the allocation of connections; a
    transaction that is sent as a vector calls its callback once, with the replies of all its commands.
  \<^item> \<^verbatim>\<open>Redis_Server\<close>: the service itself is a parameter \<^term>\<open>exec\<close> with a view of its keys; the locale
    \<^verbatim>\<open>redis_server\<close> states the documented effect of each command the program sends.
  \<^item> \<^verbatim>\<open>Redis_Keys\<close>, \<^verbatim>\<open>Ownership\<close>: \<^verbatim>\<open>server/hrb/RedisKeys.cc\<close>, \<^verbatim>\<open>Ownership.cc\<close>, \<^verbatim>\<open>Ownership.ipp\<close>: every script as a
    program in a state and error monad, and the C++ callbacks that read the replies.
  \<^item> \<^verbatim>\<open>Script_Logic\<close>: a calculus of weakest preconditions for the scripts. \<^verbatim>\<open>Ownership_Library\<close>: the contents
    of the keys as a library of entries, albums, inodes, references and the public list.
    \<^verbatim>\<open>Ownership_Invariant\<close>, \<^verbatim>\<open>Ownership_Reads\<close> and \<^verbatim>\<open>Ownership_Properties\<close>: over any sequence of
    operations the indexes stay right (\<^verbatim>\<open>indexed\<close>), and the library stays \<^verbatim>\<open>consistent\<close> when no blob is moved that is
    not in the source collection or moved to where it is, and none renamed that is not there, which the code does not
    test; each operation, by its name, does what it does on a specification without back references; the exact effect of
    every operation on every part of the library, and that a listing shows exactly what the requester may see.
  \<^item> \<^verbatim>\<open>Authentication\<close>, \<^verbatim>\<open>Authentication_Properties\<close>: \<^verbatim>\<open>server/crypto/Authentication.cc\<close> and \<^verbatim>\<open>.ipp\<close>: the life of a
    session from login over renewal to logout, and of a guest until expiry. The length of a session is sent through \<^verbatim>\<open>%d\<close>
    and so narrowed to 32 bits (\<^verbatim>\<open>narrow_int\<close>).

  \<^bold>\<open>The server.\<close>
  \<^item> \<^verbatim>\<open>HTTP\<close>: requests and responses. \<^verbatim>\<open>Web_Page\<close>: \<^verbatim>\<open>server/util/StringTemplate.cc\<close>, \<^verbatim>\<open>server/hrb/WebResources.cc\<close>.
    \<^verbatim>\<open>Blob_Store\<close>: \<^verbatim>\<open>BlobDatabase.cc\<close>, \<^verbatim>\<open>BlobFile.cc\<close>, \<^verbatim>\<open>UploadFile.cc\<close> over a file system from paths to
    contents; an uploaded blob is served byte for byte and renditions stay in the directory of the blob.
    It also has the digest of \<^verbatim>\<open>common/crypto/Blake2.cc\<close>, of which only the hash function is a parameter.
    \<^verbatim>\<open>PHash_Db\<close> and \<^verbatim>\<open>Time_Index\<close>: \<^verbatim>\<open>server/hrb/index/PHashDb.cc\<close> and \<^verbatim>\<open>TimeIndex.cc\<close>. \<^verbatim>\<open>Image_Crop\<close> and \<^verbatim>\<open>Image_Processing\<close>:
    \<^verbatim>\<open>server/image/ImageContent.cc\<close>, \<^verbatim>\<open>common/image/PHash.cc\<close> and the rendering in \<^verbatim>\<open>BlobFile.cc\<close>: the crop lies in the image, and a
    rendition has the size that the configuration asks for.
  \<^item> \<^verbatim>\<open>Session_Handler\<close>: \<^verbatim>\<open>server/hrb/SessionHandler.cc\<close>, \<^verbatim>\<open>SessionHandler.ipp\<close>, \<^verbatim>\<open>BlobRequest.cc\<close>: every handler, from
    the header to the response. The state \<^verbatim>\<open>srv\<close> has the database, the files, the user of this request and
    the session it came with. \<^verbatim>\<open>Handler_Isolation\<close> (the locale \<^verbatim>\<open>handler_env\<close>, which extends \<^verbatim>\<open>ownership_server\<close>) and
    \<^verbatim>\<open>Handler_Properties\<close>: a request changes nothing of another user, nobody is authenticated by accident, a blob
    is served only to those its permission allows, only the owner changes a collection, and the assertion of
    \<^verbatim>\<open>UserID::valid\<close> holds for the users of the handlers.
  \<^item> \<^verbatim>\<open>Database_Failure\<close>: the same operations and handlers on a connection whose commands may fail, before or after
    the database has run them; what happens to each command of a request is an argument. With a sound connection
    they are the handlers of \<^verbatim>\<open>Session_Handler\<close>. A success that is reported on a failing connection is the one of a run in which at most the commands fail whose
    replies the handler ignores, apart from
    the three kinds of request whose callbacks ignore the error, and a server without database discloses nothing.
  \<^item> \<^verbatim>\<open>HTTP_Session\<close>: \<^verbatim>\<open>server/net/Session.cc\<close> as a step relation over completed reads and writes; between two of
    them the event \<^verbatim>\<open>Ev_others\<close> replaces the database and the files arbitrarily, which stands for all
    other connections. One response for every request whose handler returns, and no identity that outlives its request.

  \<^item> \<^verbatim>\<open>Configuration\<close>: \<^verbatim>\<open>server/util/Configuration.cc\<close> with the operations on paths it uses; a loaded
    configuration is well-formed, and its paths name the places that the file names. \<^verbatim>\<open>Server_Process\<close>: \<^verbatim>\<open>server/main.cc\<close>,
    \<^verbatim>\<open>server/hrb/Server.cc\<close>, \<^verbatim>\<open>server/net/Listener.cc\<close>, \<^verbatim>\<open>InsecureSession.cc\<close>: the start of the program as a sequence of
    system calls; unless it is set-user-id it never serves as root.

  \<^bold>\<open>The client.\<close>
  \<^item> \<^verbatim>\<open>Request_Scheduler\<close>: \<^verbatim>\<open>client/http/RequestScheduler.cc\<close>, \<^verbatim>\<open>GenericHTTPRequest.hh\<close>, \<^verbatim>\<open>AggregatedCallBack.hh\<close>: the bound
    on requests under way and their order.
  \<^item> \<^verbatim>\<open>Client\<close>: \<^verbatim>\<open>client/http/HRBClient.ipp\<close> and \<^verbatim>\<open>client/hrbsync/main.cc\<close>. The login of the client is run against
    the server's handler, and its later requests against any later database; the synchronisation against the server's parser of URLs. \<^verbatim>\<open>Sync_Run\<close>: a run of \<^verbatim>\<open>hrbsync\<close> against the
    handlers and the database; it asks for exactly the blobs of the collection that its user may see and has not. \<^verbatim>\<open>Sync_Files\<close>: the responses to these requests and the files they leave; every
    blob that was missing is copied byte for byte, if the file names are distinct and plain and no file is empty or above 20 MiB.
  \<^item> \<^verbatim>\<open>Desktop_Client\<close>: \<^verbatim>\<open>client/qt\<close>: the window as a step relation over logins, clicks and replies in any order; its list
    shows the collection, with the pictures that belong to the rows.

  \<^bold>\<open>Parameters and hypotheses.\<close> \<^verbatim>\<open>External\<close> collects the functions of libraries that the sources call (Boost's
  hexadecimal conversion, the JSON and MessagePack libraries, libmagic, OpenCV, the digest, the key
  derivation) in the record \<^verbatim>\<open>extlib\<close>; the locales \<^verbatim>\<open>hex_codec\<close>, \<^verbatim>\<open>json_codec\<close> and \<^verbatim>\<open>msgpack_codec\<close> state what is
  used of them, \<^verbatim>\<open>reply_reader\<close> what is used of the parser of hiredis, \<^verbatim>\<open>posix_ids\<close> what is used of
  \<^verbatim>\<open>setuid\<close> and \<^verbatim>\<open>setgid\<close>, \<^verbatim>\<open>mmap_kernel\<close> what is used of \<^verbatim>\<open>mmap\<close>, and \<^verbatim>\<open>opencv_laws\<close> what is used of the functions of OpenCV, which
  are the record \<^verbatim>\<open>opencv\<close>. The source of entropy and the hash function of \<^verbatim>\<open>Random_Numbers\<close> are arguments. \<^verbatim>\<open>Reference_Libs\<close> and
  \<^verbatim>\<open>Reference_Redis\<close> implement them (\<^verbatim>\<open>ref_lib\<close>, \<^verbatim>\<open>ref_exec\<close>) and interpret every locale, so the laws
  can hold together; each property with a hypothesis is run on these instances. Random values, the
  clock, the order in which \<^verbatim>\<open>std::sort\<close> leaves equal points and the order of a directory listing are arguments. Theorems
  about the database ask for user names without a colon, because the keys of two users with a
  colon may coincide.

  \<^bold>\<open>Bounds and fuel.\<close> Bytes are \<^typ>\<open>char\<close>, the lengths and bit patterns that may wrap are words. The loops
  of the connection that deliver replies and flush the queues take fuel; \<^verbatim>\<open>read_handler_returns\<close> shows that
  the number of callbacks and of unread bytes is enough. The loop over HSCAN takes the number of
  rounds from the environment, as the server chooses how many it needs; running out is an error
  value. The search for a rendition takes the depth of its calls; \<^verbatim>\<open>rendition_search_ends\<close> shows that two
  are enough when the default is configured, and that no depth is when it is not. An
  exception that leaves a handler, and an assertion that fails in it, is the value \<^term>\<open>None\<close>, as is a
  \<^verbatim>\<open>disconnect\<close> whose loop a callback disturbs.

  \<^bold>\<open>Simplifications.\<close> In \<^verbatim>\<open>Session_Handler\<close> the callbacks of the database run at once and with a reply; \<^verbatim>\<open>Database_Failure\<close>
  has their errors and \<^verbatim>\<open>Redis_Connection\<close> their order (\<^verbatim>\<open>callback_outcome\<close>: a callback gets a reply without an error, or an empty
  reply with one). The responses of Boost that need the end of the stream are a parameter of \<^verbatim>\<open>HTTP_Session\<close>. The
  downloads of \<^verbatim>\<open>Sync_Files\<close> run one after the other.

  \<^bold>\<open>Not modelled.\<close> The parsing of the command line; the bodies of the functions of OpenCV, libexif, libmagic, OpenSSL
  and BLAKE2, which are parameters; \<^verbatim>\<open>seek\<close>, \<^verbatim>\<open>pos\<close> and \<^verbatim>\<open>read\<close> of \<^verbatim>\<open>UploadFile\<close> and \<^verbatim>\<open>load_image\<close>, which nothing calls; the widgets
  of the Qt client and its view of the local files; logging, backtraces and exceptions with them. They are calls of
  the system or of libraries with little logic of their own. The remaining lines of the headers are declarations of the
  functions and classes that the definitions model. \<^verbatim>\<open>Redis_Commands\<close> lists the commands in the order in which their writes
  start; that Boost.Asio may interleave two writes under way is a finding of the manifest, not a step of the model.
\<close>

end
